(* ===== verification/Prelude.thy ===== *)
theory Prelude
  imports
    Main
    "HOL-Library.Word"
    "HOL-Library.Finite_Map"
    "HOL-Library.Signed_Division"
begin

section \<open>Prelude: Go values, formatting and early-return chains\<close>

text \<open>
  What every component of the development shares:
  \<^item> the fixed-width Go integers (\<open>int32\<close>, \<open>int64\<close>) and Go's truncated division;
  \<^item> decimal printing, and the part of \<^verbatim>\<open>fmt.Sprintf\<close> the operator uses;
  \<^item> raw string literals as lists of lines, and splitting at a separator;
  \<^item> \<open>run_steps\<close>, the chain of calls where each call is followed by
    \<^verbatim>\<open>if err != nil { return err }\<close>;
  \<^item> collections of facts: \<open>build_defs\<close> (the object builders), \<open>name_defs\<close> (the naming
    functions).
\<close>

named_theorems build_defs
named_theorems name_defs

subsection \<open>Go integers\<close>

type_synonym int32 = "32 word"
type_synonym int64 = "64 word"

text \<open>Go's \<^verbatim>\<open>/\<close> on signed integers truncates towards zero.\<close>

definition go_quo :: "int \<Rightarrow> int \<Rightarrow> int" where
  "go_quo a b = a sdiv b"

lemma go_quo_2: "go_quo a 2 = (if a < 0 then - ((- a) div 2) else a div 2)"
  by (auto simp: go_quo_def signed_divide_int_def sgn_if)

lemma sint_int32_bounds: "- 2147483648 \<le> sint (x :: int32)" "sint (x :: int32) \<le> 2147483647"
proof -
  have "- (2 ^ (LENGTH(32) - 1)) \<le> sint x" by (rule sint_ge)
  then show "- 2147483648 \<le> sint x" by simp
  have "sint x < 2 ^ (LENGTH(32) - 1)" by (rule sint_lt)
  then show "sint x \<le> 2147483647" by simp
qed

lemma sint_word_of_int32:
  "- 2147483648 \<le> i \<Longrightarrow> i \<le> 2147483647 \<Longrightarrow> sint (word_of_int i :: int32) = i"
  by (simp add: signed_of_int signed_take_bit_int_eq_self)

text \<open>The conversion \<^verbatim>\<open>int(x)\<close> of an \<^verbatim>\<open>int32\<close> keeps the value.\<close>

lemma sint_scast_int64 [simp]: "sint (scast (x :: int32) :: int64) = sint x"
  using sint_int32_bounds [of x] by (simp add: signed_scast_eq signed_take_bit_int_eq_self)

lemma scast_int64_eq_0 [simp]: "(scast (x :: int32) :: int64) = 0 \<longleftrightarrow> x = 0"
  by (metis sint_scast_int64 signed_0 signed_eq_0_iff)

subsection \<open>Decimal printing\<close>

definition digit_char :: "nat \<Rightarrow> char" where
  "digit_char d = char_of (48 + d)"

definition digit_val :: "char \<Rightarrow> nat" where
  "digit_val c = of_char c - 48"

definition is_digit :: "char \<Rightarrow> bool" where
  "is_digit c \<longleftrightarrow> 48 \<le> (of_char c :: nat) \<and> (of_char c :: nat) \<le> 57"

fun show_nat :: "nat \<Rightarrow> string" where
  "show_nat n =
     (if n < 10 then [digit_char n] else show_nat (n div 10) @ [digit_char (n mod 10)])"

declare show_nat.simps [simp del]

definition show_int :: "int \<Rightarrow> string" where
  "show_int i = (if i < 0 then ''-'' @ show_nat (nat (- i)) else show_nat (nat i))"

definition dec_value :: "string \<Rightarrow> int" where
  "dec_value s = foldl (\<lambda>a c. 10 * a + int (digit_val c)) 0 s"

lemma of_char_digit_char: "d < 10 \<Longrightarrow> (of_char (digit_char d) :: nat) = 48 + d"
  by (simp add: digit_char_def)

lemma is_digit_digit_char [simp]: "d < 10 \<Longrightarrow> is_digit (digit_char d)"
  by (simp add: is_digit_def of_char_digit_char)

lemma digit_val_digit_char [simp]: "d < 10 \<Longrightarrow> digit_val (digit_char d) = d"
  by (simp add: digit_val_def of_char_digit_char)

lemma dec_value_snoc [simp]: "dec_value (s @ [c]) = 10 * dec_value s + int (digit_val c)"
  by (simp add: dec_value_def)

lemma dec_value_nonneg [simp]: "0 \<le> dec_value s"
  by (induction s rule: rev_induct) (simp_all add: dec_value_def)

lemma dec_value_show_nat [simp]: "dec_value (show_nat n) = int n"
proof (induction n rule: show_nat.induct)
  case (1 n)
  show ?case
  proof (cases "n < 10")
    case True
    then show ?thesis
      by (subst show_nat.simps) (simp add: dec_value_def)
  next
    case False
    with "1" have "dec_value (show_nat (n div 10)) = int (n div 10)" by simp
    with False show ?thesis
      by (subst show_nat.simps) (simp, presburger)
  qed
qed

lemma show_nat_digits: "c \<in> set (show_nat n) \<Longrightarrow> is_digit c"
proof (induction n rule: show_nat.induct)
  case (1 n)
  then show ?case
    by (subst (asm) (2) show_nat.simps) (auto split: if_splits)
qed

lemma show_nat_nonempty [simp]: "show_nat n \<noteq> []"
  by (subst show_nat.simps) simp

lemma show_nat_inject [simp]: "show_nat m = show_nat n \<longleftrightarrow> m = n"
  by (metis dec_value_show_nat of_nat_eq_iff)

lemma minus_not_digit [simp]: "\<not> is_digit (CHR ''-'')"
  by (simp add: is_digit_def)

lemma show_int_inject [simp]: "show_int i = show_int j \<longleftrightarrow> i = j"
proof -
  have "show_nat n \<noteq> CHR ''-'' # s" for n s
    using show_nat_digits [of "CHR ''-''" n] by force
  then show ?thesis
    by (auto simp: show_int_def dest: sym)
qed

subsection \<open>fmt.Sprintf\<close>

text \<open>
  The verbs the operator's format strings use are \<^verbatim>\<open>%s\<close> and \<^verbatim>\<open>%d\<close>; flags, widths and
  precisions do not occur and are not modelled. A verb that does not fit its argument, a
  missing and a left-over argument print what the standard library prints for them.
\<close>

datatype fmt_arg = StrArg string | IntArg int

fun fmt_type_value :: "fmt_arg \<Rightarrow> string" where
  "fmt_type_value (StrArg s) = ''string='' @ s"
| "fmt_type_value (IntArg i) = ''int='' @ show_int i"

definition fmt_verb :: "char \<Rightarrow> fmt_arg \<Rightarrow> string" where
  "fmt_verb v a =
     (case a of
        StrArg s \<Rightarrow>
          if v = CHR ''s'' \<or> v = CHR ''v'' then s
          else ''%!'' @ [v] @ ''('' @ fmt_type_value a @ '')''
      | IntArg i \<Rightarrow>
          if v = CHR ''d'' \<or> v = CHR ''v'' then show_int i
          else ''%!'' @ [v] @ ''('' @ fmt_type_value a @ '')'')"

fun fmt_join :: "fmt_arg list \<Rightarrow> string" where
  "fmt_join [] = []"
| "fmt_join [a] = fmt_type_value a"
| "fmt_join (a # as) = fmt_type_value a @ '', '' @ fmt_join as"

definition fmt_extra :: "fmt_arg list \<Rightarrow> string" where
  "fmt_extra as = (if as = [] then [] else ''%!(EXTRA '' @ fmt_join as @ '')'')"

fun sprintf :: "string \<Rightarrow> fmt_arg list \<Rightarrow> string" where
  "sprintf [] as = fmt_extra as"
| "sprintf (c # cs) as =
     (if c \<noteq> CHR ''%'' then c # sprintf cs as
      else (case cs of
              [] \<Rightarrow> ''%!(NOVERB)'' @ fmt_extra as
            | v # cs' \<Rightarrow>
                if v = CHR ''%'' then CHR ''%'' # sprintf cs' as
                else (case as of
                        [] \<Rightarrow> ''%!'' @ [v] @ ''(MISSING)'' @ sprintf cs' []
                      | a # as' \<Rightarrow> fmt_verb v a @ sprintf cs' as')))"

lemma fmt_verb_simps [simp]:
  "fmt_verb (CHR ''s'') (StrArg s) = s" "fmt_verb (CHR ''d'') (IntArg i) = show_int i"
  by (simp_all add: fmt_verb_def)

lemma fmt_extra_Nil [simp]: "fmt_extra [] = []"
  by (simp add: fmt_extra_def)

lemma sprintf_plain: "CHR ''%'' \<notin> set s \<Longrightarrow> sprintf (s @ f) as = s @ sprintf f as"
  by (induction s) auto

lemma sprintf_no_verb [simp]: "CHR ''%'' \<notin> set s \<Longrightarrow> sprintf s [] = s"
  using sprintf_plain [of s "[]" "[]"] by simp

lemma sprintf_s: "sprintf (CHR ''%'' # CHR ''s'' # f) (StrArg s # as) = s @ sprintf f as"
  by simp

lemma sprintf_d: "sprintf (CHR ''%'' # CHR ''d'' # f) (IntArg i # as) = show_int i @ sprintf f as"
  by simp

subsection \<open>Raw string literals\<close>

definition newline :: string where
  "newline = [CHR 0x0A]"

text \<open>A Go raw string of several lines is the list of its lines, joined by line feeds.\<close>

fun text_lines :: "string list \<Rightarrow> string" where
  "text_lines [] = []"
| "text_lines [l] = l"
| "text_lines (l # ls) = l @ newline @ text_lines ls"

text \<open>And back: the lines of a text, and the value on the first line with a given key.\<close>

fun split_lines :: "string \<Rightarrow> string list" where
  "split_lines [] = [[]]"
| "split_lines (c # cs) =
     (if c = CHR 0x0A then [] # split_lines cs
      else (case split_lines cs of [] \<Rightarrow> [[c]] | l # ls \<Rightarrow> (c # l) # ls))"

lemma split_lines_no_newline: "CHR 0x0A \<notin> set l \<Longrightarrow> split_lines l = [l]"
  by (induction l) auto

lemma split_lines_append: "CHR 0x0A \<notin> set l \<Longrightarrow> split_lines (l @ newline @ s) = l # split_lines s"
  by (induction l) (auto simp: newline_def)

lemma split_lines_text_lines:
  "ls \<noteq> [] \<Longrightarrow> list_all (\<lambda>l. CHR 0x0A \<notin> set l) ls \<Longrightarrow> split_lines (text_lines ls) = ls"
  by (induction ls rule: text_lines.induct) (simp_all add: split_lines_append split_lines_no_newline)

fun strip_prefix :: "string \<Rightarrow> string \<Rightarrow> string option" where
  "strip_prefix [] s = Some s"
| "strip_prefix (p # ps) [] = None"
| "strip_prefix (p # ps) (c # s) = (if p = c then strip_prefix ps s else None)"

fun first_value :: "string \<Rightarrow> string list \<Rightarrow> string option" where
  "first_value key [] = None"
| "first_value key (l # ls) =
     (case strip_prefix (''    '' @ key @ '': '') l of Some v \<Rightarrow> Some v | None \<Rightarrow> first_value key ls)"

subsection \<open>Splitting strings\<close>

text \<open>\<^verbatim>\<open>strings.Split\<close> with a separator of one character\<close>

fun split_on :: "char \<Rightarrow> string \<Rightarrow> string list" where
  "split_on sep [] = [[]]"
| "split_on sep (c # cs) =
     (if c = sep then [] # split_on sep cs
      else (case split_on sep cs of [] \<Rightarrow> [[c]] | p # ps \<Rightarrow> (c # p) # ps))"

lemma split_on_none: "sep \<notin> set s \<Longrightarrow> split_on sep s = [s]"
  by (induction s) auto

text \<open>\<^verbatim>\<open>strings.ToLower\<close> of ASCII\<close>

definition to_lower :: "char \<Rightarrow> char" where
  "to_lower c =
     (if 65 \<le> (of_char c :: nat) \<and> (of_char c :: nat) \<le> 90 then char_of ((of_char c :: nat) + 32)
      else c)"

definition ToLower :: "string \<Rightarrow> string" where
  "ToLower s = map to_lower s"

subsection \<open>Growing maps\<close>

lemma map_leD: "m \<subseteq>\<^sub>m m' \<Longrightarrow> m k = Some v \<Longrightarrow> m' k = Some v"
  by (force simp: map_le_def dom_def)

lemma map_leI: "(\<And>k v. m k = Some v \<Longrightarrow> m' k = Some v) \<Longrightarrow> m \<subseteq>\<^sub>m m'"
  by (auto simp: map_le_def dom_def)

lemma map_le_upd_free: "m k = None \<Longrightarrow> m \<subseteq>\<^sub>m m(k \<mapsto> v)"
  by (rule map_leI) (auto split: if_splits)

lemma map_le_taken: "m \<subseteq>\<^sub>m m' \<Longrightarrow> m k \<noteq> None \<Longrightarrow> m' k \<noteq> None"
  by (auto dest: map_leD)

lemma map_add_self [simp]: "m ++ m = m"
  by (rule ext) (simp add: map_add_def split: option.splits)

subsection \<open>Early-return chains\<close>

text \<open>
  \<^verbatim>\<open>err = step1(); if err != nil { return err }; err = step2(); ...; return nil\<close>
\<close>

fun run_steps :: "('w \<Rightarrow> 'w \<times> 'e option) list \<Rightarrow> 'w \<Rightarrow> 'w \<times> 'e option" where
  "run_steps [] w = (w, None)"
| "run_steps (s # ss) w =
     (case s w of
        (w', None) \<Rightarrow> run_steps ss w'
      | (w', Some e) \<Rightarrow> (w', Some e))"

lemma run_steps_append:
  "run_steps (ss @ ts) w =
     (case run_steps ss w of
        (w', None) \<Rightarrow> run_steps ts w'
      | (w', Some e) \<Rightarrow> (w', Some e))"
  by (induction ss arbitrary: w) (auto split: prod.splits option.splits)

text \<open>A chain that fails has failed at one of its steps, after all earlier ones succeeded.\<close>

lemma run_steps_failsE:
  assumes "run_steps ss w = (w', Some e)"
  obtains pre s post w1 where "ss = pre @ s # post" "run_steps pre w = (w1, None)"
    "s w1 = (w', Some e)"
  using assms
proof (induction ss arbitrary: w thesis)
  case Nil
  then show ?case by simp
next
  case (Cons s ss)
  show ?case
  proof (cases "s w")
    case (Pair w1 r)
    show ?thesis
    proof (cases r)
      case None
      with Pair Cons.prems(2) have "run_steps ss w1 = (w', Some e)" by simp
      then obtain pre t post w2 where "ss = pre @ t # post" "run_steps pre w1 = (w2, None)"
        "t w2 = (w', Some e)" using Cons.IH by metis
      with Pair None show ?thesis
        using Cons.prems(1) [of "s # pre" t post w2] by simp
    next
      case (Some e')
      with Pair Cons.prems show ?thesis by fastforce
    qed
  qed
qed

end
