(* ===== verification/Go_Errors.thy ===== *)
theory Go_Errors
  imports Prelude
begin

section \<open>Error values\<close>

text \<open>
  The error values that flow through the reconcilers. A Go \<^verbatim>\<open>error\<close> is one of: an API
  status error (\<^verbatim>\<open>k8s.io/apimachinery/pkg/api/errors\<close>), the ownership error of
  \<^verbatim>\<open>controllerutil\<close>, one of the three sentinels of \<^verbatim>\<open>resource.ParseQuantity\<close>, or an
  error made by \<^verbatim>\<open>fmt.Errorf\<close>. Returning \<^verbatim>\<open>nil\<close> is \<open>None\<close> of \<open>go_error option\<close>; a pair
  \<^verbatim>\<open>(value, error)\<close> is the sum \<open>go_error + 'a\<close>.
\<close>

subsection \<open>API status errors\<close>

record api_status =
  st_Reason :: string
  st_Code :: int
  st_Group :: string
  st_Kind :: string
  st_Name :: string

datatype go_error =
    StatusError api_status
  | AlreadyOwnedError string string string string \<comment> \<open>namespace, name, owner kind, owner name\<close>
  | ErrFormatWrong
  | ErrNumeric
  | ErrSuffix
  | ErrorString string

definition StatusReasonNotFound :: string where
  "StatusReasonNotFound = ''NotFound''"

definition StatusReasonAlreadyExists :: string where
  "StatusReasonAlreadyExists = ''AlreadyExists''"

definition StatusReasonUnknown :: string where
  "StatusReasonUnknown = []"

text \<open>\<^verbatim>\<open>ReasonForError\<close>: only an \<^verbatim>\<open>APIStatus\<close> carries a reason.\<close>

fun ReasonForError :: "go_error \<Rightarrow> string" where
  "ReasonForError (StatusError s) = st_Reason s"
| "ReasonForError _ = StatusReasonUnknown"

definition IsNotFound :: "go_error \<Rightarrow> bool" where
  "IsNotFound e \<longleftrightarrow> ReasonForError e = StatusReasonNotFound"

definition IsAlreadyExists :: "go_error \<Rightarrow> bool" where
  "IsAlreadyExists e \<longleftrightarrow> ReasonForError e = StatusReasonAlreadyExists"

definition NewNotFound :: "string \<Rightarrow> string \<Rightarrow> string \<Rightarrow> go_error" where
  "NewNotFound grp res name =
     StatusError \<lparr>st_Reason = StatusReasonNotFound, st_Code = 404,
       st_Group = grp, st_Kind = res, st_Name = name\<rparr>"

definition NewAlreadyExists :: "string \<Rightarrow> string \<Rightarrow> string \<Rightarrow> go_error" where
  "NewAlreadyExists grp res name =
     StatusError \<lparr>st_Reason = StatusReasonAlreadyExists, st_Code = 409,
       st_Group = grp, st_Kind = res, st_Name = name\<rparr>"

lemmas status_reason_defs =
  StatusReasonNotFound_def StatusReasonAlreadyExists_def StatusReasonUnknown_def

lemma IsNotFound_NewNotFound [simp]: "IsNotFound (NewNotFound g r n)"
  by (simp add: IsNotFound_def NewNotFound_def)

lemma IsNotFound_NewAlreadyExists [simp]: "\<not> IsNotFound (NewAlreadyExists g r n)"
  by (simp add: IsNotFound_def NewAlreadyExists_def status_reason_defs)

lemma IsAlreadyExists_NewAlreadyExists [simp]: "IsAlreadyExists (NewAlreadyExists g r n)"
  by (simp add: IsAlreadyExists_def NewAlreadyExists_def)

text \<open>Only status errors are ever taken for a missing object.\<close>

lemma IsNotFound_other [simp]:
  "\<not> IsNotFound (AlreadyOwnedError ns n k o')" "\<not> IsNotFound ErrFormatWrong"
  "\<not> IsNotFound ErrNumeric" "\<not> IsNotFound ErrSuffix" "\<not> IsNotFound (ErrorString s)"
  by (simp_all add: IsNotFound_def status_reason_defs)

end
