(* ===== verification/Quantity.thy ===== *)
theory Quantity
  imports Go_Errors
begin

section \<open>Resource quantities\<close>

text \<open>
  \<^verbatim>\<open>resource.ParseQuantity\<close> (vendor/k8s.io/apimachinery/pkg/api/resource), which turns the
  storage size of a specification into the request of a volume claim. The scanner, the suffix
  table, the int64 fast path and the arbitrary-precision slow path (\<^verbatim>\<open>inf.Dec\<close>) are modelled
  as they are written; int32 and int64 values wrap. The one input class outside the model is the
  one where Go panics: an exponent that makes the shift of the final rounding \<open>-2^31\<close>.
\<close>

subsection \<open>Representation\<close>

datatype quantity_format = DecimalExponent | BinarySI | DecimalSI

record inf_dec =
  dec_unscaled :: int
  dec_scale :: int32

record quantity =
  q_value :: int64
  q_scale :: int32
  q_dec :: "inf_dec option"
  q_str :: string
  q_format :: quantity_format

subsection \<open>The scanner\<close>

record quantity_parts =
  qp_positive :: bool
  qp_value :: string
  qp_num :: string
  qp_denom :: string
  qp_suffix :: string

definition is_suffix_char :: "char \<Rightarrow> bool" where
  "is_suffix_char c \<longleftrightarrow> c \<in> set ''eEinumkKMGTP''"

fun scan_sign :: "string \<Rightarrow> bool \<times> string" where
  "scan_sign [] = (True, [])"
| "scan_sign (c # cs) =
     (if c = CHR ''-'' then (False, cs) else if c = CHR ''+'' then (True, cs) else (True, c # cs))"

text \<open>The suffix: letters, at most one sign, digits, and then the end of the string.\<close>

definition scan_suffix :: "string \<Rightarrow> go_error + string" where
  "scan_suffix r =
     (let r1 = dropWhile is_suffix_char r in
      if r1 = [] then Inr r
      else let r2 = (if hd r1 = CHR ''-'' \<or> hd r1 = CHR ''+'' then tl r1 else r1);
               r3 = dropWhile is_digit r2
           in if r3 = [] then Inr r else Inl ErrFormatWrong)"

definition parseQuantityString :: "string \<Rightarrow> go_error + quantity_parts" where
  "parseQuantityString str =
     (let (positive, r0) = scan_sign str;
          r1 = dropWhile (\<lambda>c. c = CHR ''0'') r0
      in if r1 = [] then
           Inr \<lparr>qp_positive = positive, qp_value = ''0'', qp_num = ''0'', qp_denom = [], qp_suffix = []\<rparr>
         else
           let num0 = takeWhile is_digit r1;
               r2 = dropWhile is_digit r1
           in if r2 = [] then
                Inr \<lparr>qp_positive = positive, qp_value = str, qp_num = num0, qp_denom = [], qp_suffix = []\<rparr>
              else
                let num = (if num0 = [] then ''0'' else num0);
                    (denom, r4) =
                      (if hd r2 = CHR ''.'' then (takeWhile is_digit (tl r2), dropWhile is_digit (tl r2))
                       else ([], r2))
                in if r4 = [] then
                     Inr \<lparr>qp_positive = positive, qp_value = str, qp_num = num, qp_denom = denom, qp_suffix = []\<rparr>
                   else
                     (case scan_suffix r4 of
                        Inl e \<Rightarrow> Inl e
                      | Inr suf \<Rightarrow>
                          Inr \<lparr>qp_positive = positive, qp_value = take (length str - length r4) str,
                               qp_num = num, qp_denom = denom, qp_suffix = suf\<rparr>))"

subsection \<open>Integers of the standard library\<close>

text \<open>\<^verbatim>\<open>strconv.ParseInt(s, 10, 64)\<close>.\<close>

definition parse_int64 :: "string \<Rightarrow> int option" where
  "parse_int64 s =
     (let neg = (s \<noteq> [] \<and> hd s = CHR ''-'');
          ds = (if s \<noteq> [] \<and> (hd s = CHR ''-'' \<or> hd s = CHR ''+'') then tl s else s)
      in if ds = [] \<or> \<not> list_all is_digit ds then None
         else let i = (if neg then - dec_value ds else dec_value ds)
              in if - (2 ^ 63) \<le> i \<and> i < 2 ^ 63 then Some i else None)"

text \<open>\<^verbatim>\<open>int64Multiply\<close>: the product, and whether it is exact.\<close>

definition mostNegative :: int where
  "mostNegative = - (2 ^ 63)"

definition int64Multiply :: "int64 \<Rightarrow> int64 \<Rightarrow> int64 \<times> bool" where
  "int64Multiply a b =
     (if a = 0 \<or> b = 0 \<or> a = 1 \<or> b = 1 then (a * b, True)
      else if sint a = mostNegative \<or> sint b = mostNegative then (0, False)
      else let c = a * b in (c, go_quo (sint c) (sint b) = sint a))"

subsection \<open>Suffixes\<close>

definition interpret_suffix :: "string \<Rightarrow> (int \<times> int32 \<times> quantity_format) option" where
  "interpret_suffix s =
     (if s = [] then Some (10, 0, DecimalSI)
      else if s = ''n'' then Some (10, - 9, DecimalSI)
      else if s = ''u'' then Some (10, - 6, DecimalSI)
      else if s = ''m'' then Some (10, - 3, DecimalSI)
      else if s = ''k'' then Some (10, 3, DecimalSI)
      else if s = ''M'' then Some (10, 6, DecimalSI)
      else if s = ''G'' then Some (10, 9, DecimalSI)
      else if s = ''T'' then Some (10, 12, DecimalSI)
      else if s = ''P'' then Some (10, 15, DecimalSI)
      else if s = ''E'' then Some (10, 18, DecimalSI)
      else if s = ''Ki'' then Some (2, 10, BinarySI)
      else if s = ''Mi'' then Some (2, 20, BinarySI)
      else if s = ''Gi'' then Some (2, 30, BinarySI)
      else if s = ''Ti'' then Some (2, 40, BinarySI)
      else if s = ''Pi'' then Some (2, 50, BinarySI)
      else if s = ''Ei'' then Some (2, 60, BinarySI)
      else if 1 < length s \<and> (hd s = CHR ''E'' \<or> hd s = CHR ''e'') then
        map_option (\<lambda>parsed. (10, word_of_int parsed, DecimalExponent)) (parse_int64 (tl s))
      else None)"

subsection \<open>inf.Dec\<close>

text \<open>\<^verbatim>\<open>SetString\<close> on a value the scanner has cut out: a sign, digits, a point, digits.\<close>

definition dec_set_string :: "string \<Rightarrow> inf_dec option" where
  "dec_set_string v =
     (let (positive, r) = scan_sign v;
          ip = takeWhile is_digit r;
          r1 = dropWhile is_digit r;
          fp = (if r1 \<noteq> [] \<and> hd r1 = CHR ''.'' then takeWhile is_digit (tl r1) else []);
          r2 = (if r1 \<noteq> [] \<and> hd r1 = CHR ''.'' then dropWhile is_digit (tl r1) else r1)
      in if ip @ fp = [] \<or> r2 \<noteq> [] then None
         else Some \<lparr>dec_unscaled = (if positive then dec_value (ip @ fp)
                                    else - dec_value (ip @ fp)),
                    dec_scale = of_nat (length fp)\<rparr>)"

text \<open>\<^verbatim>\<open>Cmp\<close>: bring both to the greater scale, then compare.\<close>

definition dec_less :: "inf_dec \<Rightarrow> inf_dec \<Rightarrow> bool" where
  "dec_less x y =
     (let sx = sint (dec_scale x); sy = sint (dec_scale y)
      in if sy \<le> sx then dec_unscaled x < dec_unscaled y * 10 ^ nat (sx - sy)
         else dec_unscaled x * 10 ^ nat (sy - sx) < dec_unscaled y)"

text \<open>\<^verbatim>\<open>Round(x, s, RoundUp)\<close>: away from zero when the quotient is not exact.\<close>

definition dec_round_up :: "inf_dec \<Rightarrow> int32 \<Rightarrow> inf_dec" where
  "dec_round_up x s =
     (let shift = sint (s - dec_scale x);
          ix = (if 0 < shift then dec_unscaled x * 10 ^ nat shift else dec_unscaled x);
          iy = (if shift < 0 then 10 ^ nat (- shift) else 1);
          q = ix sdiv iy;
          r = ix smod iy
      in \<lparr>dec_unscaled = (if r \<noteq> 0 then q + sgn r else q), dec_scale = s\<rparr>)"

definition maxAllowed :: inf_dec where
  "maxAllowed = \<lparr>dec_unscaled = 2 ^ 63 - 1, dec_scale = 0\<rparr>"

definition decOne :: inf_dec where
  "decOne = \<lparr>dec_unscaled = 1, dec_scale = 0\<rparr>"

definition decZero :: inf_dec where
  "decZero = \<lparr>dec_unscaled = 0, dec_scale = 0\<rparr>"

definition dec_neg :: "inf_dec \<Rightarrow> inf_dec" where
  "dec_neg x = x\<lparr>dec_unscaled := - dec_unscaled x\<rparr>"

subsection \<open>ParseQuantity\<close>

definition ends_with :: "string \<Rightarrow> string \<Rightarrow> bool" where
  "ends_with suf s \<longleftrightarrow> length suf \<le> length s \<and> drop (length s - length suf) s = suf"

text \<open>The number of digits the fast path may use, and the binary multiplier.\<close>

definition fast_precision :: "quantity_parts \<Rightarrow> int32 \<Rightarrow> quantity_format \<Rightarrow> int32 \<times> int64 \<times> int32" where
  "fast_precision p exponent fmt =
     (case fmt of
        BinarySI \<Rightarrow>
          if 0 \<le> sint exponent \<and> qp_denom p = [] then
            (0, push_bit (nat (sint exponent)) 1,
             15 - of_nat (length (qp_num p)) - word_of_int (sint exponent * 3 div 10) - 1)
          else (0, 1, - 1)
      | _ \<Rightarrow> (exponent, 1, 18 - of_nat (length (qp_num p) + length (qp_denom p))))"

definition fast_canonical :: "quantity_format \<Rightarrow> int32 \<Rightarrow> int32 \<Rightarrow> int \<Rightarrow> string \<Rightarrow> bool" where
  "fast_canonical fmt exponent scale v shifted =
     (case fmt of
        BinarySI \<Rightarrow> sint exponent mod 10 = 0 \<and> v mod 8 \<noteq> 0
      | _ \<Rightarrow> 3 dvd sint scale \<and> \<not> ends_with ''000'' shifted \<and> hd shifted \<noteq> CHR ''0'')"

text \<open>\<open>None\<close>: the fast path does not apply and the slow one runs.\<close>

definition parse_fast :: "string \<Rightarrow> quantity_parts \<Rightarrow> int32 \<Rightarrow> quantity_format \<Rightarrow> (go_error + quantity) option" where
  "parse_fast str p exponent fmt =
     (case fast_precision p exponent fmt of
        (scale0, mantissa, precision) \<Rightarrow>
          if sint precision < 0 then None
          else
            let scale = scale0 - of_nat (length (qp_denom p));
                shifted = qp_num p @ qp_denom p
            in if sint scale < - 9 then None
               else
                 (case parse_int64 shifted of
                    None \<Rightarrow> Some (Inl ErrNumeric)
                  | Some v \<Rightarrow>
                      (case int64Multiply (word_of_int v) mantissa of
                         (_, False) \<Rightarrow> None
                       | (result, True) \<Rightarrow>
                           Some (Inr \<lparr>q_value = (if qp_positive p then result else - result),
                                      q_scale = scale, q_dec = None,
                                      q_str = (if fast_canonical fmt exponent scale v shifted then str else []),
                                      q_format = fmt\<rparr>))))"

definition parse_slow :: "quantity_parts \<Rightarrow> int \<Rightarrow> int32 \<Rightarrow> quantity_format \<Rightarrow> go_error + quantity" where
  "parse_slow p base exponent fmt =
     (case dec_set_string (qp_value p) of
        None \<Rightarrow> Inl ErrNumeric
      | Some a0 \<Rightarrow>
          let a1 = (if base = 10 then a0\<lparr>dec_scale := dec_scale a0 - exponent\<rparr>
                    else if base = 2 then a0\<lparr>dec_unscaled := dec_unscaled a0 * 2 ^ nat (sint exponent)\<rparr>
                    else a0);
              negative = (dec_unscaled a1 < 0);
              a2 = (if negative then dec_neg a1 else a1);
              a3 = (if dec_unscaled a2 \<noteq> 0 then dec_round_up a2 9 else a2);
              a4 = (if fmt = BinarySI \<and> dec_less maxAllowed a3 then maxAllowed else a3);
              fmt' = (if fmt = BinarySI \<and> dec_less a4 decOne \<and> dec_less decZero a4 then DecimalSI else fmt);
              a5 = (if negative then dec_neg a4 else a4)
          in Inr \<lparr>q_value = 0, q_scale = 0, q_dec = Some a5, q_str = [], q_format = fmt'\<rparr>)"

definition ParseQuantity :: "string \<Rightarrow> go_error + quantity" where
  "ParseQuantity str =
     (if str = [] then Inl ErrFormatWrong
      else if str = ''0'' then
        Inr \<lparr>q_value = 0, q_scale = 0, q_dec = None, q_str = str, q_format = DecimalSI\<rparr>
      else
        (case parseQuantityString str of
           Inl e \<Rightarrow> Inl e
         | Inr p \<Rightarrow>
             (case interpret_suffix (qp_suffix p) of
                None \<Rightarrow> Inl ErrSuffix
              | Some (base, exponent, fmt) \<Rightarrow>
                  (case parse_fast str p exponent fmt of
                     Some r \<Rightarrow> r
                   | None \<Rightarrow> parse_slow p base exponent fmt))))"

lemma scan_suffix_error: "scan_suffix r = Inl e \<Longrightarrow> e = ErrFormatWrong"
  by (simp add: scan_suffix_def Let_def split: if_splits)

lemma parseQuantityString_error: "parseQuantityString str = Inl e \<Longrightarrow> e = ErrFormatWrong"
  unfolding parseQuantityString_def Let_def
  by (simp split: prod.splits if_split_asm sum.split_asm add: scan_suffix_error)

lemma parse_fast_error: "parse_fast str p x fmt = Some (Inl e) \<Longrightarrow> e = ErrNumeric"
  unfolding parse_fast_def Let_def
  by (simp split: prod.splits if_split_asm option.split_asm bool.split_asm)

lemma parse_slow_error: "parse_slow p b x fmt = Inl e \<Longrightarrow> e = ErrNumeric"
  by (simp add: parse_slow_def Let_def split: option.splits)

lemma ParseQuantity_error_kinds:
  assumes "ParseQuantity str = Inl e"
  shows "e = ErrFormatWrong \<or> e = ErrNumeric \<or> e = ErrSuffix"
  using assms
  by (auto simp: ParseQuantity_def split: if_splits sum.splits option.splits prod.splits
      dest: parseQuantityString_error parse_fast_error parse_slow_error)

lemma ParseQuantity_error_not_NotFound: "ParseQuantity str = Inl e \<Longrightarrow> \<not> IsNotFound e"
  using ParseQuantity_error_kinds by fastforce

end
