(* ===== verification/Kube_Types.thy ===== *)
theory Kube_Types
  imports Quantity
begin

section \<open>Kubernetes API types\<close>

text \<open>
  The structs of \<^verbatim>\<open>k8s.io/api\<close> and \<^verbatim>\<open>k8s.io/apimachinery\<close> (under vendor/) that the operator
  builds, with the fields it sets or reads; every other field of these structs stays at its
  zero value. A pointer is an \<open>option\<close>, a \<^verbatim>\<open>map[string]string\<close> is a finite map and a slice is
  a list. A union struct whose members are exclusive (\<^verbatim>\<open>VolumeSource\<close>) is a datatype.
  The field prefix of a record abbreviates the struct's name.
\<close>

type_synonym labels = "(string, string) fmap"

subsection \<open>Object metadata and ownership\<close>

record owner_reference =
  or_APIVersion :: string
  or_Kind :: string
  or_Name :: string
  or_UID :: string
  or_Controller :: "bool option"
  or_BlockOwnerDeletion :: "bool option"

record type_meta =
  tm_Kind :: string
  tm_APIVersion :: string

record list_meta =
  lm_SelfLink :: string
  lm_ResourceVersion :: string
  lm_Continue :: string

record object_meta =
  om_Name :: string
  om_Namespace :: string
  om_UID :: string
  om_Labels :: labels
  om_Annotations :: labels
  om_OwnerReferences :: "owner_reference list"

text \<open>The composite literal \<^verbatim>\<open>metav1.ObjectMeta{Name: n, Namespace: ns, Labels: l}\<close>.\<close>

definition new_meta :: "string \<Rightarrow> string \<Rightarrow> labels \<Rightarrow> object_meta" where
  "new_meta n ns l =
     \<lparr>om_Name = n, om_Namespace = ns, om_UID = [], om_Labels = l,
      om_Annotations = fmempty, om_OwnerReferences = []\<rparr>"

record namespaced_name =
  nn_Namespace :: string
  nn_Name :: string

definition NamespacedName :: "string \<Rightarrow> string \<Rightarrow> namespaced_name" where
  "NamespacedName ns n = \<lparr>nn_Namespace = ns, nn_Name = n\<rparr>"

lemma NamespacedName_sel [simp]:
  "nn_Namespace (NamespacedName ns n) = ns" "nn_Name (NamespacedName ns n) = n"
  by (simp_all add: NamespacedName_def)

lemma NamespacedName_inject [simp]:
  "NamespacedName ns n = NamespacedName ns' n' \<longleftrightarrow> ns = ns' \<and> n = n'"
  by (simp add: NamespacedName_def)

subsection \<open>Label selectors\<close>

record label_selector_requirement =
  lsr_Key :: string
  lsr_Operator :: string
  lsr_Values :: "string list"

record label_selector =
  ls_MatchLabels :: labels
  ls_MatchExpressions :: "label_selector_requirement list"

definition LabelSelectorOpIn :: string where
  "LabelSelectorOpIn = ''In''"

subsection \<open>Containers\<close>

text \<open>
  Where the value of an environment variable comes from. The operator passes the variables of a
  specification on to the containers without looking at them. The selectors of a key in a
  config map and in a secret have the same fields.
\<close>

record object_field_selector =
  ofs_APIVersion :: string
  ofs_FieldPath :: string

record resource_field_selector =
  rfs_ContainerName :: string
  rfs_Resource :: string
  rfs_Divisor :: quantity

record key_selector =
  ks_Name :: string
  ks_Key :: string
  ks_Optional :: "bool option"

record env_var_source =
  evs_FieldRef :: "object_field_selector option"
  evs_ResourceFieldRef :: "resource_field_selector option"
  evs_ConfigMapKeyRef :: "key_selector option"
  evs_SecretKeyRef :: "key_selector option"

record env_var =
  ev_Name :: string
  ev_Value :: string
  ev_ValueFrom :: "env_var_source option"

type_synonym resource_list = "(string, quantity) fmap"

record resource_requirements =
  rr_Limits :: resource_list
  rr_Requests :: resource_list

record volume_mount =
  vm_Name :: string
  vm_MountPath :: string

record container_port =
  cp_Name :: string
  cp_ContainerPort :: int32

datatype int_or_string = IntVal int32 | StrVal string

record probe =
  pb_Path :: string
  pb_Port :: int_or_string
  pb_InitialDelaySeconds :: int32
  pb_TimeoutSeconds :: int32
  pb_FailureThreshold :: int32

record container =
  c_Name :: string
  c_Image :: string
  c_Command :: "string list"
  c_Args :: "string list"
  c_Ports :: "container_port list"
  c_Env :: "env_var list"
  c_Resources :: resource_requirements
  c_VolumeMounts :: "volume_mount list"
  c_LivenessProbe :: "probe option"
  c_ReadinessProbe :: "probe option"
  c_ImagePullPolicy :: string
  c_Privileged :: "bool option"

definition no_resources :: resource_requirements where
  "no_resources = \<lparr>rr_Limits = fmempty, rr_Requests = fmempty\<rparr>"

subsection \<open>Volumes and affinity\<close>

datatype volume_source =
    ConfigMapSource string "int32 option" \<comment> \<open>the name of the config map, the default mode\<close>
  | EmptyDirSource

record volume =
  vol_Name :: string
  vol_Source :: volume_source

record weighted_pod_affinity_term =
  wt_Weight :: int32
  wt_LabelSelector :: label_selector
  wt_TopologyKey :: string

text \<open>\<^verbatim>\<open>Affinity\<close>: the preferred pod anti-affinity terms, the only part that is set.\<close>

record affinity =
  af_PodAntiAffinityPreferred :: "weighted_pod_affinity_term list"

record pod_spec =
  ps_Affinity :: "affinity option"
  ps_InitContainers :: "container list"
  ps_Containers :: "container list"
  ps_Volumes :: "volume list"

record pvc =
  pvc_Meta :: object_meta
  pvc_StorageClassName :: "string option"
  pvc_AccessModes :: "string list"
  pvc_Resources :: resource_requirements

subsection \<open>The objects\<close>

record config_map =
  cm_Meta :: object_meta
  cm_Data :: "(string, string) fmap"

record service_port =
  sp_Name :: string
  sp_Port :: int32

record service =
  svc_Meta :: object_meta
  svc_Ports :: "service_port list"
  svc_PublishNotReadyAddresses :: bool
  svc_ClusterIP :: string
  svc_Selector :: labels

record stateful_set =
  sts_Meta :: object_meta
  sts_ServiceName :: string
  sts_Replicas :: "int32 option"
  sts_Selector :: "label_selector option"
  sts_UpdateStrategy :: string
  sts_PodManagementPolicy :: string
  sts_TemplateLabels :: labels
  sts_TemplateSpec :: pod_spec
  sts_VolumeClaimTemplates :: "pvc list"

record pod =
  pod_Meta :: object_meta
  pod_Spec :: pod_spec

record pod_disruption_budget =
  pdb_Meta :: object_meta
  pdb_MinAvailable :: "int_or_string option"
  pdb_Selector :: "label_selector option"

text \<open>\<^verbatim>\<open>intstr.FromInt\<close>: an overflowing value is logged and then truncated to 32 bits.\<close>

definition FromInt :: "int \<Rightarrow> int_or_string" where
  "FromInt val = IntVal (word_of_int val)"

definition RollingUpdateStatefulSetStrategyType :: string where
  "RollingUpdateStatefulSetStrategyType = ''RollingUpdate''"

definition ParallelPodManagement :: string where
  "ParallelPodManagement = ''Parallel''"

definition PullAlways :: string where
  "PullAlways = ''Always''"

definition ReadWriteOnce :: string where
  "ReadWriteOnce = ''ReadWriteOnce''"

definition ResourceStorage :: string where
  "ResourceStorage = ''storage''"

text \<open>A label selector made of match labels only: \<^verbatim>\<open>&metav1.LabelSelector{MatchLabels: l}\<close>.\<close>

definition match_labels :: "labels \<Rightarrow> label_selector" where
  "match_labels l = \<lparr>ls_MatchLabels = l, ls_MatchExpressions = []\<rparr>"

end
