(* ===== verification/V1alpha1.thy ===== *)
theory V1alpha1
  imports Kube_Types
begin

section \<open>The custom resources\<close>

text \<open>
  The types of pkg/apis/agent/v1alpha1 (\<^verbatim>\<open>cluster.go\<close>, \<^verbatim>\<open>partitiongroup.go\<close>,
  \<^verbatim>\<open>benchmark.go\<close>): \<^verbatim>\<open>AtomixCluster\<close>, \<^verbatim>\<open>PartitionGroup\<close> and \<^verbatim>\<open>AtomixBenchmark\<close> with their
  specifications and statuses, and \<^verbatim>\<open>GetPartitionGroupType\<close>. \<^verbatim>\<open>TypeMeta\<close> is not represented:
  the Isabelle type of an object is its kind. A Go \<^verbatim>\<open>int\<close> has 64 bits, and a \<^verbatim>\<open>float32\<close> is
  its bit pattern, because the code only compares it with zero and assigns a constant.
\<close>

subsection \<open>Partition groups\<close>

type_synonym float32 = "32 word"

type_synonym StorageLevel = string
type_synonym MemberGroupStrategy = string
type_synonym PartitionGroupType = string

definition DiskStorage :: StorageLevel where
  "DiskStorage = ''disk''"

definition MappedStorage :: StorageLevel where
  "MappedStorage = ''mapped''"

definition NodeAwareMemberGroupStrategy :: MemberGroupStrategy where
  "NodeAwareMemberGroupStrategy = ''node_aware''"

definition RackAwareMemberGroupStrategy :: MemberGroupStrategy where
  "RackAwareMemberGroupStrategy = ''rack_aware''"

definition ZoneAwareMemberGroupStrategy :: MemberGroupStrategy where
  "ZoneAwareMemberGroupStrategy = ''zone_aware''"

record storage =
  st_Size :: string
  st_ClassName :: "string option"
  st_SegmentSize :: string
  st_EntrySize :: string
  st_Level :: StorageLevel
  st_FlushOnCommit :: bool

record compaction =
  co_Dynamic :: bool
  co_FreeDiskBuffer :: float32
  co_FreeMemoryBuffer :: float32

record persistent_partition_group =
  pp_Storage :: storage
  pp_Compaction :: compaction

record raft_partition_group =
  rpg_Persistent :: persistent_partition_group
  rpg_PartitionSize :: int64

record primary_backup_partition_group =
  pbg_MemberGroupStrategy :: MemberGroupStrategy

record log_partition_group =
  lpg_Persistent :: persistent_partition_group
  lpg_MemberGroupStrategy :: MemberGroupStrategy

record partition_group_spec =
  gs_Cluster :: string
  gs_Version :: string
  gs_Size :: int32
  gs_Partitions :: int64
  gs_Env :: "env_var list"
  gs_Resources :: resource_requirements
  gs_Raft :: "raft_partition_group option"
  gs_PrimaryBackup :: "primary_backup_partition_group option"
  gs_Log :: "log_partition_group option"

record partition_group =
  pg_Meta :: object_meta
  pg_Spec :: partition_group_spec
  pg_StatusServiceName :: string

text \<open>\<^verbatim>\<open>PartitionGroupType\<close> is a string type with three constants.\<close>

definition RaftType :: PartitionGroupType where
  "RaftType = ''raft''"

definition PrimaryBackupType :: PartitionGroupType where
  "PrimaryBackupType = ''primary-backup''"

definition LogType :: PartitionGroupType where
  "LogType = ''log''"

lemmas partition_group_type_defs = RaftType_def PrimaryBackupType_def LogType_def

definition unknown_partition_group_type :: go_error where
  "unknown_partition_group_type = ErrorString ''unknown partition group type''"

definition GetPartitionGroupType :: "partition_group \<Rightarrow> go_error + PartitionGroupType" where
  "GetPartitionGroupType grp =
     (if gs_Raft (pg_Spec grp) \<noteq> None then Inr RaftType
      else if gs_PrimaryBackup (pg_Spec grp) \<noteq> None then Inr PrimaryBackupType
      else if gs_Log (pg_Spec grp) \<noteq> None then Inr LogType
      else Inl unknown_partition_group_type)"

lemma unknown_partition_group_type_not_NotFound [simp]: "\<not> IsNotFound unknown_partition_group_type"
  by (simp add: unknown_partition_group_type_def)

text \<open>The three type names are distinct, so a type switch takes exactly one branch.\<close>

lemma partition_group_types_distinct [simp]:
  "RaftType \<noteq> PrimaryBackupType" "RaftType \<noteq> LogType" "PrimaryBackupType \<noteq> LogType"
  "PrimaryBackupType \<noteq> RaftType" "LogType \<noteq> RaftType" "LogType \<noteq> PrimaryBackupType"
  by (simp_all add: partition_group_type_defs)

lemma GetPartitionGroupType_cases:
  obtains (raft) r where "gs_Raft (pg_Spec grp) = Some r" "GetPartitionGroupType grp = Inr RaftType"
  | (primary_backup) b where "gs_Raft (pg_Spec grp) = None"
      "gs_PrimaryBackup (pg_Spec grp) = Some b" "GetPartitionGroupType grp = Inr PrimaryBackupType"
  | (log) l where "gs_Raft (pg_Spec grp) = None" "gs_PrimaryBackup (pg_Spec grp) = None"
      "gs_Log (pg_Spec grp) = Some l" "GetPartitionGroupType grp = Inr LogType"
  | (unknown) "gs_Raft (pg_Spec grp) = None" "gs_PrimaryBackup (pg_Spec grp) = None"
      "gs_Log (pg_Spec grp) = None" "GetPartitionGroupType grp = Inl unknown_partition_group_type"
  by (cases "gs_Raft (pg_Spec grp)"; cases "gs_PrimaryBackup (pg_Spec grp)";
      cases "gs_Log (pg_Spec grp)") (simp_all add: GetPartitionGroupType_def)

subsection \<open>Clusters\<close>

record cluster_spec =
  cs_Version :: string
  cs_Size :: int32
  cs_Env :: "env_var list"
  cs_Resources :: resource_requirements
  cs_Storage :: storage

record atomix_cluster =
  ac_Meta :: object_meta
  ac_Spec :: cluster_spec
  ac_StatusServiceName :: string

subsection \<open>Benchmarks\<close>

record benchmark_spec =
  bs_Cluster :: string
  bs_Version :: string
  bs_Workers :: int32
  bs_Env :: "env_var list"
  bs_Resources :: resource_requirements

record atomix_benchmark =
  ab_Meta :: object_meta
  ab_Spec :: benchmark_spec
  ab_StatusServiceName :: string

end
