(* ===== verification/Defaults.thy ===== *)
theory Defaults
  imports V1alpha1
begin

section \<open>Defaulting\<close>

text \<open>
  \<^verbatim>\<open>pkg/apis/agent/v1alpha1/defaults.go\<close>: the \<^verbatim>\<open>SetDefaults_*\<close> functions fill the fields of a
  specification that are at their zero value. Go updates the object through pointers; the
  model returns the updated value. Only the protocol that \<^verbatim>\<open>GetPartitionGroupType\<close> would
  choose is defaulted.
\<close>

definition SetDefaults_Storage :: "storage \<Rightarrow> storage" where
  "SetDefaults_Storage s0 =
     (let s1 = (if st_Size s0 = [] then s0\<lparr>st_Size := ''2G''\<rparr> else s0);
          s2 = (if st_SegmentSize s1 = [] then s1\<lparr>st_SegmentSize := ''64M''\<rparr> else s1);
          s3 = (if st_EntrySize s2 = [] then s2\<lparr>st_EntrySize := ''1K''\<rparr> else s2);
          s4 = (if st_Level s3 = [] then s3\<lparr>st_Level := MappedStorage\<rparr> else s3)
      in s4)"

text \<open>
  \<^verbatim>\<open>float32\<close> zero has two bit patterns, and the constant \<^verbatim>\<open>.2\<close> rounds to \<open>0x3E4CCCCD\<close>.
\<close>

definition float32_is_zero :: "float32 \<Rightarrow> bool" where
  "float32_is_zero x \<longleftrightarrow> x = 0 \<or> x = 0x80000000"

definition float32_point_two :: float32 where
  "float32_point_two = 0x3E4CCCCD"

definition SetDefaults_Compaction :: "compaction \<Rightarrow> compaction" where
  "SetDefaults_Compaction c0 =
     (let c1 = (if float32_is_zero (co_FreeDiskBuffer c0)
                then c0\<lparr>co_FreeDiskBuffer := float32_point_two\<rparr> else c0);
          c2 = (if float32_is_zero (co_FreeMemoryBuffer c1)
                then c1\<lparr>co_FreeMemoryBuffer := float32_point_two\<rparr> else c1)
      in c2)"

definition SetDefaults_Persistent :: "persistent_partition_group \<Rightarrow> persistent_partition_group" where
  "SetDefaults_Persistent p =
     (let p1 = p\<lparr>pp_Storage := SetDefaults_Storage (pp_Storage p)\<rparr>
      in p1\<lparr>pp_Compaction := SetDefaults_Compaction (pp_Compaction p1)\<rparr>)"

definition SetDefaults_RaftPartitionGroup :: "raft_partition_group \<Rightarrow> raft_partition_group" where
  "SetDefaults_RaftPartitionGroup g0 =
     (let g1 = (if rpg_PartitionSize g0 = 0 then g0\<lparr>rpg_PartitionSize := 3\<rparr> else g0)
      in g1\<lparr>rpg_Persistent := SetDefaults_Persistent (rpg_Persistent g1)\<rparr>)"

definition SetDefaults_PrimaryBackupPartitionGroup ::
  "primary_backup_partition_group \<Rightarrow> primary_backup_partition_group" where
  "SetDefaults_PrimaryBackupPartitionGroup g0 =
     (if pbg_MemberGroupStrategy g0 = []
      then g0\<lparr>pbg_MemberGroupStrategy := NodeAwareMemberGroupStrategy\<rparr> else g0)"

definition SetDefaults_LogPartitionGroup :: "log_partition_group \<Rightarrow> log_partition_group" where
  "SetDefaults_LogPartitionGroup g0 =
     (let g1 = (if lpg_MemberGroupStrategy g0 = []
                then g0\<lparr>lpg_MemberGroupStrategy := NodeAwareMemberGroupStrategy\<rparr> else g0)
      in g1\<lparr>lpg_Persistent := SetDefaults_Persistent (lpg_Persistent g1)\<rparr>)"

text \<open>\<^verbatim>\<open>int(group.Spec.Size)\<close> extends the sign of the 32-bit size.\<close>

definition SetDefaults_PartitionGroupSpec :: "partition_group_spec \<Rightarrow> partition_group_spec" where
  "SetDefaults_PartitionGroupSpec s0 =
     (let s1 = (if gs_Version s0 = [] then s0\<lparr>gs_Version := ''3.1.0''\<rparr> else s0);
          s2 = (if gs_Size s1 = 0 then s1\<lparr>gs_Size := 1\<rparr> else s1);
          s3 = (if gs_Partitions s2 = 0 then s2\<lparr>gs_Partitions := scast (gs_Size s2)\<rparr> else s2)
      in (case gs_Raft s3 of
            Some r \<Rightarrow> s3\<lparr>gs_Raft := Some (SetDefaults_RaftPartitionGroup r)\<rparr>
          | None \<Rightarrow>
              (case gs_PrimaryBackup s3 of
                 Some b \<Rightarrow> s3\<lparr>gs_PrimaryBackup := Some (SetDefaults_PrimaryBackupPartitionGroup b)\<rparr>
               | None \<Rightarrow>
                   (case gs_Log s3 of
                      Some l \<Rightarrow> s3\<lparr>gs_Log := Some (SetDefaults_LogPartitionGroup l)\<rparr>
                    | None \<Rightarrow> s3))))"

definition SetDefaults_PartitionGroup :: "partition_group \<Rightarrow> partition_group" where
  "SetDefaults_PartitionGroup g = g\<lparr>pg_Spec := SetDefaults_PartitionGroupSpec (pg_Spec g)\<rparr>"

definition SetDefaults_ClusterSpec :: "cluster_spec \<Rightarrow> cluster_spec" where
  "SetDefaults_ClusterSpec s0 =
     (let s1 = (if cs_Version s0 = [] then s0\<lparr>cs_Version := ''3.1.0''\<rparr> else s0);
          s2 = (if cs_Size s1 = 0 then s1\<lparr>cs_Size := 1\<rparr> else s1)
      in s2\<lparr>cs_Storage := SetDefaults_Storage (cs_Storage s2)\<rparr>)"

definition SetDefaults_Cluster :: "atomix_cluster \<Rightarrow> atomix_cluster" where
  "SetDefaults_Cluster c = c\<lparr>ac_Spec := SetDefaults_ClusterSpec (ac_Spec c)\<rparr>"

definition SetDefaults_BenchmarkSpec :: "benchmark_spec \<Rightarrow> benchmark_spec" where
  "SetDefaults_BenchmarkSpec s0 =
     (let s1 = (if bs_Version s0 = [] then s0\<lparr>bs_Version := ''3.1.0''\<rparr> else s0)
      in if bs_Workers s1 = 0 then s1\<lparr>bs_Workers := 1\<rparr> else s1)"

definition SetDefaults_Benchmark :: "atomix_benchmark \<Rightarrow> atomix_benchmark" where
  "SetDefaults_Benchmark b = b\<lparr>ab_Spec := SetDefaults_BenchmarkSpec (ab_Spec b)\<rparr>"

lemmas defaults_defs =
  SetDefaults_Storage_def SetDefaults_Compaction_def SetDefaults_Persistent_def
  SetDefaults_RaftPartitionGroup_def SetDefaults_PrimaryBackupPartitionGroup_def
  SetDefaults_LogPartitionGroup_def Let_def

subsection \<open>What defaulting keeps\<close>

lemma SetDefaults_Cluster_Meta [simp]: "ac_Meta (SetDefaults_Cluster c) = ac_Meta c"
  by (simp add: SetDefaults_Cluster_def)

lemma SetDefaults_PartitionGroup_Meta [simp]: "pg_Meta (SetDefaults_PartitionGroup g) = pg_Meta g"
  by (simp add: SetDefaults_PartitionGroup_def)

lemma SetDefaults_Benchmark_Meta [simp]: "ab_Meta (SetDefaults_Benchmark b) = ab_Meta b"
  by (simp add: SetDefaults_Benchmark_def)

lemma SetDefaults_PartitionGroup_Cluster [simp]:
  "gs_Cluster (pg_Spec (SetDefaults_PartitionGroup g)) = gs_Cluster (pg_Spec g)"
  by (simp add: SetDefaults_PartitionGroup_def SetDefaults_PartitionGroupSpec_def Let_def
      split: option.split)

lemma SetDefaults_Benchmark_Cluster [simp]:
  "bs_Cluster (ab_Spec (SetDefaults_Benchmark b)) = bs_Cluster (ab_Spec b)"
  by (simp add: SetDefaults_Benchmark_def SetDefaults_BenchmarkSpec_def Let_def)

subsection \<open>What defaulting establishes\<close>

text \<open>A storage section with no empty field.\<close>

definition storage_defaulted :: "storage \<Rightarrow> bool" where
  "storage_defaulted s \<longleftrightarrow>
     st_Size s \<noteq> [] \<and> st_SegmentSize s \<noteq> [] \<and> st_EntrySize s \<noteq> [] \<and> st_Level s \<noteq> []"

definition compaction_defaulted :: "compaction \<Rightarrow> bool" where
  "compaction_defaulted c \<longleftrightarrow>
     \<not> float32_is_zero (co_FreeDiskBuffer c) \<and> \<not> float32_is_zero (co_FreeMemoryBuffer c)"

definition persistent_defaulted :: "persistent_partition_group \<Rightarrow> bool" where
  "persistent_defaulted p \<longleftrightarrow>
     storage_defaulted (pp_Storage p) \<and> compaction_defaulted (pp_Compaction p)"

text \<open>The protocol that \<^verbatim>\<open>GetPartitionGroupType\<close> selects has no field at its zero value.\<close>

definition protocol_defaulted :: "partition_group_spec \<Rightarrow> bool" where
  "protocol_defaulted s \<longleftrightarrow>
     (case gs_Raft s of
        Some r \<Rightarrow> rpg_PartitionSize r \<noteq> 0 \<and> persistent_defaulted (rpg_Persistent r)
      | None \<Rightarrow>
          (case gs_PrimaryBackup s of
             Some b \<Rightarrow> pbg_MemberGroupStrategy b \<noteq> []
           | None \<Rightarrow>
               (case gs_Log s of
                  Some l \<Rightarrow> lpg_MemberGroupStrategy l \<noteq> [] \<and> persistent_defaulted (lpg_Persistent l)
                | None \<Rightarrow> True)))"

definition group_spec_defaulted :: "partition_group_spec \<Rightarrow> bool" where
  "group_spec_defaulted s \<longleftrightarrow>
     gs_Version s \<noteq> [] \<and> gs_Size s \<noteq> 0 \<and> gs_Partitions s \<noteq> 0 \<and> protocol_defaulted s"

definition cluster_spec_defaulted :: "cluster_spec \<Rightarrow> bool" where
  "cluster_spec_defaulted s \<longleftrightarrow>
     cs_Version s \<noteq> [] \<and> cs_Size s \<noteq> 0 \<and> storage_defaulted (cs_Storage s)"

definition benchmark_spec_defaulted :: "benchmark_spec \<Rightarrow> bool" where
  "benchmark_spec_defaulted s \<longleftrightarrow> bs_Version s \<noteq> [] \<and> bs_Workers s \<noteq> 0"

lemma storage_defaulted_SetDefaults [simp]: "storage_defaulted (SetDefaults_Storage s)"
  by (simp add: storage_defaulted_def SetDefaults_Storage_def Let_def MappedStorage_def)

lemma compaction_defaulted_SetDefaults [simp]: "compaction_defaulted (SetDefaults_Compaction c)"
  by (simp add: compaction_defaulted_def SetDefaults_Compaction_def Let_def float32_is_zero_def
      float32_point_two_def)

lemma persistent_defaulted_SetDefaults [simp]: "persistent_defaulted (SetDefaults_Persistent p)"
  by (simp add: persistent_defaulted_def SetDefaults_Persistent_def Let_def)

text \<open>A section that is already defaulted is left as it is.\<close>

lemma SetDefaults_Storage_id: "storage_defaulted s \<Longrightarrow> SetDefaults_Storage s = s"
  by (simp add: storage_defaulted_def SetDefaults_Storage_def Let_def)

lemma SetDefaults_Compaction_id: "compaction_defaulted c \<Longrightarrow> SetDefaults_Compaction c = c"
  by (simp add: compaction_defaulted_def SetDefaults_Compaction_def Let_def)

lemma SetDefaults_Persistent_id: "persistent_defaulted p \<Longrightarrow> SetDefaults_Persistent p = p"
  by (simp add: persistent_defaulted_def SetDefaults_Persistent_def Let_def
      SetDefaults_Storage_id SetDefaults_Compaction_id)

lemma SetDefaults_RaftPartitionGroup_id:
  "rpg_PartitionSize r \<noteq> 0 \<Longrightarrow> persistent_defaulted (rpg_Persistent r) \<Longrightarrow>
   SetDefaults_RaftPartitionGroup r = r"
  by (simp add: SetDefaults_RaftPartitionGroup_def Let_def SetDefaults_Persistent_id)

lemma SetDefaults_LogPartitionGroup_id:
  "lpg_MemberGroupStrategy l \<noteq> [] \<Longrightarrow> persistent_defaulted (lpg_Persistent l) \<Longrightarrow>
   SetDefaults_LogPartitionGroup l = l"
  by (simp add: SetDefaults_LogPartitionGroup_def Let_def SetDefaults_Persistent_id)

lemma SetDefaults_PrimaryBackupPartitionGroup_id:
  "pbg_MemberGroupStrategy b \<noteq> [] \<Longrightarrow> SetDefaults_PrimaryBackupPartitionGroup b = b"
  by (simp add: SetDefaults_PrimaryBackupPartitionGroup_def)

lemma protocol_update_same:
  "gs_Raft s = Some r \<Longrightarrow> s\<lparr>gs_Raft := Some r\<rparr> = s"
  "gs_PrimaryBackup s = Some b \<Longrightarrow> s\<lparr>gs_PrimaryBackup := Some b\<rparr> = s"
  "gs_Log s = Some l \<Longrightarrow> s\<lparr>gs_Log := Some l\<rparr> = s"
  by simp_all

lemma group_spec_defaulted_SetDefaults: "group_spec_defaulted (SetDefaults_PartitionGroupSpec s)"
  by (cases "gs_Raft s"; cases "gs_PrimaryBackup s"; cases "gs_Log s")
    (simp_all add: group_spec_defaulted_def SetDefaults_PartitionGroupSpec_def Let_def
      protocol_defaulted_def SetDefaults_RaftPartitionGroup_def
      SetDefaults_PrimaryBackupPartitionGroup_def SetDefaults_LogPartitionGroup_def
      NodeAwareMemberGroupStrategy_def)

lemma SetDefaults_PartitionGroupSpec_id:
  "group_spec_defaulted s \<Longrightarrow> SetDefaults_PartitionGroupSpec s = s"
  by (cases "gs_Raft s"; cases "gs_PrimaryBackup s"; cases "gs_Log s")
    (simp_all add: group_spec_defaulted_def SetDefaults_PartitionGroupSpec_def Let_def
      protocol_defaulted_def SetDefaults_RaftPartitionGroup_id
      SetDefaults_PrimaryBackupPartitionGroup_id SetDefaults_LogPartitionGroup_id
      protocol_update_same)

lemma cluster_spec_defaulted_SetDefaults: "cluster_spec_defaulted (SetDefaults_ClusterSpec s)"
  by (simp add: cluster_spec_defaulted_def SetDefaults_ClusterSpec_def Let_def)

lemma SetDefaults_ClusterSpec_id: "cluster_spec_defaulted s \<Longrightarrow> SetDefaults_ClusterSpec s = s"
  by (simp add: cluster_spec_defaulted_def SetDefaults_ClusterSpec_def Let_def SetDefaults_Storage_id)

lemma benchmark_spec_defaulted_SetDefaults: "benchmark_spec_defaulted (SetDefaults_BenchmarkSpec s)"
  by (simp add: benchmark_spec_defaulted_def SetDefaults_BenchmarkSpec_def Let_def)

lemma SetDefaults_BenchmarkSpec_id:
  "benchmark_spec_defaulted s \<Longrightarrow> SetDefaults_BenchmarkSpec s = s"
  by (simp add: benchmark_spec_defaulted_def SetDefaults_BenchmarkSpec_def Let_def)

text \<open>Defaulting does not change the choice of protocol.\<close>

lemma SetDefaults_PartitionGroupSpec_protocols:
  "gs_Raft (SetDefaults_PartitionGroupSpec s) = map_option SetDefaults_RaftPartitionGroup (gs_Raft s)"
  "gs_PrimaryBackup (SetDefaults_PartitionGroupSpec s) =
    (if gs_Raft s = None then map_option SetDefaults_PrimaryBackupPartitionGroup (gs_PrimaryBackup s)
     else gs_PrimaryBackup s)"
  "gs_Log (SetDefaults_PartitionGroupSpec s) =
    (if gs_Raft s = None \<and> gs_PrimaryBackup s = None then map_option SetDefaults_LogPartitionGroup (gs_Log s)
     else gs_Log s)"
  by (cases s; simp add: SetDefaults_PartitionGroupSpec_def Let_def split: option.split)+

lemma GetPartitionGroupType_SetDefaults [simp]:
  "GetPartitionGroupType (SetDefaults_PartitionGroup g) = GetPartitionGroupType g"
  by (simp add: GetPartitionGroupType_def SetDefaults_PartitionGroup_def
      SetDefaults_PartitionGroupSpec_protocols)

end
