(* ===== verification/Resources.thy ===== *)
theory Resources
  imports Defaults
begin

section \<open>Shared resource builders\<close>

text \<open>
  \<^verbatim>\<open>pkg/controller/util/resources.go\<close>: label keys and values, name suffixes, volume names,
  and the builders of containers, probes, volumes, mounts, the anti-affinity and the volume
  claims that the three kinds of resources share. One definition per function; the value of
  a composite literal is the record with the fields the literal names.
\<close>

subsection \<open>Constants\<close>

definition AppKey :: string where "AppKey = ''app''"
definition AtomixApp :: string where "AtomixApp = ''atomix''"
definition ClusterKey :: string where "ClusterKey = ''cluster''"
definition TypeKey :: string where "TypeKey = ''type''"
definition GroupKey :: string where "GroupKey = ''group''"

definition ManagementType :: string where "ManagementType = ''management''"
definition GroupType :: string where "GroupType = ''group''"
definition BenchWorkerType :: string where "BenchWorkerType = ''benchmark-worker''"
definition BenchCoordinatorType :: string where "BenchCoordinatorType = ''benchmark-coordinator''"

definition ServiceSuffix :: string where "ServiceSuffix = ''service''"
definition DisruptionBudgetSuffix :: string where "DisruptionBudgetSuffix = ''pdb''"
definition InitSuffix :: string where "InitSuffix = ''init''"
definition ConfigSuffix :: string where "ConfigSuffix = ''config''"

definition InitScriptsVolume :: string where "InitScriptsVolume = ''init-scripts''"
definition UserConfigVolume :: string where "UserConfigVolume = ''user-config''"
definition SystemConfigVolume :: string where "SystemConfigVolume = ''system-config''"
definition DataVolume :: string where "DataVolume = ''data''"

lemmas label_const_defs =
  AppKey_def AtomixApp_def ClusterKey_def TypeKey_def GroupKey_def
  ManagementType_def GroupType_def BenchWorkerType_def BenchCoordinatorType_def

lemmas suffix_defs = ServiceSuffix_def DisruptionBudgetSuffix_def InitSuffix_def ConfigSuffix_def

lemmas volume_const_defs =
  InitScriptsVolume_def UserConfigVolume_def SystemConfigVolume_def DataVolume_def

subsection \<open>Affinity\<close>

definition newAffinity :: "string \<Rightarrow> affinity" where
  "newAffinity name =
     \<lparr>af_PodAntiAffinityPreferred =
        [\<lparr>wt_Weight = 1,
          wt_LabelSelector =
            \<lparr>ls_MatchLabels = fmempty,
             ls_MatchExpressions =
               [\<lparr>lsr_Key = AppKey, lsr_Operator = LabelSelectorOpIn, lsr_Values = [name]\<rparr>,
                \<lparr>lsr_Key = TypeKey, lsr_Operator = LabelSelectorOpIn, lsr_Values = [ManagementType]\<rparr>]\<rparr>,
          wt_TopologyKey = ''kubernetes.io/hostname''\<rparr>]\<rparr>"

subsection \<open>Volume mounts\<close>

definition newDataVolumeMount :: volume_mount where
  "newDataVolumeMount = \<lparr>vm_Name = DataVolume, vm_MountPath = ''/var/lib/atomix''\<rparr>"

definition newUserConfigVolumeMount :: volume_mount where
  "newUserConfigVolumeMount = \<lparr>vm_Name = UserConfigVolume, vm_MountPath = ''/etc/atomix/user''\<rparr>"

definition newSystemConfigVolumeMount :: volume_mount where
  "newSystemConfigVolumeMount = \<lparr>vm_Name = SystemConfigVolume, vm_MountPath = ''/etc/atomix/system''\<rparr>"

definition newPersistentVolumeMounts :: "volume_mount list" where
  "newPersistentVolumeMounts =
     [newDataVolumeMount, newUserConfigVolumeMount, newSystemConfigVolumeMount]"

definition newEphemeralVolumeMounts :: "volume_mount list" where
  "newEphemeralVolumeMounts = [newUserConfigVolumeMount, newSystemConfigVolumeMount]"

subsection \<open>Containers\<close>

text \<open>\<^verbatim>\<open>fmt.Sprint(size)\<close> prints the signed value.\<close>

definition newInitContainer :: "int32 \<Rightarrow> container" where
  "newInitContainer sz =
     \<lparr>c_Name = ''configure'',
      c_Image = ''ubuntu:16.04'',
      c_Command = [''bash'', ''-c'',
        ''/scripts/create_config.sh $ATOMIX_NODES > /config/atomix.properties''],
      c_Args = [],
      c_Ports = [],
      c_Env = [\<lparr>ev_Name = ''ATOMIX_NODES'', ev_Value = show_int (sint sz), ev_ValueFrom = None\<rparr>],
      c_Resources = no_resources,
      c_VolumeMounts =
        [\<lparr>vm_Name = InitScriptsVolume, vm_MountPath = ''/scripts''\<rparr>,
         \<lparr>vm_Name = SystemConfigVolume, vm_MountPath = ''/config''\<rparr>],
      c_LivenessProbe = None,
      c_ReadinessProbe = None,
      c_ImagePullPolicy = [],
      c_Privileged = None\<rparr>"

definition newInitContainers :: "int32 \<Rightarrow> container list" where
  "newInitContainers sz = [newInitContainer sz]"

definition newContainer ::
  "string \<Rightarrow> string list \<Rightarrow> env_var list \<Rightarrow> resource_requirements \<Rightarrow> volume_mount list \<Rightarrow> container" where
  "newContainer img args env resources volumeMounts =
     \<lparr>c_Name = ''atomix'',
      c_Image = img,
      c_Command = [],
      c_Args = args,
      c_Ports = [\<lparr>cp_Name = ''client'', cp_ContainerPort = 5678\<rparr>,
                 \<lparr>cp_Name = ''server'', cp_ContainerPort = 5679\<rparr>],
      c_Env = env,
      c_Resources = resources,
      c_VolumeMounts = volumeMounts,
      c_LivenessProbe = Some \<lparr>pb_Path = ''/v1/status'', pb_Port = IntVal 5678,
        pb_InitialDelaySeconds = 60, pb_TimeoutSeconds = 10, pb_FailureThreshold = 0\<rparr>,
      c_ReadinessProbe = Some \<lparr>pb_Path = ''/v1/status'', pb_Port = IntVal 5678,
        pb_InitialDelaySeconds = 60, pb_TimeoutSeconds = 10, pb_FailureThreshold = 6\<rparr>,
      c_ImagePullPolicy = PullAlways,
      c_Privileged = Some True\<rparr>"

definition newBenchmarkContainer ::
  "string \<Rightarrow> env_var list \<Rightarrow> resource_requirements \<Rightarrow> container" where
  "newBenchmarkContainer version env resources =
     newContainer (sprintf ''atomix/atomix-bench:latest'' [])
       [''agent'', ''--config'', ''/etc/atomix/system/atomix.properties'',
        ''/etc/atomix/user/atomix.conf'']
       env resources newEphemeralVolumeMounts"

definition newBenchmarkContainers ::
  "string \<Rightarrow> env_var list \<Rightarrow> resource_requirements \<Rightarrow> container list" where
  "newBenchmarkContainers version env resources = [newBenchmarkContainer version env resources]"

definition newPersistentContainer ::
  "string \<Rightarrow> env_var list \<Rightarrow> resource_requirements \<Rightarrow> container" where
  "newPersistentContainer version env resources =
     newContainer (sprintf ''atomix/atomix:%s'' [StrArg version])
       [''--config'', ''/etc/atomix/system/atomix.properties'', ''/etc/atomix/user/atomix.conf'',
        ''--ignore-resources'', ''--data-dir=/var/lib/atomix/data'', ''--log-level=INFO'',
        ''--file-log-level=OFF'', ''--console-log-level=INFO'']
       env resources newPersistentVolumeMounts"

definition newPersistentContainers ::
  "string \<Rightarrow> env_var list \<Rightarrow> resource_requirements \<Rightarrow> container list" where
  "newPersistentContainers version env resources = [newPersistentContainer version env resources]"

definition newEphemeralContainer ::
  "string \<Rightarrow> env_var list \<Rightarrow> resource_requirements \<Rightarrow> container" where
  "newEphemeralContainer version env resources =
     newContainer (sprintf ''atomix/atomix:%s'' [StrArg version])
       [''--config'', ''/etc/atomix/system/atomix.properties'', ''/etc/atomix/user/atomix.conf'',
        ''--ignore-resources'', ''--log-level=INFO'', ''--file-log-level=OFF'',
        ''--console-log-level=INFO'']
       env resources newEphemeralVolumeMounts"

definition newEphemeralContainers ::
  "string \<Rightarrow> env_var list \<Rightarrow> resource_requirements \<Rightarrow> container list" where
  "newEphemeralContainers version env resources = [newEphemeralContainer version env resources]"

subsection \<open>Volumes\<close>

text \<open>The mode \<^verbatim>\<open>int32(0744)\<close> is octal: 484.\<close>

definition newInitScriptsVolume :: "string \<Rightarrow> volume" where
  "newInitScriptsVolume name =
     \<lparr>vol_Name = InitScriptsVolume, vol_Source = ConfigMapSource name (Some 484)\<rparr>"

definition newUserConfigVolume :: "string \<Rightarrow> volume" where
  "newUserConfigVolume name =
     \<lparr>vol_Name = UserConfigVolume, vol_Source = ConfigMapSource name None\<rparr>"

definition newSystemConfigVolume :: volume where
  "newSystemConfigVolume = \<lparr>vol_Name = SystemConfigVolume, vol_Source = EmptyDirSource\<rparr>"

definition newPersistentVolumeClaim :: "string option \<Rightarrow> string \<Rightarrow> go_error + pvc" where
  "newPersistentVolumeClaim className sz =
     (case ParseQuantity sz of
        Inl err \<Rightarrow> Inl err
      | Inr quantity \<Rightarrow>
          Inr \<lparr>pvc_Meta = new_meta DataVolume [] fmempty,
               pvc_StorageClassName = className,
               pvc_AccessModes = [ReadWriteOnce],
               pvc_Resources =
                 \<lparr>rr_Limits = fmempty, rr_Requests = fmap_of_list [(ResourceStorage, quantity)]\<rparr>\<rparr>)"

definition newPersistentVolumeClaims :: "string option \<Rightarrow> string \<Rightarrow> go_error + pvc list" where
  "newPersistentVolumeClaims className sz =
     (case newPersistentVolumeClaim className sz of
        Inl err \<Rightarrow> Inl err
      | Inr claim \<Rightarrow> Inr [claim])"

lemmas container_defs [build_defs] =
  newInitContainers_def newInitContainer_def newContainer_def
  newBenchmarkContainers_def newBenchmarkContainer_def
  newPersistentContainers_def newPersistentContainer_def
  newEphemeralContainers_def newEphemeralContainer_def
  newPersistentVolumeMounts_def newEphemeralVolumeMounts_def
  newDataVolumeMount_def newUserConfigVolumeMount_def newSystemConfigVolumeMount_def

lemmas volume_defs [build_defs] =
  newInitScriptsVolume_def newUserConfigVolume_def newSystemConfigVolume_def

subsection \<open>Claims\<close>

text \<open>A claim is built exactly when the size parses, and then it asks for the parsed size.\<close>

lemma newPersistentVolumeClaims_Inr:
  "newPersistentVolumeClaims cn sz = Inr cs \<longleftrightarrow>
   (\<exists>q. ParseQuantity sz = Inr q \<and>
      cs = [\<lparr>pvc_Meta = new_meta DataVolume [] fmempty, pvc_StorageClassName = cn,
             pvc_AccessModes = [ReadWriteOnce],
             pvc_Resources = \<lparr>rr_Limits = fmempty, rr_Requests = fmap_of_list [(ResourceStorage, q)]\<rparr>\<rparr>])"
  by (auto simp: newPersistentVolumeClaims_def newPersistentVolumeClaim_def split: sum.splits)

lemma newPersistentVolumeClaims_Inl:
  "newPersistentVolumeClaims cn sz = Inl e \<longleftrightarrow> ParseQuantity sz = Inl e"
  by (auto simp: newPersistentVolumeClaims_def newPersistentVolumeClaim_def split: sum.splits)

subsection \<open>Pods whose mounts resolve\<close>

text \<open>
  A pod is well formed when the volume names are distinct and every mount of every container
  names a volume of the pod or a volume claim template.
\<close>

definition mounts_resolve :: "string list \<Rightarrow> container list \<Rightarrow> bool" where
  "mounts_resolve names cs \<longleftrightarrow>
     list_all (\<lambda>c. list_all (\<lambda>m. vm_Name m \<in> set names) (c_VolumeMounts c)) cs"

definition wf_pod_spec :: "pod_spec \<Rightarrow> pvc list \<Rightarrow> bool" where
  "wf_pod_spec ps claims \<longleftrightarrow>
     (let names = map vol_Name (ps_Volumes ps) @ map (\<lambda>c. om_Name (pvc_Meta c)) claims
      in distinct names \<and> mounts_resolve names (ps_InitContainers ps) \<and>
         mounts_resolve names (ps_Containers ps))"

text \<open>The config maps a pod mounts.\<close>

fun source_config_maps :: "volume_source \<Rightarrow> string list" where
  "source_config_maps (ConfigMapSource n m) = [n]"
| "source_config_maps EmptyDirSource = []"

definition pod_config_maps :: "pod_spec \<Rightarrow> string list" where
  "pod_config_maps ps = concat (map (\<lambda>v. source_config_maps (vol_Source v)) (ps_Volumes ps))"

subsection \<open>Which pods a selector matches\<close>

text \<open>
  The documented meaning of an equality selector: every label it names is present with that
  value; and of the set-based requirement \<^verbatim>\<open>In\<close>. The empty selector of a service is not used.
\<close>

definition selects :: "labels \<Rightarrow> labels \<Rightarrow> bool" where
  "selects sel ls \<longleftrightarrow> sel \<subseteq>\<^sub>f ls"

definition requirement_matches :: "label_selector_requirement \<Rightarrow> labels \<Rightarrow> bool" where
  "requirement_matches r ls \<longleftrightarrow>
     lsr_Operator r = LabelSelectorOpIn \<and>
     (case fmlookup ls (lsr_Key r) of None \<Rightarrow> False | Some v \<Rightarrow> v \<in> set (lsr_Values r))"

definition label_selector_matches :: "label_selector \<Rightarrow> labels \<Rightarrow> bool" where
  "label_selector_matches s ls \<longleftrightarrow>
     selects (ls_MatchLabels s) ls \<and> list_all (\<lambda>r. requirement_matches r ls) (ls_MatchExpressions s)"

lemma selects_of_list:
  assumes "distinct (map fst xs)"
  shows "selects (fmap_of_list xs) ls \<longleftrightarrow> list_all (\<lambda>(k, v). fmlookup ls k = Some v) xs"
proof -
  have "selects (fmap_of_list xs) ls \<longleftrightarrow>
      (\<forall>k v. map_of xs k = Some v \<longrightarrow> fmlookup ls k = Some v)"
    by (auto simp: selects_def fmsubset_alt_def fmpred_iff fmlookup_of_list)
  also have "\<dots> \<longleftrightarrow> list_all (\<lambda>(k, v). fmlookup ls k = Some v) xs"
    using assms by (auto simp: list_all_iff map_of_eq_Some_iff)
  finally show ?thesis .
qed

lemma selects_refl [simp]: "selects ls ls"
  by (simp add: selects_def fmsubset_alt_def fmpred_iff)

lemma label_selector_matches_match_labels [simp]:
  "label_selector_matches (match_labels l) ls \<longleftrightarrow> selects l ls"
  by (simp add: label_selector_matches_def match_labels_def)

end
