(* ===== verification/Cluster_Resources.thy ===== *)
theory Cluster_Resources
  imports Resources
begin

section \<open>Resources of a management cluster\<close>

text \<open>
  \<^verbatim>\<open>pkg/controller/util/cluster.go\<close>: the names, labels, config maps, disruption budget,
  service and stateful set that an \<^verbatim>\<open>AtomixCluster\<close> gets. The init script is shared with the
  other two kinds of resources. The lemmas give the text of the script, the value of the
  disruption budget, and the well-formedness of the pod template.
\<close>

subsection \<open>Names\<close>

definition getManagementResourceName :: "string \<Rightarrow> string \<Rightarrow> string" where
  "getManagementResourceName cluster res = sprintf ''%s-%s'' [StrArg cluster, StrArg res]"

definition GetManagementServiceName :: "atomix_cluster \<Rightarrow> string" where
  "GetManagementServiceName c = om_Name (ac_Meta c)"

definition GetManagementDisruptionBudgetName :: "atomix_cluster \<Rightarrow> string" where
  "GetManagementDisruptionBudgetName c =
     getManagementResourceName (om_Name (ac_Meta c)) DisruptionBudgetSuffix"

definition GetManagementInitConfigMapName :: "atomix_cluster \<Rightarrow> string" where
  "GetManagementInitConfigMapName c = getManagementResourceName (om_Name (ac_Meta c)) InitSuffix"

definition GetManagementSystemConfigMapName :: "atomix_cluster \<Rightarrow> string" where
  "GetManagementSystemConfigMapName c = getManagementResourceName (om_Name (ac_Meta c)) ConfigSuffix"

definition GetManagementStatefulSetName :: "atomix_cluster \<Rightarrow> string" where
  "GetManagementStatefulSetName c = om_Name (ac_Meta c)"

lemma getManagementResourceName_eq [simp]: "getManagementResourceName n s = n @ ''-'' @ s"
  by (simp add: getManagementResourceName_def)

lemmas management_name_defs [name_defs] =
  GetManagementServiceName_def GetManagementDisruptionBudgetName_def
  GetManagementInitConfigMapName_def GetManagementSystemConfigMapName_def
  GetManagementStatefulSetName_def

subsection \<open>Labels\<close>

definition newManagementLabels :: "atomix_cluster \<Rightarrow> labels" where
  "newManagementLabels c =
     fmap_of_list
       [(AppKey, AtomixApp),
        (ClusterKey, om_Name (ac_Meta c)),
        (TypeKey, ManagementType)]"

subsection \<open>Disruption budget\<close>

definition NewManagementDisruptionBudget :: "atomix_cluster \<Rightarrow> pod_disruption_budget" where
  "NewManagementDisruptionBudget c =
     (let minAvailable = FromInt (go_quo (sint (cs_Size (ac_Spec c))) 2 + 1)
      in \<lparr>pdb_Meta = new_meta (GetManagementDisruptionBudgetName c) (om_Namespace (ac_Meta c)) fmempty,
          pdb_MinAvailable = Some minAvailable,
          pdb_Selector = None\<rparr>)"

subsection \<open>Service\<close>

definition tolerate_unready_annotations :: labels where
  "tolerate_unready_annotations =
     fmap_of_list [(''service.alpha.kubernetes.io/tolerate-unready-endpoints'', ''true'')]"

definition NewManagementService :: "atomix_cluster \<Rightarrow> service" where
  "NewManagementService c =
     \<lparr>svc_Meta =
        (new_meta (GetManagementServiceName c) (om_Namespace (ac_Meta c)) (newManagementLabels c))
          \<lparr>om_Annotations := tolerate_unready_annotations\<rparr>,
      svc_Ports = [\<lparr>sp_Name = om_Name (ac_Meta c) @ ''-node'', sp_Port = 5679\<rparr>],
      svc_PublishNotReadyAddresses = True,
      svc_ClusterIP = ''None'',
      svc_Selector =
        fmap_of_list [(AppKey, AtomixApp), (ClusterKey, om_Name (ac_Meta c))]\<rparr>"

subsection \<open>Init script\<close>

definition getManagementServiceDnsName :: "namespaced_name \<Rightarrow> string" where
  "getManagementServiceDnsName c = nn_Name c @ ''.'' @ nn_Namespace c @ ''.svc.cluster.local''"

definition init_script_format :: string where
  \<open>init_script_format = text_lines
     ['''',
      ''#!/usr/bin/env bash'',
      '''',
      ''HOST=$(hostname -s)'',
      ''DOMAIN=$(hostname -d)'',
      ''NODES=$1'',
      '''',
      ''function create_config() {'',
      ''    echo "atomix.service=%s"'',
      ''    echo "atomix.node.id=$NAME-$ORD"'',
      ''    echo "atomix.node.host=$NAME-$ORD.$DOMAIN"'',
      ''    echo "atomix.node.port=5679"'',
      ''    echo "atomix.replicas=$NODES"'',
      ''    for (( i=0; i<$NODES; i++ ))'',
      ''    do'',
      ''        echo "atomix.members.$i=$NAME-$((i))"'',
      ''    done'',
      ''}'',
      '''',
      ''if [[ $HOST =~ (.*)-([0-9]+)$ ]]; then'',
      ''    NAME=${BASH_REMATCH[1]}'',
      ''    ORD=${BASH_REMATCH[2]}'',
      ''else'',
      ''    echo "Failed to parse name and ordinal of Pod"'',
      ''    exit 1'',
      ''fi'',
      '''',
      ''create_config'']\<close>

definition newInitConfigMapScript :: "namespaced_name \<Rightarrow> string" where
  "newInitConfigMapScript c = sprintf init_script_format [StrArg (getManagementServiceDnsName c)]"

definition NewManagementInitConfigMap :: "atomix_cluster \<Rightarrow> config_map" where
  "NewManagementInitConfigMap c =
     \<lparr>cm_Meta =
        new_meta (GetManagementInitConfigMapName c) (om_Namespace (ac_Meta c)) (newManagementLabels c),
      cm_Data =
        fmap_of_list
          [(''create_config.sh'',
            newInitConfigMapScript (NamespacedName (om_Namespace (ac_Meta c)) (om_Name (ac_Meta c))))]\<rparr>"

subsection \<open>System configuration\<close>

definition newManagementConfig :: "atomix_cluster \<Rightarrow> string" where
  \<open>newManagementConfig c = text_lines
     ['''',
      ''cluster {'',
      ''    node: ${atomix.node}'',
      '''',
      ''    discovery {'',
      ''        type: dns'',
      ''        service: ${atomix.service},'',
      ''    }'',
      ''}'',
      ''managementGroup {'',
      ''    type: raft'',
      ''    partitions: 1'',
      ''    members: ${atomix.members}'',
      ''    storage.level: disk'',
      ''}'',
      '''']\<close>

definition NewManagementSystemConfigMap :: "atomix_cluster \<Rightarrow> config_map" where
  "NewManagementSystemConfigMap c =
     \<lparr>cm_Meta =
        new_meta (GetManagementSystemConfigMapName c) (om_Namespace (ac_Meta c)) (newManagementLabels c),
      cm_Data = fmap_of_list [(''atomix.conf'', newManagementConfig c)]\<rparr>"

subsection \<open>Stateful set\<close>

text \<open>
  \<^verbatim>\<open>Replicas\<close> points into the specification; nothing writes the size after the set is built,
  so the model stores the value.
\<close>

definition NewManagementStatefulSet :: "atomix_cluster \<Rightarrow> go_error + stateful_set" where
  "NewManagementStatefulSet c =
     (case newPersistentVolumeClaims (st_ClassName (cs_Storage (ac_Spec c)))
             (st_Size (cs_Storage (ac_Spec c))) of
        Inl err \<Rightarrow> Inl err
      | Inr claims \<Rightarrow>
          Inr \<lparr>sts_Meta =
                 new_meta (GetManagementStatefulSetName c) (om_Namespace (ac_Meta c))
                   (newManagementLabels c),
               sts_ServiceName = GetManagementServiceName c,
               sts_Replicas = Some (cs_Size (ac_Spec c)),
               sts_Selector = Some (match_labels (newManagementLabels c)),
               sts_UpdateStrategy = RollingUpdateStatefulSetStrategyType,
               sts_PodManagementPolicy = ParallelPodManagement,
               sts_TemplateLabels = newManagementLabels c,
               sts_TemplateSpec =
                 \<lparr>ps_Affinity = Some (newAffinity (om_Name (ac_Meta c))),
                  ps_InitContainers = newInitContainers (cs_Size (ac_Spec c)),
                  ps_Containers =
                    newPersistentContainers (cs_Version (ac_Spec c)) (cs_Env (ac_Spec c))
                      (cs_Resources (ac_Spec c)),
                  ps_Volumes =
                    [newInitScriptsVolume (GetManagementInitConfigMapName c),
                     newUserConfigVolume (GetManagementSystemConfigMapName c),
                     newSystemConfigVolume]\<rparr>,
               sts_VolumeClaimTemplates = claims\<rparr>)"

subsection \<open>The text of the init script\<close>

definition init_script_before :: string where
  \<open>init_script_before = text_lines
     ['''',
      ''#!/usr/bin/env bash'',
      '''',
      ''HOST=$(hostname -s)'',
      ''DOMAIN=$(hostname -d)'',
      ''NODES=$1'',
      '''',
      ''function create_config() {'',
      ''    echo "atomix.service='']\<close>

definition init_script_after :: string where
  \<open>init_script_after = text_lines
     [''"'',
      ''    echo "atomix.node.id=$NAME-$ORD"'',
      ''    echo "atomix.node.host=$NAME-$ORD.$DOMAIN"'',
      ''    echo "atomix.node.port=5679"'',
      ''    echo "atomix.replicas=$NODES"'',
      ''    for (( i=0; i<$NODES; i++ ))'',
      ''    do'',
      ''        echo "atomix.members.$i=$NAME-$((i))"'',
      ''    done'',
      ''}'',
      '''',
      ''if [[ $HOST =~ (.*)-([0-9]+)$ ]]; then'',
      ''    NAME=${BASH_REMATCH[1]}'',
      ''    ORD=${BASH_REMATCH[2]}'',
      ''else'',
      ''    echo "Failed to parse name and ordinal of Pod"'',
      ''    exit 1'',
      ''fi'',
      '''',
      ''create_config'']\<close>

lemma init_script_format_split:
  "init_script_format = init_script_before @ ''%s'' @ init_script_after"
  by (simp add: init_script_format_def init_script_before_def init_script_after_def newline_def)

lemma init_script_plain:
  "CHR ''%'' \<notin> set init_script_before" "CHR ''%'' \<notin> set init_script_after"
  by (simp_all add: init_script_before_def init_script_after_def newline_def)

lemma newInitConfigMapScript_eq:
  "newInitConfigMapScript c = init_script_before @ getManagementServiceDnsName c @ init_script_after"
  using sprintf_plain [OF init_script_plain(2), of "[]" "[]"]
  by (simp add: newInitConfigMapScript_def init_script_format_split sprintf_plain init_script_plain
      sprintf_s fmt_extra_def del: sprintf.simps)

lemma newInitConfigMapScript_inject [simp]:
  "newInitConfigMapScript c = newInitConfigMapScript c' \<longleftrightarrow>
   getManagementServiceDnsName c = getManagementServiceDnsName c'"
  by (simp add: newInitConfigMapScript_eq)

subsection \<open>Disruption budgets\<close>

text \<open>The majority that both budgets compute from an \<^verbatim>\<open>int32\<close> size.\<close>

definition majority :: "int32 \<Rightarrow> int" where
  "majority n = go_quo (sint n) 2 + 1"

lemma majority_int32: "- 2147483648 \<le> majority n" "majority n \<le> 2147483647"
  using sint_int32_bounds [of n] by (auto simp: majority_def go_quo_2)

lemma sint_FromInt_majority: "sint (word_of_int (majority n) :: int32) = majority n"
  by (rule sint_word_of_int32) (rule majority_int32)+

lemma majority_quorum: "0 \<le> sint n \<Longrightarrow> sint n < 2 * majority n"
  by (simp add: majority_def go_quo_2)

lemma majority_le: "1 \<le> sint n \<Longrightarrow> majority n \<le> sint n"
  by (simp add: majority_def go_quo_2)

subsection \<open>The pod template\<close>

lemma wf_persistent_pod_spec:
  "newPersistentVolumeClaims cn sz = Inr claims \<Longrightarrow>
   wf_pod_spec
     \<lparr>ps_Affinity = a, ps_InitContainers = newInitContainers n,
      ps_Containers = newPersistentContainers v e r,
      ps_Volumes = [newInitScriptsVolume i, newUserConfigVolume u, newSystemConfigVolume]\<rparr> claims"
  by (auto simp: newPersistentVolumeClaims_Inr wf_pod_spec_def mounts_resolve_def build_defs
      new_meta_def volume_const_defs Let_def)

end
