(* ===== verification/Group_Resources.thy ===== *)
theory Group_Resources
  imports Cluster_Resources
begin

section \<open>Resources of a partition group\<close>

text \<open>
  \<^verbatim>\<open>pkg/controller/util/partitiongroup.go\<close>: the names, labels, config maps, disruption
  budget, service and stateful set of a \<^verbatim>\<open>PartitionGroup\<close>. The configuration text and the
  kind of stateful set (persistent for Raft and log groups, ephemeral for primary-backup
  groups) follow the type that \<^verbatim>\<open>GetPartitionGroupType\<close> returns.
\<close>

subsection \<open>Names\<close>

definition getPartitionGroupResourceName :: "partition_group \<Rightarrow> string \<Rightarrow> string" where
  "getPartitionGroupResourceName g res = sprintf ''%s-%s'' [StrArg (om_Name (pg_Meta g)), StrArg res]"

definition GetPartitionGroupServiceName :: "partition_group \<Rightarrow> string" where
  "GetPartitionGroupServiceName g = om_Name (pg_Meta g)"

definition GetPartitionGroupDisruptionBudgetName :: "partition_group \<Rightarrow> string" where
  "GetPartitionGroupDisruptionBudgetName g = getPartitionGroupResourceName g DisruptionBudgetSuffix"

definition GetPartitionGroupInitConfigMapName :: "partition_group \<Rightarrow> string" where
  "GetPartitionGroupInitConfigMapName g = getPartitionGroupResourceName g InitSuffix"

definition GetPartitionGroupSystemConfigMapName :: "partition_group \<Rightarrow> string" where
  "GetPartitionGroupSystemConfigMapName g = getPartitionGroupResourceName g ConfigSuffix"

definition GetPartitionGroupStatefulSetName :: "partition_group \<Rightarrow> string" where
  "GetPartitionGroupStatefulSetName g = om_Name (pg_Meta g)"

lemma getPartitionGroupResourceName_eq [simp]:
  "getPartitionGroupResourceName g s = om_Name (pg_Meta g) @ ''-'' @ s"
  by (simp add: getPartitionGroupResourceName_def)

lemmas group_name_defs [name_defs] =
  GetPartitionGroupServiceName_def GetPartitionGroupDisruptionBudgetName_def
  GetPartitionGroupInitConfigMapName_def GetPartitionGroupSystemConfigMapName_def
  GetPartitionGroupStatefulSetName_def

subsection \<open>Labels\<close>

definition newPartitionGroupLabels :: "partition_group \<Rightarrow> labels" where
  "newPartitionGroupLabels g =
     fmap_of_list
       [(AppKey, AtomixApp),
        (ClusterKey, gs_Cluster (pg_Spec g)),
        (TypeKey, GroupType),
        (GroupKey, om_Name (pg_Meta g))]"

subsection \<open>Init config map, disruption budget and service\<close>

definition NewPartitionGroupInitConfigMap :: "partition_group \<Rightarrow> config_map" where
  "NewPartitionGroupInitConfigMap g =
     \<lparr>cm_Meta =
        new_meta (GetPartitionGroupInitConfigMapName g) (om_Namespace (pg_Meta g))
          (newPartitionGroupLabels g),
      cm_Data =
        fmap_of_list
          [(''create_config.sh'',
            newInitConfigMapScript
              (NamespacedName (om_Namespace (pg_Meta g)) (gs_Cluster (pg_Spec g))))]\<rparr>"

definition NewPartitionGroupDisruptionBudget :: "partition_group \<Rightarrow> pod_disruption_budget" where
  "NewPartitionGroupDisruptionBudget g =
     (let minAvailable = FromInt (go_quo (sint (gs_Size (pg_Spec g))) 2 + 1)
      in \<lparr>pdb_Meta =
            new_meta (GetPartitionGroupDisruptionBudgetName g) (om_Namespace (pg_Meta g)) fmempty,
          pdb_MinAvailable = Some minAvailable,
          pdb_Selector = None\<rparr>)"

definition NewPartitionGroupService :: "partition_group \<Rightarrow> service" where
  "NewPartitionGroupService g =
     \<lparr>svc_Meta =
        (new_meta (GetPartitionGroupServiceName g) (om_Namespace (pg_Meta g))
           (newPartitionGroupLabels g))
          \<lparr>om_Annotations := tolerate_unready_annotations\<rparr>,
      svc_Ports = [\<lparr>sp_Name = ''node'', sp_Port = 5679\<rparr>],
      svc_PublishNotReadyAddresses = True,
      svc_ClusterIP = ''None'',
      svc_Selector = newPartitionGroupLabels g\<rparr>"

subsection \<open>System configuration\<close>

text \<open>
  The protocol functions dereference the protocol pointer of the specification; the callers
  pass a group whose type they have checked, so the model passes the protocol as an argument.
\<close>

definition raft_config_format :: string where
  \<open>raft_config_format = text_lines
     ['''',
      ''cluster {'',
      ''    node: ${atomix.node}'',
      '''',
      ''    discovery {'',
      ''        type: dns'',
      ''        service: ${atomix.service},'',
      ''    }'',
      ''}'',
      '''',
      ''partitionGroups.%s {'',
      ''    type: raft'',
      ''    partitions: %d'',
      ''    partitionSize: %d'',
      ''    members: ${atomix.members}'',
      ''    storage.level: %s'',
      ''}'',
      '''']\<close>

definition newRaftPartitionGroupConfig :: "partition_group \<Rightarrow> raft_partition_group \<Rightarrow> string" where
  "newRaftPartitionGroupConfig g raft =
     sprintf raft_config_format
       [StrArg (om_Name (pg_Meta g)), IntArg (sint (gs_Partitions (pg_Spec g))),
        IntArg (sint (rpg_PartitionSize raft)),
        StrArg (st_Level (pp_Storage (rpg_Persistent raft)))]"

definition newRaftPartitionGroupConfigMap :: "partition_group \<Rightarrow> raft_partition_group \<Rightarrow> config_map" where
  "newRaftPartitionGroupConfigMap g raft =
     \<lparr>cm_Meta =
        new_meta (GetPartitionGroupSystemConfigMapName g) (om_Namespace (pg_Meta g))
          (newPartitionGroupLabels g),
      cm_Data = fmap_of_list [(''atomix.conf'', newRaftPartitionGroupConfig g raft)]\<rparr>"

definition primary_backup_config_format :: string where
  \<open>primary_backup_config_format = text_lines
     ['''',
      ''cluster {'',
      ''    node: ${atomix.node}'',
      '''',
      ''    discovery {'',
      ''        type: dns'',
      ''        service: ${atomix.service},'',
      ''    }'',
      ''}'',
      '''',
      ''partitionGroups.%s {'',
      ''    type: primary-backup'',
      ''    partitions: %d'',
      ''    memberGroupStrategy: %s'',
      ''}'',
      '''']\<close>

definition newPrimaryBackupPartitionGroupConfig ::
  "partition_group \<Rightarrow> primary_backup_partition_group \<Rightarrow> string" where
  "newPrimaryBackupPartitionGroupConfig g pb =
     sprintf primary_backup_config_format
       [StrArg (om_Name (pg_Meta g)), IntArg (sint (gs_Partitions (pg_Spec g))),
        StrArg (pbg_MemberGroupStrategy pb)]"

definition newPrimaryBackupPartitionGroupConfigMap ::
  "partition_group \<Rightarrow> primary_backup_partition_group \<Rightarrow> config_map" where
  "newPrimaryBackupPartitionGroupConfigMap g pb =
     \<lparr>cm_Meta =
        new_meta (GetPartitionGroupSystemConfigMapName g) (om_Namespace (pg_Meta g))
          (newPartitionGroupLabels g),
      cm_Data = fmap_of_list [(''atomix.conf'', newPrimaryBackupPartitionGroupConfig g pb)]\<rparr>"

definition log_config_format :: string where
  \<open>log_config_format = text_lines
     ['''',
      ''cluster {'',
      ''    node: ${atomix.node}'',
      '''',
      ''    discovery {'',
      ''        type: dns'',
      ''        service: ${atomix.service},'',
      ''    }'',
      ''}'',
      '''',
      ''partitionGroups.%s {'',
      ''    type: log'',
      ''    partitions: %d'',
      ''    memberGroupStrategy: %s'',
      ''    storage.level: %s'',
      ''}'',
      '''']\<close>

definition newLogPartitionGroupConfig :: "partition_group \<Rightarrow> log_partition_group \<Rightarrow> string" where
  "newLogPartitionGroupConfig g lg =
     sprintf log_config_format
       [StrArg (om_Name (pg_Meta g)), IntArg (sint (gs_Partitions (pg_Spec g))),
        StrArg (lpg_MemberGroupStrategy lg), StrArg (st_Level (pp_Storage (lpg_Persistent lg)))]"

definition newLogPartitionGroupConfigMap :: "partition_group \<Rightarrow> log_partition_group \<Rightarrow> config_map" where
  "newLogPartitionGroupConfigMap g lg =
     \<lparr>cm_Meta =
        new_meta (GetPartitionGroupSystemConfigMapName g) (om_Namespace (pg_Meta g))
          (newPartitionGroupLabels g),
      cm_Data = fmap_of_list [(''atomix.conf'', newLogPartitionGroupConfig g lg)]\<rparr>"

text \<open>
  The type switch. The last line of the function returns a nil pointer and no error:
  \<open>Inr None\<close>. So does, in the model, a protocol pointer that is nil although the type says
  otherwise; neither is reachable (\<open>NewPartitionGroupConfigMap_not_nil\<close>).
\<close>

definition NewPartitionGroupConfigMap :: "partition_group \<Rightarrow> go_error + config_map option" where
  "NewPartitionGroupConfigMap g =
     (case GetPartitionGroupType g of
        Inl err \<Rightarrow> Inl err
      | Inr groupType \<Rightarrow>
          if groupType = RaftType then
            Inr (map_option (newRaftPartitionGroupConfigMap g) (gs_Raft (pg_Spec g)))
          else if groupType = PrimaryBackupType then
            Inr (map_option (newPrimaryBackupPartitionGroupConfigMap g) (gs_PrimaryBackup (pg_Spec g)))
          else if groupType = LogType then
            Inr (map_option (newLogPartitionGroupConfigMap g) (gs_Log (pg_Spec g)))
          else Inr None)"

subsection \<open>Stateful sets\<close>

definition newEphemeralPartitionGroupStatefulSet :: "partition_group \<Rightarrow> go_error + stateful_set" where
  "newEphemeralPartitionGroupStatefulSet g =
     Inr \<lparr>sts_Meta =
            new_meta (GetPartitionGroupStatefulSetName g) (om_Namespace (pg_Meta g))
              (newPartitionGroupLabels g),
          sts_ServiceName = GetPartitionGroupServiceName g,
          sts_Replicas = Some (gs_Size (pg_Spec g)),
          sts_Selector = Some (match_labels (newPartitionGroupLabels g)),
          sts_UpdateStrategy = RollingUpdateStatefulSetStrategyType,
          sts_PodManagementPolicy = ParallelPodManagement,
          sts_TemplateLabels = newPartitionGroupLabels g,
          sts_TemplateSpec =
            \<lparr>ps_Affinity = None,
             ps_InitContainers = newInitContainers (gs_Size (pg_Spec g)),
             ps_Containers =
               newEphemeralContainers (gs_Version (pg_Spec g)) (gs_Env (pg_Spec g))
                 (gs_Resources (pg_Spec g)),
             ps_Volumes =
               [newInitScriptsVolume (GetPartitionGroupInitConfigMapName g),
                newUserConfigVolume (GetPartitionGroupSystemConfigMapName g),
                newSystemConfigVolume]\<rparr>,
          sts_VolumeClaimTemplates = []\<rparr>"

definition newPersistentPartitionGroupStatefulSet ::
  "partition_group \<Rightarrow> storage \<Rightarrow> go_error + stateful_set" where
  "newPersistentPartitionGroupStatefulSet g stor =
     (case newPersistentVolumeClaims (st_ClassName stor) (st_Size stor) of
        Inl err \<Rightarrow> Inl err
      | Inr claims \<Rightarrow>
          Inr \<lparr>sts_Meta =
                 new_meta (GetPartitionGroupStatefulSetName g) (om_Namespace (pg_Meta g))
                   (newPartitionGroupLabels g),
               sts_ServiceName = GetPartitionGroupServiceName g,
               sts_Replicas = Some (gs_Size (pg_Spec g)),
               sts_Selector = Some (match_labels (newPartitionGroupLabels g)),
               sts_UpdateStrategy = RollingUpdateStatefulSetStrategyType,
               sts_PodManagementPolicy = ParallelPodManagement,
               sts_TemplateLabels = newPartitionGroupLabels g,
               sts_TemplateSpec =
                 \<lparr>ps_Affinity = Some (newAffinity (GetPartitionGroupStatefulSetName g)),
                  ps_InitContainers = newInitContainers (gs_Size (pg_Spec g)),
                  ps_Containers =
                    newPersistentContainers (gs_Version (pg_Spec g)) (gs_Env (pg_Spec g))
                      (gs_Resources (pg_Spec g)),
                  ps_Volumes =
                    [newInitScriptsVolume (GetPartitionGroupInitConfigMapName g),
                     newUserConfigVolume (GetPartitionGroupSystemConfigMapName g),
                     newSystemConfigVolume]\<rparr>,
               sts_VolumeClaimTemplates = claims\<rparr>)"

definition NewPartitionGroupStatefulSet :: "partition_group \<Rightarrow> go_error + stateful_set option" where
  "NewPartitionGroupStatefulSet g =
     (case GetPartitionGroupType g of
        Inl err \<Rightarrow> Inl err
      | Inr groupType \<Rightarrow>
          if groupType = RaftType then
            (case gs_Raft (pg_Spec g) of
               None \<Rightarrow> Inr None
             | Some r \<Rightarrow>
                 map_sum id Some
                   (newPersistentPartitionGroupStatefulSet g (pp_Storage (rpg_Persistent r))))
          else if groupType = PrimaryBackupType then
            map_sum id Some (newEphemeralPartitionGroupStatefulSet g)
          else if groupType = LogType then
            (case gs_Log (pg_Spec g) of
               None \<Rightarrow> Inr None
             | Some l \<Rightarrow>
                 map_sum id Some
                   (newPersistentPartitionGroupStatefulSet g (pp_Storage (lpg_Persistent l))))
          else Inr None)"

subsection \<open>The type switch\<close>

text \<open>The nil results at the end of the two type switches are never returned.\<close>

lemma NewPartitionGroupConfigMap_not_nil [simp]: "NewPartitionGroupConfigMap g \<noteq> Inr None"
  by (cases g rule: GetPartitionGroupType_cases) (simp_all add: NewPartitionGroupConfigMap_def)

lemma NewPartitionGroupStatefulSet_not_nil [simp]: "NewPartitionGroupStatefulSet g \<noteq> Inr None"
  by (cases g rule: GetPartitionGroupType_cases)
    (auto simp: NewPartitionGroupStatefulSet_def newPersistentPartitionGroupStatefulSet_def
      newEphemeralPartitionGroupStatefulSet_def split: sum.splits)

lemma NewPartitionGroupConfigMap_Inl:
  "NewPartitionGroupConfigMap g = Inl e \<longleftrightarrow> GetPartitionGroupType g = Inl e"
  by (cases g rule: GetPartitionGroupType_cases) (simp_all add: NewPartitionGroupConfigMap_def)

lemma NewPartitionGroupConfigMap_meta:
  "NewPartitionGroupConfigMap g = Inr (Some cm) \<Longrightarrow>
   cm_Meta cm = new_meta (GetPartitionGroupSystemConfigMapName g) (om_Namespace (pg_Meta g))
     (newPartitionGroupLabels g)"
  by (cases g rule: GetPartitionGroupType_cases)
    (auto simp: NewPartitionGroupConfigMap_def newRaftPartitionGroupConfigMap_def
      newPrimaryBackupPartitionGroupConfigMap_def newLogPartitionGroupConfigMap_def)

text \<open>The storage section whose size becomes a volume claim, if the protocol has one.\<close>

definition group_storage :: "partition_group \<Rightarrow> storage option" where
  "group_storage g =
     (case gs_Raft (pg_Spec g) of
        Some r \<Rightarrow> Some (pp_Storage (rpg_Persistent r))
      | None \<Rightarrow>
          (case gs_PrimaryBackup (pg_Spec g) of
             Some b \<Rightarrow> None
           | None \<Rightarrow> map_option (\<lambda>l. pp_Storage (lpg_Persistent l)) (gs_Log (pg_Spec g))))"

lemma NewPartitionGroupStatefulSet_Inl:
  "NewPartitionGroupStatefulSet g = Inl e \<longleftrightarrow>
   GetPartitionGroupType g = Inl e \<or>
   (\<exists>s. group_storage g = Some s \<and> ParseQuantity (st_Size s) = Inl e)"
  by (cases g rule: GetPartitionGroupType_cases)
    (auto simp: NewPartitionGroupStatefulSet_def newPersistentPartitionGroupStatefulSet_def
      newEphemeralPartitionGroupStatefulSet_def group_storage_def newPersistentVolumeClaims_Inl
      newPersistentVolumeClaims_Inr split: sum.splits)

lemma wf_ephemeral_pod_spec:
  "wf_pod_spec
     \<lparr>ps_Affinity = a, ps_InitContainers = newInitContainers n,
      ps_Containers = newEphemeralContainers v e r,
      ps_Volumes = [newInitScriptsVolume i, newUserConfigVolume u, newSystemConfigVolume]\<rparr> []"
  by (simp add: wf_pod_spec_def mounts_resolve_def build_defs volume_const_defs)

text \<open>What both kinds of stateful sets have in common.\<close>

lemma NewPartitionGroupStatefulSet_SomeE:
  assumes "NewPartitionGroupStatefulSet g = Inr (Some s)"
  shows "sts_Meta s = new_meta (GetPartitionGroupStatefulSetName g) (om_Namespace (pg_Meta g))
      (newPartitionGroupLabels g)"
    and "sts_ServiceName s = GetPartitionGroupServiceName g"
    and "sts_Replicas s = Some (gs_Size (pg_Spec g))"
    and "sts_Selector s = Some (match_labels (newPartitionGroupLabels g))"
    and "sts_TemplateLabels s = newPartitionGroupLabels g"
    and "ps_Volumes (sts_TemplateSpec s) =
      [newInitScriptsVolume (GetPartitionGroupInitConfigMapName g),
       newUserConfigVolume (GetPartitionGroupSystemConfigMapName g), newSystemConfigVolume]"
    and "wf_pod_spec (sts_TemplateSpec s) (sts_VolumeClaimTemplates s)"
  using assms
  by (cases g rule: GetPartitionGroupType_cases;
      auto simp: NewPartitionGroupStatefulSet_def newPersistentPartitionGroupStatefulSet_def
        newEphemeralPartitionGroupStatefulSet_def wf_ephemeral_pod_spec
        intro: wf_persistent_pod_spec split: sum.splits)+

subsection \<open>The text of the configuration\<close>

text \<open>
  The lines that all three configurations start with, and then the lines of each protocol with
  the values in place.
\<close>

definition config_head :: "string list" where
  \<open>config_head =
     ['''',
      ''cluster {'',
      ''    node: ${atomix.node}'',
      '''',
      ''    discovery {'',
      ''        type: dns'',
      ''        service: ${atomix.service},'',
      ''    }'',
      ''}'',
      '''']\<close>

lemma newRaftPartitionGroupConfig_lines:
  "newRaftPartitionGroupConfig g raft = text_lines (config_head @
     [''partitionGroups.'' @ om_Name (pg_Meta g) @ '' {'',
      ''    type: raft'',
      ''    partitions: '' @ show_int (sint (gs_Partitions (pg_Spec g))),
      ''    partitionSize: '' @ show_int (sint (rpg_PartitionSize raft)),
      ''    members: ${atomix.members}'',
      ''    storage.level: '' @ st_Level (pp_Storage (rpg_Persistent raft)),
      ''}'',
      []])"
  by (simp add: newRaftPartitionGroupConfig_def raft_config_format_def config_head_def newline_def)

lemma newPrimaryBackupPartitionGroupConfig_lines:
  "newPrimaryBackupPartitionGroupConfig g pb = text_lines (config_head @
     [''partitionGroups.'' @ om_Name (pg_Meta g) @ '' {'',
      ''    type: primary-backup'',
      ''    partitions: '' @ show_int (sint (gs_Partitions (pg_Spec g))),
      ''    memberGroupStrategy: '' @ pbg_MemberGroupStrategy pb,
      ''}'',
      []])"
  by (simp add: newPrimaryBackupPartitionGroupConfig_def primary_backup_config_format_def
      config_head_def newline_def)

lemma newLogPartitionGroupConfig_lines:
  "newLogPartitionGroupConfig g lg = text_lines (config_head @
     [''partitionGroups.'' @ om_Name (pg_Meta g) @ '' {'',
      ''    type: log'',
      ''    partitions: '' @ show_int (sint (gs_Partitions (pg_Spec g))),
      ''    memberGroupStrategy: '' @ lpg_MemberGroupStrategy lg,
      ''    storage.level: '' @ st_Level (pp_Storage (lpg_Persistent lg)),
      ''}'',
      []])"
  by (simp add: newLogPartitionGroupConfig_def log_config_format_def config_head_def newline_def)

end
