(* ===== verification/Benchmark_Resources.thy ===== *)
theory Benchmark_Resources
  imports Group_Resources
begin

section \<open>Resources of a benchmark\<close>

text \<open>
  \<^verbatim>\<open>pkg/controller/util/benchmark.go\<close>: the names, labels, config maps, pod, stateful set and
  services of the coordinator and of the workers of an \<^verbatim>\<open>AtomixBenchmark\<close>. The naming
  functions of the two halves are separate functions with the same bodies; the lemmas at the
  end state which names coincide.
\<close>

subsection \<open>Coordinator\<close>

definition newBenchmarkControllerLabels :: "atomix_benchmark \<Rightarrow> labels" where
  "newBenchmarkControllerLabels b =
     fmap_of_list
       [(AppKey, AtomixApp),
        (ClusterKey, bs_Cluster (ab_Spec b)),
        (TypeKey, BenchCoordinatorType)]"

definition getBenchmarkControllerResourceName :: "atomix_benchmark \<Rightarrow> string \<Rightarrow> string" where
  "getBenchmarkControllerResourceName b res =
     sprintf ''%s-%s'' [StrArg (om_Name (ab_Meta b)), StrArg res]"

definition GetBenchmarkControllerServiceName :: "atomix_benchmark \<Rightarrow> string" where
  "GetBenchmarkControllerServiceName b = getBenchmarkControllerResourceName b ServiceSuffix"

definition GetBenchmarkControllerInitConfigMapName :: "atomix_benchmark \<Rightarrow> string" where
  "GetBenchmarkControllerInitConfigMapName b = getBenchmarkControllerResourceName b InitSuffix"

definition GetBenchmarkControllerSystemConfigMapName :: "atomix_benchmark \<Rightarrow> string" where
  "GetBenchmarkControllerSystemConfigMapName b = getBenchmarkControllerResourceName b ConfigSuffix"

definition GetBenchmarkControllerPodName :: "atomix_benchmark \<Rightarrow> string" where
  "GetBenchmarkControllerPodName b = om_Name (ab_Meta b)"

definition benchmark_script_format :: string where
  \<open>benchmark_script_format = text_lines
     ['''',
      ''#!/usr/bin/env bash'',
      '''',
      ''HOST=$(hostname -s)'',
      '''',
      ''function create_config() {'',
      ''    echo "atomix.service=%s"'',
      ''    echo "atomix.node.id=$HOST"'',
      ''    echo "atomix.node.host=%s"'',
      ''    echo "atomix.node.port=5679"'',
      ''}'',
      '''',
      ''create_config'']\<close>

definition newBenchmarkControllerInitConfigMapScript :: "atomix_benchmark \<Rightarrow> string" where
  "newBenchmarkControllerInitConfigMapScript b =
     sprintf benchmark_script_format
       [StrArg (getManagementServiceDnsName
          (NamespacedName (om_Namespace (ab_Meta b)) (bs_Cluster (ab_Spec b)))),
        StrArg (GetBenchmarkControllerServiceName b)]"

definition NewBenchmarkControllerInitConfigMap :: "atomix_benchmark \<Rightarrow> config_map" where
  "NewBenchmarkControllerInitConfigMap b =
     \<lparr>cm_Meta =
        new_meta (GetBenchmarkControllerInitConfigMapName b) (om_Namespace (ab_Meta b))
          (newBenchmarkControllerLabels b),
      cm_Data =
        fmap_of_list [(''create_config.sh'', newBenchmarkControllerInitConfigMapScript b)]\<rparr>"

definition benchmark_config_format :: string where
  \<open>benchmark_config_format = text_lines
     ['''',
      ''cluster {'',
      ''    node: ${atomix.node}'',
      '''',
      ''    discovery {'',
      ''        type: dns'',
      ''        service: ${atomix.service},'',
      ''    }'',
      ''}'']\<close>

definition newBenchmarkControllerConfig :: "atomix_benchmark \<Rightarrow> string" where
  "newBenchmarkControllerConfig b = sprintf benchmark_config_format []"

definition NewBenchmarkControllerSystemConfigMap :: "atomix_benchmark \<Rightarrow> config_map" where
  "NewBenchmarkControllerSystemConfigMap b =
     \<lparr>cm_Meta =
        new_meta (GetBenchmarkControllerSystemConfigMapName b) (om_Namespace (ab_Meta b))
          (newBenchmarkControllerLabels b),
      cm_Data = fmap_of_list [(''atomix.conf'', newBenchmarkControllerConfig b)]\<rparr>"

definition NewBenchmarkControllerPod :: "atomix_benchmark \<Rightarrow> pod" where
  "NewBenchmarkControllerPod b =
     \<lparr>pod_Meta =
        new_meta (GetBenchmarkControllerPodName b) (om_Namespace (ab_Meta b))
          (newBenchmarkControllerLabels b),
      pod_Spec =
        \<lparr>ps_Affinity = None,
         ps_InitContainers = newInitContainers 1,
         ps_Containers =
           newBenchmarkContainers (bs_Version (ab_Spec b)) (bs_Env (ab_Spec b))
             (bs_Resources (ab_Spec b)),
         ps_Volumes =
           [newInitScriptsVolume (GetBenchmarkControllerInitConfigMapName b),
            newUserConfigVolume (GetBenchmarkControllerSystemConfigMapName b),
            newSystemConfigVolume]\<rparr>\<rparr>"

definition NewBenchmarkControllerService :: "atomix_benchmark \<Rightarrow> service" where
  "NewBenchmarkControllerService b =
     \<lparr>svc_Meta =
        (new_meta (GetBenchmarkControllerServiceName b) (om_Namespace (ab_Meta b))
           (newBenchmarkControllerLabels b))
          \<lparr>om_Annotations := tolerate_unready_annotations\<rparr>,
      svc_Ports =
        [\<lparr>sp_Name = om_Name (ab_Meta b) @ ''-api'', sp_Port = 5678\<rparr>,
         \<lparr>sp_Name = om_Name (ab_Meta b) @ ''-node'', sp_Port = 5679\<rparr>],
      svc_PublishNotReadyAddresses = True,
      svc_ClusterIP = ''None'',
      svc_Selector = newBenchmarkControllerLabels b\<rparr>"

subsection \<open>Workers\<close>

definition newBenchmarkWorkerLabels :: "atomix_benchmark \<Rightarrow> labels" where
  "newBenchmarkWorkerLabels b =
     fmap_of_list
       [(AppKey, AtomixApp),
        (ClusterKey, bs_Cluster (ab_Spec b)),
        (TypeKey, BenchWorkerType)]"

definition getBenchmarkWorkerResourceName :: "atomix_benchmark \<Rightarrow> string \<Rightarrow> string" where
  "getBenchmarkWorkerResourceName b res =
     sprintf ''%s-%s'' [StrArg (om_Name (ab_Meta b)), StrArg res]"

definition GetBenchmarkWorkerServiceName :: "atomix_benchmark \<Rightarrow> string" where
  "GetBenchmarkWorkerServiceName b = getBenchmarkWorkerResourceName b ServiceSuffix"

definition GetBenchmarkWorkerInitConfigMapName :: "atomix_benchmark \<Rightarrow> string" where
  "GetBenchmarkWorkerInitConfigMapName b = getBenchmarkWorkerResourceName b InitSuffix"

definition GetBenchmarkWorkerSystemConfigMapName :: "atomix_benchmark \<Rightarrow> string" where
  "GetBenchmarkWorkerSystemConfigMapName b = getBenchmarkWorkerResourceName b ConfigSuffix"

definition GetBenchmarkWorkerStatefulSetName :: "atomix_benchmark \<Rightarrow> string" where
  "GetBenchmarkWorkerStatefulSetName b = om_Name (ab_Meta b)"

definition NewBenchmarkWorkerInitConfigMap :: "atomix_benchmark \<Rightarrow> config_map" where
  "NewBenchmarkWorkerInitConfigMap b =
     \<lparr>cm_Meta =
        new_meta (GetBenchmarkWorkerInitConfigMapName b) (om_Namespace (ab_Meta b))
          (newBenchmarkWorkerLabels b),
      cm_Data =
        fmap_of_list
          [(''create_config.sh'',
            newInitConfigMapScript (NamespacedName (om_Namespace (ab_Meta b)) (om_Name (ab_Meta b))))]\<rparr>"

definition newBenchmarkWorkerConfig :: "atomix_benchmark \<Rightarrow> string" where
  "newBenchmarkWorkerConfig b = sprintf benchmark_config_format []"

definition NewBenchmarkWorkerSystemConfigMap :: "atomix_benchmark \<Rightarrow> config_map" where
  "NewBenchmarkWorkerSystemConfigMap b =
     \<lparr>cm_Meta =
        new_meta (GetBenchmarkWorkerSystemConfigMapName b) (om_Namespace (ab_Meta b))
          (newBenchmarkWorkerLabels b),
      cm_Data = fmap_of_list [(''atomix.conf'', newBenchmarkWorkerConfig b)]\<rparr>"

definition NewBenchmarkWorkerStatefulSet :: "atomix_benchmark \<Rightarrow> stateful_set" where
  "NewBenchmarkWorkerStatefulSet b =
     \<lparr>sts_Meta =
        new_meta (GetBenchmarkWorkerStatefulSetName b) (om_Namespace (ab_Meta b))
          (newBenchmarkWorkerLabels b),
      sts_ServiceName = GetBenchmarkWorkerServiceName b,
      sts_Replicas = Some (bs_Workers (ab_Spec b)),
      sts_Selector = Some (match_labels (newBenchmarkWorkerLabels b)),
      sts_UpdateStrategy = [],
      sts_PodManagementPolicy = ParallelPodManagement,
      sts_TemplateLabels = newBenchmarkWorkerLabels b,
      sts_TemplateSpec =
        \<lparr>ps_Affinity = None,
         ps_InitContainers = newInitContainers (bs_Workers (ab_Spec b)),
         ps_Containers =
           newBenchmarkContainers (bs_Version (ab_Spec b)) (bs_Env (ab_Spec b))
             (bs_Resources (ab_Spec b)),
         ps_Volumes =
           [newInitScriptsVolume (GetBenchmarkWorkerInitConfigMapName b),
            newUserConfigVolume (GetBenchmarkWorkerSystemConfigMapName b),
            newSystemConfigVolume]\<rparr>,
      sts_VolumeClaimTemplates = []\<rparr>"

definition NewBenchmarkWorkerService :: "atomix_benchmark \<Rightarrow> service" where
  "NewBenchmarkWorkerService b =
     \<lparr>svc_Meta =
        (new_meta (GetBenchmarkWorkerServiceName b) (om_Namespace (ab_Meta b))
           (newBenchmarkWorkerLabels b))
          \<lparr>om_Annotations := tolerate_unready_annotations\<rparr>,
      svc_Ports = [\<lparr>sp_Name = om_Name (ab_Meta b) @ ''-node'', sp_Port = 5679\<rparr>],
      svc_PublishNotReadyAddresses = True,
      svc_ClusterIP = ''None'',
      svc_Selector = newBenchmarkWorkerLabels b\<rparr>"

subsection \<open>Names\<close>

lemma getBenchmarkControllerResourceName_eq [simp]:
  "getBenchmarkControllerResourceName b s = om_Name (ab_Meta b) @ ''-'' @ s"
  by (simp add: getBenchmarkControllerResourceName_def)

lemma getBenchmarkWorkerResourceName_eq [simp]:
  "getBenchmarkWorkerResourceName b s = om_Name (ab_Meta b) @ ''-'' @ s"
  by (simp add: getBenchmarkWorkerResourceName_def)

lemmas benchmark_controller_name_defs [name_defs] =
  GetBenchmarkControllerServiceName_def GetBenchmarkControllerInitConfigMapName_def
  GetBenchmarkControllerSystemConfigMapName_def GetBenchmarkControllerPodName_def

lemmas benchmark_worker_name_defs [name_defs] =
  GetBenchmarkWorkerServiceName_def GetBenchmarkWorkerInitConfigMapName_def
  GetBenchmarkWorkerSystemConfigMapName_def GetBenchmarkWorkerStatefulSetName_def

lemma benchmark_names_coincide:
  "GetBenchmarkWorkerInitConfigMapName b = GetBenchmarkControllerInitConfigMapName b"
  "GetBenchmarkWorkerSystemConfigMapName b = GetBenchmarkControllerSystemConfigMapName b"
  "GetBenchmarkWorkerServiceName b = GetBenchmarkControllerServiceName b"
  by (simp_all add: name_defs)

text \<open>The labels of the two halves differ in their type.\<close>

lemma benchmark_labels_lookup:
  "fmlookup (newBenchmarkControllerLabels b) TypeKey = Some BenchCoordinatorType"
  "fmlookup (newBenchmarkWorkerLabels b) TypeKey = Some BenchWorkerType"
  by (simp_all add: newBenchmarkControllerLabels_def newBenchmarkWorkerLabels_def
      fmlookup_of_list label_const_defs)

lemma benchmark_labels_distinct [simp]:
  "newBenchmarkControllerLabels b \<noteq> newBenchmarkWorkerLabels b'"
proof
  assume "newBenchmarkControllerLabels b = newBenchmarkWorkerLabels b'"
  then have "fmlookup (newBenchmarkControllerLabels b) TypeKey =
    fmlookup (newBenchmarkWorkerLabels b') TypeKey" by simp
  then have "BenchCoordinatorType = BenchWorkerType"
    by (simp only: benchmark_labels_lookup option.inject)
  then show False by (simp add: label_const_defs)
qed

subsection \<open>The text of the coordinator's script\<close>

definition benchmark_script_lines :: "string \<Rightarrow> string \<Rightarrow> string list" where
  \<open>benchmark_script_lines service host =
     ['''',
      ''#!/usr/bin/env bash'',
      '''',
      ''HOST=$(hostname -s)'',
      '''',
      ''function create_config() {'',
      ''    echo "atomix.service='' @ service @ ''"'',
      ''    echo "atomix.node.id=$HOST"'',
      ''    echo "atomix.node.host='' @ host @ ''"'',
      ''    echo "atomix.node.port=5679"'',
      ''}'',
      '''',
      ''create_config'']\<close>

lemma newBenchmarkControllerInitConfigMapScript_lines:
  "newBenchmarkControllerInitConfigMapScript b =
   text_lines (benchmark_script_lines
     (getManagementServiceDnsName
        (NamespacedName (om_Namespace (ab_Meta b)) (bs_Cluster (ab_Spec b))))
     (GetBenchmarkControllerServiceName b))"
  by (simp add: newBenchmarkControllerInitConfigMapScript_def benchmark_script_format_def
      benchmark_script_lines_def newline_def)

lemma wf_benchmark_pod_spec:
  "wf_pod_spec
     \<lparr>ps_Affinity = a, ps_InitContainers = newInitContainers n,
      ps_Containers = newBenchmarkContainers v e r,
      ps_Volumes = [newInitScriptsVolume i, newUserConfigVolume u, newSystemConfigVolume]\<rparr> []"
  by (simp add: wf_pod_spec_def mounts_resolve_def build_defs volume_const_defs)

end
