(* ===== verification/Objects.thy ===== *)
theory Objects
  imports Benchmark_Resources
begin

section \<open>Objects, keys and the type registry\<close>

text \<open>
  The objects the operator reads and creates as one type, the key an object is stored under,
  and the scheme that maps Go types to group, version and kind
  (\<^verbatim>\<open>k8s.io/apimachinery/pkg/runtime\<close>). \<open>Registration\<close> fills it.
\<close>

subsection \<open>Go types and objects\<close>

datatype go_type =
    ConfigMapT | ServiceT | StatefulSetT | PodT | PodDisruptionBudgetT
  | AtomixClusterT | AtomixClusterListT
  | PartitionGroupT | PartitionGroupListT
  | AtomixBenchmarkT | AtomixBenchmarkListT

text \<open>The types are finitely many, so that properties of all of them can be evaluated.\<close>

instantiation go_type :: enum
begin

definition enum_go_type :: "go_type list" where
  "enum_go_type =
     [ConfigMapT, ServiceT, StatefulSetT, PodT, PodDisruptionBudgetT, AtomixClusterT,
      AtomixClusterListT, PartitionGroupT, PartitionGroupListT, AtomixBenchmarkT,
      AtomixBenchmarkListT]"

definition enum_all_go_type :: "(go_type \<Rightarrow> bool) \<Rightarrow> bool" where
  "enum_all_go_type P = list_all P enum_class.enum"

definition enum_ex_go_type :: "(go_type \<Rightarrow> bool) \<Rightarrow> bool" where
  "enum_ex_go_type P = list_ex P enum_class.enum"

instance
proof
  have all: "t \<in> set enum_class.enum" for t :: go_type by (cases t) (simp_all add: enum_go_type_def)
  then show "(UNIV :: go_type set) = set enum_class.enum" by auto
  show "distinct (enum_class.enum :: go_type list)" by (simp add: enum_go_type_def)
  show "enum_class.enum_all P \<longleftrightarrow> Ball UNIV P" for P :: "go_type \<Rightarrow> bool"
    using all by (auto simp: enum_all_go_type_def list_all_iff)
  show "enum_class.enum_ex P \<longleftrightarrow> Bex UNIV P" for P :: "go_type \<Rightarrow> bool"
    using all by (auto simp: enum_ex_go_type_def list_ex_iff)
qed

end

datatype kobj =
    ConfigMapO config_map
  | ServiceO service
  | StatefulSetO stateful_set
  | PodO pod
  | PodDisruptionBudgetO pod_disruption_budget
  | AtomixClusterO atomix_cluster
  | PartitionGroupO partition_group
  | AtomixBenchmarkO atomix_benchmark

fun type_of :: "kobj \<Rightarrow> go_type" where
  "type_of (ConfigMapO x) = ConfigMapT"
| "type_of (ServiceO x) = ServiceT"
| "type_of (StatefulSetO x) = StatefulSetT"
| "type_of (PodO x) = PodT"
| "type_of (PodDisruptionBudgetO x) = PodDisruptionBudgetT"
| "type_of (AtomixClusterO x) = AtomixClusterT"
| "type_of (PartitionGroupO x) = PartitionGroupT"
| "type_of (AtomixBenchmarkO x) = AtomixBenchmarkT"

fun meta_of :: "kobj \<Rightarrow> object_meta" where
  "meta_of (ConfigMapO x) = cm_Meta x"
| "meta_of (ServiceO x) = svc_Meta x"
| "meta_of (StatefulSetO x) = sts_Meta x"
| "meta_of (PodO x) = pod_Meta x"
| "meta_of (PodDisruptionBudgetO x) = pdb_Meta x"
| "meta_of (AtomixClusterO x) = ac_Meta x"
| "meta_of (PartitionGroupO x) = pg_Meta x"
| "meta_of (AtomixBenchmarkO x) = ab_Meta x"

fun map_meta :: "(object_meta \<Rightarrow> object_meta) \<Rightarrow> kobj \<Rightarrow> kobj" where
  "map_meta f (ConfigMapO x) = ConfigMapO (x\<lparr>cm_Meta := f (cm_Meta x)\<rparr>)"
| "map_meta f (ServiceO x) = ServiceO (x\<lparr>svc_Meta := f (svc_Meta x)\<rparr>)"
| "map_meta f (StatefulSetO x) = StatefulSetO (x\<lparr>sts_Meta := f (sts_Meta x)\<rparr>)"
| "map_meta f (PodO x) = PodO (x\<lparr>pod_Meta := f (pod_Meta x)\<rparr>)"
| "map_meta f (PodDisruptionBudgetO x) = PodDisruptionBudgetO (x\<lparr>pdb_Meta := f (pdb_Meta x)\<rparr>)"
| "map_meta f (AtomixClusterO x) = AtomixClusterO (x\<lparr>ac_Meta := f (ac_Meta x)\<rparr>)"
| "map_meta f (PartitionGroupO x) = PartitionGroupO (x\<lparr>pg_Meta := f (pg_Meta x)\<rparr>)"
| "map_meta f (AtomixBenchmarkO x) = AtomixBenchmarkO (x\<lparr>ab_Meta := f (ab_Meta x)\<rparr>)"

lemma meta_of_map_meta [simp]: "meta_of (map_meta f ob) = f (meta_of ob)"
  by (cases ob) simp_all

lemma type_of_map_meta [simp]: "type_of (map_meta f ob) = type_of ob"
  by (cases ob) simp_all

lemma map_meta_map_meta [simp]: "map_meta f (map_meta g ob) = map_meta (\<lambda>m. f (g m)) ob"
  by (cases ob) simp_all

subsection \<open>Keys\<close>

text \<open>An object is stored under its type, namespace and name.\<close>

type_synonym obj_key = "go_type \<times> namespaced_name"

definition meta_name :: "object_meta \<Rightarrow> namespaced_name" where
  "meta_name m = NamespacedName (om_Namespace m) (om_Name m)"

definition key_of :: "kobj \<Rightarrow> obj_key" where
  "key_of ob = (type_of ob, meta_name (meta_of ob))"

text \<open>The server assigns the UID of a new object.\<close>

definition with_uid :: "string \<Rightarrow> kobj \<Rightarrow> kobj" where
  "with_uid u = map_meta (\<lambda>m. m\<lparr>om_UID := u\<rparr>)"

lemma key_of_with_uid [simp]: "key_of (with_uid u ob) = key_of ob"
  by (simp add: key_of_def with_uid_def meta_name_def)

lemma meta_name_new_meta [simp]: "meta_name (new_meta n ns l) = NamespacedName ns n"
  by (simp add: meta_name_def new_meta_def)

subsection \<open>The scheme\<close>

record gvk =
  gvk_Group :: string
  gvk_Version :: string
  gvk_Kind :: string

text \<open>
  The types of \<^verbatim>\<open>metav1\<close> that \<^verbatim>\<open>metav1.AddToGroupVersion\<close> registers beside those of an API group.
  No object of these types is ever stored, so they are kept apart from the types of objects.
\<close>

datatype meta_type =
    WatchEventT | InternalEventT
  | ListOptionsT | ExportOptionsT | GetOptionsT | DeleteOptionsT | CreateOptionsT | UpdateOptionsT
  | StatusT | APIVersionsT | APIGroupListT | APIGroupT | APIResourceListT

datatype reflect_type = ObjectType go_type | MetaType meta_type

text \<open>
  Of the struct \<^verbatim>\<open>Scheme\<close>, the two maps between kinds and types and those of the unversioned types.
  What conversion, defaulting and the priority of versions use is left out: \<^verbatim>\<open>converter\<close>,
  \<^verbatim>\<open>fieldLabelConversionFuncs\<close>, \<^verbatim>\<open>defaulterFuncs\<close>, \<^verbatim>\<open>versionPriority\<close>, \<^verbatim>\<open>observedVersions\<close>
  and the name.
\<close>

record scheme =
  sch_gvkToType :: "gvk \<rightharpoonup> reflect_type"
  sch_typeToGVK :: "reflect_type \<rightharpoonup> gvk list"
  sch_unversionedTypes :: "reflect_type \<rightharpoonup> gvk"
  sch_unversionedKinds :: "string \<rightharpoonup> reflect_type"

definition NewScheme :: scheme where
  "NewScheme =
     \<lparr>sch_gvkToType = Map.empty, sch_typeToGVK = Map.empty, sch_unversionedTypes = Map.empty,
      sch_unversionedKinds = Map.empty\<rparr>"

text \<open>\<^verbatim>\<open>reflect.Type.Name\<close> of the registered structs.\<close>

fun type_name :: "go_type \<Rightarrow> string" where
  "type_name ConfigMapT = ''ConfigMap''"
| "type_name ServiceT = ''Service''"
| "type_name StatefulSetT = ''StatefulSet''"
| "type_name PodT = ''Pod''"
| "type_name PodDisruptionBudgetT = ''PodDisruptionBudget''"
| "type_name AtomixClusterT = ''AtomixCluster''"
| "type_name AtomixClusterListT = ''AtomixClusterList''"
| "type_name PartitionGroupT = ''PartitionGroup''"
| "type_name PartitionGroupListT = ''PartitionGroupList''"
| "type_name AtomixBenchmarkT = ''AtomixBenchmark''"
| "type_name AtomixBenchmarkListT = ''AtomixBenchmarkList''"

fun meta_type_name :: "meta_type \<Rightarrow> string" where
  "meta_type_name WatchEventT = ''WatchEvent''"
| "meta_type_name InternalEventT = ''InternalEvent''"
| "meta_type_name ListOptionsT = ''ListOptions''"
| "meta_type_name ExportOptionsT = ''ExportOptions''"
| "meta_type_name GetOptionsT = ''GetOptions''"
| "meta_type_name DeleteOptionsT = ''DeleteOptions''"
| "meta_type_name CreateOptionsT = ''CreateOptions''"
| "meta_type_name UpdateOptionsT = ''UpdateOptions''"
| "meta_type_name StatusT = ''Status''"
| "meta_type_name APIVersionsT = ''APIVersions''"
| "meta_type_name APIGroupListT = ''APIGroupList''"
| "meta_type_name APIGroupT = ''APIGroup''"
| "meta_type_name APIResourceListT = ''APIResourceList''"

fun reflect_name :: "reflect_type \<Rightarrow> string" where
  "reflect_name (ObjectType t) = type_name t"
| "reflect_name (MetaType m) = meta_type_name m"

definition WithKind :: "string \<times> string \<Rightarrow> string \<Rightarrow> gvk" where
  "WithKind gv k = \<lparr>gvk_Group = fst gv, gvk_Version = snd gv, gvk_Kind = k\<rparr>"

text \<open>
  Registration of a type under a kind. \<open>None\<close> is a panic: a kind without a version, or one that
  already belongs to another type.
\<close>

definition AddKnownTypeWithName :: "gvk \<Rightarrow> reflect_type \<Rightarrow> scheme \<Rightarrow> scheme option" where
  "AddKnownTypeWithName g t s =
     (if length (gvk_Version g) = 0 then None
      else if (case sch_gvkToType s g of Some oldT \<Rightarrow> oldT \<noteq> t | None \<Rightarrow> False) then None
      else
        (let s1 = s\<lparr>sch_gvkToType := (sch_gvkToType s)(g \<mapsto> t)\<rparr>;
             gs = (case sch_typeToGVK s1 t of Some gs \<Rightarrow> gs | None \<Rightarrow> [])
         in if g \<in> set gs then Some s1
            else Some (s1\<lparr>sch_typeToGVK := (sch_typeToGVK s1)(t \<mapsto> gs @ [g])\<rparr>)))"

fun AddKnownTypes :: "string \<times> string \<Rightarrow> reflect_type list \<Rightarrow> scheme \<Rightarrow> scheme option" where
  "AddKnownTypes gv [] s = Some s"
| "AddKnownTypes gv (t # ts) s =
     Option.bind (AddKnownTypeWithName (WithKind gv (reflect_name t)) t s) (AddKnownTypes gv ts)"

text \<open>The loop of \<^verbatim>\<open>AddUnversionedTypes\<close>, which panics when a kind is that of another type.\<close>

definition mark_unversioned :: "gvk \<Rightarrow> reflect_type \<Rightarrow> scheme \<Rightarrow> scheme option" where
  "mark_unversioned g t s =
     (let s1 = s\<lparr>sch_unversionedTypes := (sch_unversionedTypes s)(t \<mapsto> g)\<rparr>
      in if (case sch_unversionedKinds s1 (gvk_Kind g) of Some oldT \<Rightarrow> oldT \<noteq> t | None \<Rightarrow> False) then None
         else Some (s1\<lparr>sch_unversionedKinds := (sch_unversionedKinds s1)(gvk_Kind g \<mapsto> t)\<rparr>))"

fun mark_all_unversioned :: "string \<times> string \<Rightarrow> reflect_type list \<Rightarrow> scheme \<Rightarrow> scheme option" where
  "mark_all_unversioned gv [] s = Some s"
| "mark_all_unversioned gv (t # ts) s =
     Option.bind (mark_unversioned (WithKind gv (reflect_name t)) t s) (mark_all_unversioned gv ts)"

definition AddUnversionedTypes :: "string \<times> string \<Rightarrow> reflect_type list \<Rightarrow> scheme \<Rightarrow> scheme option" where
  "AddUnversionedTypes gv ts s =
     Option.bind (AddKnownTypes gv ts s) (mark_all_unversioned gv ts)"

definition not_registered :: "go_type \<Rightarrow> go_error" where
  "not_registered t = ErrorString (''no kind is registered for the type '' @ type_name t)"

definition ObjectKinds :: "scheme \<Rightarrow> go_type \<Rightarrow> go_error + gvk list \<times> bool" where
  "ObjectKinds s t =
     (case sch_typeToGVK s (ObjectType t) of
        None \<Rightarrow> Inl (not_registered t)
      | Some gs \<Rightarrow> Inr (gs, sch_unversionedTypes s (ObjectType t) \<noteq> None))"

definition GVKForObject :: "go_type \<Rightarrow> scheme \<Rightarrow> go_error + gvk" where
  "GVKForObject t s =
     (case ObjectKinds s t of
        Inl err \<Rightarrow> Inl err
      | Inr (gs, isUnversioned) \<Rightarrow>
          if isUnversioned then
            Inl (ErrorString (''cannot create a new informer for the unversioned type '' @ type_name t))
          else if length gs < 1 then
            Inl (ErrorString (''no group-version-kinds associated with type '' @ type_name t))
          else if 1 < length gs then
            Inl (ErrorString (''multiple group-version-kinds associated with type '' @ type_name t))
          else Inr (hd gs))"

lemma GVKForObject_not_NotFound: "GVKForObject t s = Inl e \<Longrightarrow> \<not> IsNotFound e"
  by (auto simp: GVKForObject_def ObjectKinds_def not_registered_def
      split: sum.splits option.splits prod.splits if_splits)

subsection \<open>A scheme with the custom resources\<close>

definition agent_gvk :: "go_type \<Rightarrow> gvk" where
  "agent_gvk t =
     \<lparr>gvk_Group = ''agent.atomix.io'', gvk_Version = ''v1alpha1'', gvk_Kind = type_name t\<rparr>"

text \<open>A scheme that has the custom resources under exactly one group, version and kind each.\<close>

definition scheme_ready :: "scheme \<Rightarrow> bool" where
  "scheme_ready s \<longleftrightarrow>
     list_all (\<lambda>t. GVKForObject t s = Inr (agent_gvk t))
       [AtomixClusterT, PartitionGroupT, AtomixBenchmarkT]"

lemma scheme_readyD:
  assumes "scheme_ready s"
  shows "GVKForObject AtomixClusterT s = Inr (agent_gvk AtomixClusterT)"
    and "GVKForObject PartitionGroupT s = Inr (agent_gvk PartitionGroupT)"
    and "GVKForObject AtomixBenchmarkT s = Inr (agent_gvk AtomixBenchmarkT)"
  using assms by (simp_all add: scheme_ready_def)

definition custom_types :: "go_type list" where
  "custom_types =
     [AtomixClusterT, AtomixClusterListT, PartitionGroupT, PartitionGroupListT,
      AtomixBenchmarkT, AtomixBenchmarkListT]"

end
