(* ===== verification/Registration.thy ===== *)
theory Registration
  imports Objects
begin

section \<open>Registration of the custom resources\<close>

text \<open>
  \<^verbatim>\<open>register.go\<close>, the \<^verbatim>\<open>init\<close> functions of the three API files and \<^verbatim>\<open>apis.AddToScheme\<close>, with
  the builder of the controller runtime and \<^verbatim>\<open>metav1.AddToGroupVersion\<close>, which they run on.
  The functions of a builder return no errors, but they may panic (\<open>None\<close>). The lemmas describe
  a sequence of registrations by the set of kinds and types in it.
\<close>

subsection \<open>The code\<close>

definition APIVersionInternal :: string where
  "APIVersionInternal = ''__internal''"

definition Unversioned :: "string \<times> string" where
  "Unversioned = ([], ''v1'')"

text \<open>Without the registration of conversion and defaulting functions.\<close>

definition AddToGroupVersion :: "string \<times> string \<Rightarrow> scheme \<Rightarrow> scheme option" where
  "AddToGroupVersion gv s0 =
     Option.bind (AddKnownTypeWithName (WithKind gv ''WatchEvent'') (MetaType WatchEventT) s0) (\<lambda>s1.
     Option.bind (AddKnownTypeWithName (WithKind (fst gv, APIVersionInternal) ''WatchEvent'')
                    (MetaType InternalEventT) s1) (\<lambda>s2.
     Option.bind (AddKnownTypes gv
                    (map MetaType [ListOptionsT, ExportOptionsT, GetOptionsT, DeleteOptionsT,
                       CreateOptionsT, UpdateOptionsT]) s2) (\<lambda>s3.
     AddUnversionedTypes Unversioned
       (map MetaType [StatusT, APIVersionsT, APIGroupListT, APIGroupT, APIResourceListT]) s3)))"

definition SchemeGroupVersion :: "string \<times> string" where
  "SchemeGroupVersion = (''agent.atomix.io'', ''v1alpha1'')"

type_synonym scheme_builder = "(scheme \<Rightarrow> scheme option) list"

text \<open>\<^verbatim>\<open>Builder.Register\<close> of the controller runtime, for a list of types.\<close>

definition builder_Register :: "string \<times> string \<Rightarrow> go_type list \<Rightarrow> scheme_builder \<Rightarrow> scheme_builder" where
  "builder_Register gv ts bld =
     bld @ [\<lambda>s. Option.bind (AddKnownTypes gv (map ObjectType ts) s) (AddToGroupVersion gv)]"

text \<open>The three \<^verbatim>\<open>init\<close> functions, in the order of their files.\<close>

definition benchmark_init :: "scheme_builder \<Rightarrow> scheme_builder" where
  "benchmark_init bld = builder_Register SchemeGroupVersion [AtomixBenchmarkT, AtomixBenchmarkListT] bld"

definition cluster_init :: "scheme_builder \<Rightarrow> scheme_builder" where
  "cluster_init bld = builder_Register SchemeGroupVersion [AtomixClusterT, AtomixClusterListT] bld"

definition partitiongroup_init :: "scheme_builder \<Rightarrow> scheme_builder" where
  "partitiongroup_init bld = builder_Register SchemeGroupVersion [PartitionGroupT, PartitionGroupListT] bld"

definition SchemeBuilder :: scheme_builder where
  "SchemeBuilder = partitiongroup_init (cluster_init (benchmark_init []))"

text \<open>\<^verbatim>\<open>SchemeBuilder.AddToScheme\<close> runs the functions one after the other.\<close>

fun builder_AddToScheme :: "scheme_builder \<Rightarrow> scheme \<Rightarrow> scheme option" where
  "builder_AddToScheme [] s = Some s"
| "builder_AddToScheme (f # fs) s = Option.bind (f s) (builder_AddToScheme fs)"

text \<open>\<^verbatim>\<open>AddToSchemes\<close> after \<^verbatim>\<open>addtoscheme_agent_v1alpha1.go\<close>, and \<^verbatim>\<open>apis.AddToScheme\<close>.\<close>

definition AddToSchemes :: scheme_builder where
  "AddToSchemes = [] @ [builder_AddToScheme SchemeBuilder]"

definition AddToScheme :: "scheme \<Rightarrow> scheme option" where
  "AddToScheme s = builder_AddToScheme AddToSchemes s"

subsection \<open>Sequences of registrations\<close>

text \<open>A kind, its type, and whether the type becomes a known one or is marked as unversioned.\<close>

type_synonym registration = "gvk \<times> reflect_type \<times> bool"

fun register :: "registration \<Rightarrow> scheme \<Rightarrow> scheme option" where
  "register (g, t, False) = AddKnownTypeWithName g t"
| "register (g, t, True) = mark_unversioned g t"

abbreviation register_all :: "registration list \<Rightarrow> scheme \<Rightarrow> scheme option" where
  "register_all ops \<equiv> builder_AddToScheme (map register ops)"

lemma builder_append:
  "builder_AddToScheme (fs @ gs) s = Option.bind (builder_AddToScheme fs s) (builder_AddToScheme gs)"
  by (induction fs arbitrary: s) (simp_all, metis bind_assoc)

lemma register_all_Cons: "register_all (op # ops) = (\<lambda>s. Option.bind (register op s) (register_all ops))"
  by (rule ext) simp

lemma register_all_append:
  "register_all (ops @ ops') = (\<lambda>s. Option.bind (register_all ops s) (register_all ops'))"
  by (rule ext) (simp add: builder_append)

definition known :: "string \<times> string \<Rightarrow> reflect_type list \<Rightarrow> registration list" where
  "known gv ts = map (\<lambda>t. (WithKind gv (reflect_name t), t, False)) ts"

definition unversioned :: "string \<times> string \<Rightarrow> reflect_type list \<Rightarrow> registration list" where
  "unversioned gv ts = known gv ts @ map (\<lambda>t. (WithKind gv (reflect_name t), t, True)) ts"

lemma AddKnownTypes_all: "AddKnownTypes gv ts = register_all (known gv ts)"
proof (induction ts)
  case (Cons t ts)
  then show ?case by (intro ext) (simp add: known_def)
qed (simp add: known_def fun_eq_iff)

lemma mark_all_unversioned_all:
  "mark_all_unversioned gv ts = register_all (map (\<lambda>t. (WithKind gv (reflect_name t), t, True)) ts)"
proof (induction ts)
  case (Cons t ts)
  then show ?case by (intro ext) simp
qed (simp add: fun_eq_iff)

lemma AddUnversionedTypes_all: "AddUnversionedTypes gv ts = register_all (unversioned gv ts)"
  by (simp add: fun_eq_iff AddUnversionedTypes_def unversioned_def AddKnownTypes_all mark_all_unversioned_all
      builder_append)

text \<open>One registration, by what it checks and what it writes.\<close>

definition clashes :: "registration \<Rightarrow> scheme \<Rightarrow> bool" where
  "clashes op s =
     (case op of (g, t, u) \<Rightarrow>
        if u then sch_unversionedKinds s (gvk_Kind g) \<notin> {None, Some t}
        else sch_gvkToType s g \<notin> {None, Some t})"

definition add_kind :: "gvk \<Rightarrow> gvk list option \<Rightarrow> gvk list" where
  "add_kind g gs = (case gs of None \<Rightarrow> [g] | Some xs \<Rightarrow> if g \<in> set xs then xs else xs @ [g])"

lemma register_cases:
  assumes "gvk_Version g \<noteq> []"
  shows "register (g, t, u) s =
    (if clashes (g, t, u) s then None
     else if u then Some (s\<lparr>sch_unversionedTypes := (sch_unversionedTypes s)(t \<mapsto> g),
                            sch_unversionedKinds := (sch_unversionedKinds s)(gvk_Kind g \<mapsto> t)\<rparr>)
     else Some (s\<lparr>sch_gvkToType := (sch_gvkToType s)(g \<mapsto> t),
                  sch_typeToGVK := (sch_typeToGVK s)(t \<mapsto> add_kind g (sch_typeToGVK s t))\<rparr>))"
  using assms
  by (cases u)
    (auto simp: AddKnownTypeWithName_def mark_unversioned_def clashes_def add_kind_def Let_def fun_upd_idem
      split: option.split)

text \<open>Registrations that do not contradict each other: every kind has one type, every type one kind.\<close>

definition coherent :: "registration list \<Rightarrow> bool" where
  "coherent ops \<longleftrightarrow>
     (\<forall>(g, t, u)\<in>set ops. gvk_Version g \<noteq> [] \<and>
        (\<forall>(g', t', u')\<in>set ops. (t = t' \<longleftrightarrow> g = g') \<and> (u \<and> u' \<and> gvk_Kind g = gvk_Kind g' \<longrightarrow> t = t')))"

lemma coherentD:
  assumes "coherent ops" "(g, t, u) \<in> set ops" "(g', t', u') \<in> set ops"
  shows "gvk_Version g \<noteq> []" "t = t' \<longleftrightarrow> g = g'" "u \<Longrightarrow> u' \<Longrightarrow> gvk_Kind g = gvk_Kind g' \<Longrightarrow> t = t'"
proof -
  note one = bspec [OF assms(1)[unfolded coherent_def] assms(2), unfolded prod.case]
  show "gvk_Version g \<noteq> []" by (rule conjunct1 [OF one])
  note two = bspec [OF conjunct2 [OF one] assms(3), unfolded prod.case]
  show "t = t' \<longleftrightarrow> g = g'" by (rule conjunct1 [OF two])
  show "u \<Longrightarrow> u' \<Longrightarrow> gvk_Kind g = gvk_Kind g' \<Longrightarrow> t = t'" using conjunct2 [OF two] by simp
qed

lemma coherentI:
  assumes "\<And>g t u. (g, t, u) \<in> set ops \<Longrightarrow> gvk_Version g \<noteq> []"
    and "\<And>g t u g' t' u'. (g, t, u) \<in> set ops \<Longrightarrow> (g', t', u') \<in> set ops \<Longrightarrow>
      (t = t' \<longleftrightarrow> g = g') \<and> (u \<and> u' \<and> gvk_Kind g = gvk_Kind g' \<longrightarrow> t = t')"
  shows "coherent ops"
  unfolding coherent_def
proof (intro ballI)
  fix op assume mem: "op \<in> set ops"
  obtain g t u where op: "op = (g, t, u)" by (metis prod_cases3)
  show "case op of (g, t, u) \<Rightarrow> gvk_Version g \<noteq> [] \<and>
      (\<forall>(g', t', u')\<in>set ops. (t = t' \<longleftrightarrow> g = g') \<and> (u \<and> u' \<and> gvk_Kind g = gvk_Kind g' \<longrightarrow> t = t'))"
    unfolding op prod.case
  proof (intro conjI ballI)
    show "gvk_Version g \<noteq> []" by (rule assms(1) [OF mem [unfolded op]])
    fix op' assume mem': "op' \<in> set ops"
    obtain g' t' u' where op': "op' = (g', t', u')" by (metis prod_cases3)
    show "case op' of (g', t', u') \<Rightarrow>
        (t = t' \<longleftrightarrow> g = g') \<and> (u \<and> u' \<and> gvk_Kind g = gvk_Kind g' \<longrightarrow> t = t')"
      unfolding op' prod.case by (rule assms(2) [OF mem [unfolded op] mem' [unfolded op']])
  qed
qed

lemma coherent_subset:
  assumes "coherent ops" "set ops' \<subseteq> set ops"
  shows "coherent ops'"
proof (rule coherentI)
  fix g t u assume "(g, t, u) \<in> set ops'"
  then have op: "(g, t, u) \<in> set ops" using assms(2) by blast
  show "gvk_Version g \<noteq> []" by (rule coherentD(1) [OF assms(1) op op])
  fix g' t' u' assume "(g', t', u') \<in> set ops'"
  then have "(g', t', u') \<in> set ops" using assms(2) by blast
  from coherentD(2,3) [OF assms(1) op this]
  show "(t = t' \<longleftrightarrow> g = g') \<and> (u \<and> u' \<and> gvk_Kind g = gvk_Kind g' \<longrightarrow> t = t')" by simp
qed

lemma coherent_Cons: "coherent (op # ops) \<Longrightarrow> coherent ops"
  by (rule coherent_subset) auto

text \<open>A registration that has been made does not create or remove a contradiction to others.\<close>

lemma clashes_register:
  assumes "coherent ops" "op \<in> set ops" "op' \<in> set ops" "register op s = Some s'"
  shows "clashes op' s' \<longleftrightarrow> clashes op' s"
proof -
  obtain g t u g' t' u' where op: "op = (g, t, u)" "op' = (g', t', u')" by (metis prod_cases3)
  note coh = coherentD [OF assms(1) assms(2,3)[unfolded op]]
  have kind: "u \<and> u' \<and> gvk_Kind g = gvk_Kind g' \<longrightarrow> t = t'" using coh(3) by blast
  show ?thesis
  proof (cases u)
    case True
    then have "sch_gvkToType s' = sch_gvkToType s" "clashes op s = False"
      "sch_unversionedKinds s' = (sch_unversionedKinds s)(gvk_Kind g \<mapsto> t)"
      using assms(4) unfolding op register_cases [OF coh(1)] by (auto split: if_splits)
    with True kind show ?thesis by (auto simp: clashes_def op)
  next
    case False
    then have "sch_gvkToType s' = (sch_gvkToType s)(g \<mapsto> t)" "clashes op s = False"
      "sch_unversionedKinds s' = sch_unversionedKinds s"
      using assms(4) unfolding op register_cases [OF coh(1)] by (auto split: if_splits)
    with False coh(2) show ?thesis by (auto simp: clashes_def op)
  qed
qed

lemma register_all_panics:
  "coherent ops \<Longrightarrow> register_all ops s = None \<longleftrightarrow> (\<exists>op\<in>set ops. clashes op s)"
proof (induction ops arbitrary: s)
  case (Cons op ops)
  obtain g t u where op: "op = (g, t, u)" by (metis prod_cases3)
  have version: "gvk_Version g \<noteq> []" using coherentD(1) [OF Cons.prems, of g t u g t u] op by simp
  show ?case
  proof (cases "register op s")
    case None
    then have "clashes op s" unfolding op register_cases [OF version] by (simp split: if_splits)
    with None show ?thesis by simp
  next
    case (Some s')
    then have "\<not> clashes op s" unfolding op register_cases [OF version] by (simp split: if_splits)
    moreover have "clashes op' s' \<longleftrightarrow> clashes op' s" if "op' \<in> set ops" for op'
      by (rule clashes_register [OF Cons.prems _ _ Some]) (use that in simp_all)
    ultimately show ?thesis using Some Cons.IH [OF coherent_Cons [OF Cons.prems], of s'] by auto
  qed
qed simp

text \<open>What a sequence of registrations leaves in the four maps.\<close>

lemma register_all_gvkToType:
  "coherent ops \<Longrightarrow> register_all ops s = Some s' \<Longrightarrow> (\<And>u v. (g, u, v) \<in> set ops \<Longrightarrow> u = t) \<Longrightarrow>
   sch_gvkToType s' g = (if (g, t, False) \<in> set ops then Some t else sch_gvkToType s g)"
proof (induction ops arbitrary: s)
  case (Cons op ops)
  obtain h u v where op: "op = (h, u, v)" by (metis prod_cases3)
  have version: "gvk_Version h \<noteq> []" using coherentD(1) [OF Cons.prems(1), of h u v h u v] op by simp
  obtain s1 where s1: "register op s = Some s1" "register_all ops s1 = Some s'"
    using Cons.prems(2) by (auto simp: bind_eq_Some_conv)
  have "sch_gvkToType s1 g = (if h = g \<and> \<not> v then Some t else sch_gvkToType s g)"
    using s1(1) Cons.prems(3) [of u v] unfolding op register_cases [OF version] by (auto split: if_splits)
  moreover have "sch_gvkToType s' g = (if (g, t, False) \<in> set ops then Some t else sch_gvkToType s1 g)"
    by (rule Cons.IH [OF coherent_Cons [OF Cons.prems(1)] s1(2)]) (use Cons.prems(3) in auto)
  ultimately show ?case using Cons.prems(3) [of u v] op by auto
qed simp

lemma register_all_typeToGVK:
  "coherent ops \<Longrightarrow> register_all ops s = Some s' \<Longrightarrow> (\<And>h v. (h, t, v) \<in> set ops \<Longrightarrow> h = g) \<Longrightarrow>
   sch_typeToGVK s' t =
     (if (g, t, False) \<in> set ops then Some (add_kind g (sch_typeToGVK s t)) else sch_typeToGVK s t)"
proof (induction ops arbitrary: s)
  case (Cons op ops)
  obtain h u v where op: "op = (h, u, v)" by (metis prod_cases3)
  have version: "gvk_Version h \<noteq> []" using coherentD(1) [OF Cons.prems(1), of h u v h u v] op by simp
  obtain s1 where s1: "register op s = Some s1" "register_all ops s1 = Some s'"
    using Cons.prems(2) by (auto simp: bind_eq_Some_conv)
  have "sch_typeToGVK s1 t =
      (if u = t \<and> \<not> v then Some (add_kind g (sch_typeToGVK s t)) else sch_typeToGVK s t)"
    using s1(1) Cons.prems(3) [of h v] unfolding op register_cases [OF version] by (auto split: if_splits)
  moreover have "sch_typeToGVK s' t =
      (if (g, t, False) \<in> set ops then Some (add_kind g (sch_typeToGVK s1 t)) else sch_typeToGVK s1 t)"
    by (rule Cons.IH [OF coherent_Cons [OF Cons.prems(1)] s1(2)]) (use Cons.prems(3) in auto)
  moreover have "add_kind g (Some (add_kind g gs)) = add_kind g gs" for gs
    by (simp add: add_kind_def split: option.split)
  ultimately show ?case using Cons.prems(3) [of h v] op by auto
qed simp

lemma register_all_unversioned:
  "coherent ops \<Longrightarrow> register_all ops s = Some s' \<Longrightarrow> (\<And>h v. (h, t, v) \<in> set ops \<Longrightarrow> h = g) \<Longrightarrow>
   sch_unversionedTypes s' t = (if (g, t, True) \<in> set ops then Some g else sch_unversionedTypes s t)"
proof (induction ops arbitrary: s)
  case (Cons op ops)
  obtain h u v where op: "op = (h, u, v)" by (metis prod_cases3)
  have version: "gvk_Version h \<noteq> []" using coherentD(1) [OF Cons.prems(1), of h u v h u v] op by simp
  obtain s1 where s1: "register op s = Some s1" "register_all ops s1 = Some s'"
    using Cons.prems(2) by (auto simp: bind_eq_Some_conv)
  have "sch_unversionedTypes s1 t = (if u = t \<and> v then Some g else sch_unversionedTypes s t)"
    using s1(1) Cons.prems(3) [of h v] unfolding op register_cases [OF version] by (auto split: if_splits)
  moreover have "sch_unversionedTypes s' t = (if (g, t, True) \<in> set ops then Some g else sch_unversionedTypes s1 t)"
    by (rule Cons.IH [OF coherent_Cons [OF Cons.prems(1)] s1(2)]) (use Cons.prems(3) in auto)
  ultimately show ?case using Cons.prems(3) [of h v] op by auto
qed simp

lemma register_all_unversionedKinds:
  "coherent ops \<Longrightarrow> register_all ops s = Some s' \<Longrightarrow>
   (\<And>g u. (g, u, True) \<in> set ops \<Longrightarrow> gvk_Kind g = k \<Longrightarrow> u = t) \<Longrightarrow>
   sch_unversionedKinds s' k =
     (if \<exists>g. (g, t, True) \<in> set ops \<and> gvk_Kind g = k then Some t else sch_unversionedKinds s k)"
proof (induction ops arbitrary: s)
  case (Cons op ops)
  obtain h u v where op: "op = (h, u, v)" by (metis prod_cases3)
  have version: "gvk_Version h \<noteq> []" using coherentD(1) [OF Cons.prems(1), of h u v h u v] op by simp
  obtain s1 where s1: "register op s = Some s1" "register_all ops s1 = Some s'"
    using Cons.prems(2) by (auto simp: bind_eq_Some_conv)
  have "sch_unversionedKinds s1 k = (if gvk_Kind h = k \<and> v then Some t else sch_unversionedKinds s k)"
    using s1(1) Cons.prems(3) [of h u] unfolding op register_cases [OF version] by (auto split: if_splits)
  moreover have "sch_unversionedKinds s' k =
      (if \<exists>g. (g, t, True) \<in> set ops \<and> gvk_Kind g = k then Some t else sch_unversionedKinds s1 k)"
    by (rule Cons.IH [OF coherent_Cons [OF Cons.prems(1)] s1(2)]) (use Cons.prems(3) in auto)
  ultimately show ?case using Cons.prems(3) [of h u] op by auto
qed simp

text \<open>A registration that has been made before changes nothing.\<close>

definition made :: "registration \<Rightarrow> scheme \<Rightarrow> bool" where
  "made op s =
     (case op of (g, t, u) \<Rightarrow>
        if u then sch_unversionedTypes s t = Some g \<and> sch_unversionedKinds s (gvk_Kind g) = Some t
        else sch_gvkToType s g = Some t \<and> (\<exists>gs. sch_typeToGVK s t = Some gs \<and> g \<in> set gs))"

lemma register_made:
  assumes "coherent ops" "op \<in> set ops" "made op s"
  shows "register op s = Some s"
proof -
  obtain g t u where op: "op = (g, t, u)" by (metis prod_cases3)
  note version = coherentD(1) [OF assms(1) assms(2)[unfolded op] assms(2)[unfolded op]]
  show ?thesis
    using assms(3) unfolding op register_cases [OF version]
    by (cases u) (auto simp: made_def clashes_def add_kind_def fun_upd_idem)
qed

lemma made_register:
  assumes "coherent ops" "op \<in> set ops" "op' \<in> set ops" "register op s = Some s'"
  shows "made op s'" "made op' s \<Longrightarrow> made op' s'"
proof -
  obtain g t u g' t' u' where op: "op = (g, t, u)" "op' = (g', t', u')" by (metis prod_cases3)
  note coh = coherentD [OF assms(1) assms(2,3)[unfolded op]]
  have step: "register (g, t, u) s = Some s'" using assms(4) op by simp
  show "made op s'"
    using step unfolding op register_cases [OF coh(1)]
    by (cases u) (auto simp: made_def add_kind_def split: if_splits option.splits)
  show "made op' s'" if "made op' s"
  proof (cases "u = u'")
    case True
    with step coh(2) coh(3) that show ?thesis
      unfolding op register_cases [OF coh(1)]
      by (cases u) (auto simp: made_def add_kind_def split: if_splits option.splits)
  next
    case False
    with step that show ?thesis
      unfolding op register_cases [OF coh(1)] by (cases u) (auto simp: made_def split: if_splits)
  qed
qed

lemma register_all_made:
  "coherent ops \<Longrightarrow> set ops' \<subseteq> set ops \<Longrightarrow> register_all ops' s = Some s' \<Longrightarrow> op \<in> set ops \<Longrightarrow>
   op \<in> set ops' \<or> made op s \<Longrightarrow> made op s'"
proof (induction ops' arbitrary: s)
  case (Cons op1 ops')
  then obtain s1 where s1: "register op1 s = Some s1" "register_all ops' s1 = Some s'"
    by (auto simp: bind_eq_Some_conv)
  have "op1 \<in> set ops" using Cons.prems(2) by simp
  note made = made_register [OF Cons.prems(1) this Cons.prems(4) s1(1)]
  have "op \<in> set ops' \<or> made op s1" using Cons.prems(5) made by auto
  then show ?case by (intro Cons.IH [OF Cons.prems(1) _ s1(2) Cons.prems(4)]) (use Cons.prems(2) in simp_all)
qed simp

lemma register_all_again:
  assumes "coherent ops" "register_all ops s = Some s'"
  shows "register_all ops s' = Some s'"
proof -
  have made: "made op s'" if "op \<in> set ops" for op
    using register_all_made [OF assms(1) subset_refl assms(2) that] that by blast
  have "register_all ops' s' = Some s'" if "set ops' \<subseteq> set ops" for ops'
    using that
  proof (induction ops')
    case (Cons op ops')
    then have "register op s' = Some s'" by (intro register_made [OF assms(1)] made) simp_all
    with Cons show ?case by simp
  qed simp
  then show ?thesis by simp
qed

subsection \<open>What the operator registers\<close>

definition unversioned_meta :: "meta_type list" where
  "unversioned_meta = [StatusT, APIVersionsT, APIGroupListT, APIGroupT, APIResourceListT]"

definition all_meta :: "meta_type list" where
  "all_meta =
     [WatchEventT, InternalEventT, ListOptionsT, ExportOptionsT, GetOptionsT, DeleteOptionsT, CreateOptionsT,
      UpdateOptionsT] @ unversioned_meta"

lemma all_meta: "m \<in> set all_meta"
  by (cases m) (simp_all add: all_meta_def unversioned_meta_def)

text \<open>The types of \<^verbatim>\<open>metav1\<close> get kinds of the custom resources' group, the internal or the unversioned one.\<close>

definition meta_gvk :: "meta_type \<Rightarrow> gvk" where
  "meta_gvk m =
     (if m = InternalEventT
      then \<lparr>gvk_Group = ''agent.atomix.io'', gvk_Version = ''__internal'', gvk_Kind = ''WatchEvent''\<rparr>
      else if m \<in> set unversioned_meta
      then \<lparr>gvk_Group = [], gvk_Version = ''v1'', gvk_Kind = meta_type_name m\<rparr>
      else \<lparr>gvk_Group = ''agent.atomix.io'', gvk_Version = ''v1alpha1'', gvk_Kind = meta_type_name m\<rparr>)"

definition registered_kinds :: "(gvk \<times> reflect_type) list" where
  "registered_kinds =
     map (\<lambda>t. (agent_gvk t, ObjectType t)) custom_types @ map (\<lambda>m. (meta_gvk m, MetaType m)) all_meta"

definition registrations :: "registration list" where
  "registrations =
     map (\<lambda>(g, t). (g, t, False)) registered_kinds @
     map (\<lambda>m. (meta_gvk m, MetaType m, True)) unversioned_meta"

definition group_registrations :: "registration list" where
  "group_registrations =
     [(WithKind SchemeGroupVersion ''WatchEvent'', MetaType WatchEventT, False),
      (WithKind (fst SchemeGroupVersion, APIVersionInternal) ''WatchEvent'', MetaType InternalEventT, False)] @
     known SchemeGroupVersion
       (map MetaType [ListOptionsT, ExportOptionsT, GetOptionsT, DeleteOptionsT, CreateOptionsT, UpdateOptionsT]) @
     unversioned Unversioned
       (map MetaType [StatusT, APIVersionsT, APIGroupListT, APIGroupT, APIResourceListT])"

definition all_registrations :: "registration list" where
  "all_registrations =
     known SchemeGroupVersion (map ObjectType [AtomixBenchmarkT, AtomixBenchmarkListT]) @ group_registrations @
     known SchemeGroupVersion (map ObjectType [AtomixClusterT, AtomixClusterListT]) @ group_registrations @
     known SchemeGroupVersion (map ObjectType [PartitionGroupT, PartitionGroupListT]) @ group_registrations"

lemma AddToGroupVersion_all: "AddToGroupVersion SchemeGroupVersion = register_all group_registrations"
  by (intro ext)
    (simp add: AddToGroupVersion_def group_registrations_def AddKnownTypes_all AddUnversionedTypes_all
      register_all_append register_all_Cons del: list.map map_append)

lemma AddToScheme_all: "AddToScheme s = register_all all_registrations s"
  by (simp add: AddToScheme_def AddToSchemes_def SchemeBuilder_def benchmark_init_def cluster_init_def
      partitiongroup_init_def builder_Register_def all_registrations_def AddKnownTypes_all
      AddToGroupVersion_all register_all_append register_all_Cons del: list.map map_append)

lemma all_registrations_set: "set all_registrations = set registrations"
proof
  show "set all_registrations \<subseteq> set registrations" by code_simp
  show "set registrations \<subseteq> set all_registrations" by code_simp
qed

lemma all_registrations_coherent: "coherent all_registrations"
proof -
  have "coherent registrations" by code_simp
  then show ?thesis by (rule coherent_subset) (simp add: all_registrations_set)
qed

end
