(* ===== verification/Ownership.thy ===== *)
theory Ownership
  imports Registration
begin

section \<open>Owner references\<close>

text \<open>
  \<^verbatim>\<open>controllerutil.SetControllerReference\<close> (vendor/sigs.k8s.io/controller-runtime) with
  \<^verbatim>\<open>NewControllerRef\<close>, \<^verbatim>\<open>GetControllerOf\<close> and \<^verbatim>\<open>ParseGroupVersion\<close>
  (vendor/k8s.io/apimachinery). The reconcilers call it on every object before they create it;
  garbage collection and the watches on owned objects rest on the reference it adds.
\<close>

subsection \<open>Group and version strings\<close>

definition gv_string :: "string \<Rightarrow> string \<Rightarrow> string" where
  "gv_string grp version =
     (if grp = [] \<and> version = [] then []
      else if grp = [] \<and> version = ''v1'' then version
      else if grp \<noteq> [] then grp @ ''/'' @ version
      else version)"

definition is_slash :: "char \<Rightarrow> bool" where
  "is_slash c \<longleftrightarrow> c = CHR ''/''"

definition ParseGroupVersion :: "string \<Rightarrow> go_error + string \<times> string" where
  "ParseGroupVersion gv =
     (if gv = [] \<or> gv = ''/'' then Inr ([], [])
      else
        let n = length (filter is_slash gv)
        in if n = 0 then Inr ([], gv)
           else if n = 1 then
             Inr (takeWhile (\<lambda>c. \<not> is_slash c) gv, tl (dropWhile (\<lambda>c. \<not> is_slash c) gv))
           else Inl (ErrorString (''unexpected GroupVersion string: '' @ gv)))"

lemma ParseGroupVersion_gv_string:
  assumes "CHR ''/'' \<notin> set grp" "CHR ''/'' \<notin> set version" "grp \<noteq> []"
  shows "ParseGroupVersion (gv_string grp version) = Inr (grp, version)"
proof -
  have "filter is_slash grp = []" "filter is_slash version = []"
    using assms by (auto simp: is_slash_def filter_empty_conv)
  moreover have "takeWhile (\<lambda>c. \<not> is_slash c) (grp @ ''/'' @ version) = grp"
    "dropWhile (\<lambda>c. \<not> is_slash c) (grp @ ''/'' @ version) = ''/'' @ version"
    using assms(1) by (induction grp) (auto simp: is_slash_def)
  moreover have "grp @ ''/'' @ version \<noteq> ''/''"
    using assms(3) assms(1) by (cases grp) auto
  ultimately show ?thesis
    using assms(3) by (simp add: ParseGroupVersion_def gv_string_def is_slash_def)
qed

subsection \<open>Controller references\<close>

definition NewControllerRef :: "object_meta \<Rightarrow> gvk \<Rightarrow> owner_reference" where
  "NewControllerRef owner g =
     \<lparr>or_APIVersion = gv_string (gvk_Group g) (gvk_Version g),
      or_Kind = gvk_Kind g,
      or_Name = om_Name owner,
      or_UID = om_UID owner,
      or_Controller = Some True,
      or_BlockOwnerDeletion = Some True\<rparr>"

fun first_controller :: "owner_reference list \<Rightarrow> owner_reference option" where
  "first_controller [] = None"
| "first_controller (r # rs) = (if or_Controller r = Some True then Some r else first_controller rs)"

definition GetControllerOf :: "object_meta \<Rightarrow> owner_reference option" where
  "GetControllerOf m = first_controller (om_OwnerReferences m)"

definition referSameObject :: "owner_reference \<Rightarrow> owner_reference \<Rightarrow> bool" where
  "referSameObject a b =
     (case ParseGroupVersion (or_APIVersion a) of
        Inl e \<Rightarrow> False
      | Inr aGV \<Rightarrow>
          (case ParseGroupVersion (or_APIVersion b) of
             Inl e \<Rightarrow> False
           | Inr bGV \<Rightarrow> aGV = bGV \<and> or_Kind a = or_Kind b \<and> or_Name a = or_Name b))"

text \<open>
  The loop over the existing references: the index of the last one to the same object, or the
  first other controller.
\<close>

fun scan_refs ::
  "owner_reference \<Rightarrow> owner_reference list \<Rightarrow> nat \<Rightarrow> nat option \<Rightarrow> owner_reference + nat option" where
  "scan_refs ref [] i fi = Inr fi"
| "scan_refs ref (r # rs) i fi =
     (if referSameObject ref r then scan_refs ref rs (Suc i) (Some i)
      else if or_Controller r = Some True then Inl r
      else scan_refs ref rs (Suc i) fi)"

definition SetControllerReference ::
  "go_type \<Rightarrow> object_meta \<Rightarrow> kobj \<Rightarrow> scheme \<Rightarrow> go_error + kobj" where
  "SetControllerReference ownerType owner ob s =
     (case GVKForObject ownerType s of
        Inl err \<Rightarrow> Inl err
      | Inr g \<Rightarrow>
          let ref = NewControllerRef owner g;
              existingRefs = om_OwnerReferences (meta_of ob)
          in (case scan_refs ref existingRefs 0 None of
                Inl r \<Rightarrow>
                  Inl (AlreadyOwnedError (om_Namespace (meta_of ob)) (om_Name (meta_of ob))
                         (or_Kind r) (or_Name r))
              | Inr None \<Rightarrow> Inr (map_meta (\<lambda>m. m\<lparr>om_OwnerReferences := existingRefs @ [ref]\<rparr>) ob)
              | Inr (Some fi) \<Rightarrow>
                  Inr (map_meta (\<lambda>m. m\<lparr>om_OwnerReferences := existingRefs[fi := ref]\<rparr>) ob)))"

subsection \<open>What setting a reference does\<close>

text \<open>The object with its one owner, as the server will store it.\<close>

definition owned_by :: "gvk \<Rightarrow> object_meta \<Rightarrow> kobj \<Rightarrow> kobj" where
  "owned_by g owner = map_meta (\<lambda>m. m\<lparr>om_OwnerReferences := [NewControllerRef owner g]\<rparr>)"

lemma key_of_owned_by [simp]: "key_of (owned_by g owner ob) = key_of ob"
  by (simp add: owned_by_def key_of_def meta_name_def)

lemma type_of_owned_by [simp]: "type_of (owned_by g owner ob) = type_of ob"
  by (simp add: owned_by_def)

lemma GetControllerOf_owned_by [simp]:
  "GetControllerOf (meta_of (owned_by g owner ob)) = Some (NewControllerRef owner g)"
  by (simp add: owned_by_def GetControllerOf_def NewControllerRef_def)

lemma SetControllerReference_fresh:
  assumes "om_OwnerReferences (meta_of ob) = []" "GVKForObject t s = Inr g"
  shows "SetControllerReference t owner ob s = Inr (owned_by g owner ob)"
  using assms by (simp add: SetControllerReference_def owned_by_def)

lemma SetControllerReference_key:
  "SetControllerReference t owner ob s = Inr ob' \<Longrightarrow> key_of ob' = key_of ob"
  by (auto simp: SetControllerReference_def key_of_def meta_name_def Let_def
      split: sum.splits option.splits)

lemma SetControllerReference_not_NotFound:
  "SetControllerReference t owner ob s = Inl e \<Longrightarrow> \<not> IsNotFound e"
  by (auto simp: SetControllerReference_def Let_def dest: GVKForObject_not_NotFound
      split: sum.splits option.splits)

end
