(* ===== verification/Client.thy ===== *)
theory Client
  imports Ownership
begin

section \<open>The client interface\<close>

text \<open>
  The reconcilers work on the cluster through \<^verbatim>\<open>client.Client\<close>
  (vendor/sigs.k8s.io/controller-runtime/pkg/client/interfaces.go): \<^verbatim>\<open>Get\<close> and \<^verbatim>\<open>Create\<close> are
  the only operations they call. What is behind them, a cache and a remote server, is a
  parameter: a record of two operations on a world of any type. What the code relies on is
  stated as three locales, each adding laws to the one before:
  \<^item> \<open>api_client\<close>: a read changes nothing, and a create either changes nothing or adds the
    object under a free key (it may do so and still report an error, as a request that times
    out can);
  \<^item> \<open>sound_client\<close>: an object that a read returns exists. A cache that has not yet seen a new
    object satisfies this, one that still holds a deleted object does not;
  \<^item> \<open>reliable_client\<close>: reads are accurate and creates of absent objects succeed.
  \<open>objs\<close> is the content of the server and \<open>ok\<close> an invariant of the world. The laws about
  reads are restricted to proper names, as the API server validates them: caches join
  namespace and name with a slash, and the tracker takes an empty name for a wildcard.
\<close>

subsection \<open>Interface and laws\<close>

record 'w client =
  cl_Get :: "'w \<Rightarrow> go_type \<Rightarrow> namespaced_name \<Rightarrow> 'w \<times> (go_error + kobj)"
  cl_Create :: "'w \<Rightarrow> kobj \<Rightarrow> 'w \<times> go_error option"

definition proper_name :: "namespaced_name \<Rightarrow> bool" where
  "proper_name nn \<longleftrightarrow> nn_Namespace nn \<noteq> [] \<and> nn_Name nn \<noteq> [] \<and>
     CHR ''/'' \<notin> set (nn_Namespace nn) \<and> CHR ''/'' \<notin> set (nn_Name nn)"

lemma proper_name_append [simp]:
  "proper_name (NamespacedName ns n) \<Longrightarrow> CHR ''/'' \<notin> set sfx \<Longrightarrow> proper_name (NamespacedName ns (n @ sfx))"
  by (auto simp: proper_name_def NamespacedName_def)

locale api_client =
  fixes cl :: "'w client"
    and objs :: "'w \<Rightarrow> obj_key \<Rightarrow> kobj option"
    and ok :: "'w \<Rightarrow> bool"
  assumes get_frame: "ok w \<Longrightarrow> cl_Get cl w t nn = (w', r) \<Longrightarrow> ok w' \<and> objs w' = objs w"
    and get_key: "ok w \<Longrightarrow> proper_name nn \<Longrightarrow> cl_Get cl w t nn = (w', Inr ob) \<Longrightarrow> key_of ob = (t, nn)"
    and create_ok: "ok w \<Longrightarrow> proper_name (snd (key_of ob)) \<Longrightarrow> cl_Create cl w ob = (w', e) \<Longrightarrow> ok w'"
    and create_effect: "ok w \<Longrightarrow> proper_name (snd (key_of ob)) \<Longrightarrow> cl_Create cl w ob = (w', e) \<Longrightarrow>
      (objs w' = objs w \<and> e \<noteq> None) \<or>
      (objs w (key_of ob) = None \<and> (\<exists>u. objs w' = (objs w)(key_of ob \<mapsto> with_uid u ob)))"

locale sound_client = api_client +
  assumes get_sound: "ok w \<Longrightarrow> proper_name nn \<Longrightarrow> cl_Get cl w t nn = (w', Inr ob) \<Longrightarrow> objs w (t, nn) \<noteq> None"

locale reliable_client = sound_client +
  assumes get_present: "ok w \<Longrightarrow> proper_name nn \<Longrightarrow> objs w (t, nn) = Some ob \<Longrightarrow> \<exists>w'. cl_Get cl w t nn = (w', Inr ob)"
    and get_absent: "ok w \<Longrightarrow> proper_name nn \<Longrightarrow> objs w (t, nn) = None \<Longrightarrow>
      \<exists>w' e. cl_Get cl w t nn = (w', Inl e) \<and> IsNotFound e"
    and create_absent: "ok w \<Longrightarrow> proper_name (snd (key_of ob)) \<Longrightarrow> objs w (key_of ob) = None \<Longrightarrow>
      \<exists>w'. cl_Create cl w ob = (w', None)"

subsection \<open>Reconcilers\<close>

text \<open>
  The three reconciler structs have the same fields: the client, the scheme and a
  configuration that no method uses. \<^verbatim>\<open>reconcile.Request\<close> is a namespaced name, and every
  \<^verbatim>\<open>Reconcile\<close> returns the zero \<^verbatim>\<open>reconcile.Result\<close> with an error or nil.
\<close>

record 'w reconciler =
  r_client :: "'w client"
  r_scheme :: scheme

type_synonym 'w group_reconciler = "'w reconciler"
type_synonym 'w benchmark_reconciler = "'w reconciler"

record reconcile_result =
  res_Requeue :: bool
  res_RequeueAfter :: int

definition zero_result :: reconcile_result where
  "zero_result = \<lparr>res_Requeue = False, res_RequeueAfter = 0\<rparr>"

text \<open>What the cache reader returns when an object of another Go type is stored under a key.\<close>

definition wrong_type :: go_error where
  "wrong_type = ErrorString ''cache had another type than was asked for''"

subsection \<open>Steps\<close>

text \<open>
  A reconciler runs a list of steps, each of which makes sure that one object exists. The
  contracts of a step, for a key \<open>k\<close> and the object that the code builds for it (or the error
  that building it gives):
  \<^item> \<open>safe_step\<close>: it changes nothing, or adds the object under its free key;
  \<^item> \<open>complete_step\<close>: after a success the key is taken;
  \<^item> \<open>exact_step\<close>: an existing object stays, a missing one is created or the error returned.
\<close>

type_synonym 'w step = "'w \<Rightarrow> 'w \<times> go_error option"
type_synonym plan_item = "obj_key \<times> (go_error + kobj)"

definition safe_step ::
  "('w \<Rightarrow> obj_key \<Rightarrow> kobj option) \<Rightarrow> ('w \<Rightarrow> bool) \<Rightarrow> plan_item \<Rightarrow> 'w step \<Rightarrow> bool" where
  "safe_step objs ok p s \<longleftrightarrow>
     (\<forall>w w' r. ok w \<longrightarrow> s w = (w', r) \<longrightarrow>
        ok w' \<and>
        (objs w' = objs w \<or>
         (objs w (fst p) = None \<and>
          (\<exists>ob u. snd p = Inr ob \<and> objs w' = (objs w)(fst p \<mapsto> with_uid u ob)))))"

definition complete_step ::
  "('w \<Rightarrow> obj_key \<Rightarrow> kobj option) \<Rightarrow> ('w \<Rightarrow> bool) \<Rightarrow> plan_item \<Rightarrow> 'w step \<Rightarrow> bool" where
  "complete_step objs ok p s \<longleftrightarrow>
     (\<forall>w w'. ok w \<longrightarrow> s w = (w', None) \<longrightarrow> objs w' (fst p) \<noteq> None)"

definition exact_step ::
  "('w \<Rightarrow> obj_key \<Rightarrow> kobj option) \<Rightarrow> ('w \<Rightarrow> bool) \<Rightarrow> plan_item \<Rightarrow> 'w step \<Rightarrow> bool" where
  "exact_step objs ok p s \<longleftrightarrow>
     (\<forall>w. ok w \<longrightarrow>
        (if objs w (fst p) \<noteq> None then \<exists>w'. s w = (w', None) \<and> objs w' = objs w
         else (case snd p of
                 Inl e \<Rightarrow> \<exists>w'. s w = (w', Some e) \<and> objs w' = objs w
               | Inr ob \<Rightarrow> \<exists>w' u. s w = (w', None) \<and> objs w' = (objs w)(fst p \<mapsto> with_uid u ob))))"

lemma safe_stepD:
  assumes "safe_step objs ok p s" "ok w" "s w = (w', r)"
  shows "ok w'"
    and "objs w' = objs w \<or>
      (objs w (fst p) = None \<and>
       (\<exists>ob u. snd p = Inr ob \<and> objs w' = (objs w)(fst p \<mapsto> with_uid u ob)))"
  using assms by (auto simp: safe_step_def)

lemma complete_stepD: "complete_step objs ok p s \<Longrightarrow> ok w \<Longrightarrow> s w = (w', None) \<Longrightarrow> objs w' (fst p) \<noteq> None"
  by (auto simp: complete_step_def)

subsection \<open>The two shapes of a step\<close>

text \<open>
  Read, and create what is not found. All steps of the cluster and the partition group
  reconcilers have this shape.
\<close>

definition ensure :: "'w client \<Rightarrow> plan_item \<Rightarrow> 'w step" where
  "ensure cl p w =
     (case cl_Get cl w (fst (fst p)) (snd (fst p)) of
        (w1, Inr _) \<Rightarrow> (w1, None)
      | (w1, Inl err) \<Rightarrow>
          if IsNotFound err then
            (case snd p of Inl e \<Rightarrow> (w1, Some e) | Inr ob \<Rightarrow> cl_Create cl w1 ob)
          else (w1, Some err))"

text \<open>Read, and then read and create. The benchmark reconciler reads twice.\<close>

definition ensure_twice :: "'w client \<Rightarrow> plan_item \<Rightarrow> 'w step" where
  "ensure_twice cl p w =
     (case cl_Get cl w (fst (fst p)) (snd (fst p)) of
        (w1, Inr _) \<Rightarrow> (w1, None)
      | (w1, Inl err) \<Rightarrow> if IsNotFound err then ensure cl p w1 else (w1, Some err))"

text \<open>The objects of a plan are stored under the keys they are looked up with, proper names.\<close>

definition plan_item_ok :: "plan_item \<Rightarrow> bool" where
  "plan_item_ok p \<longleftrightarrow> proper_name (snd (fst p)) \<and>
     (case snd p of Inl e \<Rightarrow> True | Inr ob \<Rightarrow> key_of ob = fst p)"

lemma plan_item_proper: "plan_item_ok p \<Longrightarrow> proper_name (snd (fst p))"
  by (simp add: plan_item_ok_def)

context api_client
begin

lemma safe_ensure:
  assumes "plan_item_ok p"
  shows "safe_step objs ok p (ensure cl p)"
  unfolding safe_step_def
proof (intro allI impI)
  fix w w' r
  assume ok: "ok w" and run: "ensure cl p w = (w', r)"
  obtain w1 g where get: "cl_Get cl w (fst (fst p)) (snd (fst p)) = (w1, g)" by fastforce
  have w1: "ok w1" "objs w1 = objs w" using get_frame [OF ok get] by auto
  consider (create) ob where "snd p = Inr ob" "cl_Create cl w1 ob = (w', r)" | (same) "w' = w1"
    using run get by (auto simp: ensure_def split: sum.splits if_splits)
  then show "ok w' \<and> (objs w' = objs w \<or> objs w (fst p) = None \<and>
      (\<exists>ob u. snd p = Inr ob \<and> objs w' = (objs w)(fst p \<mapsto> with_uid u ob)))"
  proof cases
    case create
    then have key: "key_of ob = fst p" "proper_name (snd (key_of ob))"
      using assms by (simp_all add: plan_item_ok_def)
    with create w1 show ?thesis
      using create_ok [OF w1(1) key(2) create(2)] create_effect [OF w1(1) key(2) create(2)] by auto
  next
    case same
    with w1 show ?thesis by simp
  qed
qed

lemma safe_ensure_twice:
  assumes "plan_item_ok p"
  shows "safe_step objs ok p (ensure_twice cl p)"
  unfolding safe_step_def
proof (intro allI impI)
  fix w w' r
  assume ok: "ok w" and run: "ensure_twice cl p w = (w', r)"
  obtain w1 g where get: "cl_Get cl w (fst (fst p)) (snd (fst p)) = (w1, g)" by fastforce
  have w1: "ok w1" "objs w1 = objs w" using get_frame [OF ok get] by auto
  consider (again) "ensure cl p w1 = (w', r)" | (same) "w' = w1"
    using run get by (auto simp: ensure_twice_def split: sum.splits if_splits)
  then show "ok w' \<and> (objs w' = objs w \<or> objs w (fst p) = None \<and>
      (\<exists>ob u. snd p = Inr ob \<and> objs w' = (objs w)(fst p \<mapsto> with_uid u ob)))"
  proof cases
    case again
    then show ?thesis using safe_stepD [OF safe_ensure [OF assms] w1(1)] w1(2) by auto
  next
    case same
    with w1 show ?thesis by simp
  qed
qed

end

context sound_client
begin

lemma complete_ensure:
  assumes "plan_item_ok p"
  shows "complete_step objs ok p (ensure cl p)"
  unfolding complete_step_def
proof (intro allI impI)
  fix w w'
  assume ok: "ok w" and run: "ensure cl p w = (w', None)"
  obtain w1 g where get: "cl_Get cl w (fst (fst p)) (snd (fst p)) = (w1, g)" by fastforce
  have w1: "ok w1" "objs w1 = objs w" using get_frame [OF ok get] by auto
  show "objs w' (fst p) \<noteq> None"
  proof (cases g)
    case (Inr ob)
    then show ?thesis using run get get_sound [OF ok plan_item_proper [OF assms], of "fst (fst p)"] w1(2) by (auto simp: ensure_def)
  next
    case (Inl e)
    then obtain ob where ob: "snd p = Inr ob" "cl_Create cl w1 ob = (w', None)"
      using run get by (auto simp: ensure_def split: sum.splits if_splits)
    then have key: "key_of ob = fst p" "proper_name (snd (key_of ob))"
      using assms by (simp_all add: plan_item_ok_def)
    then show ?thesis using create_effect [OF w1(1) key(2) ob(2)] by auto
  qed
qed

lemma complete_ensure_twice:
  assumes "plan_item_ok p"
  shows "complete_step objs ok p (ensure_twice cl p)"
  unfolding complete_step_def
proof (intro allI impI)
  fix w w'
  assume ok: "ok w" and run: "ensure_twice cl p w = (w', None)"
  obtain w1 g where get: "cl_Get cl w (fst (fst p)) (snd (fst p)) = (w1, g)" by fastforce
  have w1: "ok w1" "objs w1 = objs w" using get_frame [OF ok get] by auto
  show "objs w' (fst p) \<noteq> None"
  proof (cases g)
    case (Inr ob)
    then show ?thesis using run get get_sound [OF ok plan_item_proper [OF assms], of "fst (fst p)"] w1(2) by (auto simp: ensure_twice_def)
  next
    case (Inl e)
    then have "ensure cl p w1 = (w', None)"
      using run get by (auto simp: ensure_twice_def split: if_splits)
    then show ?thesis using complete_stepD [OF complete_ensure [OF assms] w1(1)] by simp
  qed
qed

end

context reliable_client
begin

lemma stored_key:
  assumes "ok w" "proper_name nn" "objs w (t, nn) = Some ob"
  shows "key_of ob = (t, nn)"
  using get_present [OF assms] get_key [OF assms(1,2)] by blast

lemma exact_ensure:
  assumes "plan_item_ok p"
  shows "exact_step objs ok p (ensure cl p)"
  unfolding exact_step_def
proof (intro allI impI)
  fix w
  assume ok: "ok w"
  obtain k d where p: "p = (k, d)" by fastforce
  have proper: "proper_name (snd k)" using plan_item_proper [OF assms] p by simp
  show "if objs w (fst p) \<noteq> None then \<exists>w'. ensure cl p w = (w', None) \<and> objs w' = objs w
    else (case snd p of
        Inl e \<Rightarrow> \<exists>w'. ensure cl p w = (w', Some e) \<and> objs w' = objs w
      | Inr ob \<Rightarrow> \<exists>w' u. ensure cl p w = (w', None) \<and> objs w' = (objs w)(fst p \<mapsto> with_uid u ob))"
  proof (cases "objs w k")
    case (Some ob)
    then obtain w1 where "cl_Get cl w (fst k) (snd k) = (w1, Inr ob)"
      using get_present [OF ok proper, of "fst k"] by auto
    with Some p ok show ?thesis using get_frame by (auto simp: ensure_def)
  next
    case None
    then obtain w1 e where get: "cl_Get cl w (fst k) (snd k) = (w1, Inl e)" "IsNotFound e"
      using get_absent [OF ok proper, of "fst k"] by auto
    then have w1: "ok w1" "objs w1 = objs w" using get_frame [OF ok] by auto
    show ?thesis
    proof (cases d)
      case (Inl e')
      with None get p w1 show ?thesis by (auto simp: ensure_def)
    next
      case (Inr ob)
      with assms p have key: "key_of ob = k" by (simp add: plan_item_ok_def)
      then obtain w2 where create: "cl_Create cl w1 ob = (w2, None)"
        using create_absent [OF w1(1), of ob] None w1(2) proper by auto
      with create_effect [OF w1(1) _ create] key proper w1(2) None get p Inr
      show ?thesis by (auto simp: ensure_def)
    qed
  qed
qed

lemma exact_ensure_twice:
  assumes "plan_item_ok p"
  shows "exact_step objs ok p (ensure_twice cl p)"
  unfolding exact_step_def
proof (intro allI impI)
  fix w
  assume ok: "ok w"
  obtain k d where p: "p = (k, d)" by fastforce
  have proper: "proper_name (snd k)" using plan_item_proper [OF assms] p by simp
  show "if objs w (fst p) \<noteq> None then \<exists>w'. ensure_twice cl p w = (w', None) \<and> objs w' = objs w
    else (case snd p of
        Inl e \<Rightarrow> \<exists>w'. ensure_twice cl p w = (w', Some e) \<and> objs w' = objs w
      | Inr ob \<Rightarrow> \<exists>w' u. ensure_twice cl p w = (w', None) \<and> objs w' = (objs w)(fst p \<mapsto> with_uid u ob))"
  proof (cases "objs w k")
    case (Some ob)
    then obtain w1 where "cl_Get cl w (fst k) (snd k) = (w1, Inr ob)"
      using get_present [OF ok proper, of "fst k"] by auto
    with Some p ok show ?thesis using get_frame by (auto simp: ensure_twice_def)
  next
    case None
    then obtain w1 e where get: "cl_Get cl w (fst k) (snd k) = (w1, Inl e)" "IsNotFound e"
      using get_absent [OF ok proper, of "fst k"] by auto
    then have w1: "ok w1" "objs w1 = objs w" using get_frame [OF ok] by auto
    have "ensure_twice cl p w = ensure cl p w1" using get p by (simp add: ensure_twice_def)
    with exact_ensure [OF assms, unfolded exact_step_def, rule_format, OF w1(1)] w1(2)
    show ?thesis by (auto split: sum.splits if_splits)
  qed
qed

end

end
