(* ===== verification/Plans.thy ===== *)
theory Plans
  imports Client
begin

section \<open>Plans and convergence\<close>

text \<open>
  The abstract specification of a reconciler: a plan, that is a list of keys with the object
  wanted under each, and \<open>converge\<close>, which goes through a plan on an abstract store. The
  chain of steps that the code runs is related to it in three strengths, one per client
  contract: with any client it is safe, with a sound one a success means that all keys are
  taken, with a reliable one it computes exactly \<open>converge\<close>.
\<close>

subsection \<open>The abstract store\<close>

type_synonym store = "obj_key \<rightharpoonup> kobj"

text \<open>UIDs are chosen by the server, so the abstract store forgets them.\<close>

definition sans_uid :: "kobj \<Rightarrow> kobj" where
  "sans_uid = with_uid []"

definition abs_store :: "store \<Rightarrow> store" where
  "abs_store m k = map_option sans_uid (m k)"

lemma sans_uid_with_uid [simp]: "sans_uid (with_uid u ob) = sans_uid ob"
  by (simp add: sans_uid_def with_uid_def)

lemma key_of_sans_uid [simp]: "key_of (sans_uid ob) = key_of ob"
  by (simp add: sans_uid_def)

lemma abs_store_None [simp]: "abs_store m k = None \<longleftrightarrow> m k = None"
  by (simp add: abs_store_def)

lemma abs_store_upd [simp]: "abs_store (m(k \<mapsto> ob)) = (abs_store m)(k \<mapsto> sans_uid ob)"
  by (rule ext) (simp add: abs_store_def)

lemma abs_store_frame: "m = m' \<Longrightarrow> abs_store m = abs_store m'"
  by simp

subsection \<open>Going through a plan\<close>

type_synonym plan = "plan_item list"

fun converge :: "plan \<Rightarrow> store \<Rightarrow> store \<times> go_error option" where
  "converge [] m = (m, None)"
| "converge ((k, d) # ps) m =
     (if m k \<noteq> None then converge ps m
      else (case d of
              Inl e \<Rightarrow> (m, Some e)
            | Inr ob \<Rightarrow> converge ps (m(k \<mapsto> sans_uid ob))))"

definition plan_keys :: "plan \<Rightarrow> obj_key set" where
  "plan_keys ps = fst ` set ps"

definition plan_objects :: "plan \<Rightarrow> (obj_key \<times> kobj) set" where
  "plan_objects ps = {(k, ob). (k, Inr ob) \<in> set ps}"

definition plan_ok :: "plan \<Rightarrow> bool" where
  "plan_ok ps \<longleftrightarrow> list_all plan_item_ok ps"

lemma plan_keys_simps [simp]:
  "plan_keys [] = {}" "plan_keys (p # ps) = insert (fst p) (plan_keys ps)"
  "plan_keys (ps @ qs) = plan_keys ps \<union> plan_keys qs"
  by (auto simp: plan_keys_def)

lemma plan_objects_simps [simp]:
  "plan_objects [] = {}"
  "plan_objects ((k, Inl e) # ps) = plan_objects ps"
  "plan_objects ((k, Inr ob) # ps) = insert (k, ob) (plan_objects ps)"
  by (auto simp: plan_objects_def)

lemma plan_objects_append [simp]: "plan_objects (ps @ qs) = plan_objects ps \<union> plan_objects qs"
  by (auto simp: plan_objects_def)

lemma plan_objects_keys: "(k, ob) \<in> plan_objects ps \<Longrightarrow> k \<in> plan_keys ps"
  by (force simp: plan_objects_def plan_keys_def)

lemma plan_ok_simps [simp]:
  "plan_ok []" "plan_ok (p # ps) \<longleftrightarrow> plan_item_ok p \<and> plan_ok ps"
  by (simp_all add: plan_ok_def)

text \<open>A plan whose objects can all be built succeeds, and the first wish for a key wins.\<close>

lemma converge_all_built:
  assumes "\<forall>p\<in>set ps. \<exists>ob. snd p = Inr ob"
  shows "converge ps m = (map_of (map (\<lambda>p. (fst p, sans_uid (projr (snd p)))) ps) ++ m, None)"
  using assms
proof (induction ps arbitrary: m)
  case Nil
  then show ?case by simp
next
  case (Cons p ps)
  obtain k ob where p: "p = (k, Inr ob)" using Cons.prems by (cases p) auto
  have built: "\<forall>p\<in>set ps. \<exists>ob. snd p = Inr ob" using Cons.prems by simp
  show ?case
  proof (cases "m k")
    case None
    have "converge (p # ps) m = converge ps (m(k \<mapsto> sans_uid ob))" using p None by simp
    also have "\<dots> = (map_of (map (\<lambda>p. (fst p, sans_uid (projr (snd p)))) (p # ps)) ++ m, None)"
      unfolding Cons.IH [OF built]
      using p None by (auto simp: fun_eq_iff map_add_def split: option.splits)
    finally show ?thesis .
  next
    case (Some x)
    with p Cons.IH [OF built, of m] show ?thesis
      by (auto simp: fun_eq_iff map_add_def split: option.splits)
  qed
qed

text \<open>Either a plan fails at its first item, or it goes on with the rest on a store that has the key.\<close>

lemma converge_Cons_cases:
  obtains (fail) e where "d = Inl e" "m k = None" "\<And>qs. converge ((k, d) # qs) m = (m, Some e)"
  | (go) m1 where "m \<subseteq>\<^sub>m m1" "m1 k \<noteq> None" "\<And>qs. converge ((k, d) # qs) m = converge qs m1"
proof (cases "m k")
  case None
  show thesis
  proof (cases d)
    case (Inl e)
    with None show thesis by (intro fail) auto
  next
    case (Inr ob)
    with None show thesis by (intro go [of "m(k \<mapsto> sans_uid ob)"]) (auto simp: map_le_upd_free)
  qed
next
  case (Some x)
  then show thesis by (intro go [of m]) auto
qed

lemma converge_grows: "converge ps m = (m', r) \<Longrightarrow> m \<subseteq>\<^sub>m m'"
proof (induction ps arbitrary: m)
  case Nil
  then show ?case by simp
next
  case (Cons p ps)
  obtain k d where p: "p = (k, d)" by fastforce
  show ?case
  proof (cases rule: converge_Cons_cases [of d m k])
    case (fail e)
    with Cons.prems p show ?thesis by simp
  next
    case (go m1)
    with Cons.prems p Cons.IH [of m1] show ?thesis by (auto intro: map_le_trans)
  qed
qed

lemma converge_complete: "converge ps m = (m', None) \<Longrightarrow> k \<in> plan_keys ps \<Longrightarrow> m' k \<noteq> None"
proof (induction ps arbitrary: m)
  case Nil
  then show ?case by simp
next
  case (Cons p ps)
  obtain k' d where p: "p = (k', d)" by fastforce
  show ?case
  proof (cases rule: converge_Cons_cases [of d m k'])
    case (fail e)
    with Cons.prems(1) p fail(3) [of ps] show ?thesis by simp
  next
    case (go m1)
    then have run: "converge ps m1 = (m', None)" using Cons.prems(1) p by simp
    with go(2) map_le_taken [OF converge_grows] have "m' k' \<noteq> None" by blast
    with Cons.prems(2) Cons.IH [OF run] p show ?thesis by auto
  qed
qed

lemma converge_fixed: "\<forall>k\<in>plan_keys ps. m k \<noteq> None \<Longrightarrow> converge ps m = (m, None)"
  by (induction ps m rule: converge.induct) auto

text \<open>A plan that fails has failed at a key that is still missing.\<close>

lemma converge_failsE:
  assumes "converge ps m = (m', Some e)"
  obtains pre k post where "ps = pre @ (k, Inl e) # post" "m' k = None"
    "converge pre m = (m', None)"
  using assms
proof (induction ps arbitrary: m thesis)
  case Nil
  then show ?case by simp
next
  case (Cons p ps)
  obtain k d where p: "p = (k, d)" by fastforce
  show ?case
  proof (cases rule: converge_Cons_cases [of d m k])
    case (fail e')
    with Cons.prems(2) p fail(3) [of ps] have "m' = m" "e' = e" by simp_all
    with fail p show ?thesis using Cons.prems(1) [of "[]" k ps] by simp
  next
    case (go m1)
    then have "converge ps m1 = (m', Some e)" using Cons.prems(2) p by simp
    then obtain pre k' post where "ps = pre @ (k', Inl e) # post" "m' k' = None"
      "converge pre m1 = (m', None)" using Cons.IH by metis
    with go(3) [of pre] p show ?thesis using Cons.prems(1) [of "p # pre" k' post] by simp
  qed
qed

lemma converge_dom: "converge ps m = (m', r) \<Longrightarrow> dom m' \<subseteq> dom m \<union> plan_keys ps"
proof (induction ps arbitrary: m)
  case Nil
  then show ?case by simp
next
  case (Cons p ps)
  obtain k d where p: "p = (k, d)" by fastforce
  show ?case
  proof (cases "m k = None")
    case False
    with Cons.prems Cons.IH [of m] p show ?thesis by auto
  next
    case True
    show ?thesis
    proof (cases d)
      case (Inl e)
      with True Cons.prems p show ?thesis by auto
    next
      case (Inr ob)
      with True Cons.prems p have "converge ps (m(k \<mapsto> sans_uid ob)) = (m', r)" by simp
      from Cons.IH [OF this] p show ?thesis by (simp only: dom_fun_upd) auto
    qed
  qed
qed

text \<open>
  Going through the plan again after some of what it added has been removed restores exactly
  what was removed.
\<close>

lemma converge_restores:
  "converge ps m = (m', None) \<Longrightarrow> D \<inter> dom m = {} \<Longrightarrow> converge ps (m' |` (- D)) = (m' |` (- (D - plan_keys ps)), None)"
proof (induction ps arbitrary: m D)
  case Nil
  then show ?case by simp
next
  case (Cons p ps)
  obtain k d where p: "p = (k, d)" by fastforce
  show ?case
  proof (cases "m k")
    case (Some x)
    then have run: "converge ps m = (m', None)" "k \<notin> D" using Cons.prems p by auto
    then have "m' k \<noteq> None" using Some map_leD [OF converge_grows] by blast
    moreover have "D - plan_keys (p # ps) = D - plan_keys ps" using run(2) p by auto
    ultimately show ?thesis
      using Cons.IH [OF run(1) Cons.prems(2)] run(2) p by simp
  next
    case None
    then obtain ob where ob: "d = Inr ob" "converge ps (m(k \<mapsto> sans_uid ob)) = (m', None)"
      using Cons.prems(1) p by (cases d) auto
    have m': "m' k = Some (sans_uid ob)" using map_leD [OF converge_grows [OF ob(2)]] by simp
    have "converge (p # ps) (m' |` (- D)) = converge ps (m' |` (- (D - {k})))"
    proof (cases "k \<in> D")
      case True
      have "(m' |` (- D))(k \<mapsto> sans_uid ob) = m' |` (- (D - {k}))"
        using m' by (auto simp: restrict_map_def fun_eq_iff)
      with True ob(1) p show ?thesis by simp
    next
      case False
      with m' p show ?thesis by simp
    qed
    also have "\<dots> = (m' |` (- (D - {k} - plan_keys ps)), None)"
      by (rule Cons.IH [OF ob(2)]) (use Cons.prems(2) in auto)
    also have "D - {k} - plan_keys ps = D - plan_keys (p # ps)" using p by auto
    finally show ?thesis .
  qed
qed

lemma abs_store_restrict [simp]: "abs_store (m |` A) = abs_store m |` A"
  by (rule ext) (simp add: abs_store_def restrict_map_def)

lemma restrict_map_neutral: "A \<inter> dom m = {} \<Longrightarrow> m |` (- A) = m"
  by (rule ext) (use domIff in \<open>fastforce simp: restrict_map_def\<close>)

lemma dom_abs_store [simp]: "dom (abs_store m) = dom m"
  by (auto simp: dom_def)

subsection \<open>Growth of a store\<close>

text \<open>
  Nothing is changed or removed, and what is new is one of the given objects under its key,
  with a UID.
\<close>

definition grows_by :: "(obj_key \<times> kobj) set \<Rightarrow> store \<Rightarrow> store \<Rightarrow> bool" where
  "grows_by A m m' \<longleftrightarrow> m \<subseteq>\<^sub>m m' \<and>
     (\<forall>k ob. m' k = Some ob \<longrightarrow> m k = None \<longrightarrow> (\<exists>ob0 u. (k, ob0) \<in> A \<and> ob = with_uid u ob0))"

lemma grows_by_refl [simp]: "grows_by A m m"
  by (simp add: grows_by_def)

lemma grows_by_le: "grows_by A m m' \<Longrightarrow> m \<subseteq>\<^sub>m m'"
  by (simp add: grows_by_def)

lemma grows_by_new: "grows_by A m m' \<Longrightarrow> m k = None \<Longrightarrow> m' k = Some ob \<Longrightarrow>
    \<exists>ob0 u. (k, ob0) \<in> A \<and> ob = with_uid u ob0"
  unfolding grows_by_def by blast

lemma grows_by_upd: "m k = None \<Longrightarrow> (k, ob) \<in> A \<Longrightarrow> grows_by A m (m(k \<mapsto> with_uid u ob))"
  by (auto simp: grows_by_def map_le_upd_free split: if_splits)

lemma grows_by_mono: "grows_by A m m' \<Longrightarrow> A \<subseteq> B \<Longrightarrow> grows_by B m m'"
  unfolding grows_by_def by blast

lemma grows_by_trans:
  assumes "grows_by A m m1" "grows_by A m1 m2"
  shows "grows_by A m m2"
proof -
  have "\<exists>ob0 u. (k, ob0) \<in> A \<and> ob = with_uid u ob0" if "m2 k = Some ob" "m k = None" for k ob
  proof (cases "m1 k")
    case None
    then show ?thesis using grows_by_new [OF assms(2) _ that(1)] by blast
  next
    case (Some ob')
    then have "ob' = ob" using map_leD [OF grows_by_le [OF assms(2)]] that by simp
    with Some show ?thesis using grows_by_new [OF assms(1) that(2)] by blast
  qed
  with assms show ?thesis unfolding grows_by_def by (blast intro: map_le_trans)
qed

lemma plan_objects_Cons_subset: "plan_objects ps \<subseteq> plan_objects (p # ps)"
  by (auto simp: plan_objects_def)

subsection \<open>Chains of steps\<close>

text \<open>A chain of steps against a plan, in the three strengths.\<close>

lemma safe_chain:
  assumes "list_all2 (safe_step objs ok) ps ss" "ok w" "run_steps ss w = (w', r)"
  shows "ok w'" and "grows_by (plan_objects ps) (objs w) (objs w')"
proof -
  have "ok w' \<and> grows_by (plan_objects ps) (objs w) (objs w')"
    using assms
  proof (induction ps ss arbitrary: w rule: list_all2_induct)
    case Nil
    then show ?case by simp
  next
    case (Cons p ps s ss)
    obtain w1 r1 where s: "s w = (w1, r1)" by fastforce
    note step = safe_stepD [OF Cons.hyps(1) Cons.prems(1) s]
    have grows: "grows_by (plan_objects (p # ps)) (objs w) (objs w1)"
      using step(2) by (cases p) (auto intro: grows_by_upd)
    show ?case
    proof (cases r1)
      case None
      then have "run_steps ss w1 = (w', r)" using Cons.prems(2) s by simp
      then have "ok w'" "grows_by (plan_objects ps) (objs w1) (objs w')"
        using Cons.IH [OF step(1)] by simp_all
      then show ?thesis
        using grows_by_trans [OF grows grows_by_mono] plan_objects_Cons_subset by blast
    next
      case (Some e)
      with Cons.prems(2) s step(1) grows show ?thesis by simp
    qed
  qed
  then show "ok w'" and "grows_by (plan_objects ps) (objs w) (objs w')" by auto
qed

lemma complete_chain:
  assumes "list_all2 (safe_step objs ok) ps ss" "list_all2 (complete_step objs ok) ps ss"
    "ok w" "run_steps ss w = (w', None)" "k \<in> plan_keys ps"
  shows "objs w' k \<noteq> None"
  using assms
proof (induction ps ss arbitrary: w rule: list_all2_induct)
  case Nil
  then show ?case by simp
next
  case (Cons p ps s ss)
  obtain w1 where s: "s w = (w1, None)" and run: "run_steps ss w1 = (w', None)"
    using Cons.prems(3) by (auto split: prod.splits option.splits)
  have comp: "complete_step objs ok p s" "list_all2 (complete_step objs ok) ps ss"
    using Cons.prems(1) by simp_all
  have w1: "ok w1" using safe_stepD(1) [OF Cons.hyps(1) Cons.prems(2) s] .
  have "objs w1 (fst p) \<noteq> None" using complete_stepD [OF comp(1) Cons.prems(2) s] .
  then have "objs w' (fst p) \<noteq> None"
    using map_le_taken [OF grows_by_le [OF safe_chain(2) [OF Cons.hyps(2) w1 run]]] by blast
  with Cons.prems(4) Cons.IH [OF comp(2) w1 run] show ?case by auto
qed

text \<open>
  Order: when a chain, successful or not, has created the object of an item, the keys of all
  earlier items are taken.
\<close>

lemma ordered_chain:
  assumes "list_all2 (safe_step objs ok) (ps @ p # qs) ss"
    "list_all2 (complete_step objs ok) (ps @ p # qs) ss"
    "ok w" "run_steps ss w = (w', r)" "objs w (fst p) = None" "objs w' (fst p) \<noteq> None"
    "fst p \<notin> plan_keys ps" "k \<in> plan_keys ps"
  shows "objs w' k \<noteq> None"
proof -
  obtain ss1 ss2 where ss: "ss = ss1 @ ss2"
    and safe1: "list_all2 (safe_step objs ok) ps ss1"
    and safe2: "list_all2 (safe_step objs ok) (p # qs) ss2"
    using assms(1) by (auto simp: list_all2_append1)
  have len: "length ps = length ss1" using safe1 by (rule list_all2_lengthD)
  have comp1: "list_all2 (complete_step objs ok) ps ss1"
    using assms(2) len by (simp add: ss list_all2_append)
  obtain w1 r1 where run1: "run_steps ss1 w = (w1, r1)" by fastforce
  show ?thesis
  proof (cases r1)
    case None
    then have run2: "run_steps ss2 w1 = (w', r)" using assms(4) run1 by (simp add: ss run_steps_append)
    have w1: "ok w1" by (rule safe_chain(1) [OF safe1 assms(3) run1])
    have "objs w1 k \<noteq> None" using complete_chain [OF safe1 comp1 assms(3) _ assms(8)] run1 None by simp
    then show ?thesis by (rule map_le_taken [OF grows_by_le [OF safe_chain(2) [OF safe2 w1 run2]]])
  next
    case (Some e)
    then have "w' = w1" using assms(4) run1 by (simp add: ss run_steps_append)
    then obtain ob where "objs w1 (fst p) = Some ob" using assms(6) by auto
    then have "fst p \<in> plan_keys ps"
      using grows_by_new [OF safe_chain(2) [OF safe1 assms(3) run1] assms(5)] plan_objects_keys by blast
    then show ?thesis using assms(7) by simp
  qed
qed

text \<open>Refinement: with exact steps the chain computes \<open>converge\<close> on the abstract store.\<close>

lemma exact_chain:
  assumes "list_all2 (safe_step objs ok) ps ss" "list_all2 (exact_step objs ok) ps ss" "ok w"
  shows "\<exists>w'. run_steps ss w = (w', snd (converge ps (abs_store (objs w)))) \<and>
    abs_store (objs w') = fst (converge ps (abs_store (objs w)))"
  using assms
proof (induction ps ss arbitrary: w rule: list_all2_induct)
  case Nil
  then show ?case by simp
next
  case (Cons p ps s ss)
  obtain k d where p: "p = (k, d)" by fastforce
  have exact: "exact_step objs ok p s" "list_all2 (exact_step objs ok) ps ss"
    using Cons.prems(1) by simp_all
  have step: "if objs w k \<noteq> None then \<exists>w'. s w = (w', None) \<and> objs w' = objs w
      else (case d of
          Inl e \<Rightarrow> \<exists>w'. s w = (w', Some e) \<and> objs w' = objs w
        | Inr ob \<Rightarrow> \<exists>w' u. s w = (w', None) \<and> objs w' = (objs w)(k \<mapsto> with_uid u ob))"
    using exact(1) [unfolded exact_step_def p fst_conv snd_conv, rule_format, OF Cons.prems(2)] .
  consider (fail) e w1 where "d = Inl e" "objs w k = None" "s w = (w1, Some e)" "objs w1 = objs w"
    | (go) w1 where "s w = (w1, None)"
      "converge (p # ps) (abs_store (objs w)) = converge ps (abs_store (objs w1))"
  proof (cases "objs w k")
    case None
    then show thesis
    proof (cases d)
      case (Inl e)
      with None step show thesis using fail by auto
    next
      case (Inr ob)
      with None step obtain w1 u where "s w = (w1, None)" "objs w1 = (objs w)(k \<mapsto> with_uid u ob)"
        by auto
      with None Inr p show thesis using go [of w1] by simp
    qed
  next
    case (Some ob)
    then obtain w1 where "s w = (w1, None)" "objs w1 = objs w" using step by auto
    with Some p show thesis using go [of w1] by simp
  qed
  then show ?case
  proof cases
    case fail
    with p show ?thesis by simp
  next
    case go
    have "ok w1" using safe_stepD(1) [OF Cons.hyps(1) Cons.prems(2) go(1)] .
    with go Cons.IH [OF exact(2)] show ?thesis by simp
  qed
qed

end
