(* ===== verification/Tracker.thy ===== *)
theory Tracker
  imports Plans
begin

section \<open>The object tracker and the fake client\<close>

text \<open>
  The in-memory client of the vendored tree: \<^verbatim>\<open>client-go/testing/fixture.go\<close> keeps the objects
  of every resource in a list, \<^verbatim>\<open>controller-runtime/pkg/client/fake\<close> maps Go types to
  resources through the scheme. It is a model of the whole client contract: the last section
  shows that it is a reliable client.
\<close>

subsection \<open>Resources\<close>

record gvr =
  gvr_Group :: string
  gvr_Version :: string
  gvr_Resource :: string

definition unpluralizedSuffixes :: "string list" where
  "unpluralizedSuffixes = [''endpoints'']"

definition has_suffix :: "string \<Rightarrow> string \<Rightarrow> bool" where
  "has_suffix sfx s \<longleftrightarrow> take (length sfx) (rev s) = rev sfx"

definition UnsafeGuessKindToResource :: "gvk \<Rightarrow> gvr" where
  "UnsafeGuessKindToResource kind =
     (if gvk_Kind kind = [] then \<lparr>gvr_Group = [], gvr_Version = [], gvr_Resource = []\<rparr>
      else
        let singularName = ToLower (gvk_Kind kind);
            withResource = (\<lambda>r. \<lparr>gvr_Group = gvk_Group kind, gvr_Version = gvk_Version kind, gvr_Resource = r\<rparr>)
        in if list_ex (\<lambda>skip. has_suffix skip singularName) unpluralizedSuffixes
           then withResource singularName
           else if last singularName = CHR ''s'' then withResource (singularName @ ''es'')
           else if last singularName = CHR ''y'' then withResource (butlast singularName @ ''ies'')
           else withResource (singularName @ ''s''))"

definition getGVRFromObject :: "go_type \<Rightarrow> scheme \<Rightarrow> go_error + gvr" where
  "getGVRFromObject t s =
     (case GVKForObject t s of
        Inl err \<Rightarrow> Inl err
      | Inr g \<Rightarrow> Inr (UnsafeGuessKindToResource g))"

lemma getGVRFromObject_not_NotFound: "getGVRFromObject t s = Inl e \<Longrightarrow> \<not> IsNotFound e"
  by (auto simp: getGVRFromObject_def dest: GVKForObject_not_NotFound split: sum.splits)

subsection \<open>The tracker\<close>

text \<open>
  \<^verbatim>\<open>tracker.objects\<close> maps a resource to the list of its objects. Locks and watchers are not
  modelled: every operation holds the lock from start to end.
\<close>

type_synonym tracker = "gvr \<rightharpoonup> kobj list"

definition tracked :: "tracker \<Rightarrow> gvr \<Rightarrow> kobj list" where
  "tracked tr g = (case tr g of None \<Rightarrow> [] | Some obs \<Rightarrow> obs)"

definition filterByNamespaceAndName :: "kobj list \<Rightarrow> string \<Rightarrow> string \<Rightarrow> kobj list" where
  "filterByNamespaceAndName obs ns name =
     filter (\<lambda>ob. \<not> (ns \<noteq> [] \<and> om_Namespace (meta_of ob) \<noteq> ns) \<and>
                  \<not> (name \<noteq> [] \<and> om_Name (meta_of ob) \<noteq> name)) obs"

definition tracker_Get :: "tracker \<Rightarrow> gvr \<Rightarrow> string \<Rightarrow> string \<Rightarrow> go_error + kobj" where
  "tracker_Get tr g ns name =
     (let errNotFound = NewNotFound (gvr_Group g) (gvr_Resource g) name
      in case tr g of
           None \<Rightarrow> Inl errNotFound
         | Some obs \<Rightarrow>
             (case filterByNamespaceAndName obs ns name of
                [] \<Rightarrow> Inl errNotFound
              | [ob] \<Rightarrow> Inr ob
              | _ \<Rightarrow> Inl (ErrorString ''more than one object matched'')))"

definition NewBadRequest :: "string \<Rightarrow> go_error" where
  "NewBadRequest reason =
     StatusError \<lparr>st_Reason = ''BadRequest'', st_Code = 400, st_Group = [], st_Kind = [],
       st_Name = []\<rparr>"

text \<open>The index of the first object of the same namespace and name.\<close>

fun find_index :: "object_meta \<Rightarrow> kobj list \<Rightarrow> nat option" where
  "find_index m [] = None"
| "find_index m (ob # obs) =
     (if om_Namespace (meta_of ob) = om_Namespace m \<and> om_Name (meta_of ob) = om_Name m then Some 0
      else map_option Suc (find_index m obs))"

definition tracker_add ::
  "tracker \<Rightarrow> gvr \<Rightarrow> kobj \<Rightarrow> string \<Rightarrow> bool \<Rightarrow> tracker \<times> go_error option" where
  "tracker_add tr g ob0 ns replaceExisting =
     (let ob = (if om_Namespace (meta_of ob0) = [] then map_meta (\<lambda>m. m\<lparr>om_Namespace := ns\<rparr>) ob0 else ob0);
          newMeta = meta_of ob
      in if ns \<noteq> om_Namespace newMeta
         then (tr, Some (NewBadRequest ''request namespace does not match object namespace''))
         else (case find_index newMeta (tracked tr g) of
                 Some i \<Rightarrow>
                   if replaceExisting then (tr(g \<mapsto> (tracked tr g)[i := ob]), None)
                   else (tr, Some (NewAlreadyExists (gvr_Group g) (gvr_Resource g) (om_Name newMeta)))
               | None \<Rightarrow>
                   if replaceExisting then (tr, Some (NewNotFound (gvr_Group g) (gvr_Resource g) (om_Name newMeta)))
                   else (tr(g \<mapsto> tracked tr g @ [ob]), None)))"

definition tracker_Create :: "tracker \<Rightarrow> gvr \<Rightarrow> kobj \<Rightarrow> string \<Rightarrow> tracker \<times> go_error option" where
  "tracker_Create tr g ob ns = tracker_add tr g ob ns False"

subsection \<open>The fake client\<close>

record fakeClient =
  fc_tracker :: tracker
  fc_scheme :: scheme

text \<open>
  \<^verbatim>\<open>Get\<close> copies the stored object into the one passed by way of JSON. The objects of a
  resource are all of one Go type, so the copy is the object (for the custom resources
  \<open>Manifest_Properties\<close> shows this); another type is an error here.
\<close>

definition fake_Get :: "fakeClient \<Rightarrow> go_type \<Rightarrow> namespaced_name \<Rightarrow> fakeClient \<times> (go_error + kobj)" where
  "fake_Get c t key =
     (c, case getGVRFromObject t (fc_scheme c) of
           Inl err \<Rightarrow> Inl err
         | Inr g \<Rightarrow>
             (case tracker_Get (fc_tracker c) g (nn_Namespace key) (nn_Name key) of
                Inl err \<Rightarrow> Inl err
              | Inr ob \<Rightarrow> if type_of ob = t then Inr ob else Inl wrong_type))"

definition fake_Create :: "fakeClient \<Rightarrow> kobj \<Rightarrow> fakeClient \<times> go_error option" where
  "fake_Create c ob =
     (case getGVRFromObject (type_of ob) (fc_scheme c) of
        Inl err \<Rightarrow> (c, Some err)
      | Inr g \<Rightarrow>
          (case tracker_Create (fc_tracker c) g ob (om_Namespace (meta_of ob)) of
             (tr, r) \<Rightarrow> (c\<lparr>fc_tracker := tr\<rparr>, r)))"

definition fake_client :: "fakeClient client" where
  "fake_client = \<lparr>cl_Get = fake_Get, cl_Create = fake_Create\<rparr>"

lemma fake_client_sel [simp]: "cl_Get fake_client = fake_Get" "cl_Create fake_client = fake_Create"
  by (simp_all add: fake_client_def)

subsection \<open>Its content and invariant\<close>

text \<open>Every type is registered, and no two share a resource.\<close>

definition scheme_full :: "scheme \<Rightarrow> bool" where
  "scheme_full s \<longleftrightarrow>
     (\<forall>t. \<not> isl (getGVRFromObject t s)) \<and>
     distinct (map (\<lambda>t. projr (getGVRFromObject t s)) enum_class.enum)"

definition resource_of :: "scheme \<Rightarrow> go_type \<Rightarrow> gvr" where
  "resource_of s t = projr (getGVRFromObject t s)"

lemma scheme_fullD:
  assumes "scheme_full s"
  shows "getGVRFromObject t s = Inr (resource_of s t)"
    and "resource_of s t = resource_of s t' \<longleftrightarrow> t = t'"
proof -
  show "getGVRFromObject t s = Inr (resource_of s t)"
    using assms by (auto simp: scheme_full_def resource_of_def)
  have "inj (resource_of s)"
    using assms by (simp add: scheme_full_def distinct_map resource_of_def [abs_def] UNIV_enum)
  then show "resource_of s t = resource_of s t' \<longleftrightarrow> t = t'"
    by (auto dest: inj_onD)
qed

definition fake_list :: "fakeClient \<Rightarrow> go_type \<Rightarrow> kobj list" where
  "fake_list c t = tracked (fc_tracker c) (resource_of (fc_scheme c) t)"

definition fake_objs :: "fakeClient \<Rightarrow> store" where
  "fake_objs c k = find (\<lambda>ob. meta_name (meta_of ob) = snd k) (fake_list c (fst k))"

definition fake_ok :: "fakeClient \<Rightarrow> bool" where
  "fake_ok c \<longleftrightarrow>
     scheme_full (fc_scheme c) \<and>
     (\<forall>t. (\<forall>ob\<in>set (fake_list c t). type_of ob = t \<and> proper_name (meta_name (meta_of ob))) \<and>
          distinct (map (\<lambda>ob. meta_name (meta_of ob)) (fake_list c t)))"

lemma fake_okD:
  assumes "fake_ok c"
  shows "scheme_full (fc_scheme c)"
    and "ob \<in> set (fake_list c t) \<Longrightarrow> type_of ob = t"
    and "ob \<in> set (fake_list c t) \<Longrightarrow> proper_name (meta_name (meta_of ob))"
    and "distinct (map (\<lambda>ob. meta_name (meta_of ob)) (fake_list c t))"
  using assms by (auto simp: fake_ok_def)

subsection \<open>The fake client is reliable\<close>

lemma filter_distinct_find:
  "distinct (map f xs) \<Longrightarrow>
   filter (\<lambda>x. f x = y) xs = (case find (\<lambda>x. f x = y) xs of None \<Rightarrow> [] | Some x \<Rightarrow> [x])"
proof (induction xs)
  case Nil
  then show ?case by simp
next
  case (Cons x xs)
  have "f x = y \<Longrightarrow> filter (\<lambda>x. f x = y) xs = []"
    using Cons.prems by (metis (mono_tags, lifting) distinct.simps(2) filter_False imageI list.set_map list.simps(9))
  with Cons show ?case by auto
qed

lemma meta_name_eq:
  "meta_name m = nn \<longleftrightarrow> om_Namespace m = nn_Namespace nn \<and> om_Name m = nn_Name nn"
  by (cases nn) (simp add: meta_name_def NamespacedName_def)

lemma filter_proper:
  "proper_name nn \<Longrightarrow> filterByNamespaceAndName obs (nn_Namespace nn) (nn_Name nn) =
     filter (\<lambda>ob. meta_name (meta_of ob) = nn) obs"
  by (auto simp: filterByNamespaceAndName_def proper_name_def meta_name_eq intro: filter_cong)

lemma find_index_None:
  "find_index m obs = None \<longleftrightarrow> find (\<lambda>ob. meta_name (meta_of ob) = meta_name m) obs = None"
  by (induction obs) (auto simp: meta_name_def)

lemma fake_Get_proper:
  assumes "fake_ok c" "proper_name nn"
  shows "fake_Get c t nn =
    (c, case fake_objs c (t, nn) of
          Some ob \<Rightarrow> Inr ob
        | None \<Rightarrow> Inl (NewNotFound (gvr_Group (resource_of (fc_scheme c) t))
                         (gvr_Resource (resource_of (fc_scheme c) t)) (nn_Name nn)))"
proof -
  let ?g = "resource_of (fc_scheme c) t" and ?f = "\<lambda>ob. meta_name (meta_of ob)"
  have gvr: "getGVRFromObject t (fc_scheme c) = Inr ?g"
    using fake_okD(1) [OF assms(1)] by (rule scheme_fullD)
  have flt: "filterByNamespaceAndName (fake_list c t) (nn_Namespace nn) (nn_Name nn) =
      (case fake_objs c (t, nn) of None \<Rightarrow> [] | Some x \<Rightarrow> [x])"
    unfolding filter_proper [OF assms(2)] fake_objs_def fst_conv snd_conv
    by (rule filter_distinct_find [OF fake_okD(4) [OF assms(1)]])
  have stored: "fake_objs c (t, nn) = Some ob \<Longrightarrow> type_of ob = t" for ob
    using fake_okD(2) [OF assms(1)] by (auto simp: fake_objs_def find_Some_iff)
  show ?thesis
  proof (cases "fc_tracker c ?g")
    case None
    then show ?thesis
      by (simp add: fake_Get_def gvr tracker_Get_def fake_objs_def fake_list_def tracked_def)
  next
    case (Some obs)
    then have "fake_list c t = obs" by (simp add: fake_list_def tracked_def)
    with Some flt stored show ?thesis
      by (cases "fake_objs c (t, nn)") (simp_all add: fake_Get_def gvr tracker_Get_def)
  qed
qed

lemma fake_Create_eq:
  assumes "fake_ok c"
  shows "fake_Create c ob =
    (let g = resource_of (fc_scheme c) (type_of ob)
     in if fake_objs c (key_of ob) = None
        then (c\<lparr>fc_tracker := (fc_tracker c)(g \<mapsto> fake_list c (type_of ob) @ [ob])\<rparr>, None)
        else (c, Some (NewAlreadyExists (gvr_Group g) (gvr_Resource g) (om_Name (meta_of ob)))))"
proof -
  have gvr: "getGVRFromObject (type_of ob) (fc_scheme c) = Inr (resource_of (fc_scheme c) (type_of ob))"
    using fake_okD(1) [OF assms] by (rule scheme_fullD)
  have ns: "map_meta (\<lambda>m. m\<lparr>om_Namespace := []\<rparr>) ob = ob" if "om_Namespace (meta_of ob) = []"
    using that by (cases ob) auto
  have none: "find_index (meta_of ob) (fake_list c (type_of ob)) = None \<longleftrightarrow> fake_objs c (key_of ob) = None"
    by (simp add: find_index_None fake_objs_def key_of_def)
  show ?thesis
    using none ns
    by (cases "find_index (meta_of ob) (fake_list c (type_of ob))")
      (auto simp: fake_Create_def gvr tracker_Create_def tracker_add_def Let_def fake_list_def)
qed

lemma fake_list_upd:
  assumes "scheme_full (fc_scheme c)"
  shows "fake_list (c\<lparr>fc_tracker := (fc_tracker c)(resource_of (fc_scheme c) t \<mapsto> obs)\<rparr>) t' =
    (if t' = t then obs else fake_list c t')"
  using scheme_fullD(2) [OF assms, of t' t] by (auto simp: fake_list_def tracked_def)

lemma find_append:
  "find P (xs @ ys) = (case find P xs of None \<Rightarrow> find P ys | Some x \<Rightarrow> Some x)"
  by (induction xs) auto

lemma fake_objs_upd:
  assumes "scheme_full (fc_scheme c)" "fake_objs c (key_of ob) = None"
  shows "fake_objs (c\<lparr>fc_tracker := (fc_tracker c)
      (resource_of (fc_scheme c) (type_of ob) \<mapsto> fake_list c (type_of ob) @ [ob])\<rparr>) =
    (fake_objs c)(key_of ob \<mapsto> ob)"
proof
  fix k
  show "fake_objs (c\<lparr>fc_tracker := (fc_tracker c)
      (resource_of (fc_scheme c) (type_of ob) \<mapsto> fake_list c (type_of ob) @ [ob])\<rparr>) k =
    ((fake_objs c)(key_of ob \<mapsto> ob)) k"
    using assms(2)
    by (cases k) (auto simp: fake_objs_def fake_list_upd [OF assms(1)] find_append key_of_def
        split: option.splits)
qed

lemma fake_ok_upd:
  assumes "fake_ok c" "fake_objs c (key_of ob) = None" "proper_name (snd (key_of ob))"
  shows "fake_ok (c\<lparr>fc_tracker := (fc_tracker c)
      (resource_of (fc_scheme c) (type_of ob) \<mapsto> fake_list c (type_of ob) @ [ob])\<rparr>)"
proof -
  note full = fake_okD(1) [OF assms(1)]
  have "meta_name (meta_of ob) \<notin> (\<lambda>ob. meta_name (meta_of ob)) ` set (fake_list c (type_of ob))"
    using assms(2) by (auto simp: fake_objs_def key_of_def find_None_iff)
  with fake_okD(2-4) [OF assms(1)] full assms(3) show ?thesis
    by (auto simp: fake_ok_def fake_list_upd [OF full] key_of_def)
qed

lemma with_own_uid [simp]: "with_uid (om_UID (meta_of ob)) ob = ob"
  by (cases ob) (simp_all add: with_uid_def)

interpretation fake: reliable_client fake_client fake_objs fake_ok
proof unfold_locales
  fix w w' t nn r
  assume "fake_ok w" "cl_Get fake_client w t nn = (w', r)"
  then show "fake_ok w' \<and> fake_objs w' = fake_objs w" by (simp add: fake_Get_def)
next
  fix w w' t nn ob
  assume ok: "fake_ok w" "proper_name nn" and get: "cl_Get fake_client w t nn = (w', Inr ob)"
  then have found: "fake_objs w (t, nn) = Some ob"
    using fake_Get_proper [OF ok, of t] by (auto split: option.splits)
  then show "key_of ob = (t, nn)"
    using fake_okD(2) [OF ok(1)] by (auto simp: fake_objs_def find_Some_iff key_of_def)
  show "fake_objs w (t, nn) \<noteq> None" using found by simp
next
  fix w w' ob e
  assume ok: "fake_ok w" and proper: "proper_name (snd (key_of ob))"
    and create: "cl_Create fake_client w ob = (w', e)"
  show "fake_ok w'"
    using create fake_ok_upd [OF ok _ proper] ok by (auto simp: fake_Create_eq [OF ok] Let_def split: if_splits)
  have "\<exists>u. (fake_objs w)(key_of ob \<mapsto> ob) = (fake_objs w)(key_of ob \<mapsto> with_uid u ob)"
    by (rule exI [of _ "om_UID (meta_of ob)"]) simp
  then show "fake_objs w' = fake_objs w \<and> e \<noteq> None \<or>
      fake_objs w (key_of ob) = None \<and>
      (\<exists>u. fake_objs w' = (fake_objs w)(key_of ob \<mapsto> with_uid u ob))"
    using create fake_objs_upd [OF fake_okD(1) [OF ok]]
    by (auto simp: fake_Create_eq [OF ok] Let_def split: if_splits)
next
  fix w t nn ob
  assume ok: "fake_ok w" "proper_name nn" and "fake_objs w (t, nn) = Some ob"
  then show "\<exists>w'. cl_Get fake_client w t nn = (w', Inr ob)"
    by (simp add: fake_Get_proper [OF ok])
next
  fix w t nn
  assume ok: "fake_ok w" "proper_name nn" and "fake_objs w (t, nn) = None"
  then show "\<exists>w' e. cl_Get fake_client w t nn = (w', Inl e) \<and> IsNotFound e"
    by (simp add: fake_Get_proper [OF ok])
next
  fix w ob
  assume ok: "fake_ok w" and "fake_objs w (key_of ob) = None"
  then show "\<exists>w'. cl_Create fake_client w ob = (w', None)"
    by (simp add: fake_Create_eq [OF ok] Let_def)
qed

subsection \<open>Building a fake client\<close>

fun tracker_add_all :: "gvk list \<Rightarrow> kobj \<Rightarrow> tracker \<Rightarrow> tracker \<times> go_error option" where
  "tracker_add_all [] ob tr = (tr, None)"
| "tracker_add_all (g # gs) ob tr =
     (case tracker_add tr (UnsafeGuessKindToResource g) ob (om_Namespace (meta_of ob)) False of
        (tr1, None) \<Rightarrow> tracker_add_all gs ob tr1
      | (tr1, Some err) \<Rightarrow> (tr1, Some err))"

definition tracker_Add :: "scheme \<Rightarrow> kobj \<Rightarrow> tracker \<Rightarrow> tracker \<times> go_error option" where
  "tracker_Add s ob tr =
     (case ObjectKinds s (type_of ob) of
        Inl err \<Rightarrow> (tr, Some err)
      | Inr (gvks, _) \<Rightarrow>
          if length gvks = 0 then (tr, Some (ErrorString ''no registered kinds''))
          else tracker_add_all gvks ob tr)"

text \<open>\<^verbatim>\<open>NewFakeClientWithScheme\<close>; \<open>None\<close> is \<^verbatim>\<open>os.Exit(1)\<close>.\<close>

definition NewFakeClientWithScheme :: "scheme \<Rightarrow> kobj list \<Rightarrow> fakeClient option" where
  "NewFakeClientWithScheme s initObjs =
     (case run_steps (map (tracker_Add s) initObjs) Map.empty of
        (tr, None) \<Rightarrow> Some \<lparr>fc_tracker = tr, fc_scheme = s\<rparr>
      | (tr, Some err) \<Rightarrow> None)"

text \<open>
  The kinds of the Kubernetes API that the operator uses, as \<^verbatim>\<open>client-go\<close>'s scheme registers
  them, group by group with the types of \<^verbatim>\<open>metav1\<close>, and the operator's scheme: those and its own
  three resources.
\<close>

definition builtin_scheme :: scheme where
  "builtin_scheme =
     the (builder_AddToScheme
       (builder_Register (''policy'', ''v1beta1'') [PodDisruptionBudgetT]
         (builder_Register ([], ''v1'') [PodT, ServiceT, ConfigMapT]
           (builder_Register (''apps'', ''v1'') [StatefulSetT] []))) NewScheme)"

definition operator_scheme :: scheme where
  "operator_scheme = the (AddToScheme builtin_scheme)"

lemma operator_scheme_registered: "AddToScheme builtin_scheme = Some operator_scheme"
proof -
  have "\<not> Option.is_none (AddToScheme builtin_scheme)" by code_simp
  then show ?thesis by (simp add: operator_scheme_def Option.is_none_def)
qed

lemma operator_scheme_full: "scheme_full operator_scheme"
  by code_simp

lemma operator_scheme_ready: "scheme_ready operator_scheme"
  by code_simp

end
