(* ===== verification/Split_Client.thy ===== *)
theory Split_Client
  imports Tracker
begin

section \<open>The split client\<close>

text \<open>
  The client that the manager gives the reconcilers (\<^verbatim>\<open>client/split.go\<close>): reads of typed
  objects go to the cache, creates to the API server. The cache keeps one informer per group,
  version and kind; an informer is made by the first read of its kind, which then waits for
  the initial list. The API server is a parameter, a record of two operations with the laws of
  the locale \<open>api_server\<close>; a reading through the cache of a server that deletes nothing is
  sound, which is the sublocale at the end.
\<close>

subsection \<open>The server\<close>

record 'sv server =
  sv_List :: "'sv \<Rightarrow> go_type \<Rightarrow> kobj list option"
  sv_Post :: "'sv \<Rightarrow> kobj \<Rightarrow> 'sv \<times> go_error option"

text \<open>
  A list that arrives contains stored objects of the type. \<open>None\<close> is a list that never
  arrived before the stop channel was closed.
\<close>

locale api_server =
  fixes sv :: "'sv server"
    and sobjs :: "'sv \<Rightarrow> store"
    and sok :: "'sv \<Rightarrow> bool"
  assumes list_stored: "sok s \<Longrightarrow> sv_List sv s t = Some obs \<Longrightarrow> ob \<in> set obs \<Longrightarrow>
      type_of ob = t \<and> proper_name (snd (key_of ob)) \<and> sobjs s (key_of ob) \<noteq> None"
    and post_ok: "sok s \<Longrightarrow> proper_name (snd (key_of ob)) \<Longrightarrow> sv_Post sv s ob = (s', e) \<Longrightarrow> sok s'"
    and post_effect: "sok s \<Longrightarrow> proper_name (snd (key_of ob)) \<Longrightarrow> sv_Post sv s ob = (s', e) \<Longrightarrow>
      (sobjs s' = sobjs s \<and> e \<noteq> None) \<or>
      (sobjs s (key_of ob) = None \<and> (\<exists>u. sobjs s' = (sobjs s)(key_of ob \<mapsto> with_uid u ob)))"

subsection \<open>Store keys\<close>

definition objectKeyToStoreKey :: "namespaced_name \<Rightarrow> string" where
  "objectKeyToStoreKey k =
     (if nn_Namespace k = [] then nn_Name k else nn_Namespace k @ ''/'' @ nn_Name k)"

definition MetaNamespaceKeyFunc :: "kobj \<Rightarrow> string" where
  "MetaNamespaceKeyFunc ob =
     (if 0 < length (om_Namespace (meta_of ob))
      then om_Namespace (meta_of ob) @ ''/'' @ om_Name (meta_of ob)
      else om_Name (meta_of ob))"

lemma MetaNamespaceKeyFunc_eq: "MetaNamespaceKeyFunc ob = objectKeyToStoreKey (meta_name (meta_of ob))"
  by (simp add: MetaNamespaceKeyFunc_def objectKeyToStoreKey_def meta_name_def)

lemma slash_split_unique:
  "a @ c # b = a' @ c # b' \<Longrightarrow> c \<notin> set a \<Longrightarrow> c \<notin> set a' \<Longrightarrow> a = a' \<and> b = b'"
proof (induction a arbitrary: a')
  case Nil
  then show ?case by (cases a') auto
next
  case (Cons x a)
  then show ?case by (cases a') auto
qed

lemma objectKeyToStoreKey_inject:
  assumes "proper_name nn" "proper_name nn'" "objectKeyToStoreKey nn = objectKeyToStoreKey nn'"
  shows "nn = nn'"
  using assms slash_split_unique [of "nn_Namespace nn" "CHR ''/''" "nn_Name nn" "nn_Namespace nn'" "nn_Name nn'"]
  by (cases nn; cases nn') (simp add: proper_name_def objectKeyToStoreKey_def)

subsection \<open>The informer cache\<close>

type_synonym indexer = "string \<rightharpoonup> kobj"

record 'sv DelegatingClient =
  dc_informers :: "gvk \<rightharpoonup> indexer"
  dc_started :: bool
  dc_scheme :: scheme
  dc_server :: 'sv

text \<open>Replacing the content of an indexer by a list; a later object of the same key wins.\<close>

definition indexer_of :: "kobj list \<Rightarrow> indexer" where
  "indexer_of obs = map_of (rev (map (\<lambda>ob. (MetaNamespaceKeyFunc ob, ob)) obs))"

definition CacheReader_Get :: "gvk \<Rightarrow> indexer \<Rightarrow> go_type \<Rightarrow> namespaced_name \<Rightarrow> go_error + kobj" where
  "CacheReader_Get g ix t key =
     (case ix (objectKeyToStoreKey key) of
        None \<Rightarrow> Inl (NewNotFound (gvk_Group g) (gvk_Kind g) (nn_Name key))
      | Some ob \<Rightarrow> if type_of ob = t then Inr ob else Inl wrong_type)"

definition InformersMap_Get ::
  "'sv server \<Rightarrow> gvk \<Rightarrow> go_type \<Rightarrow> 'sv DelegatingClient \<Rightarrow> 'sv DelegatingClient \<times> (go_error + indexer)" where
  "InformersMap_Get sv g t c =
     (case dc_informers c g of
        Some ix \<Rightarrow> (c, Inr ix)
      | None \<Rightarrow>
          if dc_started c then
            (case sv_List sv (dc_server c) t of
               Some obs \<Rightarrow>
                 (c\<lparr>dc_informers := (dc_informers c)(g \<mapsto> indexer_of obs)\<rparr>, Inr (indexer_of obs))
             | None \<Rightarrow>
                 (c\<lparr>dc_informers := (dc_informers c)(g \<mapsto> Map.empty)\<rparr>,
                  Inl (ErrorString ''failed waiting for Informer to sync'')))
          else (c\<lparr>dc_informers := (dc_informers c)(g \<mapsto> Map.empty)\<rparr>, Inr Map.empty))"

definition informerCache_Get ::
  "'sv server \<Rightarrow> 'sv DelegatingClient \<Rightarrow> go_type \<Rightarrow> namespaced_name \<Rightarrow>
   'sv DelegatingClient \<times> (go_error + kobj)" where
  "informerCache_Get sv c t key =
     (case GVKForObject t (dc_scheme c) of
        Inl err \<Rightarrow> (c, Inl err)
      | Inr g \<Rightarrow>
          (case InformersMap_Get sv g t c of
             (c1, Inl err) \<Rightarrow> (c1, Inl err)
           | (c1, Inr ix) \<Rightarrow> (c1, CacheReader_Get g ix t key)))"

text \<open>No object of the operator is unstructured, so every read goes to the cache.\<close>

definition DelegatingReader_Get ::
  "'sv server \<Rightarrow> 'sv DelegatingClient \<Rightarrow> go_type \<Rightarrow> namespaced_name \<Rightarrow>
   'sv DelegatingClient \<times> (go_error + kobj)" where
  "DelegatingReader_Get sv c t key = informerCache_Get sv c t key"

definition typedClient_Create ::
  "'sv server \<Rightarrow> 'sv DelegatingClient \<Rightarrow> kobj \<Rightarrow> 'sv DelegatingClient \<times> go_error option" where
  "typedClient_Create sv c ob =
     (case GVKForObject (type_of ob) (dc_scheme c) of
        Inl err \<Rightarrow> (c, Some err)
      | Inr g \<Rightarrow> (case sv_Post sv (dc_server c) ob of (s', r) \<Rightarrow> (c\<lparr>dc_server := s'\<rparr>, r)))"

definition split_client :: "'sv server \<Rightarrow> 'sv DelegatingClient client" where
  "split_client sv = \<lparr>cl_Get = DelegatingReader_Get sv, cl_Create = typedClient_Create sv\<rparr>"

text \<open>
  Between two operations of the reconcilers the watch of an informer may deliver the current
  version of a stored object.
\<close>

definition deliver :: "('sv \<Rightarrow> store) \<Rightarrow> gvk \<Rightarrow> obj_key \<Rightarrow> 'sv DelegatingClient \<Rightarrow> 'sv DelegatingClient" where
  "deliver sobjs g k c =
     (case (dc_informers c g, sobjs (dc_server c) k) of
        (Some ix, Some ob) \<Rightarrow>
          c\<lparr>dc_informers := (dc_informers c)(g \<mapsto> ix(MetaNamespaceKeyFunc ob \<mapsto> ob))\<rparr>
      | _ \<Rightarrow> c)"

subsection \<open>Content and invariant\<close>

definition split_objs :: "('sv \<Rightarrow> store) \<Rightarrow> 'sv DelegatingClient \<Rightarrow> store" where
  "split_objs sobjs c = sobjs (dc_server c)"

text \<open>Every cached object is under its key, and the server still has an object for it.\<close>

definition indexer_ok :: "store \<Rightarrow> indexer \<Rightarrow> bool" where
  "indexer_ok m ix \<longleftrightarrow>
     (\<forall>key ob. ix key = Some ob \<longrightarrow>
        key = MetaNamespaceKeyFunc ob \<and> proper_name (snd (key_of ob)) \<and> m (key_of ob) \<noteq> None)"

definition split_ok :: "('sv \<Rightarrow> store) \<Rightarrow> ('sv \<Rightarrow> bool) \<Rightarrow> 'sv DelegatingClient \<Rightarrow> bool" where
  "split_ok sobjs sok c \<longleftrightarrow>
     sok (dc_server c) \<and> (\<forall>g ix. dc_informers c g = Some ix \<longrightarrow> indexer_ok (split_objs sobjs c) ix)"

lemma indexer_ok_empty [simp]: "indexer_ok m Map.empty"
  by (simp add: indexer_ok_def)

lemma indexer_ok_mono: "indexer_ok m ix \<Longrightarrow> m \<subseteq>\<^sub>m m' \<Longrightarrow> indexer_ok m' ix"
  unfolding indexer_ok_def using map_le_taken by metis

lemma indexer_ok_list:
  assumes "\<And>ob. ob \<in> set obs \<Longrightarrow> proper_name (snd (key_of ob)) \<and> m (key_of ob) \<noteq> None"
  shows "indexer_ok m (indexer_of obs)"
  using assms by (auto simp: indexer_ok_def indexer_of_def dest!: map_of_SomeD)

lemma CacheReader_Get_Inr:
  assumes "indexer_ok m ix" "CacheReader_Get g ix t nn = Inr ob" "proper_name nn"
  shows "key_of ob = (t, nn)" and "m (t, nn) \<noteq> None"
proof -
  have ob: "ix (objectKeyToStoreKey nn) = Some ob" "type_of ob = t"
    using assms(2) by (auto simp: CacheReader_Get_def split: option.splits if_splits)
  then have "objectKeyToStoreKey nn = objectKeyToStoreKey (meta_name (meta_of ob))"
    "proper_name (meta_name (meta_of ob))" and stored: "m (key_of ob) \<noteq> None"
    using assms(1) unfolding indexer_ok_def MetaNamespaceKeyFunc_eq by (auto simp: key_of_def)
  with assms(3) have "nn = meta_name (meta_of ob)" by (blast intro: objectKeyToStoreKey_inject)
  with ob(2) show "key_of ob = (t, nn)" by (simp add: key_of_def)
  with stored show "m (t, nn) \<noteq> None" by simp
qed

context api_server
begin

abbreviation sinv :: "'sv DelegatingClient \<Rightarrow> bool" where
  "sinv \<equiv> split_ok sobjs sok"

lemma InformersMap_Get_ok:
  assumes "sinv c" "InformersMap_Get sv g t c = (c', r)"
  shows "sinv c'" and "split_objs sobjs c' = split_objs sobjs c"
    and "r = Inr ix \<Longrightarrow> indexer_ok (split_objs sobjs c') ix"
proof -
  have list: "sv_List sv (dc_server c) t = Some obs \<Longrightarrow> indexer_ok (split_objs sobjs c) (indexer_of obs)" for obs
    using assms(1) list_stored [of "dc_server c" t obs]
    by (intro indexer_ok_list) (auto simp: split_ok_def split_objs_def)
  show "sinv c'" "split_objs sobjs c' = split_objs sobjs c"
    "r = Inr ix \<Longrightarrow> indexer_ok (split_objs sobjs c') ix"
    using assms list
    by (auto simp: InformersMap_Get_def split_ok_def split_objs_def split: option.splits if_splits)
qed

lemma split_Get_ok:
  assumes "sinv c" "DelegatingReader_Get sv c t nn = (c', r)"
  shows "sinv c' \<and> split_objs sobjs c' = split_objs sobjs c"
  using assms InformersMap_Get_ok(1,2) [OF assms(1)]
  by (auto simp: DelegatingReader_Get_def informerCache_Get_def split: sum.splits prod.splits)

lemma split_Get_Inr:
  assumes "sinv c" "DelegatingReader_Get sv c t nn = (c', Inr ob)" "proper_name nn"
  shows "key_of ob = (t, nn)" and "split_objs sobjs c (t, nn) \<noteq> None"
proof -
  obtain g c1 ix where ix: "InformersMap_Get sv g t c = (c1, Inr ix)"
    and get: "CacheReader_Get g ix t nn = Inr ob"
    using assms(2)
    by (auto simp: DelegatingReader_Get_def informerCache_Get_def split: sum.splits prod.splits)
  note ok = InformersMap_Get_ok [OF assms(1) ix]
  show "key_of ob = (t, nn)" "split_objs sobjs c (t, nn) \<noteq> None"
    using CacheReader_Get_Inr [OF ok(3) [OF refl] get assms(3)] ok(2) by auto
qed

lemma split_Create_ok:
  assumes "sinv c" "proper_name (snd (key_of ob))" "typedClient_Create sv c ob = (c', e)"
  shows "sinv c'"
    and "split_objs sobjs c' = split_objs sobjs c \<and> e \<noteq> None \<or>
      split_objs sobjs c (key_of ob) = None \<and>
      (\<exists>u. split_objs sobjs c' = (split_objs sobjs c)(key_of ob \<mapsto> with_uid u ob))"
proof -
  consider (fail) "c' = c" "e \<noteq> None"
    | (post) s' where "sv_Post sv (dc_server c) ob = (s', e)" "c' = c\<lparr>dc_server := s'\<rparr>"
  proof (cases "GVKForObject (type_of ob) (dc_scheme c)")
    case (Inl err)
    with assms(3) show thesis by (intro fail) (auto simp: typedClient_Create_def)
  next
    case (Inr g)
    obtain s' r where "sv_Post sv (dc_server c) ob = (s', r)" by fastforce
    with Inr assms(3) show thesis by (intro post [of s']) (simp_all add: typedClient_Create_def)
  qed
  then have "sinv c' \<and> (split_objs sobjs c' = split_objs sobjs c \<and> e \<noteq> None \<or>
      split_objs sobjs c (key_of ob) = None \<and>
      (\<exists>u. split_objs sobjs c' = (split_objs sobjs c)(key_of ob \<mapsto> with_uid u ob)))"
  proof cases
    case fail
    with assms(1) show ?thesis by simp
  next
    case post
    have ok: "sok (dc_server c)" using assms(1) by (simp add: split_ok_def)
    note effect = post_effect [OF ok assms(2) post(1)]
    then have le: "sobjs (dc_server c) \<subseteq>\<^sub>m sobjs s'" by (auto simp: map_le_upd_free)
    have "sinv c'" unfolding split_ok_def
    proof (intro conjI allI impI)
      show "sok (dc_server c')" using post_ok [OF ok assms(2) post(1)] post(2) by simp
      show "indexer_ok (split_objs sobjs c') ix" if "dc_informers c' g = Some ix" for g ix
      proof (rule indexer_ok_mono)
        show "indexer_ok (split_objs sobjs c) ix"
          using assms(1) that post(2) by (simp add: split_ok_def)
        show "split_objs sobjs c \<subseteq>\<^sub>m split_objs sobjs c'"
          using le post(2) by (simp add: split_objs_def)
      qed
    qed
    then show ?thesis using effect post(2) by (simp add: split_objs_def)
  qed
  then show "sinv c'"
    and "split_objs sobjs c' = split_objs sobjs c \<and> e \<noteq> None \<or>
      split_objs sobjs c (key_of ob) = None \<and>
      (\<exists>u. split_objs sobjs c' = (split_objs sobjs c)(key_of ob \<mapsto> with_uid u ob))" by blast+
qed

text \<open>Deliveries of properly named objects keep the invariant and the content.\<close>

lemma deliver_ok:
  assumes "sinv c" "key_of ob = k" "sobjs (dc_server c) k = Some ob" "proper_name (snd k)"
  shows "sinv (deliver sobjs g k c)" and "split_objs sobjs (deliver sobjs g k c) = split_objs sobjs c"
  using assms
  by (auto simp: deliver_def split_ok_def split_objs_def indexer_ok_def split: option.splits)

end

sublocale api_server \<subseteq> split: sound_client "split_client sv" "split_objs sobjs" "split_ok sobjs sok"
proof unfold_locales
  fix w w' t nn r
  assume "split_ok sobjs sok w" "cl_Get (split_client sv) w t nn = (w', r)"
  then show "split_ok sobjs sok w' \<and> split_objs sobjs w' = split_objs sobjs w"
    using split_Get_ok by (simp add: split_client_def)
next
  fix w w' t nn ob
  assume "split_ok sobjs sok w" "proper_name nn" "cl_Get (split_client sv) w t nn = (w', Inr ob)"
  then show "key_of ob = (t, nn)" and "split_objs sobjs w (t, nn) \<noteq> None"
    using split_Get_Inr by (simp_all add: split_client_def)
next
  fix w w' ob e
  assume "split_ok sobjs sok w" "proper_name (snd (key_of ob))"
    "cl_Create (split_client sv) w ob = (w', e)"
  then show "split_ok sobjs sok w'"
    and "split_objs sobjs w' = split_objs sobjs w \<and> e \<noteq> None \<or>
      split_objs sobjs w (key_of ob) = None \<and>
      (\<exists>u. split_objs sobjs w' = (split_objs sobjs w)(key_of ob \<mapsto> with_uid u ob))"
    using split_Create_ok by (simp_all add: split_client_def)
qed

subsection \<open>The tracker as the server\<close>

definition fake_server :: "fakeClient server" where
  "fake_server = \<lparr>sv_List = (\<lambda>c t. Some (fake_list c t)), sv_Post = fake_Create\<rparr>"

interpretation fake_api: api_server fake_server fake_objs fake_ok
proof unfold_locales
  fix s t obs ob
  assume ok: "fake_ok s" and list: "sv_List fake_server s t = Some obs" "ob \<in> set obs"
  then have ob: "ob \<in> set (fake_list s t)" by (simp add: fake_server_def)
  with fake_okD(2,3) [OF ok] have "type_of ob = t" "proper_name (meta_name (meta_of ob))" by auto
  moreover from this have "fake_objs s (key_of ob) \<noteq> None"
    using ob by (auto simp: fake_objs_def key_of_def find_None_iff)
  ultimately show "type_of ob = t \<and> proper_name (snd (key_of ob)) \<and> fake_objs s (key_of ob) \<noteq> None"
    by (simp add: key_of_def)
next
  fix s s' ob e
  assume "fake_ok s" "proper_name (snd (key_of ob))" "sv_Post fake_server s ob = (s', e)"
  then show "fake_ok s'"
    and "fake_objs s' = fake_objs s \<and> e \<noteq> None \<or>
      fake_objs s (key_of ob) = None \<and>
      (\<exists>u. fake_objs s' = (fake_objs s)(key_of ob \<mapsto> with_uid u ob))"
    using fake.create_ok fake.create_effect by (simp_all add: fake_server_def)
qed

end
