(* ===== verification/Reconciling.thy ===== *)
theory Reconciling
  imports Split_Client
begin

section \<open>Reconciling an owner\<close>

text \<open>
  The shape that the three \<^verbatim>\<open>Reconcile\<close> methods share: read the owner, succeed when it is gone,
  fail when it cannot be read, and otherwise run a chain of steps. A plan describes the chain
  abstractly. What follows for a reconciler of this shape is proved here once, in three
  locales for the three client contracts; the theories of the reconcilers show that their
  methods have the shape.
\<close>

subsection \<open>The idioms of the reconcile methods\<close>

text \<open>
  \<^verbatim>\<open>err := r.client.Get(key, obj); if err != nil && errors.IsNotFound(err) { err = add() }; return err\<close>
\<close>

definition when_missing ::
  "'w client \<Rightarrow> go_type \<Rightarrow> namespaced_name \<Rightarrow> 'w step \<Rightarrow> 'w step" where
  "when_missing cl t nn add w =
     (case cl_Get cl w t nn of
        (w1, Inr _) \<Rightarrow> (w1, None)
      | (w1, Inl err) \<Rightarrow> if IsNotFound err then add w1 else (w1, Some err))"

text \<open>
  \<^verbatim>\<open>if err := controllerutil.SetControllerReference(owner, obj, r.scheme); err != nil { return err };
  return r.client.Create(obj)\<close>
\<close>

definition create_owned :: "'w reconciler \<Rightarrow> go_type \<Rightarrow> object_meta \<Rightarrow> kobj \<Rightarrow> 'w step" where
  "create_owned r t owner ob w =
     (case SetControllerReference t owner ob (r_scheme r) of
        Inl err \<Rightarrow> (w, Some err)
      | Inr ob' \<Rightarrow> cl_Create (r_client r) w ob')"

definition create_wanted :: "'w client \<Rightarrow> go_error + kobj \<Rightarrow> 'w step" where
  "create_wanted cl d w = (case d of Inl e \<Rightarrow> (w, Some e) | Inr ob \<Rightarrow> cl_Create cl w ob)"

lemma create_owned_eq:
  "create_owned r t owner ob = create_wanted (r_client r) (SetControllerReference t owner ob (r_scheme r))"
  by (rule ext) (simp add: create_owned_def create_wanted_def)

lemma when_missing_ensure: "when_missing cl t nn (create_wanted cl d) = ensure cl ((t, nn), d)"
  by (rule ext) (simp only: when_missing_def create_wanted_def ensure_def fst_conv snd_conv)

lemma when_missing_ensure_twice:
  "when_missing cl t nn (ensure cl ((t, nn), d)) = ensure_twice cl ((t, nn), d)"
  by (rule ext) (simp only: when_missing_def ensure_twice_def fst_conv snd_conv)

lemmas step_shapes = create_owned_eq when_missing_ensure_twice when_missing_ensure

lemma plan_item_owned:
  assumes "proper_name (snd k)" "key_of ob = k"
  shows "plan_item_ok (k, SetControllerReference t owner ob s)"
  using assms SetControllerReference_key [of t owner ob s]
  by (auto simp: plan_item_ok_def split: sum.splits)

lemma type_of_custom:
  "type_of ob = AtomixClusterT \<longleftrightarrow> (\<exists>c. ob = AtomixClusterO c)"
  "type_of ob = PartitionGroupT \<longleftrightarrow> (\<exists>g. ob = PartitionGroupO g)"
  "type_of ob = AtomixBenchmarkT \<longleftrightarrow> (\<exists>b. ob = AtomixBenchmarkO b)"
  by (cases ob; simp)+

lemma plan_item_owned_built:
  assumes "proper_name (snd k)" "\<And>x. b = Inr x \<Longrightarrow> key_of (f x) = k"
  shows "plan_item_ok (k, case b of Inl e \<Rightarrow> Inl e | Inr x \<Rightarrow> SetControllerReference t owner (f x) s)"
proof (cases b)
  case (Inl e)
  with assms(1) show ?thesis by (simp add: plan_item_ok_def)
next
  case (Inr x)
  with assms show ?thesis by (simp add: plan_item_owned)
qed

subsection \<open>The shape of a method\<close>

definition reconcile_owner ::
  "'w client \<Rightarrow> go_type \<Rightarrow> (kobj \<Rightarrow> 'w step list) \<Rightarrow> namespaced_name \<Rightarrow> 'w \<Rightarrow>
   'w \<times> reconcile_result \<times> go_error option" where
  "reconcile_owner cl t steps nn w =
     (case cl_Get cl w t nn of
        (w1, Inl err) \<Rightarrow> (w1, zero_result, if IsNotFound err then None else Some err)
      | (w1, Inr ob) \<Rightarrow> (case run_steps (steps ob) w1 of (w2, e) \<Rightarrow> (w2, zero_result, e)))"

locale planned_reconciler = api_client cl objs ok
  for cl :: "'w client" and objs :: "'w \<Rightarrow> store" and ok :: "'w \<Rightarrow> bool" +
  fixes t :: go_type
    and mk :: "'w client \<Rightarrow> plan_item \<Rightarrow> 'w step"
    and plan_of :: "kobj \<Rightarrow> plan"
    and reconcile :: "namespaced_name \<Rightarrow> 'w \<Rightarrow> 'w \<times> reconcile_result \<times> go_error option"
  assumes shape: "mk = ensure \<or> mk = ensure_twice"
    and plan_wf: "proper_name nn \<Longrightarrow> key_of ob = (t, nn) \<Longrightarrow> plan_ok (plan_of ob)"
    and reconcile_eq: "ok w \<Longrightarrow> proper_name nn \<Longrightarrow>
      reconcile nn w = reconcile_owner cl t (\<lambda>ob. map (mk cl) (plan_of ob)) nn w"
begin

lemma steps_safe: "plan_ok ps \<Longrightarrow> list_all2 (safe_step objs ok) ps (map (mk cl) ps)"
  using shape safe_ensure safe_ensure_twice
  by (induction ps) auto

text \<open>An owner that is gone is not an error, one that cannot be read is; nothing changes.\<close>

lemma reconcile_unread:
  assumes "ok w" "proper_name nn" "cl_Get cl w t nn = (w1, Inl err)"
  shows "reconcile nn w = (w1, zero_result, if IsNotFound err then None else Some err)"
    and "objs w1 = objs w"
  using assms get_frame [OF assms(1) assms(3)] by (simp_all add: reconcile_eq reconcile_owner_def)

lemma reconcile_read:
  assumes "ok w" "proper_name nn" "cl_Get cl w t nn = (w1, Inr ob)" "reconcile nn w = (w', res, e)"
  shows "run_steps (map (mk cl) (plan_of ob)) w1 = (w', e)"
    and "ok w1" and "objs w1 = objs w" and "plan_ok (plan_of ob)" and "res = zero_result"
proof -
  show "ok w1" and "objs w1 = objs w" using get_frame [OF assms(1,3)] by simp_all
  show "plan_ok (plan_of ob)" by (rule plan_wf [OF assms(2) get_key [OF assms(1-3)]])
  obtain w2 e2 where "run_steps (map (mk cl) (plan_of ob)) w1 = (w2, e2)" by fastforce
  with assms(4) show "run_steps (map (mk cl) (plan_of ob)) w1 = (w', e)" and "res = zero_result"
    by (simp_all add: reconcile_eq [OF assms(1,2)] reconcile_owner_def assms(3))
qed

text \<open>
  Nothing that exists is changed or removed, and what is new is an object of the plan.
\<close>

lemma reconcile_safe:
  assumes "ok w" "proper_name nn" "cl_Get cl w t nn = (w1, Inr ob)" "reconcile nn w = (w', res, e)"
  shows "ok w'" and "grows_by (plan_objects (plan_of ob)) (objs w) (objs w')"
proof -
  note run = reconcile_read [OF assms]
  show "ok w'" by (rule safe_chain(1) [OF steps_safe [OF run(4)] run(2,1)])
  show "grows_by (plan_objects (plan_of ob)) (objs w) (objs w')"
    using safe_chain(2) [OF steps_safe [OF run(4)] run(2,1)] run(3) by simp
qed

lemma reconcile_ok:
  assumes "ok w" "proper_name nn" "reconcile nn w = (w', res, e)"
  shows "ok w' \<and> objs w \<subseteq>\<^sub>m objs w'"
proof -
  obtain w1 r where get: "cl_Get cl w t nn = (w1, r)" by fastforce
  show ?thesis
  proof (cases r)
    case (Inl err)
    with get reconcile_unread [OF assms(1,2)] get_frame [OF assms(1)] assms(3) show ?thesis
      by fastforce
  next
    case (Inr ob)
    with get show ?thesis
      using reconcile_safe [OF assms(1,2) _ assms(3)] grows_by_le by blast
  qed
qed

end

locale sound_reconciler = planned_reconciler + sound_client
begin

lemma steps_complete: "plan_ok ps \<Longrightarrow> list_all2 (complete_step objs ok) ps (map (mk cl) ps)"
  using shape complete_ensure complete_ensure_twice
  by (induction ps) auto

text \<open>After a success every object of the plan exists.\<close>

lemma reconcile_complete:
  assumes "ok w" "proper_name nn" "cl_Get cl w t nn = (w1, Inr ob)" "reconcile nn w = (w', res, None)"
    "k \<in> plan_keys (plan_of ob)"
  shows "objs w' k \<noteq> None"
proof -
  note run = reconcile_read [OF assms(1-4)]
  show ?thesis
    by (rule complete_chain [OF steps_safe [OF run(4)] steps_complete [OF run(4)] run(2,1) assms(5)])
qed

text \<open>An object is created only when everything before it in the plan exists.\<close>

lemma reconcile_ordered:
  assumes "ok w" "proper_name nn" "cl_Get cl w t nn = (w1, Inr ob)" "reconcile nn w = (w', res, e)"
    "plan_of ob = ps @ p # qs" "fst p \<notin> plan_keys ps" "k \<in> plan_keys ps"
    "objs w (fst p) = None" "objs w' (fst p) \<noteq> None"
  shows "objs w' k \<noteq> None"
proof -
  note run = reconcile_read [OF assms(1-4)]
  note chain = run(4) [unfolded assms(5)]
  show ?thesis
    using ordered_chain [OF steps_safe [OF chain] steps_complete [OF chain] run(2)
        run(1) [unfolded assms(5)] _ assms(9,6,7)] run(3) assms(8) by simp
qed

end

locale reliable_reconciler = sound_reconciler + reliable_client
begin

lemma steps_exact: "plan_ok ps \<Longrightarrow> list_all2 (exact_step objs ok) ps (map (mk cl) ps)"
  using shape exact_ensure exact_ensure_twice
  by (induction ps) auto

lemma owner_get:
  assumes "ok w" "proper_name nn" "objs w (t, nn) = Some ob"
  obtains w1 where "cl_Get cl w t nn = (w1, Inr ob)" "ok w1" "objs w1 = objs w" "plan_ok (plan_of ob)"
  using get_present [OF assms] get_frame [OF assms(1)] get_key [OF assms(1,2)] plan_wf [OF assms(2)]
  by metis

text \<open>The method computes \<open>converge\<close> on the abstract store.\<close>

lemma reconcile_refines:
  assumes "ok w" "proper_name nn" "objs w (t, nn) = Some ob"
  shows "\<exists>w'. reconcile nn w = (w', zero_result, snd (converge (plan_of ob) (abs_store (objs w)))) \<and>
    ok w' \<and> abs_store (objs w') = fst (converge (plan_of ob) (abs_store (objs w)))"
proof -
  obtain w1 where w1: "cl_Get cl w t nn = (w1, Inr ob)" "ok w1" "objs w1 = objs w" "plan_ok (plan_of ob)"
    using owner_get [OF assms] .
  obtain w' where run: "run_steps (map (mk cl) (plan_of ob)) w1 =
      (w', snd (converge (plan_of ob) (abs_store (objs w))))"
    and abs: "abs_store (objs w') = fst (converge (plan_of ob) (abs_store (objs w)))"
    using exact_chain [OF steps_safe [OF w1(4)] steps_exact [OF w1(4)] w1(2)] w1(3) by auto
  have "ok w'" by (rule safe_chain(1) [OF steps_safe [OF w1(4)] w1(2) run])
  with run abs w1(1) show ?thesis
    using assms(1,2) by (auto simp: reconcile_eq reconcile_owner_def)
qed

lemma reconcile_absent:
  assumes "ok w" "proper_name nn" "objs w (t, nn) = None"
  shows "\<exists>w'. reconcile nn w = (w', zero_result, None) \<and> ok w' \<and> objs w' = objs w"
proof -
  obtain w1 err where get: "cl_Get cl w t nn = (w1, Inl err)" "IsNotFound err"
    using get_absent [OF assms] by blast
  with reconcile_unread [OF assms(1,2) get(1)] get_frame [OF assms(1) get(1)] show ?thesis by simp
qed

text \<open>With all keys of its plan taken, a run changes nothing, whatever is stored under them.\<close>

lemma reconcile_settled:
  assumes "ok w" "proper_name nn" "objs w (t, nn) = Some ob"
    and "\<forall>k\<in>plan_keys (plan_of ob). objs w k \<noteq> None"
  shows "\<exists>w'. reconcile nn w = (w', zero_result, None) \<and> ok w' \<and> objs w' = objs w"
proof -
  have all: "\<forall>k\<in>plan_keys (plan_of ob). abs_store (objs w) k \<noteq> None" using assms(4) by simp
  obtain w' where w': "reconcile nn w = (w', zero_result, None)" "ok w'"
    "abs_store (objs w') = abs_store (objs w)"
    using reconcile_refines [OF assms(1-3)] converge_fixed [OF all] by auto
  have "objs w \<subseteq>\<^sub>m objs w'" using reconcile_ok [OF assms(1,2) w'(1)] by simp
  moreover have "dom (objs w') = dom (objs w)" using w'(3) by (metis dom_abs_store)
  ultimately have "objs w' = objs w" by (metis map_le_antisym map_le_def)
  with w' show ?thesis by blast
qed

text \<open>A second run right after a success changes nothing and succeeds.\<close>

lemma run_idempotent:
  assumes "ok w" "proper_name nn" "objs w (t, nn) = Some ob" "reconcile nn w = (w', res, None)"
  shows "\<exists>w''. reconcile nn w' = (w'', zero_result, None) \<and> objs w'' = objs w'"
proof -
  obtain w1 where get: "cl_Get cl w t nn = (w1, Inr ob)" using owner_get [OF assms(1-3)] .
  have ok': "ok w'" and le: "objs w \<subseteq>\<^sub>m objs w'" using reconcile_ok [OF assms(1,2,4)] by auto
  have "\<forall>k\<in>plan_keys (plan_of ob). objs w' k \<noteq> None"
    using reconcile_complete [OF assms(1,2) get assms(4)] by auto
  with reconcile_settled [OF ok' assms(2) map_leD [OF le assms(3)]] show ?thesis by blast
qed

text \<open>
  Children that were created and have been removed since are created again as they were.
\<close>

lemma reconcile_restores:
  assumes "ok w" "proper_name nn" "objs w (t, nn) = Some ob" "reconcile nn w = (w', res, None)"
    and "ok v" "objs v = objs w' |` (- D)" "D \<inter> dom (objs w) = {}"
  shows "\<exists>v'. reconcile nn v = (v', zero_result, None) \<and> ok v' \<and> abs_store (objs v') = abs_store (objs w')"
proof -
  have conv: "converge (plan_of ob) (abs_store (objs w)) = (abs_store (objs w'), None)"
    using reconcile_refines [OF assms(1-3)] assms(4) by (auto simp: prod_eq_iff)
  have le: "objs w \<subseteq>\<^sub>m objs w'" using reconcile_ok [OF assms(1,2,4)] by simp
  have "(t, nn) \<notin> D" using assms(3,7) by auto
  then have owner: "objs v (t, nn) = Some ob" using map_leD [OF le assms(3)] assms(6) by simp
  have new: "dom (abs_store (objs w')) - plan_keys (plan_of ob) \<subseteq> dom (objs w)"
    using converge_dom [OF conv] by auto
  have "abs_store (objs w') |` (- (D - plan_keys (plan_of ob))) = abs_store (objs w')"
    by (rule restrict_map_neutral) (use new assms(7) in blast)
  with converge_restores [OF conv] assms(6,7)
  have "converge (plan_of ob) (abs_store (objs v)) = (abs_store (objs w'), None)" by simp
  with reconcile_refines [OF assms(5,2) owner] show ?thesis by simp
qed

text \<open>A failure comes from an object that cannot be built, and nothing after it was tried.\<close>

lemma reconcile_failsE:
  assumes "ok w" "proper_name nn" "objs w (t, nn) = Some ob" "reconcile nn w = (w', res, Some err)"
  obtains pre k post where "plan_of ob = pre @ (k, Inl err) # post" "objs w' k = None"
    "abs_store (objs w') = fst (converge pre (abs_store (objs w)))"
proof -
  have conv: "converge (plan_of ob) (abs_store (objs w)) = (abs_store (objs w'), Some err)"
    using reconcile_refines [OF assms(1-3)] assms(4) by (auto simp: prod_eq_iff)
  from converge_failsE [OF this] that show thesis by (metis abs_store_None fst_conv)
qed

end

end
