(* ===== verification/Cluster_Reconciler.thy ===== *)
theory Cluster_Reconciler
  imports Reconciling
begin

section \<open>The cluster reconciler\<close>

text \<open>
  \<^verbatim>\<open>pkg/controller/cluster/reconciler.go\<close>: one method per resource that reads it and one that
  creates it, and \<^verbatim>\<open>Reconcile\<close>, which runs them in order. The plan of a cluster states the
  same abstractly.
\<close>

subsection \<open>The methods\<close>

definition cluster_addInitScript :: "'w reconciler \<Rightarrow> atomix_cluster \<Rightarrow> 'w step" where
  "cluster_addInitScript r c =
     create_owned r AtomixClusterT (ac_Meta c) (ConfigMapO (NewManagementInitConfigMap c))"

definition cluster_addConfig :: "'w reconciler \<Rightarrow> atomix_cluster \<Rightarrow> 'w step" where
  "cluster_addConfig r c =
     create_owned r AtomixClusterT (ac_Meta c) (ConfigMapO (NewManagementSystemConfigMap c))"

definition cluster_addStatefulSet :: "'w reconciler \<Rightarrow> atomix_cluster \<Rightarrow> 'w step" where
  "cluster_addStatefulSet r c w =
     (case NewManagementStatefulSet c of
        Inl err \<Rightarrow> (w, Some err)
      | Inr sset \<Rightarrow> create_owned r AtomixClusterT (ac_Meta c) (StatefulSetO sset) w)"

definition cluster_addService :: "'w reconciler \<Rightarrow> atomix_cluster \<Rightarrow> 'w step" where
  "cluster_addService r c =
     create_owned r AtomixClusterT (ac_Meta c) (ServiceO (NewManagementService c))"

definition cluster_addDisruptionBudget :: "'w reconciler \<Rightarrow> atomix_cluster \<Rightarrow> 'w step" where
  "cluster_addDisruptionBudget r c =
     create_owned r AtomixClusterT (ac_Meta c) (PodDisruptionBudgetO (NewManagementDisruptionBudget c))"

definition cluster_reconcileInitScript :: "'w reconciler \<Rightarrow> atomix_cluster \<Rightarrow> 'w step" where
  "cluster_reconcileInitScript r c =
     when_missing (r_client r) ConfigMapT
       (NamespacedName (om_Namespace (ac_Meta c)) (GetManagementInitConfigMapName c))
       (cluster_addInitScript r c)"

definition cluster_reconcileSystemConfig :: "'w reconciler \<Rightarrow> atomix_cluster \<Rightarrow> 'w step" where
  "cluster_reconcileSystemConfig r c =
     when_missing (r_client r) ConfigMapT
       (NamespacedName (om_Namespace (ac_Meta c)) (GetManagementSystemConfigMapName c))
       (cluster_addConfig r c)"

definition cluster_reconcileDisruptionBudget :: "'w reconciler \<Rightarrow> atomix_cluster \<Rightarrow> 'w step" where
  "cluster_reconcileDisruptionBudget r c =
     when_missing (r_client r) PodDisruptionBudgetT
       (NamespacedName (om_Namespace (ac_Meta c)) (GetManagementDisruptionBudgetName c))
       (cluster_addDisruptionBudget r c)"

definition cluster_reconcileStatefulSet :: "'w reconciler \<Rightarrow> atomix_cluster \<Rightarrow> 'w step" where
  "cluster_reconcileStatefulSet r c =
     when_missing (r_client r) StatefulSetT
       (NamespacedName (om_Namespace (ac_Meta c)) (GetManagementStatefulSetName c))
       (cluster_addStatefulSet r c)"

definition cluster_reconcileService :: "'w reconciler \<Rightarrow> atomix_cluster \<Rightarrow> 'w step" where
  "cluster_reconcileService r c =
     when_missing (r_client r) ServiceT
       (NamespacedName (om_Namespace (ac_Meta c)) (GetManagementServiceName c))
       (cluster_addService r c)"

text \<open>
  The read fills the cluster that is passed; a client that returned another type of object
  would have failed with a type error.
\<close>

definition cluster_Reconcile ::
  "'w reconciler \<Rightarrow> namespaced_name \<Rightarrow> 'w \<Rightarrow> 'w \<times> reconcile_result \<times> go_error option" where
  "cluster_Reconcile r request w =
     (case cl_Get (r_client r) w AtomixClusterT request of
        (w1, Inl err) \<Rightarrow>
          if IsNotFound err then (w1, zero_result, None) else (w1, zero_result, Some err)
      | (w1, Inr (AtomixClusterO c)) \<Rightarrow>
          let cluster = SetDefaults_Cluster c
          in (case run_steps
                     [cluster_reconcileInitScript r cluster,
                      cluster_reconcileSystemConfig r cluster,
                      cluster_reconcileDisruptionBudget r cluster,
                      cluster_reconcileStatefulSet r cluster,
                      cluster_reconcileService r cluster] w1 of
                (w2, err) \<Rightarrow> (w2, zero_result, err))
      | (w1, Inr _) \<Rightarrow> (w1, zero_result, Some wrong_type))"

subsection \<open>The plan\<close>

definition cluster_items :: "scheme \<Rightarrow> atomix_cluster \<Rightarrow> plan" where
  "cluster_items s c =
     (let nn = NamespacedName (om_Namespace (ac_Meta c));
          own = (\<lambda>ob. SetControllerReference AtomixClusterT (ac_Meta c) ob s)
      in [((ConfigMapT, nn (GetManagementInitConfigMapName c)),
             own (ConfigMapO (NewManagementInitConfigMap c))),
          ((ConfigMapT, nn (GetManagementSystemConfigMapName c)),
             own (ConfigMapO (NewManagementSystemConfigMap c))),
          ((PodDisruptionBudgetT, nn (GetManagementDisruptionBudgetName c)),
             own (PodDisruptionBudgetO (NewManagementDisruptionBudget c))),
          ((StatefulSetT, nn (GetManagementStatefulSetName c)),
             case NewManagementStatefulSet c of Inl e \<Rightarrow> Inl e | Inr x \<Rightarrow> own (StatefulSetO x)),
          ((ServiceT, nn (GetManagementServiceName c)),
             own (ServiceO (NewManagementService c)))])"

definition cluster_plan :: "scheme \<Rightarrow> kobj \<Rightarrow> plan" where
  "cluster_plan s ob = (case ob of AtomixClusterO c \<Rightarrow> cluster_items s (SetDefaults_Cluster c) | _ \<Rightarrow> [])"

lemma cluster_plan_simp [simp]:
  "cluster_plan s (AtomixClusterO c) = cluster_items s (SetDefaults_Cluster c)"
  by (simp add: cluster_plan_def)

lemmas cluster_step_defs =
  cluster_reconcileInitScript_def cluster_reconcileSystemConfig_def
  cluster_reconcileDisruptionBudget_def cluster_reconcileStatefulSet_def
  cluster_reconcileService_def cluster_addInitScript_def cluster_addConfig_def
  cluster_addDisruptionBudget_def cluster_addService_def

lemma cluster_addStatefulSet_eq:
  "cluster_addStatefulSet r c =
     create_wanted (r_client r)
       (case NewManagementStatefulSet c of
          Inl e \<Rightarrow> Inl e
        | Inr x \<Rightarrow> SetControllerReference AtomixClusterT (ac_Meta c) (StatefulSetO x) (r_scheme r))"
  by (rule ext) (simp add: cluster_addStatefulSet_def create_owned_eq create_wanted_def split: sum.splits)

lemma cluster_steps_eq:
  "[cluster_reconcileInitScript r c, cluster_reconcileSystemConfig r c,
    cluster_reconcileDisruptionBudget r c, cluster_reconcileStatefulSet r c,
    cluster_reconcileService r c] = map (ensure (r_client r)) (cluster_items (r_scheme r) c)"
  by (simp add: cluster_step_defs cluster_addStatefulSet_eq step_shapes cluster_items_def Let_def)

lemma NewManagementStatefulSet_meta:
  "NewManagementStatefulSet c = Inr x \<Longrightarrow>
   sts_Meta x = new_meta (GetManagementStatefulSetName c) (om_Namespace (ac_Meta c)) (newManagementLabels c)"
  by (auto simp: NewManagementStatefulSet_def split: sum.splits)

lemmas cluster_object_defs =
  NewManagementInitConfigMap_def NewManagementSystemConfigMap_def
  NewManagementDisruptionBudget_def NewManagementService_def

lemma cluster_keys:
  "key_of (ConfigMapO (NewManagementInitConfigMap c)) =
     (ConfigMapT, NamespacedName (om_Namespace (ac_Meta c)) (GetManagementInitConfigMapName c))"
  "key_of (ConfigMapO (NewManagementSystemConfigMap c)) =
     (ConfigMapT, NamespacedName (om_Namespace (ac_Meta c)) (GetManagementSystemConfigMapName c))"
  "key_of (PodDisruptionBudgetO (NewManagementDisruptionBudget c)) =
     (PodDisruptionBudgetT, NamespacedName (om_Namespace (ac_Meta c)) (GetManagementDisruptionBudgetName c))"
  "NewManagementStatefulSet c = Inr x \<Longrightarrow> key_of (StatefulSetO x) =
     (StatefulSetT, NamespacedName (om_Namespace (ac_Meta c)) (GetManagementStatefulSetName c))"
  "key_of (ServiceO (NewManagementService c)) =
     (ServiceT, NamespacedName (om_Namespace (ac_Meta c)) (GetManagementServiceName c))"
  by (simp_all add: key_of_def cluster_object_defs NewManagementStatefulSet_meta Let_def
      meta_name_def new_meta_def)

lemma cluster_items_ok:
  assumes "proper_name (meta_name (ac_Meta c))"
  shows "plan_ok (cluster_items s c)"
proof -
  let ?nn = "NamespacedName (om_Namespace (ac_Meta c))"
  have "proper_name (?nn (om_Name (ac_Meta c)))"
    using assms by (simp add: meta_name_def)
  then have proper:
    "proper_name (?nn (GetManagementInitConfigMapName c))"
    "proper_name (?nn (GetManagementSystemConfigMapName c))"
    "proper_name (?nn (GetManagementDisruptionBudgetName c))"
    "proper_name (?nn (GetManagementStatefulSetName c))"
    "proper_name (?nn (GetManagementServiceName c))"
    by (simp_all add: name_defs suffix_defs)
  show ?thesis
    unfolding cluster_items_def Let_def plan_ok_simps
    by (intro conjI plan_item_owned plan_item_owned_built)
      (simp_all add: proper cluster_keys)
qed

lemma cluster_planned:
  assumes "api_client cl objs ok"
  shows "planned_reconciler cl objs ok AtomixClusterT ensure (cluster_plan s)
    (cluster_Reconcile \<lparr>r_client = cl, r_scheme = s\<rparr>)"
proof (intro planned_reconciler.intro planned_reconciler_axioms.intro)
  show "api_client cl objs ok" by (rule assms)
  show "ensure = ensure \<or> ensure = ensure_twice" by simp
next
  fix nn ob
  assume nn: "proper_name nn" and key: "key_of ob = (AtomixClusterT, nn)"
  then obtain c where "ob = AtomixClusterO c" by (auto simp: key_of_def type_of_custom)
  with nn key show "plan_ok (cluster_plan s ob)"
    by (auto simp: key_of_def intro: cluster_items_ok)
next
  fix w nn
  assume w: "ok w" "proper_name nn"
  obtain w1 g where get: "cl_Get cl w AtomixClusterT nn = (w1, g)" by fastforce
  show "cluster_Reconcile \<lparr>r_client = cl, r_scheme = s\<rparr> nn w =
      reconcile_owner cl AtomixClusterT (\<lambda>ob. map (ensure cl) (cluster_plan s ob)) nn w"
  proof (cases g)
    case (Inl err)
    with get show ?thesis by (simp add: cluster_Reconcile_def reconcile_owner_def)
  next
    case (Inr ob)
    with api_client.get_key [OF assms w] get obtain c where "ob = AtomixClusterO c"
      by (fastforce simp: key_of_def type_of_custom)
    with get Inr show ?thesis
      using cluster_steps_eq [of "\<lparr>r_client = cl, r_scheme = s\<rparr>"]
      by (simp add: cluster_Reconcile_def reconcile_owner_def)
  qed
qed

end
