(* ===== verification/Group_Reconciler.thy ===== *)
theory Group_Reconciler
  imports Cluster_Reconciler
begin

section \<open>The partition group reconciler\<close>

text \<open>
  \<^verbatim>\<open>pkg/controller/partitiongroup/reconciler.go\<close>. Its chain is the one of the cluster
  reconciler, with two builders that can fail: the configuration, when the specification names
  no protocol, and the stateful set, for that reason or for a storage size that does not parse.
\<close>

subsection \<open>The methods\<close>

text \<open>A nil object, which the builders never return, would be dereferenced.\<close>

definition nil_object :: go_error where
  "nil_object = ErrorString ''invalid memory address or nil pointer dereference''"

definition group_addInitScript :: "'w group_reconciler \<Rightarrow> partition_group \<Rightarrow> 'w step" where
  "group_addInitScript r g =
     create_owned r PartitionGroupT (pg_Meta g) (ConfigMapO (NewPartitionGroupInitConfigMap g))"

definition group_addSystemConfig :: "'w group_reconciler \<Rightarrow> partition_group \<Rightarrow> 'w step" where
  "group_addSystemConfig r g w =
     (case NewPartitionGroupConfigMap g of
        Inl err \<Rightarrow> (w, Some err)
      | Inr None \<Rightarrow> (w, Some nil_object)
      | Inr (Some cm) \<Rightarrow> create_owned r PartitionGroupT (pg_Meta g) (ConfigMapO cm) w)"

definition group_addDisruptionBudget :: "'w group_reconciler \<Rightarrow> partition_group \<Rightarrow> 'w step" where
  "group_addDisruptionBudget r g =
     create_owned r PartitionGroupT (pg_Meta g)
       (PodDisruptionBudgetO (NewPartitionGroupDisruptionBudget g))"

definition group_addStatefulSet :: "'w group_reconciler \<Rightarrow> partition_group \<Rightarrow> 'w step" where
  "group_addStatefulSet r g w =
     (case NewPartitionGroupStatefulSet g of
        Inl err \<Rightarrow> (w, Some err)
      | Inr None \<Rightarrow> (w, Some nil_object)
      | Inr (Some sset) \<Rightarrow> create_owned r PartitionGroupT (pg_Meta g) (StatefulSetO sset) w)"

definition group_addService :: "'w group_reconciler \<Rightarrow> partition_group \<Rightarrow> 'w step" where
  "group_addService r g =
     create_owned r PartitionGroupT (pg_Meta g) (ServiceO (NewPartitionGroupService g))"

text \<open>The names the methods ask for; they do not depend on the reconciler.\<close>

definition group_getInitScriptName :: "partition_group \<Rightarrow> string" where
  "group_getInitScriptName g = GetPartitionGroupInitConfigMapName g"

definition group_getSystemConfigName :: "partition_group \<Rightarrow> string" where
  "group_getSystemConfigName g = GetPartitionGroupSystemConfigMapName g"

definition group_getDisruptionBudgetName :: "partition_group \<Rightarrow> string" where
  "group_getDisruptionBudgetName g = GetPartitionGroupDisruptionBudgetName g"

definition group_getStatefulSetName :: "partition_group \<Rightarrow> string" where
  "group_getStatefulSetName g = GetPartitionGroupStatefulSetName g"

definition group_getServiceName :: "partition_group \<Rightarrow> string" where
  "group_getServiceName g = GetPartitionGroupServiceName g"

definition group_reconcileInitScript :: "'w group_reconciler \<Rightarrow> partition_group \<Rightarrow> 'w step" where
  "group_reconcileInitScript r g =
     when_missing (r_client r) ConfigMapT
       (NamespacedName (om_Namespace (pg_Meta g)) (group_getInitScriptName g))
       (group_addInitScript r g)"

definition group_reconcileSystemConfig :: "'w group_reconciler \<Rightarrow> partition_group \<Rightarrow> 'w step" where
  "group_reconcileSystemConfig r g =
     when_missing (r_client r) ConfigMapT
       (NamespacedName (om_Namespace (pg_Meta g)) (group_getSystemConfigName g))
       (group_addSystemConfig r g)"

definition group_reconcileDisruptionBudget :: "'w group_reconciler \<Rightarrow> partition_group \<Rightarrow> 'w step" where
  "group_reconcileDisruptionBudget r g =
     when_missing (r_client r) PodDisruptionBudgetT
       (NamespacedName (om_Namespace (pg_Meta g)) (group_getDisruptionBudgetName g))
       (group_addDisruptionBudget r g)"

definition group_reconcileStatefulSet :: "'w group_reconciler \<Rightarrow> partition_group \<Rightarrow> 'w step" where
  "group_reconcileStatefulSet r g =
     when_missing (r_client r) StatefulSetT
       (NamespacedName (om_Namespace (pg_Meta g)) (group_getStatefulSetName g))
       (group_addStatefulSet r g)"

definition group_reconcileService :: "'w group_reconciler \<Rightarrow> partition_group \<Rightarrow> 'w step" where
  "group_reconcileService r g =
     when_missing (r_client r) ServiceT
       (NamespacedName (om_Namespace (pg_Meta g)) (group_getServiceName g))
       (group_addService r g)"

definition group_Reconcile ::
  "'w group_reconciler \<Rightarrow> namespaced_name \<Rightarrow> 'w \<Rightarrow> 'w \<times> reconcile_result \<times> go_error option" where
  "group_Reconcile r request w =
     (case cl_Get (r_client r) w PartitionGroupT request of
        (w1, Inl err) \<Rightarrow>
          if IsNotFound err then (w1, zero_result, None) else (w1, zero_result, Some err)
      | (w1, Inr (PartitionGroupO g)) \<Rightarrow>
          let grp = SetDefaults_PartitionGroup g
          in (case run_steps
                     [group_reconcileInitScript r grp,
                      group_reconcileSystemConfig r grp,
                      group_reconcileDisruptionBudget r grp,
                      group_reconcileStatefulSet r grp,
                      group_reconcileService r grp] w1 of
                (w2, err) \<Rightarrow> (w2, zero_result, err))
      | (w1, Inr _) \<Rightarrow> (w1, zero_result, Some wrong_type))"

subsection \<open>The plan\<close>

definition group_items :: "scheme \<Rightarrow> partition_group \<Rightarrow> plan" where
  "group_items s g =
     (let nn = NamespacedName (om_Namespace (pg_Meta g));
          own = (\<lambda>ob. SetControllerReference PartitionGroupT (pg_Meta g) ob s)
      in [((ConfigMapT, nn (GetPartitionGroupInitConfigMapName g)),
             own (ConfigMapO (NewPartitionGroupInitConfigMap g))),
          ((ConfigMapT, nn (GetPartitionGroupSystemConfigMapName g)),
             case NewPartitionGroupConfigMap g of
               Inl e \<Rightarrow> Inl e | Inr x \<Rightarrow> own (ConfigMapO (the x))),
          ((PodDisruptionBudgetT, nn (GetPartitionGroupDisruptionBudgetName g)),
             own (PodDisruptionBudgetO (NewPartitionGroupDisruptionBudget g))),
          ((StatefulSetT, nn (GetPartitionGroupStatefulSetName g)),
             case NewPartitionGroupStatefulSet g of
               Inl e \<Rightarrow> Inl e | Inr x \<Rightarrow> own (StatefulSetO (the x))),
          ((ServiceT, nn (GetPartitionGroupServiceName g)),
             own (ServiceO (NewPartitionGroupService g)))])"

definition group_plan :: "scheme \<Rightarrow> kobj \<Rightarrow> plan" where
  "group_plan s ob =
     (case ob of PartitionGroupO g \<Rightarrow> group_items s (SetDefaults_PartitionGroup g) | _ \<Rightarrow> [])"

lemma group_plan_simp [simp]:
  "group_plan s (PartitionGroupO g) = group_items s (SetDefaults_PartitionGroup g)"
  by (simp add: group_plan_def)

lemmas group_name_defs =
  group_getInitScriptName_def group_getSystemConfigName_def group_getDisruptionBudgetName_def
  group_getStatefulSetName_def group_getServiceName_def

lemmas group_step_defs = group_name_defs
  group_reconcileInitScript_def group_reconcileSystemConfig_def
  group_reconcileDisruptionBudget_def group_reconcileStatefulSet_def
  group_reconcileService_def group_addInitScript_def
  group_addDisruptionBudget_def group_addService_def

lemma group_addSystemConfig_eq:
  "group_addSystemConfig r g =
     create_wanted (r_client r)
       (case NewPartitionGroupConfigMap g of
          Inl e \<Rightarrow> Inl e
        | Inr x \<Rightarrow> SetControllerReference PartitionGroupT (pg_Meta g) (ConfigMapO (the x)) (r_scheme r))"
  using NewPartitionGroupConfigMap_not_nil [of g]
  by (intro ext)
    (auto simp: group_addSystemConfig_def create_owned_eq create_wanted_def split: sum.splits option.splits)

lemma group_addStatefulSet_eq:
  "group_addStatefulSet r g =
     create_wanted (r_client r)
       (case NewPartitionGroupStatefulSet g of
          Inl e \<Rightarrow> Inl e
        | Inr x \<Rightarrow> SetControllerReference PartitionGroupT (pg_Meta g) (StatefulSetO (the x)) (r_scheme r))"
  using NewPartitionGroupStatefulSet_not_nil [of g]
  by (intro ext)
    (auto simp: group_addStatefulSet_def create_owned_eq create_wanted_def split: sum.splits option.splits)

lemma group_steps_eq:
  "[group_reconcileInitScript r g, group_reconcileSystemConfig r g,
    group_reconcileDisruptionBudget r g, group_reconcileStatefulSet r g,
    group_reconcileService r g] = map (ensure (r_client r)) (group_items (r_scheme r) g)"
  by (simp add: group_step_defs group_addSystemConfig_eq group_addStatefulSet_eq step_shapes
      group_items_def Let_def)

lemmas group_object_defs =
  NewPartitionGroupInitConfigMap_def NewPartitionGroupDisruptionBudget_def
  NewPartitionGroupService_def

lemma group_keys:
  "key_of (ConfigMapO (NewPartitionGroupInitConfigMap g)) =
     (ConfigMapT, NamespacedName (om_Namespace (pg_Meta g)) (GetPartitionGroupInitConfigMapName g))"
  "NewPartitionGroupConfigMap g = Inr y \<Longrightarrow> key_of (ConfigMapO (the y)) =
     (ConfigMapT, NamespacedName (om_Namespace (pg_Meta g)) (GetPartitionGroupSystemConfigMapName g))"
  "key_of (PodDisruptionBudgetO (NewPartitionGroupDisruptionBudget g)) =
     (PodDisruptionBudgetT, NamespacedName (om_Namespace (pg_Meta g)) (GetPartitionGroupDisruptionBudgetName g))"
  "NewPartitionGroupStatefulSet g = Inr x \<Longrightarrow> key_of (StatefulSetO (the x)) =
     (StatefulSetT, NamespacedName (om_Namespace (pg_Meta g)) (GetPartitionGroupStatefulSetName g))"
  "key_of (ServiceO (NewPartitionGroupService g)) =
     (ServiceT, NamespacedName (om_Namespace (pg_Meta g)) (GetPartitionGroupServiceName g))"
proof -
  show "key_of (ConfigMapO (the y)) =
     (ConfigMapT, NamespacedName (om_Namespace (pg_Meta g)) (GetPartitionGroupSystemConfigMapName g))"
    if "NewPartitionGroupConfigMap g = Inr y"
    using that by (cases y) (simp_all add: key_of_def NewPartitionGroupConfigMap_meta)
  show "key_of (StatefulSetO (the x)) =
     (StatefulSetT, NamespacedName (om_Namespace (pg_Meta g)) (GetPartitionGroupStatefulSetName g))"
    if "NewPartitionGroupStatefulSet g = Inr x"
    using that by (cases x) (simp_all add: key_of_def NewPartitionGroupStatefulSet_SomeE(1))
qed (simp_all add: key_of_def group_object_defs Let_def meta_name_def new_meta_def)

lemma group_items_ok:
  assumes "proper_name (meta_name (pg_Meta g))"
  shows "plan_ok (group_items s g)"
proof -
  let ?nn = "NamespacedName (om_Namespace (pg_Meta g))"
  have "proper_name (?nn (om_Name (pg_Meta g)))"
    using assms by (simp add: meta_name_def)
  then have proper:
    "proper_name (?nn (GetPartitionGroupInitConfigMapName g))"
    "proper_name (?nn (GetPartitionGroupSystemConfigMapName g))"
    "proper_name (?nn (GetPartitionGroupDisruptionBudgetName g))"
    "proper_name (?nn (GetPartitionGroupStatefulSetName g))"
    "proper_name (?nn (GetPartitionGroupServiceName g))"
    by (simp_all add: name_defs suffix_defs)
  show ?thesis
    unfolding group_items_def Let_def plan_ok_simps
    by (intro conjI plan_item_owned plan_item_owned_built)
      (simp_all add: proper group_keys)
qed

lemma group_planned:
  assumes "api_client cl objs ok"
  shows "planned_reconciler cl objs ok PartitionGroupT ensure (group_plan s)
    (group_Reconcile \<lparr>r_client = cl, r_scheme = s\<rparr>)"
proof (intro planned_reconciler.intro planned_reconciler_axioms.intro)
  show "api_client cl objs ok" by (rule assms)
  show "ensure = ensure \<or> ensure = ensure_twice" by simp
next
  fix nn ob
  assume nn: "proper_name nn" and key: "key_of ob = (PartitionGroupT, nn)"
  then obtain g where "ob = PartitionGroupO g" by (auto simp: key_of_def type_of_custom)
  with nn key show "plan_ok (group_plan s ob)"
    by (auto simp: key_of_def intro: group_items_ok)
next
  fix w nn
  assume w: "ok w" "proper_name nn"
  obtain w1 x where get: "cl_Get cl w PartitionGroupT nn = (w1, x)" by fastforce
  show "group_Reconcile \<lparr>r_client = cl, r_scheme = s\<rparr> nn w =
      reconcile_owner cl PartitionGroupT (\<lambda>ob. map (ensure cl) (group_plan s ob)) nn w"
  proof (cases x)
    case (Inl err)
    with get show ?thesis by (simp add: group_Reconcile_def reconcile_owner_def)
  next
    case (Inr ob)
    with api_client.get_key [OF assms w] get obtain g where "ob = PartitionGroupO g"
      by (fastforce simp: key_of_def type_of_custom)
    with get Inr show ?thesis
      using group_steps_eq [of "\<lparr>r_client = cl, r_scheme = s\<rparr>"]
      by (simp add: group_Reconcile_def reconcile_owner_def)
  qed
qed

end
