(* ===== verification/Benchmark_Reconciler.thy ===== *)
theory Benchmark_Reconciler
  imports Group_Reconciler
begin

section \<open>The benchmark reconciler\<close>

text \<open>
  \<^verbatim>\<open>pkg/controller/benchmark/reconciler.go\<close>. Eight resources, four for the coordinator and four
  for the workers; every method reads its resource twice before it creates it. Since the names
  of three worker resources are those of the coordinator, three items of the plan have keys
  that occur before.
\<close>

subsection \<open>The methods\<close>

text \<open>The names the methods ask for; they do not depend on the reconciler.\<close>

definition benchmark_getControllerInitScriptName :: "atomix_benchmark \<Rightarrow> string" where
  "benchmark_getControllerInitScriptName b = GetBenchmarkControllerInitConfigMapName b"

definition benchmark_getControllerSystemConfigName :: "atomix_benchmark \<Rightarrow> string" where
  "benchmark_getControllerSystemConfigName b = GetBenchmarkControllerSystemConfigMapName b"

definition benchmark_getControllerPodName :: "atomix_benchmark \<Rightarrow> string" where
  "benchmark_getControllerPodName b = GetBenchmarkControllerPodName b"

definition benchmark_getControllerServiceName :: "atomix_benchmark \<Rightarrow> string" where
  "benchmark_getControllerServiceName b = GetBenchmarkControllerServiceName b"

definition benchmark_getWorkerInitScriptName :: "atomix_benchmark \<Rightarrow> string" where
  "benchmark_getWorkerInitScriptName b = GetBenchmarkWorkerInitConfigMapName b"

definition benchmark_getWorkerSystemConfigName :: "atomix_benchmark \<Rightarrow> string" where
  "benchmark_getWorkerSystemConfigName b = GetBenchmarkWorkerSystemConfigMapName b"

definition benchmark_getWorkerStatefulSetName :: "atomix_benchmark \<Rightarrow> string" where
  "benchmark_getWorkerStatefulSetName b = GetBenchmarkWorkerStatefulSetName b"

definition benchmark_getWorkerServiceName :: "atomix_benchmark \<Rightarrow> string" where
  "benchmark_getWorkerServiceName b = GetBenchmarkWorkerServiceName b"

definition benchmark_addControllerInitScript :: "'w benchmark_reconciler \<Rightarrow> atomix_benchmark \<Rightarrow> 'w step" where
  "benchmark_addControllerInitScript r b =
     when_missing (r_client r) ConfigMapT
       (NamespacedName (om_Namespace (ab_Meta b)) (benchmark_getControllerInitScriptName b))
       (create_owned r AtomixBenchmarkT (ab_Meta b) (ConfigMapO (NewBenchmarkControllerInitConfigMap b)))"

definition benchmark_reconcileControllerInitScript :: "'w benchmark_reconciler \<Rightarrow> atomix_benchmark \<Rightarrow> 'w step" where
  "benchmark_reconcileControllerInitScript r b =
     when_missing (r_client r) ConfigMapT
       (NamespacedName (om_Namespace (ab_Meta b)) (benchmark_getControllerInitScriptName b))
       (benchmark_addControllerInitScript r b)"

definition benchmark_addControllerSystemConfig :: "'w benchmark_reconciler \<Rightarrow> atomix_benchmark \<Rightarrow> 'w step" where
  "benchmark_addControllerSystemConfig r b =
     when_missing (r_client r) ConfigMapT
       (NamespacedName (om_Namespace (ab_Meta b)) (benchmark_getControllerSystemConfigName b))
       (create_owned r AtomixBenchmarkT (ab_Meta b) (ConfigMapO (NewBenchmarkControllerSystemConfigMap b)))"

definition benchmark_reconcileControllerSystemConfig :: "'w benchmark_reconciler \<Rightarrow> atomix_benchmark \<Rightarrow> 'w step" where
  "benchmark_reconcileControllerSystemConfig r b =
     when_missing (r_client r) ConfigMapT
       (NamespacedName (om_Namespace (ab_Meta b)) (benchmark_getControllerSystemConfigName b))
       (benchmark_addControllerSystemConfig r b)"

definition benchmark_addControllerPod :: "'w benchmark_reconciler \<Rightarrow> atomix_benchmark \<Rightarrow> 'w step" where
  "benchmark_addControllerPod r b =
     when_missing (r_client r) PodT
       (NamespacedName (om_Namespace (ab_Meta b)) (benchmark_getControllerPodName b))
       (create_owned r AtomixBenchmarkT (ab_Meta b) (PodO (NewBenchmarkControllerPod b)))"

definition benchmark_reconcileControllerPod :: "'w benchmark_reconciler \<Rightarrow> atomix_benchmark \<Rightarrow> 'w step" where
  "benchmark_reconcileControllerPod r b =
     when_missing (r_client r) PodT
       (NamespacedName (om_Namespace (ab_Meta b)) (benchmark_getControllerPodName b))
       (benchmark_addControllerPod r b)"

definition benchmark_addControllerService :: "'w benchmark_reconciler \<Rightarrow> atomix_benchmark \<Rightarrow> 'w step" where
  "benchmark_addControllerService r b =
     when_missing (r_client r) ServiceT
       (NamespacedName (om_Namespace (ab_Meta b)) (benchmark_getControllerServiceName b))
       (create_owned r AtomixBenchmarkT (ab_Meta b) (ServiceO (NewBenchmarkControllerService b)))"

definition benchmark_reconcileControllerService :: "'w benchmark_reconciler \<Rightarrow> atomix_benchmark \<Rightarrow> 'w step" where
  "benchmark_reconcileControllerService r b =
     when_missing (r_client r) ServiceT
       (NamespacedName (om_Namespace (ab_Meta b)) (benchmark_getControllerServiceName b))
       (benchmark_addControllerService r b)"

definition benchmark_addWorkerInitScript :: "'w benchmark_reconciler \<Rightarrow> atomix_benchmark \<Rightarrow> 'w step" where
  "benchmark_addWorkerInitScript r b =
     when_missing (r_client r) ConfigMapT
       (NamespacedName (om_Namespace (ab_Meta b)) (benchmark_getWorkerInitScriptName b))
       (create_owned r AtomixBenchmarkT (ab_Meta b) (ConfigMapO (NewBenchmarkWorkerInitConfigMap b)))"

definition benchmark_reconcileWorkerInitScript :: "'w benchmark_reconciler \<Rightarrow> atomix_benchmark \<Rightarrow> 'w step" where
  "benchmark_reconcileWorkerInitScript r b =
     when_missing (r_client r) ConfigMapT
       (NamespacedName (om_Namespace (ab_Meta b)) (benchmark_getWorkerInitScriptName b))
       (benchmark_addWorkerInitScript r b)"

definition benchmark_addWorkerSystemConfig :: "'w benchmark_reconciler \<Rightarrow> atomix_benchmark \<Rightarrow> 'w step" where
  "benchmark_addWorkerSystemConfig r b =
     when_missing (r_client r) ConfigMapT
       (NamespacedName (om_Namespace (ab_Meta b)) (benchmark_getWorkerSystemConfigName b))
       (create_owned r AtomixBenchmarkT (ab_Meta b) (ConfigMapO (NewBenchmarkWorkerSystemConfigMap b)))"

definition benchmark_reconcileWorkerSystemConfig :: "'w benchmark_reconciler \<Rightarrow> atomix_benchmark \<Rightarrow> 'w step" where
  "benchmark_reconcileWorkerSystemConfig r b =
     when_missing (r_client r) ConfigMapT
       (NamespacedName (om_Namespace (ab_Meta b)) (benchmark_getWorkerSystemConfigName b))
       (benchmark_addWorkerSystemConfig r b)"

definition benchmark_addWorkerPod :: "'w benchmark_reconciler \<Rightarrow> atomix_benchmark \<Rightarrow> 'w step" where
  "benchmark_addWorkerPod r b =
     when_missing (r_client r) StatefulSetT
       (NamespacedName (om_Namespace (ab_Meta b)) (benchmark_getWorkerStatefulSetName b))
       (create_owned r AtomixBenchmarkT (ab_Meta b) (StatefulSetO (NewBenchmarkWorkerStatefulSet b)))"

definition benchmark_reconcileWorkerPod :: "'w benchmark_reconciler \<Rightarrow> atomix_benchmark \<Rightarrow> 'w step" where
  "benchmark_reconcileWorkerPod r b =
     when_missing (r_client r) StatefulSetT
       (NamespacedName (om_Namespace (ab_Meta b)) (benchmark_getWorkerStatefulSetName b))
       (benchmark_addWorkerPod r b)"

definition benchmark_addWorkerService :: "'w benchmark_reconciler \<Rightarrow> atomix_benchmark \<Rightarrow> 'w step" where
  "benchmark_addWorkerService r b =
     when_missing (r_client r) ServiceT
       (NamespacedName (om_Namespace (ab_Meta b)) (benchmark_getWorkerServiceName b))
       (create_owned r AtomixBenchmarkT (ab_Meta b) (ServiceO (NewBenchmarkWorkerService b)))"

definition benchmark_reconcileWorkerService :: "'w benchmark_reconciler \<Rightarrow> atomix_benchmark \<Rightarrow> 'w step" where
  "benchmark_reconcileWorkerService r b =
     when_missing (r_client r) ServiceT
       (NamespacedName (om_Namespace (ab_Meta b)) (benchmark_getWorkerServiceName b))
       (benchmark_addWorkerService r b)"

definition benchmark_Reconcile ::
  "'w benchmark_reconciler \<Rightarrow> namespaced_name \<Rightarrow> 'w \<Rightarrow> 'w \<times> reconcile_result \<times> go_error option" where
  "benchmark_Reconcile r request w =
     (case cl_Get (r_client r) w AtomixBenchmarkT request of
        (w1, Inl err) \<Rightarrow>
          if IsNotFound err then (w1, zero_result, None) else (w1, zero_result, Some err)
      | (w1, Inr (AtomixBenchmarkO b)) \<Rightarrow>
          let benchmark = SetDefaults_Benchmark b
          in (case run_steps
                     [benchmark_reconcileControllerInitScript r benchmark,
                      benchmark_reconcileControllerSystemConfig r benchmark,
                      benchmark_reconcileControllerPod r benchmark,
                      benchmark_reconcileControllerService r benchmark,
                      benchmark_reconcileWorkerInitScript r benchmark,
                      benchmark_reconcileWorkerSystemConfig r benchmark,
                      benchmark_reconcileWorkerPod r benchmark,
                      benchmark_reconcileWorkerService r benchmark] w1 of
                (w2, err) \<Rightarrow> (w2, zero_result, err))
      | (w1, Inr _) \<Rightarrow> (w1, zero_result, Some wrong_type))"

subsection \<open>The plan\<close>

definition benchmark_items :: "scheme \<Rightarrow> atomix_benchmark \<Rightarrow> plan" where
  "benchmark_items s b =
     (let nn = NamespacedName (om_Namespace (ab_Meta b));
          own = (\<lambda>ob. SetControllerReference AtomixBenchmarkT (ab_Meta b) ob s)
      in [((ConfigMapT, nn (GetBenchmarkControllerInitConfigMapName b)),
             own (ConfigMapO (NewBenchmarkControllerInitConfigMap b))),
          ((ConfigMapT, nn (GetBenchmarkControllerSystemConfigMapName b)),
             own (ConfigMapO (NewBenchmarkControllerSystemConfigMap b))),
          ((PodT, nn (GetBenchmarkControllerPodName b)),
             own (PodO (NewBenchmarkControllerPod b))),
          ((ServiceT, nn (GetBenchmarkControllerServiceName b)),
             own (ServiceO (NewBenchmarkControllerService b))),
          ((ConfigMapT, nn (GetBenchmarkWorkerInitConfigMapName b)),
             own (ConfigMapO (NewBenchmarkWorkerInitConfigMap b))),
          ((ConfigMapT, nn (GetBenchmarkWorkerSystemConfigMapName b)),
             own (ConfigMapO (NewBenchmarkWorkerSystemConfigMap b))),
          ((StatefulSetT, nn (GetBenchmarkWorkerStatefulSetName b)),
             own (StatefulSetO (NewBenchmarkWorkerStatefulSet b))),
          ((ServiceT, nn (GetBenchmarkWorkerServiceName b)),
             own (ServiceO (NewBenchmarkWorkerService b)))])"

definition benchmark_plan :: "scheme \<Rightarrow> kobj \<Rightarrow> plan" where
  "benchmark_plan s ob =
     (case ob of AtomixBenchmarkO b \<Rightarrow> benchmark_items s (SetDefaults_Benchmark b) | _ \<Rightarrow> [])"

lemma benchmark_plan_simp [simp]:
  "benchmark_plan s (AtomixBenchmarkO b) = benchmark_items s (SetDefaults_Benchmark b)"
  by (simp add: benchmark_plan_def)

lemmas benchmark_name_defs =
  benchmark_getControllerInitScriptName_def benchmark_getControllerSystemConfigName_def
  benchmark_getControllerPodName_def benchmark_getControllerServiceName_def
  benchmark_getWorkerInitScriptName_def benchmark_getWorkerSystemConfigName_def
  benchmark_getWorkerStatefulSetName_def benchmark_getWorkerServiceName_def

lemmas benchmark_step_defs = benchmark_name_defs
  benchmark_reconcileControllerInitScript_def benchmark_addControllerInitScript_def
  benchmark_reconcileControllerSystemConfig_def benchmark_addControllerSystemConfig_def
  benchmark_reconcileControllerPod_def benchmark_addControllerPod_def
  benchmark_reconcileControllerService_def benchmark_addControllerService_def
  benchmark_reconcileWorkerInitScript_def benchmark_addWorkerInitScript_def
  benchmark_reconcileWorkerSystemConfig_def benchmark_addWorkerSystemConfig_def
  benchmark_reconcileWorkerPod_def benchmark_addWorkerPod_def
  benchmark_reconcileWorkerService_def benchmark_addWorkerService_def

lemma benchmark_steps_eq:
  "[benchmark_reconcileControllerInitScript r b,
    benchmark_reconcileControllerSystemConfig r b,
    benchmark_reconcileControllerPod r b,
    benchmark_reconcileControllerService r b,
    benchmark_reconcileWorkerInitScript r b,
    benchmark_reconcileWorkerSystemConfig r b,
    benchmark_reconcileWorkerPod r b,
    benchmark_reconcileWorkerService r b] = map (ensure_twice (r_client r)) (benchmark_items (r_scheme r) b)"
  by (simp add: benchmark_step_defs step_shapes benchmark_items_def Let_def)

lemmas benchmark_object_defs =
  NewBenchmarkControllerInitConfigMap_def
  NewBenchmarkControllerSystemConfigMap_def
  NewBenchmarkControllerPod_def
  NewBenchmarkControllerService_def
  NewBenchmarkWorkerInitConfigMap_def
  NewBenchmarkWorkerSystemConfigMap_def
  NewBenchmarkWorkerStatefulSet_def
  NewBenchmarkWorkerService_def

lemma benchmark_keys:
  "key_of (ConfigMapO (NewBenchmarkControllerInitConfigMap b)) =
     (ConfigMapT, NamespacedName (om_Namespace (ab_Meta b)) (GetBenchmarkControllerInitConfigMapName b))"
  "key_of (ConfigMapO (NewBenchmarkControllerSystemConfigMap b)) =
     (ConfigMapT, NamespacedName (om_Namespace (ab_Meta b)) (GetBenchmarkControllerSystemConfigMapName b))"
  "key_of (PodO (NewBenchmarkControllerPod b)) =
     (PodT, NamespacedName (om_Namespace (ab_Meta b)) (GetBenchmarkControllerPodName b))"
  "key_of (ServiceO (NewBenchmarkControllerService b)) =
     (ServiceT, NamespacedName (om_Namespace (ab_Meta b)) (GetBenchmarkControllerServiceName b))"
  "key_of (ConfigMapO (NewBenchmarkWorkerInitConfigMap b)) =
     (ConfigMapT, NamespacedName (om_Namespace (ab_Meta b)) (GetBenchmarkWorkerInitConfigMapName b))"
  "key_of (ConfigMapO (NewBenchmarkWorkerSystemConfigMap b)) =
     (ConfigMapT, NamespacedName (om_Namespace (ab_Meta b)) (GetBenchmarkWorkerSystemConfigMapName b))"
  "key_of (StatefulSetO (NewBenchmarkWorkerStatefulSet b)) =
     (StatefulSetT, NamespacedName (om_Namespace (ab_Meta b)) (GetBenchmarkWorkerStatefulSetName b))"
  "key_of (ServiceO (NewBenchmarkWorkerService b)) =
     (ServiceT, NamespacedName (om_Namespace (ab_Meta b)) (GetBenchmarkWorkerServiceName b))"
  by (simp_all add: key_of_def benchmark_object_defs meta_name_def new_meta_def)

lemma benchmark_items_ok:
  assumes "proper_name (meta_name (ab_Meta b))"
  shows "plan_ok (benchmark_items s b)"
proof -
  let ?nn = "NamespacedName (om_Namespace (ab_Meta b))"
  have "proper_name (?nn (om_Name (ab_Meta b)))"
    using assms by (simp add: meta_name_def)
  then have proper:
    "proper_name (?nn (GetBenchmarkControllerInitConfigMapName b))"
    "proper_name (?nn (GetBenchmarkControllerSystemConfigMapName b))"
    "proper_name (?nn (GetBenchmarkControllerPodName b))"
    "proper_name (?nn (GetBenchmarkControllerServiceName b))"
    "proper_name (?nn (GetBenchmarkWorkerInitConfigMapName b))"
    "proper_name (?nn (GetBenchmarkWorkerSystemConfigMapName b))"
    "proper_name (?nn (GetBenchmarkWorkerStatefulSetName b))"
    "proper_name (?nn (GetBenchmarkWorkerServiceName b))"
    by (simp_all add: name_defs suffix_defs)
  show ?thesis
    unfolding benchmark_items_def Let_def plan_ok_simps
    by (intro conjI plan_item_owned) (simp_all add: proper benchmark_keys)
qed

lemma benchmark_planned:
  assumes "api_client cl objs ok"
  shows "planned_reconciler cl objs ok AtomixBenchmarkT ensure_twice (benchmark_plan s)
    (benchmark_Reconcile \<lparr>r_client = cl, r_scheme = s\<rparr>)"
proof (intro planned_reconciler.intro planned_reconciler_axioms.intro)
  show "api_client cl objs ok" by (rule assms)
  show "ensure_twice = ensure \<or> ensure_twice = ensure_twice" by simp
next
  fix nn ob
  assume nn: "proper_name nn" and key: "key_of ob = (AtomixBenchmarkT, nn)"
  then obtain b where "ob = AtomixBenchmarkO b" by (auto simp: key_of_def type_of_custom)
  with nn key show "plan_ok (benchmark_plan s ob)"
    by (auto simp: key_of_def intro: benchmark_items_ok)
next
  fix w nn
  assume w: "ok w" "proper_name nn"
  obtain w1 x where get: "cl_Get cl w AtomixBenchmarkT nn = (w1, x)" by fastforce
  show "benchmark_Reconcile \<lparr>r_client = cl, r_scheme = s\<rparr> nn w =
      reconcile_owner cl AtomixBenchmarkT (\<lambda>ob. map (ensure_twice cl) (benchmark_plan s ob)) nn w"
  proof (cases x)
    case (Inl err)
    with get show ?thesis by (simp add: benchmark_Reconcile_def reconcile_owner_def)
  next
    case (Inr ob)
    with api_client.get_key [OF assms w] get obtain b where "ob = AtomixBenchmarkO b"
      by (fastforce simp: key_of_def type_of_custom)
    with get Inr show ?thesis
      using benchmark_steps_eq [of "\<lparr>r_client = cl, r_scheme = s\<rparr>"]
      by (simp add: benchmark_Reconcile_def reconcile_owner_def)
  qed
qed

end
