(* ===== verification/Children.thy ===== *)
theory Children
  imports Benchmark_Reconciler
begin

section \<open>The children of an owner\<close>

text \<open>
  With the operator's scheme every object of a plan is the built object with one owner
  reference. This theory names the children of the three owners, expresses the plans by them,
  and shows that the three reconcilers meet the contracts of \<open>Reconciling\<close> for every client,
  and in particular for the fake client and for the split client.
\<close>

subsection \<open>Plans of owned objects\<close>

definition owned_item :: "gvk \<Rightarrow> object_meta \<Rightarrow> kobj \<Rightarrow> plan_item" where
  "owned_item g owner ob = (key_of ob, Inr (owned_by g owner ob))"

definition owned_store :: "gvk \<Rightarrow> object_meta \<Rightarrow> kobj list \<Rightarrow> store" where
  "owned_store g owner obs = map_of (map (\<lambda>ob. (key_of ob, sans_uid (owned_by g owner ob))) obs)"

lemma converge_owned:
  "converge (map (owned_item g owner) obs) m = (owned_store g owner obs ++ m, None)"
proof -
  have "\<forall>p\<in>set (map (owned_item g owner) obs). \<exists>ob. snd p = Inr ob"
    by (auto simp: owned_item_def)
  from converge_all_built [OF this] show ?thesis
    by (simp add: owned_item_def owned_store_def comp_def)
qed

lemma converge_append:
  "converge (ps @ qs) m =
     (case converge ps m of (m', None) \<Rightarrow> converge qs m' | (m', Some e) \<Rightarrow> (m', Some e))"
proof (induction ps arbitrary: m)
  case Nil
  then show ?case by simp
next
  case (Cons p ps)
  obtain k d where p: "p = (k, d)" by fastforce
  show ?case
  proof (cases rule: converge_Cons_cases [of d m k])
    case (fail e)
    show ?thesis unfolding p append_Cons fail(3) by simp
  next
    case (go m1)
    show ?thesis unfolding p append_Cons go(3) by (rule Cons.IH)
  qed
qed

lemma converge_owned_stuck:
  assumes "m k = None" "k \<notin> key_of ` set obs"
  shows "converge (map (owned_item g owner) obs @ (k, Inl e) # qs) m =
    (owned_store g owner obs ++ m, Some e)"
proof -
  have "owned_store g owner obs k = None"
    using assms(2) by (force simp: owned_store_def map_of_eq_None_iff)
  with assms(1) show ?thesis
    by (simp add: converge_append converge_owned map_add_None)
qed

lemma plan_objects_owned:
  "(k, ob) \<in> plan_objects (map (owned_item g owner) obs) \<longleftrightarrow>
     (\<exists>x\<in>set obs. k = key_of x \<and> ob = owned_by g owner x)"
  by (auto simp: plan_objects_def owned_item_def)

lemma plan_keys_owned [simp]: "plan_keys (map (owned_item g owner) obs) = key_of ` set obs"
  by (force simp: plan_keys_def owned_item_def)

lemma owned_reference:
  assumes "GVKForObject t s = Inr g" "om_OwnerReferences (meta_of ob) = []" "key_of ob = k"
  shows "(k, SetControllerReference t owner ob s) = owned_item g owner ob"
  using SetControllerReference_fresh [OF assms(2,1)] assms(3) by (simp add: owned_item_def)

subsection \<open>Clusters\<close>

definition cluster_configs :: "atomix_cluster \<Rightarrow> kobj list" where
  "cluster_configs c =
     [ConfigMapO (NewManagementInitConfigMap c), ConfigMapO (NewManagementSystemConfigMap c),
      PodDisruptionBudgetO (NewManagementDisruptionBudget c)]"

definition cluster_children :: "atomix_cluster \<Rightarrow> stateful_set \<Rightarrow> kobj list" where
  "cluster_children c sset =
     cluster_configs c @ [StatefulSetO sset, ServiceO (NewManagementService c)]"

abbreviation cluster_gvk :: gvk where
  "cluster_gvk \<equiv> agent_gvk AtomixClusterT"

lemma cluster_fresh:
  "om_OwnerReferences (cm_Meta (NewManagementInitConfigMap c)) = []"
  "om_OwnerReferences (cm_Meta (NewManagementSystemConfigMap c)) = []"
  "om_OwnerReferences (pdb_Meta (NewManagementDisruptionBudget c)) = []"
  "NewManagementStatefulSet c = Inr x \<Longrightarrow> om_OwnerReferences (sts_Meta x) = []"
  "om_OwnerReferences (svc_Meta (NewManagementService c)) = []"
  by (simp_all add: cluster_object_defs NewManagementStatefulSet_meta Let_def new_meta_def)

lemma cluster_items_configs:
  assumes "scheme_ready s"
  shows "take 3 (cluster_items s c) = map (owned_item cluster_gvk (ac_Meta c)) (cluster_configs c)"
  using scheme_readyD(1) [OF assms]
  by (simp add: cluster_items_def Let_def cluster_configs_def cluster_fresh cluster_keys owned_reference)

lemma cluster_items_built:
  assumes "scheme_ready s" "NewManagementStatefulSet c = Inr x"
  shows "cluster_items s c = map (owned_item cluster_gvk (ac_Meta c)) (cluster_children c x)"
  using scheme_readyD(1) [OF assms(1)] assms(2)
  by (simp add: cluster_items_def Let_def cluster_configs_def cluster_children_def cluster_fresh
      cluster_keys owned_reference)

lemma cluster_items_failed:
  assumes "scheme_ready s" "NewManagementStatefulSet c = Inl e"
  shows "cluster_items s c = map (owned_item cluster_gvk (ac_Meta c)) (cluster_configs c) @
    [((StatefulSetT, NamespacedName (om_Namespace (ac_Meta c)) (GetManagementStatefulSetName c)), Inl e),
     owned_item cluster_gvk (ac_Meta c) (ServiceO (NewManagementService c))]"
  using scheme_readyD(1) [OF assms(1)] assms(2)
  by (simp add: cluster_items_def Let_def cluster_configs_def cluster_fresh
      cluster_keys owned_reference)

subsection \<open>Partition groups\<close>

definition group_children :: "partition_group \<Rightarrow> config_map \<Rightarrow> stateful_set \<Rightarrow> kobj list" where
  "group_children g cm sset =
     [ConfigMapO (NewPartitionGroupInitConfigMap g), ConfigMapO cm,
      PodDisruptionBudgetO (NewPartitionGroupDisruptionBudget g), StatefulSetO sset,
      ServiceO (NewPartitionGroupService g)]"

abbreviation group_gvk :: gvk where
  "group_gvk \<equiv> agent_gvk PartitionGroupT"

lemma group_fresh:
  "om_OwnerReferences (cm_Meta (NewPartitionGroupInitConfigMap g)) = []"
  "NewPartitionGroupConfigMap g = Inr (Some cm) \<Longrightarrow> om_OwnerReferences (cm_Meta cm) = []"
  "om_OwnerReferences (pdb_Meta (NewPartitionGroupDisruptionBudget g)) = []"
  "NewPartitionGroupStatefulSet g = Inr (Some x) \<Longrightarrow> om_OwnerReferences (sts_Meta x) = []"
  "om_OwnerReferences (svc_Meta (NewPartitionGroupService g)) = []"
  by (simp_all add: group_object_defs NewPartitionGroupConfigMap_meta
      NewPartitionGroupStatefulSet_SomeE(1) Let_def new_meta_def)

lemma group_built_keys:
  "NewPartitionGroupConfigMap g = Inr (Some cm) \<Longrightarrow> key_of (ConfigMapO cm) =
     (ConfigMapT, NamespacedName (om_Namespace (pg_Meta g)) (GetPartitionGroupSystemConfigMapName g))"
  "NewPartitionGroupStatefulSet g = Inr (Some x) \<Longrightarrow> key_of (StatefulSetO x) =
     (StatefulSetT, NamespacedName (om_Namespace (pg_Meta g)) (GetPartitionGroupStatefulSetName g))"
  using group_keys(2) [of g "Some cm"] group_keys(4) [of g "Some x"] by simp_all

lemma group_items_built:
  assumes "scheme_ready s" "NewPartitionGroupConfigMap g = Inr (Some cm)"
    "NewPartitionGroupStatefulSet g = Inr (Some x)"
  shows "group_items s g = map (owned_item group_gvk (pg_Meta g)) (group_children g cm x)"
  using scheme_readyD(2) [OF assms(1)] assms(2,3)
  by (simp add: group_items_def Let_def group_children_def group_fresh
      group_keys(1,3,5) group_built_keys owned_reference)

lemma group_items_untyped:
  assumes "scheme_ready s" "GetPartitionGroupType g = Inl e"
  shows "\<exists>rest. group_items s g =
    map (owned_item group_gvk (pg_Meta g)) [ConfigMapO (NewPartitionGroupInitConfigMap g)] @
    ((ConfigMapT, NamespacedName (om_Namespace (pg_Meta g)) (GetPartitionGroupSystemConfigMapName g)),
     Inl e) # rest"
  using scheme_readyD(2) [OF assms(1)] assms(2) NewPartitionGroupConfigMap_Inl [of g e]
  by (simp add: group_items_def Let_def group_fresh group_keys(1) owned_reference)

lemma group_items_bad_size:
  assumes "scheme_ready s" "NewPartitionGroupConfigMap g = Inr (Some cm)"
    "NewPartitionGroupStatefulSet g = Inl e"
  shows "\<exists>rest. group_items s g =
    map (owned_item group_gvk (pg_Meta g))
      [ConfigMapO (NewPartitionGroupInitConfigMap g), ConfigMapO cm,
       PodDisruptionBudgetO (NewPartitionGroupDisruptionBudget g)] @
    ((StatefulSetT, NamespacedName (om_Namespace (pg_Meta g)) (GetPartitionGroupStatefulSetName g)),
     Inl e) # rest"
  using scheme_readyD(2) [OF assms(1)] assms(2,3)
  by (simp add: group_items_def Let_def group_fresh group_keys(1,3,5) group_built_keys owned_reference)

subsection \<open>Benchmarks\<close>

definition benchmark_children :: "atomix_benchmark \<Rightarrow> kobj list" where
  "benchmark_children b =
     [ConfigMapO (NewBenchmarkControllerInitConfigMap b),
      ConfigMapO (NewBenchmarkControllerSystemConfigMap b),
      PodO (NewBenchmarkControllerPod b),
      ServiceO (NewBenchmarkControllerService b),
      ConfigMapO (NewBenchmarkWorkerInitConfigMap b),
      ConfigMapO (NewBenchmarkWorkerSystemConfigMap b),
      StatefulSetO (NewBenchmarkWorkerStatefulSet b),
      ServiceO (NewBenchmarkWorkerService b)]"

abbreviation benchmark_gvk :: gvk where
  "benchmark_gvk \<equiv> agent_gvk AtomixBenchmarkT"

lemma benchmark_fresh:
  "om_OwnerReferences (cm_Meta (NewBenchmarkControllerInitConfigMap b)) = []"
  "om_OwnerReferences (cm_Meta (NewBenchmarkControllerSystemConfigMap b)) = []"
  "om_OwnerReferences (pod_Meta (NewBenchmarkControllerPod b)) = []"
  "om_OwnerReferences (svc_Meta (NewBenchmarkControllerService b)) = []"
  "om_OwnerReferences (cm_Meta (NewBenchmarkWorkerInitConfigMap b)) = []"
  "om_OwnerReferences (cm_Meta (NewBenchmarkWorkerSystemConfigMap b)) = []"
  "om_OwnerReferences (sts_Meta (NewBenchmarkWorkerStatefulSet b)) = []"
  "om_OwnerReferences (svc_Meta (NewBenchmarkWorkerService b)) = []"
  by (simp_all add: benchmark_object_defs new_meta_def)

lemma benchmark_items_built:
  assumes "scheme_ready s"
  shows "benchmark_items s b = map (owned_item benchmark_gvk (ab_Meta b)) (benchmark_children b)"
  using scheme_readyD(3) [OF assms]
  by (simp add: benchmark_items_def Let_def benchmark_children_def benchmark_keys benchmark_fresh
      owned_reference)

text \<open>The three worker objects that have the key of a coordinator object are never created.\<close>

definition benchmark_created :: "atomix_benchmark \<Rightarrow> kobj list" where
  "benchmark_created b =
     [ConfigMapO (NewBenchmarkControllerInitConfigMap b),
      ConfigMapO (NewBenchmarkControllerSystemConfigMap b),
      PodO (NewBenchmarkControllerPod b),
      ServiceO (NewBenchmarkControllerService b),
      StatefulSetO (NewBenchmarkWorkerStatefulSet b)]"

lemma benchmark_shadowed:
  "owned_store g owner (benchmark_children b) = owned_store g owner (benchmark_created b)"
  by (rule ext) (simp add: owned_store_def benchmark_children_def benchmark_created_def
      benchmark_keys benchmark_names_coincide)

subsection \<open>The contracts\<close>

lemma sound_reconcilerI:
  "sound_client cl objs ok \<Longrightarrow>
   (api_client cl objs ok \<Longrightarrow> planned_reconciler cl objs ok t mk p rec) \<Longrightarrow>
   sound_reconciler cl objs ok t mk p rec"
  by (simp add: sound_reconciler_def sound_client_def)

lemma reliable_reconcilerI:
  "reliable_client cl objs ok \<Longrightarrow>
   (api_client cl objs ok \<Longrightarrow> planned_reconciler cl objs ok t mk p rec) \<Longrightarrow>
   reliable_reconciler cl objs ok t mk p rec"
  by (simp add: reliable_reconciler_def reliable_client_def sound_reconciler_def sound_client_def)

lemmas cluster_sound = sound_reconcilerI [OF _ cluster_planned]
lemmas cluster_reliable = reliable_reconcilerI [OF _ cluster_planned]
lemmas group_sound = sound_reconcilerI [OF _ group_planned]
lemmas group_reliable = reliable_reconcilerI [OF _ group_planned]
lemmas benchmark_sound = sound_reconcilerI [OF _ benchmark_planned]
lemmas benchmark_reliable = reliable_reconcilerI [OF _ benchmark_planned]

interpretation fake_cluster: reliable_reconciler fake_client fake_objs fake_ok AtomixClusterT
  ensure "cluster_plan s" "cluster_Reconcile \<lparr>r_client = fake_client, r_scheme = s\<rparr>" for s
  by (rule cluster_reliable) unfold_locales

interpretation fake_group: reliable_reconciler fake_client fake_objs fake_ok PartitionGroupT
  ensure "group_plan s" "group_Reconcile \<lparr>r_client = fake_client, r_scheme = s\<rparr>" for s
  by (rule group_reliable) unfold_locales

interpretation fake_benchmark: reliable_reconciler fake_client fake_objs fake_ok AtomixBenchmarkT
  ensure_twice "benchmark_plan s" "benchmark_Reconcile \<lparr>r_client = fake_client, r_scheme = s\<rparr>" for s
  by (rule benchmark_reliable) unfold_locales

text \<open>The manager's client, reading through the cache of a server that is the tracker.\<close>

interpretation cached_cluster: sound_reconciler "split_client fake_server" "split_objs fake_objs"
  "split_ok fake_objs fake_ok" AtomixClusterT ensure "cluster_plan s"
  "cluster_Reconcile \<lparr>r_client = split_client fake_server, r_scheme = s\<rparr>" for s
  by (rule cluster_sound) (rule fake_api.split.sound_client_axioms)

interpretation cached_group: sound_reconciler "split_client fake_server" "split_objs fake_objs"
  "split_ok fake_objs fake_ok" PartitionGroupT ensure "group_plan s"
  "group_Reconcile \<lparr>r_client = split_client fake_server, r_scheme = s\<rparr>" for s
  by (rule group_sound) (rule fake_api.split.sound_client_axioms)

interpretation cached_benchmark: sound_reconciler "split_client fake_server" "split_objs fake_objs"
  "split_ok fake_objs fake_ok" AtomixBenchmarkT ensure_twice "benchmark_plan s"
  "benchmark_Reconcile \<lparr>r_client = split_client fake_server, r_scheme = s\<rparr>" for s
  by (rule benchmark_sound) (rule fake_api.split.sound_client_axioms)

end
