(* ===== verification/Reconcile_Facts.thy ===== *)
theory Reconcile_Facts
  imports Children
begin

section \<open>What the reconcilers do\<close>

text \<open>
  The facts about the three reconcilers in terms of the built objects: which objects are
  added, in which namespace and under which controller; the store that a run computes; and the
  sample objects and worlds at which the properties are instantiated.
\<close>

subsection \<open>Adding controlled objects\<close>

text \<open>
  Nothing is changed or removed, and every new object is of one of the given types, lies in
  the namespace of the owner under its own key, and has the owner as its controller.
\<close>

definition controlled_by :: "go_type \<Rightarrow> string \<Rightarrow> kobj \<Rightarrow> bool" where
  "controlled_by t name ob \<longleftrightarrow>
     (case GetControllerOf (meta_of ob) of
        None \<Rightarrow> False
      | Some ref \<Rightarrow>
          or_APIVersion ref = ''agent.atomix.io/v1alpha1'' \<and> or_Kind ref = type_name t \<and>
          or_Name ref = name \<and> or_BlockOwnerDeletion ref = Some True)"

definition only_adds :: "go_type \<Rightarrow> go_type set \<Rightarrow> namespaced_name \<Rightarrow> store \<Rightarrow> store \<Rightarrow> bool" where
  "only_adds t ts nn m m' \<longleftrightarrow>
     m \<subseteq>\<^sub>m m' \<and>
     (\<forall>k ob. m' k = Some ob \<longrightarrow> m k = None \<longrightarrow>
        fst k \<in> ts \<and> key_of ob = k \<and> nn_Namespace (snd k) = nn_Namespace nn \<and>
        controlled_by t (nn_Name nn) ob)"

lemma GetControllerOf_with_uid [simp]:
  "GetControllerOf (meta_of (with_uid u ob)) = GetControllerOf (meta_of ob)"
  by (simp add: with_uid_def GetControllerOf_def)

lemma controlled_by_owned:
  assumes "t \<in> {AtomixClusterT, PartitionGroupT, AtomixBenchmarkT}"
  shows "controlled_by t (om_Name owner) (with_uid u (owned_by (agent_gvk t) owner ob))"
  using assms by (auto simp: controlled_by_def NewControllerRef_def agent_gvk_def gv_string_def)

lemma only_addsI:
  assumes "grows_by A m m'" "t \<in> {AtomixClusterT, PartitionGroupT, AtomixBenchmarkT}"
    and "\<And>k ob. (k, ob) \<in> A \<Longrightarrow> \<exists>x owner. ob = owned_by (agent_gvk t) owner x \<and> k = key_of x \<and>
      om_Name owner = nn_Name nn \<and> fst k \<in> ts \<and> nn_Namespace (snd k) = nn_Namespace nn"
  shows "only_adds t ts nn m m'"
  unfolding only_adds_def
proof (intro conjI allI impI)
  show "m \<subseteq>\<^sub>m m'" by (rule grows_by_le [OF assms(1)])
  fix k ob
  assume new: "m' k = Some ob" "m k = None"
  obtain ob0 u where ob0: "(k, ob0) \<in> A" "ob = with_uid u ob0"
    using grows_by_new [OF assms(1) new(2,1)] by blast
  then obtain x owner where x: "ob0 = owned_by (agent_gvk t) owner x" "k = key_of x"
    "om_Name owner = nn_Name nn" "fst k \<in> ts" "nn_Namespace (snd k) = nn_Namespace nn"
    using assms(3) by blast
  then show "fst k \<in> ts" "nn_Namespace (snd k) = nn_Namespace nn" by simp_all
  show "key_of ob = k" using ob0(2) x(1,2) by simp
  show "controlled_by t (nn_Name nn) ob"
    using controlled_by_owned [OF assms(2), of owner u x] ob0(2) x(1,3) by simp
qed

definition managed_types :: "go_type set" where
  "managed_types = {ConfigMapT, PodDisruptionBudgetT, StatefulSetT, ServiceT}"

definition benchmark_types :: "go_type set" where
  "benchmark_types = {ConfigMapT, PodT, StatefulSetT, ServiceT}"

lemma plan_objects_items [simp]:
  "plan_objects (owned_item g owner x # ps) = insert (key_of x, owned_by g owner x) (plan_objects ps)"
  by (simp add: owned_item_def)

text \<open>The children of an owner have types among the given ones and live in its namespace.\<close>

definition children_in :: "go_type set \<Rightarrow> string \<Rightarrow> kobj list \<Rightarrow> bool" where
  "children_in ts ns obs \<longleftrightarrow>
     list_all (\<lambda>ob. fst (key_of ob) \<in> ts \<and> nn_Namespace (snd (key_of ob)) = ns) obs"

lemma children_inD:
  assumes "children_in ts ns obs" "(k, ob) \<in> (\<lambda>x. (key_of x, owned_by g owner x)) ` set obs"
  shows "\<exists>x. ob = owned_by g owner x \<and> k = key_of x \<and> fst k \<in> ts \<and> nn_Namespace (snd k) = ns"
  using assms by (auto simp: children_in_def list_all_iff)

lemma plan_objects_map_owned:
  "plan_objects (map (owned_item g owner) obs) = (\<lambda>x. (key_of x, owned_by g owner x)) ` set obs"
  by (auto simp: plan_objects_owned)

lemma cluster_plan_objects:
  assumes "scheme_ready s" "(k, ob) \<in> plan_objects (cluster_items s c)"
  shows "\<exists>x. ob = owned_by cluster_gvk (ac_Meta c) x \<and> k = key_of x \<and> fst k \<in> managed_types \<and>
    nn_Namespace (snd k) = om_Namespace (ac_Meta c)"
proof (cases "NewManagementStatefulSet c")
  case (Inl e)
  let ?obs = "cluster_configs c @ [ServiceO (NewManagementService c)]"
  have "children_in managed_types (om_Namespace (ac_Meta c)) ?obs"
    by (simp add: children_in_def cluster_configs_def cluster_keys managed_types_def)
  moreover have "(k, ob) \<in> (\<lambda>x. (key_of x, owned_by cluster_gvk (ac_Meta c) x)) ` set ?obs"
    using assms(2) by (simp add: cluster_items_failed [OF assms(1) Inl] plan_objects_map_owned)
  ultimately show ?thesis by (rule children_inD)
next
  case (Inr x)
  then have "children_in managed_types (om_Namespace (ac_Meta c)) (cluster_children c x)"
    by (simp add: children_in_def cluster_children_def cluster_configs_def cluster_keys managed_types_def)
  moreover have "(k, ob) \<in> (\<lambda>x. (key_of x, owned_by cluster_gvk (ac_Meta c) x)) ` set (cluster_children c x)"
    using assms(2) by (simp only: cluster_items_built [OF assms(1) Inr] plan_objects_map_owned)
  ultimately show ?thesis by (rule children_inD)
qed

text \<open>The objects of a group that can be built.\<close>

definition built :: "('a \<Rightarrow> kobj) \<Rightarrow> go_error + 'a option \<Rightarrow> kobj list" where
  "built f b = (case b of Inr (Some x) \<Rightarrow> [f x] | _ \<Rightarrow> [])"

definition group_built :: "partition_group \<Rightarrow> kobj list" where
  "group_built g =
     [ConfigMapO (NewPartitionGroupInitConfigMap g)] @
     built ConfigMapO (NewPartitionGroupConfigMap g) @
     [PodDisruptionBudgetO (NewPartitionGroupDisruptionBudget g)] @
     built StatefulSetO (NewPartitionGroupStatefulSet g) @
     [ServiceO (NewPartitionGroupService g)]"

lemma plan_objects_reference:
  assumes "GVKForObject t s = Inr g" "om_OwnerReferences (meta_of ob) = []" "key_of ob = k"
  shows "plan_objects ((k, SetControllerReference t owner ob s) # ps) =
    (\<lambda>x. (key_of x, owned_by g owner x)) ` set [ob] \<union> plan_objects ps"
  using owned_reference [OF assms, of owner] by simp

lemma plan_objects_built:
  assumes "GVKForObject t s = Inr g" "b \<noteq> Inr None"
    "\<And>x. b = Inr (Some x) \<Longrightarrow> om_OwnerReferences (meta_of (f x)) = [] \<and> key_of (f x) = k"
  shows "plan_objects ((k, case b of Inl e \<Rightarrow> Inl e
      | Inr x \<Rightarrow> SetControllerReference t owner (f (the x)) s) # ps) =
    (\<lambda>x. (key_of x, owned_by g owner x)) ` set (built f b) \<union> plan_objects ps"
proof (cases b)
  case (Inl e)
  then show ?thesis by (simp add: built_def)
next
  case (Inr y)
  with assms(2) obtain x where x: "b = Inr (Some x)" by (cases y) auto
  with assms(3) have "om_OwnerReferences (meta_of (f x)) = []" "key_of (f x) = k" by simp_all
  from plan_objects_reference [OF assms(1) this] x show ?thesis by (simp add: built_def)
qed

lemma group_plan_objects:
  assumes "scheme_ready s" "(k, ob) \<in> plan_objects (group_items s g)"
  shows "\<exists>x. ob = owned_by group_gvk (pg_Meta g) x \<and> k = key_of x \<and> fst k \<in> managed_types \<and>
    nn_Namespace (snd k) = om_Namespace (pg_Meta g)"
proof (rule children_inD)
  show "children_in managed_types (om_Namespace (pg_Meta g)) (group_built g)"
    by (auto simp: children_in_def group_built_def built_def group_keys(1,3,5) group_built_keys
        managed_types_def split: sum.splits option.splits)
  have "plan_objects (group_items s g) =
      (\<lambda>x. (key_of x, owned_by group_gvk (pg_Meta g) x)) ` set (group_built g)"
    using scheme_readyD(2) [OF assms(1)]
    unfolding group_items_def Let_def group_built_def set_append image_Un
    by (simp add: plan_objects_reference plan_objects_built group_fresh group_keys(1,3,5)
        group_built_keys del: plan_objects_simps(2,3) set_simps(2) image_insert)
  with assms(2) show "(k, ob) \<in> (\<lambda>x. (key_of x, owned_by group_gvk (pg_Meta g) x)) ` set (group_built g)"
    by simp
qed

lemma benchmark_plan_objects:
  assumes "scheme_ready s" "(k, ob) \<in> plan_objects (benchmark_items s b)"
  shows "\<exists>x. ob = owned_by benchmark_gvk (ab_Meta b) x \<and> k = key_of x \<and> fst k \<in> benchmark_types \<and>
    nn_Namespace (snd k) = om_Namespace (ab_Meta b)"
proof (rule children_inD)
  show "children_in benchmark_types (om_Namespace (ab_Meta b)) (benchmark_children b)"
    by (simp add: children_in_def benchmark_children_def benchmark_keys benchmark_types_def)
  show "(k, ob) \<in> (\<lambda>x. (key_of x, owned_by benchmark_gvk (ab_Meta b) x)) ` set (benchmark_children b)"
    using assms(2) by (simp only: benchmark_items_built [OF assms(1)] plan_objects_map_owned)
qed
lemma planned_only_adds:
  assumes rec: "planned_reconciler cl objs ok t mk plan_of rec"
    and "t \<in> {AtomixClusterT, PartitionGroupT, AtomixBenchmarkT}"
    and "ok w" "proper_name nn" "rec nn w = (w', res, e)"
    and added: "\<And>ob k x. key_of ob = (t, nn) \<Longrightarrow> (k, x) \<in> plan_objects (plan_of ob) \<Longrightarrow>
      \<exists>y owner. x = owned_by (agent_gvk t) owner y \<and> k = key_of y \<and> om_Name owner = nn_Name nn \<and>
        fst k \<in> ts \<and> nn_Namespace (snd k) = nn_Namespace nn"
  shows "ok w' \<and> only_adds t ts nn (objs w) (objs w')"
proof -
  have api: "api_client cl objs ok" using rec by (simp add: planned_reconciler_def)
  obtain w1 x where get: "cl_Get cl w t nn = (w1, x)" by fastforce
  show ?thesis
  proof (cases x)
    case (Inl err)
    with get have get': "cl_Get cl w t nn = (w1, Inl err)" by simp
    have "w' = w1" "objs w1 = objs w" "ok w1"
      using planned_reconciler.reconcile_unread [OF rec assms(3,4) get'] assms(5)
        api_client.get_frame [OF api assms(3) get'] by simp_all
    then show ?thesis by (simp add: only_adds_def)
  next
    case (Inr ob)
    with get have got: "cl_Get cl w t nn = (w1, Inr ob)" by simp
    note safe = planned_reconciler.reconcile_safe [OF rec assms(3,4) got assms(5)]
    have "only_adds t ts nn (objs w) (objs w')"
      by (rule only_addsI [OF safe(2) assms(2)])
        (rule added [OF api_client.get_key [OF api assms(3,4) got]])
    with safe(1) show ?thesis by simp
  qed
qed

lemma only_adds_refl [simp]: "only_adds t ts nn m m"
  by (simp add: only_adds_def)

subsection \<open>Safety of the three methods\<close>

text \<open>
  With any client, a run of a reconciler only adds, and what it adds is owned by what it
  reconciles.
\<close>

lemma cluster_only_adds:
  assumes "api_client cl objs ok" "ok w" "proper_name nn" "scheme_ready s"
    and "cluster_Reconcile \<lparr>r_client = cl, r_scheme = s\<rparr> nn w = (w', res, e)"
  shows "ok w' \<and> only_adds AtomixClusterT managed_types nn (objs w) (objs w')"
proof (rule planned_only_adds [OF cluster_planned [OF assms(1)] _ assms(2,3,5)])
  fix ob k x
  assume "key_of ob = (AtomixClusterT, nn)" and x: "(k, x) \<in> plan_objects (cluster_plan s ob)"
  then obtain c where "ob = AtomixClusterO c" "meta_name (ac_Meta c) = nn"
    by (auto simp: key_of_def type_of_custom)
  with cluster_plan_objects [OF assms(4), of k x "SetDefaults_Cluster c"] x
  show "\<exists>y owner. x = owned_by cluster_gvk owner y \<and> k = key_of y \<and> om_Name owner = nn_Name nn \<and>
      fst k \<in> managed_types \<and> nn_Namespace (snd k) = nn_Namespace nn"
    unfolding meta_name_eq by auto
qed simp

lemma group_only_adds:
  assumes "api_client cl objs ok" "ok w" "proper_name nn" "scheme_ready s"
    and "group_Reconcile \<lparr>r_client = cl, r_scheme = s\<rparr> nn w = (w', res, e)"
  shows "ok w' \<and> only_adds PartitionGroupT managed_types nn (objs w) (objs w')"
proof (rule planned_only_adds [OF group_planned [OF assms(1)] _ assms(2,3,5)])
  fix ob k x
  assume "key_of ob = (PartitionGroupT, nn)" and x: "(k, x) \<in> plan_objects (group_plan s ob)"
  then obtain g where "ob = PartitionGroupO g" "meta_name (pg_Meta g) = nn"
    by (auto simp: key_of_def type_of_custom)
  with group_plan_objects [OF assms(4), of k x "SetDefaults_PartitionGroup g"] x
  show "\<exists>y owner. x = owned_by group_gvk owner y \<and> k = key_of y \<and> om_Name owner = nn_Name nn \<and>
      fst k \<in> managed_types \<and> nn_Namespace (snd k) = nn_Namespace nn"
    unfolding meta_name_eq by auto
qed simp

lemma benchmark_only_adds:
  assumes "api_client cl objs ok" "ok w" "proper_name nn" "scheme_ready s"
    and "benchmark_Reconcile \<lparr>r_client = cl, r_scheme = s\<rparr> nn w = (w', res, e)"
  shows "ok w' \<and> only_adds AtomixBenchmarkT benchmark_types nn (objs w) (objs w')"
proof (rule planned_only_adds [OF benchmark_planned [OF assms(1)] _ assms(2,3,5)])
  fix ob k x
  assume "key_of ob = (AtomixBenchmarkT, nn)" and x: "(k, x) \<in> plan_objects (benchmark_plan s ob)"
  then obtain b where "ob = AtomixBenchmarkO b" "meta_name (ab_Meta b) = nn"
    by (auto simp: key_of_def type_of_custom)
  with benchmark_plan_objects [OF assms(4), of k x "SetDefaults_Benchmark b"] x
  show "\<exists>y owner. x = owned_by benchmark_gvk owner y \<and> k = key_of y \<and> om_Name owner = nn_Name nn \<and>
      fst k \<in> benchmark_types \<and> nn_Namespace (snd k) = nn_Namespace nn"
    unfolding meta_name_eq by auto
qed simp

subsection \<open>Sample objects and worlds\<close>

text \<open>
  A fake client with the operator's scheme and one object in it, and one sample of each custom
  resource: a cluster and a benchmark that leave everything to the defaults, a Raft group, a
  group without a protocol, and a cluster whose storage size does not parse.
\<close>

definition world_with :: "kobj \<Rightarrow> fakeClient" where
  "world_with ob = fst (fake_Create \<lparr>fc_tracker = Map.empty, fc_scheme = operator_scheme\<rparr> ob)"

lemma world_with_facts:
  assumes "proper_name (snd (key_of ob))"
  shows "fake_ok (world_with ob)" and "fake_objs (world_with ob) = [key_of ob \<mapsto> ob]"
proof -
  let ?w = "\<lparr>fc_tracker = Map.empty, fc_scheme = operator_scheme\<rparr>"
  have ok: "fake_ok ?w" by (simp add: fake_ok_def operator_scheme_full fake_list_def tracked_def)
  have empty: "fake_objs ?w = Map.empty"
    by (rule ext) (simp add: fake_objs_def fake_list_def tracked_def)
  obtain w' e where w': "fake_Create ?w ob = (w', e)" by fastforce
  have "e = None" using fake_Create_eq [OF ok, of ob] w' by (simp add: empty Let_def)
  with w' fake.create_effect [OF ok assms, of w' e] empty
  show "fake_ok (world_with ob)" "fake_objs (world_with ob) = [key_of ob \<mapsto> ob]"
    using fake.create_ok [OF ok assms, of w' e] fake_objs_upd [of ?w ob] fake_okD(1) [OF ok]
      fake_Create_eq [OF ok, of ob]
    by (auto simp: world_with_def Let_def)
qed

definition sample_meta :: object_meta where
  "sample_meta = (new_meta ''atomix'' ''default'' fmempty)\<lparr>om_UID := ''42''\<rparr>"

definition sample_name :: namespaced_name where
  "sample_name = NamespacedName ''default'' ''atomix''"

definition empty_resources :: resource_requirements where
  "empty_resources = \<lparr>rr_Limits = fmempty, rr_Requests = fmempty\<rparr>"

definition storage_of_size :: "string \<Rightarrow> storage" where
  "storage_of_size sz =
     \<lparr>st_Size = sz, st_ClassName = None, st_SegmentSize = [], st_EntrySize = [], st_Level = [],
      st_FlushOnCommit = False\<rparr>"

definition sample_cluster :: "string \<Rightarrow> atomix_cluster" where
  "sample_cluster sz =
     \<lparr>ac_Meta = sample_meta,
      ac_Spec =
        \<lparr>cs_Version = [], cs_Size = 3, cs_Env = [], cs_Resources = empty_resources,
         cs_Storage = storage_of_size sz\<rparr>,
      ac_StatusServiceName = []\<rparr>"

definition sample_raft :: "string \<Rightarrow> raft_partition_group" where
  "sample_raft sz =
     \<lparr>rpg_Persistent =
        \<lparr>pp_Storage = storage_of_size sz,
         pp_Compaction = \<lparr>co_Dynamic = False, co_FreeDiskBuffer = 0, co_FreeMemoryBuffer = 0\<rparr>\<rparr>,
      rpg_PartitionSize = 0\<rparr>"

definition sample_group :: "raft_partition_group option \<Rightarrow> partition_group" where
  "sample_group r =
     \<lparr>pg_Meta = sample_meta,
      pg_Spec =
        \<lparr>gs_Cluster = ''main'', gs_Version = [], gs_Size = 3, gs_Partitions = 7, gs_Env = [],
         gs_Resources = empty_resources, gs_Raft = r, gs_PrimaryBackup = None, gs_Log = None\<rparr>,
      pg_StatusServiceName = []\<rparr>"

definition sample_benchmark :: atomix_benchmark where
  "sample_benchmark =
     \<lparr>ab_Meta = sample_meta,
      ab_Spec =
        \<lparr>bs_Cluster = ''main'', bs_Version = [], bs_Workers = 2, bs_Env = [],
         bs_Resources = empty_resources\<rparr>,
      ab_StatusServiceName = []\<rparr>"

lemma sample_sel [simp]:
  "ac_Meta (sample_cluster sz) = sample_meta" "pg_Meta (sample_group r) = sample_meta"
  "ab_Meta sample_benchmark = sample_meta"
  by (simp_all add: sample_cluster_def sample_group_def sample_benchmark_def)

lemma proper_sample [simp]: "proper_name sample_name"
  by (simp add: sample_name_def proper_name_def)

lemma meta_name_sample [simp]: "meta_name sample_meta = sample_name"
  by (simp add: meta_name_def sample_meta_def new_meta_def sample_name_def)

lemma default_size_parses: "\<exists>q. ParseQuantity ''2G'' = Inr q"
  by (rule exI [of _ "projr (ParseQuantity ''2G'')"]) code_simp

end
