(* ===== verification/Resource_Properties.thy ===== *)
theory Resource_Properties
  imports Reconcile_Facts
begin

section \<open>Properties of the resources\<close>

text \<open>
  What the objects built for clusters, partition groups and benchmarks promise, independent of
  how they are created: defaults, the configuration text that the pods read, disruption
  budgets, the agreement between stateful sets, services and pods, and who discovers whom.
\<close>

subsection \<open>Defaults\<close>

text \<open>
  What defaulting may do to a field: a zero value becomes the default, any other stays. The
  relations below say that of every field of a section, and that the others are the same.
\<close>

definition filled :: "('a \<Rightarrow> bool) \<Rightarrow> 'a \<Rightarrow> 'a \<Rightarrow> 'a \<Rightarrow> bool" where
  "filled zero dflt old new \<longleftrightarrow> (if zero old then new = dflt else new = old)"

definition storage_filled :: "storage \<Rightarrow> storage \<Rightarrow> bool" where
  "storage_filled old new \<longleftrightarrow>
     filled ((=) []) ''2G'' (st_Size old) (st_Size new) \<and>
     filled ((=) []) ''64M'' (st_SegmentSize old) (st_SegmentSize new) \<and>
     filled ((=) []) ''1K'' (st_EntrySize old) (st_EntrySize new) \<and>
     filled ((=) []) ''mapped'' (st_Level old) (st_Level new) \<and>
     st_ClassName new = st_ClassName old \<and> st_FlushOnCommit new = st_FlushOnCommit old"

definition persistent_filled :: "persistent_partition_group \<Rightarrow> persistent_partition_group \<Rightarrow> bool" where
  "persistent_filled old new \<longleftrightarrow>
     storage_filled (pp_Storage old) (pp_Storage new) \<and>
     filled float32_is_zero 0x3E4CCCCD (co_FreeDiskBuffer (pp_Compaction old)) (co_FreeDiskBuffer (pp_Compaction new)) \<and>
     filled float32_is_zero 0x3E4CCCCD (co_FreeMemoryBuffer (pp_Compaction old)) (co_FreeMemoryBuffer (pp_Compaction new)) \<and>
     co_Dynamic (pp_Compaction new) = co_Dynamic (pp_Compaction old)"

definition cluster_filled :: "atomix_cluster \<Rightarrow> atomix_cluster \<Rightarrow> bool" where
  "cluster_filled c c' \<longleftrightarrow>
     (let old = ac_Spec c; new = ac_Spec c' in
        filled ((=) []) ''3.1.0'' (cs_Version old) (cs_Version new) \<and>
        filled ((=) 0) 1 (cs_Size old) (cs_Size new) \<and>
        storage_filled (cs_Storage old) (cs_Storage new) \<and>
        c' = c\<lparr>ac_Spec := old\<lparr>cs_Version := cs_Version new, cs_Size := cs_Size new, cs_Storage := cs_Storage new\<rparr>\<rparr>)"

text \<open>Of the protocol sections, only the one that \<^verbatim>\<open>GetPartitionGroupType\<close> selects is filled.\<close>

definition protocol_filled :: "partition_group \<Rightarrow> partition_group_spec \<Rightarrow> partition_group_spec \<Rightarrow> bool" where
  "protocol_filled g old new \<longleftrightarrow>
     (if GetPartitionGroupType g = Inr RaftType
      then rel_option (\<lambda>r r'. filled ((=) 0) 3 (rpg_PartitionSize r) (rpg_PartitionSize r') \<and>
             persistent_filled (rpg_Persistent r) (rpg_Persistent r')) (gs_Raft old) (gs_Raft new)
      else gs_Raft new = gs_Raft old) \<and>
     (if GetPartitionGroupType g = Inr PrimaryBackupType
      then rel_option (\<lambda>b b'. filled ((=) []) ''node_aware'' (pbg_MemberGroupStrategy b) (pbg_MemberGroupStrategy b'))
             (gs_PrimaryBackup old) (gs_PrimaryBackup new)
      else gs_PrimaryBackup new = gs_PrimaryBackup old) \<and>
     (if GetPartitionGroupType g = Inr LogType
      then rel_option (\<lambda>l l'. filled ((=) []) ''node_aware'' (lpg_MemberGroupStrategy l) (lpg_MemberGroupStrategy l') \<and>
             persistent_filled (lpg_Persistent l) (lpg_Persistent l')) (gs_Log old) (gs_Log new)
      else gs_Log new = gs_Log old)"

definition group_filled :: "partition_group \<Rightarrow> partition_group \<Rightarrow> bool" where
  "group_filled g g' \<longleftrightarrow>
     (let old = pg_Spec g; new = pg_Spec g' in
        filled ((=) []) ''3.1.0'' (gs_Version old) (gs_Version new) \<and>
        filled ((=) 0) 1 (gs_Size old) (gs_Size new) \<and>
        (if gs_Partitions old = 0 then sint (gs_Partitions new) = sint (gs_Size new)
         else gs_Partitions new = gs_Partitions old) \<and>
        protocol_filled g old new \<and>
        g' = g\<lparr>pg_Spec := old\<lparr>gs_Version := gs_Version new, gs_Size := gs_Size new,
               gs_Partitions := gs_Partitions new, gs_Raft := gs_Raft new,
               gs_PrimaryBackup := gs_PrimaryBackup new, gs_Log := gs_Log new\<rparr>\<rparr>)"

definition benchmark_filled :: "atomix_benchmark \<Rightarrow> atomix_benchmark \<Rightarrow> bool" where
  "benchmark_filled b b' \<longleftrightarrow>
     (let old = ab_Spec b; new = ab_Spec b' in
        filled ((=) []) ''3.1.0'' (bs_Version old) (bs_Version new) \<and>
        filled ((=) 0) 1 (bs_Workers old) (bs_Workers new) \<and>
        b' = b\<lparr>ab_Spec := old\<lparr>bs_Version := bs_Version new, bs_Workers := bs_Workers new\<rparr>\<rparr>)"

lemma storage_filled_SetDefaults: "storage_filled s (SetDefaults_Storage s)"
  by (simp add: storage_filled_def filled_def SetDefaults_Storage_def Let_def MappedStorage_def)

lemma persistent_filled_SetDefaults: "persistent_filled p (SetDefaults_Persistent p)"
  by (simp add: persistent_filled_def storage_filled_SetDefaults filled_def SetDefaults_Persistent_def
      SetDefaults_Compaction_def Let_def float32_point_two_def)

lemma protocol_filled_SetDefaults: "protocol_filled g (pg_Spec g) (SetDefaults_PartitionGroupSpec (pg_Spec g))"
  by (cases g rule: GetPartitionGroupType_cases)
    (simp_all add: protocol_filled_def SetDefaults_PartitionGroupSpec_protocols filled_def
      persistent_filled_SetDefaults SetDefaults_RaftPartitionGroup_def SetDefaults_PrimaryBackupPartitionGroup_def
      SetDefaults_LogPartitionGroup_def Let_def NodeAwareMemberGroupStrategy_def option.rel_map)

lemma group_filled_SetDefaults: "group_filled g (SetDefaults_PartitionGroup g)"
proof -
  let ?new = "SetDefaults_PartitionGroupSpec (pg_Spec g)"
  have "gs_Version ?new = (if gs_Version (pg_Spec g) = [] then ''3.1.0'' else gs_Version (pg_Spec g))"
    "gs_Size ?new = (if gs_Size (pg_Spec g) = 0 then 1 else gs_Size (pg_Spec g))"
    "gs_Partitions ?new = (if gs_Partitions (pg_Spec g) = 0 then scast (gs_Size ?new) else gs_Partitions (pg_Spec g))"
    by (simp_all add: SetDefaults_PartitionGroupSpec_def Let_def split: option.split)
  moreover have "?new = (pg_Spec g)\<lparr>gs_Version := gs_Version ?new, gs_Size := gs_Size ?new,
      gs_Partitions := gs_Partitions ?new, gs_Raft := gs_Raft ?new,
      gs_PrimaryBackup := gs_PrimaryBackup ?new, gs_Log := gs_Log ?new\<rparr>"
    by (simp add: SetDefaults_PartitionGroupSpec_def Let_def split: option.split)
  moreover have "sint (scast (gs_Size ?new) :: int64) = sint (gs_Size ?new)"
    by simp
  ultimately show ?thesis
    using protocol_filled_SetDefaults [of g]
    by (simp add: group_filled_def filled_def SetDefaults_PartitionGroup_def Let_def)
qed

text \<open>
  C13: Defaulting, for clusters, groups and benchmarks. A field at its zero value gets its
  default (version 3.1.0, one member or worker, as many partitions as members, a
  storage of 2G with segments of 64M and entries of 1K that is mapped, buffers of 0.2, three
  members for each Raft partition, node-aware members), every field that the user has set keeps
  its value, and nothing else changes; of a group's protocol sections only the selected one is
  filled. Afterwards no such field is zero, and defaulting again changes nothing.
\<close>

theorem SetDefaults_fills:
  "cluster_filled c (SetDefaults_Cluster c) \<and>
   cluster_spec_defaulted (ac_Spec (SetDefaults_Cluster c)) \<and>
   SetDefaults_Cluster (SetDefaults_Cluster c) = SetDefaults_Cluster c \<and>
   group_filled g (SetDefaults_PartitionGroup g) \<and>
   group_spec_defaulted (pg_Spec (SetDefaults_PartitionGroup g)) \<and>
   SetDefaults_PartitionGroup (SetDefaults_PartitionGroup g) = SetDefaults_PartitionGroup g \<and>
   benchmark_filled b (SetDefaults_Benchmark b) \<and>
   benchmark_spec_defaulted (ab_Spec (SetDefaults_Benchmark b)) \<and>
   SetDefaults_Benchmark (SetDefaults_Benchmark b) = SetDefaults_Benchmark b"
proof -
  have "cluster_filled c (SetDefaults_Cluster c)"
    by (simp add: cluster_filled_def filled_def SetDefaults_Cluster_def SetDefaults_ClusterSpec_def Let_def
        storage_filled_SetDefaults)
  moreover have "benchmark_filled b (SetDefaults_Benchmark b)"
    by (simp add: benchmark_filled_def filled_def SetDefaults_Benchmark_def SetDefaults_BenchmarkSpec_def Let_def)
  ultimately show ?thesis
    by (simp add: group_filled_SetDefaults) (simp add: SetDefaults_Cluster_def SetDefaults_PartitionGroup_def
      SetDefaults_Benchmark_def cluster_spec_defaulted_SetDefaults group_spec_defaulted_SetDefaults
      benchmark_spec_defaulted_SetDefaults SetDefaults_ClusterSpec_id
      SetDefaults_PartitionGroupSpec_id SetDefaults_BenchmarkSpec_id)
qed

text \<open>
  An explicit number of partitions is kept; without one the number of partitions is the
  number of members, defaulted to one and extended from 32 to 64 bits with its sign.
\<close>

lemma SetDefaults_partitions:
  "sint (gs_Partitions (pg_Spec (SetDefaults_PartitionGroup g))) =
     (if gs_Partitions (pg_Spec g) \<noteq> 0 then sint (gs_Partitions (pg_Spec g))
      else if gs_Size (pg_Spec g) = 0 then 1 else sint (gs_Size (pg_Spec g)))"
proof -
  have "gs_Partitions (SetDefaults_PartitionGroupSpec s) =
      (if gs_Partitions s \<noteq> 0 then gs_Partitions s
       else if gs_Size s = 0 then 1 else scast (gs_Size s))" for s
    by (simp add: SetDefaults_PartitionGroupSpec_def Let_def split: option.split)
  then show ?thesis by (simp add: SetDefaults_PartitionGroup_def)
qed

subsection \<open>Configuration text\<close>


lemma first_value_append:
  "first_value key (ls @ ms) =
     (case first_value key ls of None \<Rightarrow> first_value key ms | Some v \<Rightarrow> Some v)"
  by (induction ls) (auto split: option.split)

lemma config_head_values [simp]:
  "first_value ''type'' (config_head @ ls) = first_value ''type'' ls"
  "first_value ''partitions'' (config_head @ ls) = first_value ''partitions'' ls"
  "first_value ''partitionSize'' (config_head @ ls) = first_value ''partitionSize'' ls"
  "first_value ''memberGroupStrategy'' (config_head @ ls) = first_value ''memberGroupStrategy'' ls"
  "first_value ''storage.level'' (config_head @ ls) = first_value ''storage.level'' ls"
  by (simp_all add: config_head_def)

text \<open>The values that a configuration line can hold: everything without a line break.\<close>

definition one_line :: "string \<Rightarrow> bool" where
  "one_line s \<longleftrightarrow> CHR 0x0A \<notin> set s"

lemma digit_char_one_line: "d < 10 \<Longrightarrow> digit_char d \<noteq> CHR 0x0A"
  by (auto simp: digit_char_def dest!: arg_cong [where f = "of_char :: char \<Rightarrow> nat"])

lemma show_nat_one_line: "CHR 0x0A \<notin> set (show_nat n)"
proof (induction n rule: show_nat.induct)
  case (1 n)
  then show ?case using digit_char_one_line
    by (cases "n < 10") (simp_all add: show_nat.simps [of n] digit_char_one_line eq_commute [of "CHR 0x0A"])
qed

lemma show_int_one_line [simp]: "CHR 0x0A \<notin> set (show_int i)"
  by (simp add: show_int_def show_nat_one_line)










subsection \<open>Disruption budgets\<close>

text \<open>
  C16: For every positive 32-bit size the disruption budgets of clusters and groups keep
  available a number of pods that is a strict majority of the members and at most all of them;
  the addition does not overflow 32 bits. The budgets have no selector, so they cover no pod.
\<close>

theorem disruption_budget_majority:
  assumes "0 < sint n"
    and "budget = NewManagementDisruptionBudget c \<and> cs_Size (ac_Spec c) = n \<or>
         budget = NewPartitionGroupDisruptionBudget g \<and> gs_Size (pg_Spec g) = n"
  shows "\<exists>m. pdb_MinAvailable budget = Some (IntVal m) \<and>
    sint m = sint n div 2 + 1 \<and> sint n < 2 * sint m \<and> sint m \<le> sint n \<and> pdb_Selector budget = None"
proof -
  have min: "pdb_MinAvailable budget = Some (IntVal (word_of_int (majority n)))" "pdb_Selector budget = None"
    using assms(2)
    by (auto simp: NewManagementDisruptionBudget_def NewPartitionGroupDisruptionBudget_def FromInt_def
        majority_def)
  have half: "majority n = sint n div 2 + 1" using assms(1) by (simp add: majority_def go_quo_2)
  have "sint n < 2 * majority n" "majority n \<le> sint n"
    using assms(1) majority_quorum [of n] majority_le [of n] by simp_all
  moreover obtain m where "m = word_of_int (majority n)" "sint (m :: int32) = majority n"
    using sint_FromInt_majority by blast
  ultimately show ?thesis using min half by auto
qed

theorem disruption_budget_majority_witness:
  "\<exists>m. pdb_MinAvailable (NewManagementDisruptionBudget (sample_cluster [])) = Some (IntVal m) \<and>
    sint m = 2"
  using disruption_budget_majority [of 3 "NewManagementDisruptionBudget (sample_cluster [])" "sample_cluster []"]
  by (fastforce simp: sample_cluster_def)

subsection \<open>Stateful sets, services and pods\<close>

lemma selectsD: "selects l l' \<Longrightarrow> fmlookup l k = Some v \<Longrightarrow> fmlookup l' k = Some v"
  by (auto simp: selects_def fmsubset_alt_def fmpred_iff)

lemma fmupd_single_eq: "fmupd k v fmempty = fmupd k w fmempty \<longleftrightarrow> v = w"
  by (metis fmupd_lookup option.inject)

text \<open>
  What holds between a stateful set and its service: the set's selector and the service's
  select the set's own pods, the set's governing service is the service, every volume mount
  resolves, and the pods mount the named config maps.
\<close>

definition set_agrees :: "stateful_set \<Rightarrow> service \<Rightarrow> string list \<Rightarrow> bool" where
  "set_agrees s v maps \<longleftrightarrow>
     (case sts_Selector s of None \<Rightarrow> False | Some sel \<Rightarrow> label_selector_matches sel (sts_TemplateLabels s)) \<and>
     selects (svc_Selector v) (sts_TemplateLabels s) \<and>
     sts_ServiceName s = om_Name (svc_Meta v) \<and>
     om_Namespace (sts_Meta s) = om_Namespace (svc_Meta v) \<and>
     wf_pod_spec (sts_TemplateSpec s) (sts_VolumeClaimTemplates s) \<and>
     pod_config_maps (sts_TemplateSpec s) = maps"

lemma pod_config_maps_volumes:
  "ps_Volumes p = [newInitScriptsVolume i, newUserConfigVolume u, newSystemConfigVolume] \<Longrightarrow>
   pod_config_maps p = [i, u]"
  by (simp add: pod_config_maps_def newInitScriptsVolume_def newUserConfigVolume_def
      newSystemConfigVolume_def)

text \<open>
  C17: The stateful set of a cluster agrees with the cluster's service, its pods mount the
  cluster's two config maps, and it has as many replicas as the size says.
\<close>

theorem cluster_set_agrees:
  assumes "NewManagementStatefulSet c = Inr s"
  shows "set_agrees s (NewManagementService c)
      [om_Name (cm_Meta (NewManagementInitConfigMap c)), om_Name (cm_Meta (NewManagementSystemConfigMap c))] \<and>
    sts_Replicas s = Some (cs_Size (ac_Spec c))"
proof -
  obtain claims where claims: "newPersistentVolumeClaims (st_ClassName (cs_Storage (ac_Spec c)))
      (st_Size (cs_Storage (ac_Spec c))) = Inr claims"
    using assms by (auto simp: NewManagementStatefulSet_def split: sum.splits)
  have sel: "selects (svc_Selector (NewManagementService c)) (newManagementLabels c)"
    unfolding NewManagementService_def service.simps
    by (subst selects_of_list) (simp_all add: newManagementLabels_def label_const_defs)
  show ?thesis
    using assms claims sel
    by (auto simp: set_agrees_def NewManagementStatefulSet_def NewManagementService_def
        NewManagementInitConfigMap_def NewManagementSystemConfigMap_def new_meta_def name_defs
        pod_config_maps_volumes wf_persistent_pod_spec)
qed

theorem cluster_set_agrees_witness:
  "\<exists>s. NewManagementStatefulSet (sample_cluster ''2G'') = Inr s \<and> sts_Replicas s = Some 3"
proof -
  obtain s where "NewManagementStatefulSet (sample_cluster ''2G'') = Inr s"
    using default_size_parses
    by (auto simp: NewManagementStatefulSet_def newPersistentVolumeClaims_def
        newPersistentVolumeClaim_def sample_cluster_def storage_of_size_def)
  with cluster_set_agrees [of "sample_cluster ''2G''" s] show ?thesis by (auto simp: sample_cluster_def)
qed

text \<open>
  C18: The stateful set of a group, of whichever protocol, agrees with the group's service, its
  pods mount the group's two config maps, and it has as many replicas as the size says.
\<close>

theorem group_set_agrees:
  assumes "NewPartitionGroupStatefulSet g = Inr (Some s)" "NewPartitionGroupConfigMap g = Inr (Some cm)"
  shows "set_agrees s (NewPartitionGroupService g)
      [om_Name (cm_Meta (NewPartitionGroupInitConfigMap g)), om_Name (cm_Meta cm)] \<and>
    sts_Replicas s = Some (gs_Size (pg_Spec g))"
  using NewPartitionGroupStatefulSet_SomeE [OF assms(1)] NewPartitionGroupConfigMap_meta [OF assms(2)]
  by (auto simp: set_agrees_def NewPartitionGroupService_def NewPartitionGroupInitConfigMap_def
      new_meta_def pod_config_maps_volumes)

theorem group_set_agrees_witness:
  "\<exists>s. NewPartitionGroupStatefulSet (sample_group (Some (sample_raft ''2G''))) = Inr (Some s) \<and>
    sts_Replicas s = Some 3"
proof -
  let ?g = "sample_group (Some (sample_raft ''2G''))"
  obtain s cm where "NewPartitionGroupStatefulSet ?g = Inr (Some s)"
    "NewPartitionGroupConfigMap ?g = Inr (Some cm)"
    using default_size_parses
    by (auto simp: NewPartitionGroupStatefulSet_def NewPartitionGroupConfigMap_def
        newPersistentPartitionGroupStatefulSet_def newPersistentVolumeClaims_def
        newPersistentVolumeClaim_def sample_group_def sample_raft_def storage_of_size_def
        GetPartitionGroupType_def)
  with group_set_agrees [of ?g s cm] show ?thesis by (auto simp: sample_group_def)
qed

text \<open>
  The workers of a benchmark have no service of their own. Their stateful set and its pods
  are well formed, but the governing service it names is the coordinator's: the object that is
  stored under the name selects the coordinator's pod and none of the workers' pods, which the
  service built for the workers, and never created, would select.
\<close>

lemma benchmark_worker_service:
  "sts_ServiceName (NewBenchmarkWorkerStatefulSet b) = om_Name (svc_Meta (NewBenchmarkControllerService b)) \<and>
   om_Name (svc_Meta (NewBenchmarkWorkerService b)) = om_Name (svc_Meta (NewBenchmarkControllerService b)) \<and>
   selects (svc_Selector (NewBenchmarkControllerService b)) (om_Labels (pod_Meta (NewBenchmarkControllerPod b))) \<and>
   \<not> selects (svc_Selector (NewBenchmarkControllerService b))
       (sts_TemplateLabels (NewBenchmarkWorkerStatefulSet b)) \<and>
   set_agrees (NewBenchmarkWorkerStatefulSet b) (NewBenchmarkWorkerService b)
     [om_Name (cm_Meta (NewBenchmarkControllerInitConfigMap b)),
      om_Name (cm_Meta (NewBenchmarkControllerSystemConfigMap b))]"
proof -
  have "\<not> selects (newBenchmarkControllerLabels b) (newBenchmarkWorkerLabels b)"
  proof
    assume "selects (newBenchmarkControllerLabels b) (newBenchmarkWorkerLabels b)"
    then have "fmlookup (newBenchmarkWorkerLabels b) TypeKey = Some BenchCoordinatorType"
      using benchmark_labels_lookup(1) by (rule selectsD)
    then have "BenchWorkerType = BenchCoordinatorType"
      by (simp only: benchmark_labels_lookup option.inject)
    then show False by (simp add: label_const_defs)
  qed
  then show ?thesis
    by (simp add: set_agrees_def benchmark_object_defs new_meta_def name_defs pod_config_maps_volumes
        wf_benchmark_pod_spec)
qed

subsection \<open>Discovery\<close>

lemma label_lookup:
  "fmlookup (newPartitionGroupLabels g) AppKey = Some AtomixApp"
  "fmlookup (newPartitionGroupLabels g) ClusterKey = Some (gs_Cluster (pg_Spec g))"
  "fmlookup (newPartitionGroupLabels g) TypeKey = Some GroupType"
  "fmlookup (newPartitionGroupLabels g) GroupKey = Some (om_Name (pg_Meta g))"
  "fmlookup (newManagementLabels c) AppKey = Some AtomixApp"
  "fmlookup (newManagementLabels c) ClusterKey = Some (om_Name (ac_Meta c))"
  "fmlookup (newManagementLabels c) TypeKey = Some ManagementType"
  "fmlookup (newManagementLabels c) GroupKey = None"
  by (simp_all add: newPartitionGroupLabels_def newManagementLabels_def label_const_defs)

lemma cluster_service_selects:
  "selects (svc_Selector (NewManagementService c)) ls \<longleftrightarrow>
   fmlookup ls AppKey = Some AtomixApp \<and> fmlookup ls ClusterKey = Some (om_Name (ac_Meta c))"
  unfolding NewManagementService_def service.simps
  by (subst selects_of_list) (simp_all add: AppKey_def ClusterKey_def)

text \<open>
  The name that the cluster's DNS gives to a service, and the name of the management service
  that a generated script writes into the configuration of its pods: what follows
  \<^verbatim>\<open>atomix.service=\<close> on the first line that prints it.
\<close>

definition service_dns :: "service \<Rightarrow> string" where
  "service_dns v = om_Name (svc_Meta v) @ ''.'' @ om_Namespace (svc_Meta v) @ ''.svc.cluster.local''"

fun echoed :: "string \<Rightarrow> string list \<Rightarrow> string option" where
  "echoed key [] = None"
| "echoed key (l # ls) =
     (case strip_prefix (''    echo \"'' @ key @ ''='') l of
        Some v \<Rightarrow> if v \<noteq> [] \<and> last v = CHR 0x22 then Some (butlast v) else None
      | None \<Rightarrow> echoed key ls)"

definition discovered :: "config_map \<Rightarrow> string option" where
  "discovered cm =
     Option.bind (fmlookup (cm_Data cm) ''create_config.sh'') (echoed ''atomix.service'' \<circ> split_lines)"

text \<open>
  Names as the API server accepts them are lines, and a namespace is one DNS label.
\<close>

definition placed :: "object_meta \<Rightarrow> bool" where
  "placed m \<longleftrightarrow> one_line (om_Name m) \<and> one_line (om_Namespace m) \<and> CHR ''.'' \<notin> set (om_Namespace m)"

lemma split_lines_lines:
  "list_all (\<lambda>l. CHR 0x0A \<notin> set l) ls \<Longrightarrow>
   split_lines (concat (map (\<lambda>l. l @ newline) ls) @ s) = ls @ split_lines s"
  by (induction ls) (simp_all add: split_lines_append)

lemma discovered_script:
  assumes "one_line (nn_Name c)" "one_line (nn_Namespace c)"
    "fmlookup (cm_Data cm) ''create_config.sh'' = Some (newInitConfigMapScript c)"
  shows "discovered cm = Some (getManagementServiceDnsName c)"
proof -
  define ls where "ls = [[], ''#!/usr/bin/env bash'', [], ''HOST=$(hostname -s)'', ''DOMAIN=$(hostname -d)'',
    ''NODES=$1'', [], ''function create_config() {'',
    ''    echo \"atomix.service='' @ getManagementServiceDnsName c @ ''\"'']"
  have "newInitConfigMapScript c = concat (map (\<lambda>l. l @ newline) ls) @ drop 2 init_script_after"
    by (simp add: ls_def newInitConfigMapScript_eq init_script_before_def init_script_after_def newline_def)
  moreover have "list_all (\<lambda>l. CHR 0x0A \<notin> set l) ls"
    using assms(1,2) by (simp add: ls_def one_line_def getManagementServiceDnsName_def)
  ultimately have "split_lines (newInitConfigMapScript c) = ls @ split_lines (drop 2 init_script_after)"
    by (simp only: split_lines_lines)
  then show ?thesis by (simp add: discovered_def assms(3) ls_def butlast_append)
qed

lemma discovered_benchmark_script:
  assumes "one_line (om_Name (ab_Meta b))" "one_line (om_Namespace (ab_Meta b))" "one_line (bs_Cluster (ab_Spec b))"
  shows "discovered (NewBenchmarkControllerInitConfigMap b) =
    Some (getManagementServiceDnsName (NamespacedName (om_Namespace (ab_Meta b)) (bs_Cluster (ab_Spec b))))"
proof -
  let ?dns = "getManagementServiceDnsName (NamespacedName (om_Namespace (ab_Meta b)) (bs_Cluster (ab_Spec b)))"
  have "split_lines (newBenchmarkControllerInitConfigMapScript b) =
      benchmark_script_lines ?dns (GetBenchmarkControllerServiceName b)"
    unfolding newBenchmarkControllerInitConfigMapScript_lines
    by (rule split_lines_text_lines)
      (use assms in \<open>simp_all add: benchmark_script_lines_def one_line_def getManagementServiceDnsName_def
        name_defs ServiceSuffix_def\<close>)
  then show ?thesis
    by (simp add: discovered_def NewBenchmarkControllerInitConfigMap_def benchmark_script_lines_def butlast_append)
qed

text \<open>A DNS name of two parts has one reading when the last part has no dot.\<close>

lemma dotted_eq:
  assumes "CHR ''.'' \<notin> set n" "CHR ''.'' \<notin> set n'"
  shows "k @ ''.'' @ n = k' @ ''.'' @ n' \<longleftrightarrow> k = k' \<and> n = n'"
proof
  have tail: "takeWhile (\<lambda>c. c \<noteq> CHR ''.'') (rev (m @ ''.'' @ l)) = rev l" if "CHR ''.'' \<notin> set l" for m l
    using that by (induction l rule: rev_induct) auto
  assume eq: "k @ ''.'' @ n = k' @ ''.'' @ n'"
  then have "rev n = rev n'" using tail [OF assms(1)] tail [OF assms(2)] by metis
  with eq show "k = k' \<and> n = n'" by simp
qed simp

lemma service_dns_eq:
  assumes "placed (ac_Meta c)" "CHR ''.'' \<notin> set n"
  shows "getManagementServiceDnsName (NamespacedName n k) = service_dns (NewManagementService c) \<longleftrightarrow>
    k = om_Name (ac_Meta c) \<and> n = om_Namespace (ac_Meta c)"
proof -
  have "getManagementServiceDnsName (NamespacedName n k) = (k @ ''.'' @ n) @ ''.svc.cluster.local''"
    by (simp add: getManagementServiceDnsName_def)
  moreover have "service_dns (NewManagementService c) =
      (om_Name (ac_Meta c) @ ''.'' @ om_Namespace (ac_Meta c)) @ ''.svc.cluster.local''"
    by (simp add: service_dns_def NewManagementService_def new_meta_def name_defs)
  moreover have "CHR ''.'' \<notin> set (om_Namespace (ac_Meta c))" using assms(1) by (simp add: placed_def)
  ultimately show ?thesis using dotted_eq [OF assms(2)] by (simp only: append_same_eq)
qed

lemma NewManagementStatefulSet_labels:
  assumes "NewManagementStatefulSet c = Inr s"
  shows "sts_TemplateLabels s = newManagementLabels c"
    and "sts_Selector s = Some (match_labels (newManagementLabels c))"
  using assms by (auto simp: NewManagementStatefulSet_def split: sum.splits)

text \<open>
  C20: Discovery. The service of a cluster selects the pods of that cluster's management set,
  and the pods of exactly those groups and benchmarks that name it. The host that the generated
  init script writes as \<^verbatim>\<open>atomix.service\<close> is, for a cluster's own pods, the DNS name of its service;
  for the pods of a group and for the coordinator of a benchmark it is the DNS name of that
  service if and only if they name the cluster and are in its namespace. The init script built
  for the workers of a benchmark does not follow the benchmark's \<^verbatim>\<open>Cluster\<close>: it points to a
  cluster that has the benchmark's own name.
\<close>

theorem cluster_discovery:
  assumes "placed (ac_Meta c)" "placed (pg_Meta g)" "placed (ab_Meta b)"
    "one_line (gs_Cluster (pg_Spec g))" "one_line (bs_Cluster (ab_Spec b))"
  defines "v \<equiv> NewManagementService c"
  shows "(\<forall>s. NewManagementStatefulSet c' = Inr s \<longrightarrow>
      (selects (svc_Selector v) (sts_TemplateLabels s) \<longleftrightarrow> om_Name (ac_Meta c') = om_Name (ac_Meta c))) \<and>
   (\<forall>t. NewPartitionGroupStatefulSet g = Inr (Some t) \<longrightarrow>
      (selects (svc_Selector v) (sts_TemplateLabels t) \<longleftrightarrow> gs_Cluster (pg_Spec g) = om_Name (ac_Meta c))) \<and>
   (selects (svc_Selector v) (om_Labels (pod_Meta (NewBenchmarkControllerPod b))) \<longleftrightarrow>
      bs_Cluster (ab_Spec b) = om_Name (ac_Meta c)) \<and>
   (selects (svc_Selector v) (sts_TemplateLabels (NewBenchmarkWorkerStatefulSet b)) \<longleftrightarrow>
      bs_Cluster (ab_Spec b) = om_Name (ac_Meta c)) \<and>
   discovered (NewManagementInitConfigMap c) = Some (service_dns v) \<and>
   (discovered (NewPartitionGroupInitConfigMap g) = Some (service_dns v) \<longleftrightarrow>
      gs_Cluster (pg_Spec g) = om_Name (ac_Meta c) \<and> om_Namespace (pg_Meta g) = om_Namespace (ac_Meta c)) \<and>
   (discovered (NewBenchmarkControllerInitConfigMap b) = Some (service_dns v) \<longleftrightarrow>
      bs_Cluster (ab_Spec b) = om_Name (ac_Meta c) \<and> om_Namespace (ab_Meta b) = om_Namespace (ac_Meta c)) \<and>
   (discovered (NewBenchmarkWorkerInitConfigMap b) = Some (service_dns v) \<longleftrightarrow>
      om_Name (ab_Meta b) = om_Name (ac_Meta c) \<and> om_Namespace (ab_Meta b) = om_Namespace (ac_Meta c))"
proof -
  have "discovered (NewManagementInitConfigMap c) =
      Some (getManagementServiceDnsName (NamespacedName (om_Namespace (ac_Meta c)) (om_Name (ac_Meta c))))"
    using assms(1) by (intro discovered_script) (simp_all add: placed_def NewManagementInitConfigMap_def)
  moreover have "discovered (NewPartitionGroupInitConfigMap g) =
      Some (getManagementServiceDnsName (NamespacedName (om_Namespace (pg_Meta g)) (gs_Cluster (pg_Spec g))))"
    using assms(2,4) by (intro discovered_script) (simp_all add: placed_def NewPartitionGroupInitConfigMap_def)
  moreover have "discovered (NewBenchmarkWorkerInitConfigMap b) =
      Some (getManagementServiceDnsName (NamespacedName (om_Namespace (ab_Meta b)) (om_Name (ab_Meta b))))"
    using assms(3) by (intro discovered_script) (simp_all add: placed_def NewBenchmarkWorkerInitConfigMap_def)
  moreover have "discovered (NewBenchmarkControllerInitConfigMap b) =
      Some (getManagementServiceDnsName (NamespacedName (om_Namespace (ab_Meta b)) (bs_Cluster (ab_Spec b))))"
    using assms(3,5) by (intro discovered_benchmark_script) (simp_all add: placed_def)
  moreover have "selects (svc_Selector v) (om_Labels (pod_Meta (NewBenchmarkControllerPod b))) \<longleftrightarrow>
      bs_Cluster (ab_Spec b) = om_Name (ac_Meta c)"
    "selects (svc_Selector v) (sts_TemplateLabels (NewBenchmarkWorkerStatefulSet b)) \<longleftrightarrow>
      bs_Cluster (ab_Spec b) = om_Name (ac_Meta c)"
    by (simp_all add: v_def cluster_service_selects benchmark_object_defs new_meta_def fmlookup_of_list label_const_defs
        newBenchmarkControllerLabels_def newBenchmarkWorkerLabels_def)
  ultimately show ?thesis
    using assms(1-3) unfolding v_def
    by (auto simp: cluster_service_selects label_lookup service_dns_eq placed_def
        NewManagementStatefulSet_labels(1) NewPartitionGroupStatefulSet_SomeE)
qed

theorem cluster_discovery_witness:
  "discovered (NewManagementInitConfigMap (sample_cluster [])) =
     Some (service_dns (NewManagementService (sample_cluster []))) \<and>
   discovered (NewPartitionGroupInitConfigMap (sample_group None)) \<noteq>
     Some (service_dns (NewManagementService (sample_cluster [])))"
  using cluster_discovery [of "sample_cluster []" "sample_group None" sample_benchmark "sample_cluster []"]
  by (simp add: sample_cluster_def sample_group_def sample_benchmark_def sample_meta_def new_meta_def placed_def one_line_def)

text \<open>One stateful set claims the pods of another: they match its selector.\<close>

definition set_claims :: "stateful_set \<Rightarrow> stateful_set \<Rightarrow> bool" where
  "set_claims s s' \<longleftrightarrow>
     (case sts_Selector s of
        None \<Rightarrow> False
      | Some sel \<Rightarrow> label_selector_matches sel (sts_TemplateLabels s'))"

lemma group_selects_group:
  "selects (newPartitionGroupLabels g) (newPartitionGroupLabels g') \<longleftrightarrow>
   om_Name (pg_Meta g') = om_Name (pg_Meta g) \<and> gs_Cluster (pg_Spec g') = gs_Cluster (pg_Spec g)"
  unfolding newPartitionGroupLabels_def [of g]
  by (subst selects_of_list) (auto simp: label_lookup, simp_all add: label_const_defs)

lemma management_selects_management:
  "selects (newManagementLabels c) (newManagementLabels c') \<longleftrightarrow> om_Name (ac_Meta c') = om_Name (ac_Meta c)"
  unfolding newManagementLabels_def [of c]
  by (subst selects_of_list) (auto simp: label_lookup, simp_all add: label_const_defs)

lemma worker_selects_worker:
  "selects (newBenchmarkWorkerLabels b) (newBenchmarkWorkerLabels b') \<longleftrightarrow>
   bs_Cluster (ab_Spec b') = bs_Cluster (ab_Spec b)"
  unfolding newBenchmarkWorkerLabels_def [of b]
  by (subst selects_of_list) (auto simp: newBenchmarkWorkerLabels_def fmlookup_of_list label_const_defs)

lemma selects_type:
  "fmlookup l TypeKey = Some t \<Longrightarrow> fmlookup l' TypeKey = Some t' \<Longrightarrow> t \<noteq> t' \<Longrightarrow> \<not> selects l l'"
  using selectsD by fastforce

text \<open>
  C21: Isolation among the pods of one namespace. The service of a group selects the pods of
  another group's stateful set only if both have the same name and the same cluster, and never
  the pods of a management set, although the service of that cluster selects both (C20). The
  stateful sets of two groups claim each other's pods only in that case too, those of two
  clusters only if they have the same name, and the sets of a group, a cluster and a benchmark
  never. Benchmarks are not isolated: the labels of their pods leave out the benchmark, so the
  worker sets of any two benchmarks of one cluster claim each other's pods.
\<close>

theorem group_isolation:
  fixes b b' :: atomix_benchmark
  assumes "NewPartitionGroupStatefulSet g = Inr (Some t)" "NewPartitionGroupStatefulSet g' = Inr (Some t')"
    "NewManagementStatefulSet c = Inr s" "NewManagementStatefulSet c' = Inr s'"
  defines "w \<equiv> NewBenchmarkWorkerStatefulSet b" and "w' \<equiv> NewBenchmarkWorkerStatefulSet b'"
    and "same \<equiv> om_Name (pg_Meta g') = om_Name (pg_Meta g) \<and> gs_Cluster (pg_Spec g') = gs_Cluster (pg_Spec g)"
  shows "(selects (svc_Selector (NewPartitionGroupService g)) (sts_TemplateLabels t') \<longleftrightarrow> same) \<and>
    \<not> selects (svc_Selector (NewPartitionGroupService g)) (sts_TemplateLabels s) \<and>
    (set_claims t t' \<longleftrightarrow> same) \<and>
    (set_claims s s' \<longleftrightarrow> om_Name (ac_Meta c') = om_Name (ac_Meta c)) \<and>
    \<not> set_claims t s \<and> \<not> set_claims s t \<and> \<not> set_claims t w \<and> \<not> set_claims w t \<and>
    \<not> set_claims s w \<and> \<not> set_claims w s \<and>
    (set_claims w w' \<longleftrightarrow> bs_Cluster (ab_Spec b') = bs_Cluster (ab_Spec b))"
proof -
  have types: "GroupType \<noteq> ManagementType" "GroupType \<noteq> BenchWorkerType" "ManagementType \<noteq> BenchWorkerType"
    by (simp_all add: label_const_defs)
  have apart: "\<not> selects (newPartitionGroupLabels g) (newManagementLabels c)"
    "\<not> selects (newManagementLabels c) (newPartitionGroupLabels g)"
    "\<not> selects (newPartitionGroupLabels g) (newBenchmarkWorkerLabels b)"
    "\<not> selects (newBenchmarkWorkerLabels b) (newPartitionGroupLabels g)"
    "\<not> selects (newManagementLabels c) (newBenchmarkWorkerLabels b)"
    "\<not> selects (newBenchmarkWorkerLabels b) (newManagementLabels c)"
    by (rule selects_type; (rule label_lookup benchmark_labels_lookup types types [symmetric]))+
  note t = NewPartitionGroupStatefulSet_SomeE [OF assms(1)] NewPartitionGroupStatefulSet_SomeE [OF assms(2)]
    NewManagementStatefulSet_labels [OF assms(3)] NewManagementStatefulSet_labels [OF assms(4)]
  show ?thesis
    by (simp add: t set_claims_def same_def w_def w'_def NewPartitionGroupService_def
        NewBenchmarkWorkerStatefulSet_def apart group_selects_group management_selects_management
        worker_selects_worker)
qed

theorem group_isolation_witness:
  "\<exists>t t'. NewPartitionGroupStatefulSet (sample_group (Some (sample_raft ''2G''))) = Inr (Some t) \<and>
     NewPartitionGroupStatefulSet
       ((sample_group (Some (sample_raft ''2G'')))\<lparr>pg_Meta := new_meta ''other'' ''default'' fmempty\<rparr>) =
       Inr (Some t') \<and>
     \<not> set_claims t t'"
proof -
  let ?g = "sample_group (Some (sample_raft ''2G''))"
  let ?g' = "?g\<lparr>pg_Meta := new_meta ''other'' ''default'' fmempty\<rparr>"
  obtain t t' s where sets: "NewPartitionGroupStatefulSet ?g = Inr (Some t)"
    "NewPartitionGroupStatefulSet ?g' = Inr (Some t')"
    "NewManagementStatefulSet (sample_cluster ''2G'') = Inr s"
    using default_size_parses
    by (auto simp: NewPartitionGroupStatefulSet_def newPersistentPartitionGroupStatefulSet_def
        NewManagementStatefulSet_def newPersistentVolumeClaims_def newPersistentVolumeClaim_def
        sample_group_def sample_raft_def sample_cluster_def storage_of_size_def GetPartitionGroupType_def)
  moreover have "om_Name (pg_Meta ?g') \<noteq> om_Name (pg_Meta ?g)"
    by (simp add: sample_group_def sample_meta_def new_meta_def)
  ultimately show ?thesis using group_isolation [OF sets sets(3)] by blast
qed

text \<open>
  C22: The preferred anti-affinity of a set spreads its own pods in one case only: a cluster
  that happens to be named after the value of the app label. It asks for pods whose app label
  is the name of the set and whose type is management, whereas every pod has the constant app
  label, and the pods of groups another type.
\<close>

theorem affinity_matches_own_pods:
  "((\<exists>t\<in>set (af_PodAntiAffinityPreferred (newAffinity (GetManagementStatefulSetName c))).
      label_selector_matches (wt_LabelSelector t) (newManagementLabels c)) \<longleftrightarrow>
     om_Name (ac_Meta c) = ''atomix'') \<and>
   \<not> (\<exists>t\<in>set (af_PodAntiAffinityPreferred (newAffinity (GetPartitionGroupStatefulSetName g))).
      label_selector_matches (wt_LabelSelector t) (newPartitionGroupLabels g))"
proof -
  have empty: "selects fmempty ls" for ls by (simp add: selects_def fmsubset_alt_def)
  have "(\<exists>t\<in>set (af_PodAntiAffinityPreferred (newAffinity (GetManagementStatefulSetName c))).
      label_selector_matches (wt_LabelSelector t) (newManagementLabels c)) \<longleftrightarrow>
     om_Name (ac_Meta c) = ''atomix''"
    by (auto simp: newAffinity_def label_selector_matches_def requirement_matches_def label_lookup
        empty name_defs AtomixApp_def)
  moreover have "\<not> (\<exists>t\<in>set (af_PodAntiAffinityPreferred (newAffinity (GetPartitionGroupStatefulSetName g))).
      label_selector_matches (wt_LabelSelector t) (newPartitionGroupLabels g))"
    by (simp add: newAffinity_def label_selector_matches_def requirement_matches_def label_lookup
        GroupType_def ManagementType_def)
  ultimately show ?thesis by blast
qed

end
