(* ===== verification/Fake_Update.thy ===== *)
theory Fake_Update
  imports Tracker
begin

section \<open>Updates and deletions in the fake client\<close>

text \<open>
  The operations of the tracker and the fake client that the operator does not call but that
  users of the API do: replacing and deleting objects. They change the store at one key.
\<close>

subsection \<open>The operations\<close>

definition tracker_Update :: "tracker \<Rightarrow> gvr \<Rightarrow> kobj \<Rightarrow> string \<Rightarrow> tracker \<times> go_error option" where
  "tracker_Update tr g ob ns = tracker_add tr g ob ns True"

definition tracker_Delete :: "tracker \<Rightarrow> gvr \<Rightarrow> string \<Rightarrow> string \<Rightarrow> tracker \<times> go_error option" where
  "tracker_Delete tr g ns name =
     (case find_index (new_meta name ns fmempty) (tracked tr g) of
        Some i \<Rightarrow> (tr(g \<mapsto> take i (tracked tr g) @ drop (Suc i) (tracked tr g)), None)
      | None \<Rightarrow> (tr, Some (NewNotFound (gvr_Group g) (gvr_Resource g) name)))"

definition fake_Update :: "fakeClient \<Rightarrow> kobj \<Rightarrow> fakeClient \<times> go_error option" where
  "fake_Update c ob =
     (case getGVRFromObject (type_of ob) (fc_scheme c) of
        Inl err \<Rightarrow> (c, Some err)
      | Inr g \<Rightarrow>
          (case tracker_Update (fc_tracker c) g ob (om_Namespace (meta_of ob)) of
             (tr, r) \<Rightarrow> (c\<lparr>fc_tracker := tr\<rparr>, r)))"

definition fake_Delete :: "fakeClient \<Rightarrow> kobj \<Rightarrow> fakeClient \<times> go_error option" where
  "fake_Delete c ob =
     (case getGVRFromObject (type_of ob) (fc_scheme c) of
        Inl err \<Rightarrow> (c, Some err)
      | Inr g \<Rightarrow>
          (case tracker_Delete (fc_tracker c) g (om_Namespace (meta_of ob)) (om_Name (meta_of ob)) of
             (tr, r) \<Rightarrow> (c\<lparr>fc_tracker := tr\<rparr>, r)))"

subsection \<open>Lists with one object per name\<close>

lemma find_index_Some:
  "find_index m obs = Some i \<Longrightarrow> i < length obs \<and> meta_name (meta_of (obs ! i)) = meta_name m"
  by (induction obs arbitrary: i) (auto simp: meta_name_def split: if_splits)

lemma find_list_update:
  "find_index (meta_of ob) obs = Some i \<Longrightarrow>
   find (\<lambda>x. meta_name (meta_of x) = n) (obs[i := ob]) =
     (if n = meta_name (meta_of ob) then Some ob else find (\<lambda>x. meta_name (meta_of x) = n) obs)"
  by (induction obs arbitrary: i) (auto simp: meta_name_def split: if_splits)

lemma find_delete:
  "find_index m obs = Some i \<Longrightarrow> distinct (map (\<lambda>x. meta_name (meta_of x)) obs) \<Longrightarrow>
   find (\<lambda>x. meta_name (meta_of x) = n) (take i obs @ drop (Suc i) obs) =
     (if n = meta_name m then None else find (\<lambda>x. meta_name (meta_of x) = n) obs)"
proof (induction obs arbitrary: i)
  case Nil
  then show ?case by simp
next
  case (Cons x xs)
  show ?case
  proof (cases "meta_name (meta_of x) = meta_name m")
    case True
    then have "i = 0" using Cons.prems(1) by (auto simp: meta_name_def)
    moreover have "find (\<lambda>x. meta_name (meta_of x) = meta_name m) xs = None"
      using True Cons.prems(2) by (force simp: find_None_iff)
    ultimately show ?thesis using True by auto
  next
    case False
    then obtain j where "i = Suc j" "find_index m xs = Some j"
      using Cons.prems(1) by (auto simp: meta_name_def split: if_splits)
    with False Cons show ?thesis by auto
  qed
qed

lemma distinct_list_delete: "distinct xs \<Longrightarrow> distinct (take i xs @ drop (Suc i) xs)"
  using set_take_disj_set_drop_if_distinct [of xs i "Suc i"] by simp

lemma fake_objs_at:
  assumes "scheme_full (fc_scheme c)"
    and "\<And>n. find (\<lambda>x. meta_name (meta_of x) = n) obs =
      (if n = nn then v else find (\<lambda>x. meta_name (meta_of x) = n) (fake_list c t))"
  shows "fake_objs (c\<lparr>fc_tracker := (fc_tracker c)(resource_of (fc_scheme c) t \<mapsto> obs)\<rparr>) =
    (fake_objs c)((t, nn) := v)"
  using assms(2) by (auto simp: fake_objs_def fake_list_upd [OF assms(1)] fun_eq_iff)

lemma fake_ok_at:
  assumes "fake_ok c" "\<forall>x\<in>set obs. type_of x = t \<and> proper_name (meta_name (meta_of x))"
    and "distinct (map (\<lambda>x. meta_name (meta_of x)) obs)"
  shows "fake_ok (c\<lparr>fc_tracker := (fc_tracker c)(resource_of (fc_scheme c) t \<mapsto> obs)\<rparr>)"
  using fake_okD [OF assms(1)] assms(2,3)
  by (auto simp: fake_ok_def fake_list_upd [OF fake_okD(1) [OF assms(1)]])

subsection \<open>What they do\<close>

lemma fake_list_index:
  assumes "find_index m (fake_list c t) = r"
  shows "fake_objs c (t, meta_name m) = None \<longleftrightarrow> r = None"
  using find_index_None [of m "fake_list c t"] assms by (auto simp: fake_objs_def)

lemma fake_Create_effect:
  assumes "fake_ok c" "proper_name (snd (key_of ob))" "fake_objs c (key_of ob) = None"
  shows "snd (fake_Create c ob) = None" and "fake_ok (fst (fake_Create c ob))"
    and "fake_objs (fst (fake_Create c ob)) = (fake_objs c)(key_of ob \<mapsto> ob)"
  using fake_objs_upd [OF fake_okD(1) [OF assms(1)] assms(3)] fake_ok_upd [OF assms(1,3,2)] assms(3)
  by (simp_all add: fake_Create_eq [OF assms(1)] Let_def)

lemma fake_Update_effect:
  assumes "fake_ok c" "proper_name (snd (key_of ob))"
  shows "fake_objs c (key_of ob) = None \<Longrightarrow> fst (fake_Update c ob) = c \<and>
      (\<exists>e. snd (fake_Update c ob) = Some e \<and> IsNotFound e)"
    and "fake_objs c (key_of ob) \<noteq> None \<Longrightarrow> snd (fake_Update c ob) = None \<and>
      fake_ok (fst (fake_Update c ob)) \<and> fake_objs (fst (fake_Update c ob)) = (fake_objs c)(key_of ob \<mapsto> ob)"
proof -
  let ?t = "type_of ob"
  note full = fake_okD(1) [OF assms(1)]
  have gvr: "getGVRFromObject ?t (fc_scheme c) = Inr (resource_of (fc_scheme c) ?t)"
    by (rule scheme_fullD(1) [OF full])
  have ns: "map_meta (\<lambda>m. m\<lparr>om_Namespace := []\<rparr>) ob = ob" if "om_Namespace (meta_of ob) = []"
    using that by (cases ob) auto
  show "fst (fake_Update c ob) = c \<and> (\<exists>e. snd (fake_Update c ob) = Some e \<and> IsNotFound e)"
    if "fake_objs c (key_of ob) = None"
    using that fake_list_index [of "meta_of ob" c ?t None] find_index_None [of "meta_of ob" "fake_list c ?t"] ns
    by (auto simp: fake_Update_def gvr tracker_Update_def tracker_add_def Let_def key_of_def fake_list_def
        fake_objs_def)
  show "snd (fake_Update c ob) = None \<and> fake_ok (fst (fake_Update c ob)) \<and>
      fake_objs (fst (fake_Update c ob)) = (fake_objs c)(key_of ob \<mapsto> ob)"
    if "fake_objs c (key_of ob) \<noteq> None"
  proof -
    have "find_index (meta_of ob) (fake_list c ?t) \<noteq> None"
      using that find_index_None [of "meta_of ob" "fake_list c ?t"] by (simp add: fake_objs_def key_of_def)
    then obtain i where i: "find_index (meta_of ob) (fake_list c ?t) = Some i" by blast
    have upd: "fake_Update c ob =
        (c\<lparr>fc_tracker := (fc_tracker c)(resource_of (fc_scheme c) ?t \<mapsto> (fake_list c ?t)[i := ob])\<rparr>, None)"
      using i ns by (auto simp: fake_Update_def gvr tracker_Update_def tracker_add_def Let_def fake_list_def)
    have "fake_ok (fst (fake_Update c ob))"
      unfolding upd fst_conv
    proof (rule fake_ok_at [OF assms(1)])
      show "\<forall>x\<in>set ((fake_list c ?t)[i := ob]). type_of x = ?t \<and> proper_name (meta_name (meta_of x))"
        using fake_okD(2,3) [OF assms(1)] assms(2) set_update_subset_insert [of "fake_list c ?t" i ob]
        by (auto simp: key_of_def)
      show "distinct (map (\<lambda>x. meta_name (meta_of x)) ((fake_list c ?t)[i := ob]))"
        using fake_okD(4) [OF assms(1), of ?t] find_index_Some [OF i]
        by (metis (no_types, lifting) length_map list_update_same_conv map_update nth_map)
    qed
    moreover have "fake_objs (fst (fake_Update c ob)) = (fake_objs c)(key_of ob \<mapsto> ob)"
      unfolding upd fst_conv key_of_def
      by (rule fake_objs_at [OF full]) (rule find_list_update [OF i])
    ultimately show ?thesis using upd by simp
  qed
qed

lemma fake_Delete_effect:
  assumes "fake_ok c" "proper_name (snd (key_of ob))"
  shows "fake_objs c (key_of ob) = None \<Longrightarrow> fst (fake_Delete c ob) = c \<and>
      (\<exists>e. snd (fake_Delete c ob) = Some e \<and> IsNotFound e)"
    and "fake_objs c (key_of ob) \<noteq> None \<Longrightarrow> snd (fake_Delete c ob) = None \<and>
      fake_ok (fst (fake_Delete c ob)) \<and> fake_objs (fst (fake_Delete c ob)) = (fake_objs c)(key_of ob := None)"
proof -
  let ?t = "type_of ob" and ?m = "new_meta (om_Name (meta_of ob)) (om_Namespace (meta_of ob)) fmempty"
  note full = fake_okD(1) [OF assms(1)]
  have gvr: "getGVRFromObject ?t (fc_scheme c) = Inr (resource_of (fc_scheme c) ?t)"
    by (rule scheme_fullD(1) [OF full])
  have m: "meta_name ?m = meta_name (meta_of ob)" by (simp add: meta_name_def new_meta_def)
  show "fst (fake_Delete c ob) = c \<and> (\<exists>e. snd (fake_Delete c ob) = Some e \<and> IsNotFound e)"
    if "fake_objs c (key_of ob) = None"
    using that find_index_None [of ?m "fake_list c ?t"] m
    by (auto simp: fake_Delete_def gvr tracker_Delete_def key_of_def fake_list_def fake_objs_def)
  show "snd (fake_Delete c ob) = None \<and> fake_ok (fst (fake_Delete c ob)) \<and>
      fake_objs (fst (fake_Delete c ob)) = (fake_objs c)(key_of ob := None)"
    if "fake_objs c (key_of ob) \<noteq> None"
  proof -
    have "find_index ?m (fake_list c ?t) \<noteq> None"
      using that find_index_None [of ?m "fake_list c ?t"] m by (simp add: fake_objs_def key_of_def)
    then obtain i where i: "find_index ?m (fake_list c ?t) = Some i" by blast
    let ?obs = "take i (fake_list c ?t) @ drop (Suc i) (fake_list c ?t)"
    have upd: "fake_Delete c ob =
        (c\<lparr>fc_tracker := (fc_tracker c)(resource_of (fc_scheme c) ?t \<mapsto> ?obs)\<rparr>, None)"
      using i by (simp add: fake_Delete_def gvr tracker_Delete_def fake_list_def)
    have sub: "set ?obs \<subseteq> set (fake_list c ?t)" by (auto dest: in_set_takeD in_set_dropD)
    have "fake_ok (fst (fake_Delete c ob))"
      unfolding upd fst_conv
    proof (rule fake_ok_at [OF assms(1)])
      show "\<forall>x\<in>set ?obs. type_of x = ?t \<and> proper_name (meta_name (meta_of x))"
        using fake_okD(2,3) [OF assms(1)] sub by blast
      show "distinct (map (\<lambda>x. meta_name (meta_of x)) ?obs)"
        using fake_okD(4) [OF assms(1), of ?t] find_index_Some [OF i]
        by (metis (no_types, lifting) distinct_list_delete map_append take_map drop_map)
    qed
    moreover have "fake_objs (fst (fake_Delete c ob)) = (fake_objs c)(key_of ob := None)"
      unfolding upd fst_conv key_of_def m [symmetric]
      by (rule fake_objs_at [OF full]) (rule find_delete [OF i fake_okD(4) [OF assms(1)]])
    ultimately show ?thesis using upd by simp
  qed
qed

end
