(* ===== verification/Api_Properties.thy ===== *)
theory Api_Properties
  imports Reconcile_Facts Fake_Update
begin

section \<open>Properties of the API machinery\<close>

text \<open>
  What the operator relies on below the reconcilers: sizes parse to the value they denote, the
  custom resources are registered once each, and the owner reference that is set on a child is
  the only controller reference it can have.
\<close>

subsection \<open>Quantities\<close>

lemma show_nat_is_digits: "list_all is_digit (show_nat n)"
proof (induction n rule: show_nat.induct)
  case (1 n)
  then show ?case
    by (cases "n < 10") (simp_all add: show_nat.simps [of n])
qed

lemma show_nat_not_Nil [simp]: "show_nat n \<noteq> []"
  by (simp add: show_nat.simps [of n])

lemma length_show_nat: "n < 10 ^ k \<Longrightarrow> 0 < k \<Longrightarrow> length (show_nat n) \<le> k"
proof (induction k arbitrary: n)
  case 0
  then show ?case by simp
next
  case (Suc k)
  show ?case
  proof (cases "n < 10")
    case True
    then show ?thesis by (simp add: show_nat.simps [of n])
  next
    case False
    then have "0 < k" using Suc.prems(1) by (cases k) auto
    moreover have "n div 10 < 10 ^ k" using Suc.prems(1) by (simp add: less_mult_imp_div_less)
    ultimately show ?thesis using Suc.IH [of "n div 10"] False by (simp add: show_nat.simps [of n])
  qed
qed

lemma digit_char_inject_small: "d < 10 \<Longrightarrow> d' < 10 \<Longrightarrow> digit_char d = digit_char d' \<longleftrightarrow> d = d'"
  by (metis digit_val_digit_char)

lemma hd_show_nat: "0 < n \<Longrightarrow> hd (show_nat n) \<noteq> CHR ''0''"
proof (induction n rule: show_nat.induct)
  case (1 n)
  have zero: "CHR ''0'' = digit_char 0" by code_simp
  show ?case
  proof (cases "n < 10")
    case True
    with 1(2) show ?thesis unfolding zero
      using digit_char_inject_small [of n 0] by (simp add: show_nat.simps [of n])
  next
    case False
    then have "hd (show_nat (n div 10)) \<noteq> CHR ''0''" using 1(1) by simp
    with False show ?thesis by (simp add: show_nat.simps [of n])
  qed
qed

lemma digit_not_special: "is_digit c \<Longrightarrow> c \<noteq> CHR ''-'' \<and> c \<noteq> CHR ''+'' \<and> c \<noteq> CHR ''.''"
  by (auto simp: is_digit_def)

text \<open>The decimal suffixes with a non-negative exponent.\<close>

definition decimal_suffixes :: "(string \<times> int) list" where
  "decimal_suffixes =
     [([], 0), (''k'', 3), (''M'', 6), (''G'', 9), (''T'', 12), (''P'', 15), (''E'', 18)]"

lemma decimal_suffix_facts:
  assumes "(suf, e) \<in> set decimal_suffixes"
  shows "interpret_suffix suf = Some (10, word_of_int e, DecimalSI)"
    and "suf = [] \<or> \<not> is_digit (hd suf) \<and> hd suf \<noteq> CHR ''.''"
    and "scan_suffix suf = Inr suf" and "0 \<le> e" and "e \<le> 18" and "suf \<noteq> ''0''"
proof -
  have cases: "suf = [] \<and> e = 0 \<or> suf = ''k'' \<and> e = 3 \<or> suf = ''M'' \<and> e = 6 \<or> suf = ''G'' \<and> e = 9 \<or>
      suf = ''T'' \<and> e = 12 \<or> suf = ''P'' \<and> e = 15 \<or> suf = ''E'' \<and> e = 18"
    using assms by (simp add: decimal_suffixes_def)
  then show "interpret_suffix suf = Some (10, word_of_int e, DecimalSI)"
    by (elim disjE) (simp_all add: interpret_suffix_def)
  from cases show "suf = [] \<or> \<not> is_digit (hd suf) \<and> hd suf \<noteq> CHR ''.''"
    by (elim disjE) (simp_all add: is_digit_def)
  from cases show "scan_suffix suf = Inr suf"
    by (elim disjE) (simp_all add: scan_suffix_def is_suffix_char_def)
  from cases show "0 \<le> e" "e \<le> 18" "suf \<noteq> ''0''" by (elim disjE; simp)+
qed

lemma parseQuantityString_decimal:
  assumes "0 < n" "suf = [] \<or> \<not> is_digit (hd suf) \<and> hd suf \<noteq> CHR ''.''" "scan_suffix suf = Inr suf"
  shows "\<exists>v. parseQuantityString (show_nat n @ suf) =
    Inr \<lparr>qp_positive = True, qp_value = v, qp_num = show_nat n, qp_denom = [], qp_suffix = suf\<rparr>"
proof -
  obtain c cs where c: "show_nat n = c # cs" by (cases "show_nat n") auto
  have "is_digit c" using show_nat_is_digits [of n] c by simp
  then have sign: "scan_sign (show_nat n @ suf) = (True, show_nat n @ suf)"
    using digit_not_special by (simp add: c)
  have zeros: "dropWhile (\<lambda>c. c = CHR ''0'') (show_nat n @ suf) = show_nat n @ suf"
    using hd_show_nat [OF assms(1)] by (simp add: c)
  have "\<forall>x\<in>set (show_nat n). is_digit x" using show_nat_is_digits [of n] by (simp add: list_all_iff)
  then have take: "takeWhile is_digit (show_nat n @ suf) = show_nat n" "dropWhile is_digit (show_nat n @ suf) = suf"
    using assms(2) by (cases suf; simp)+
  show ?thesis
  proof (cases "suf = []")
    case True
    show ?thesis
      unfolding parseQuantityString_def Let_def sign prod.case zeros take using True by simp
  next
    case False
    show ?thesis
      unfolding parseQuantityString_def Let_def sign prod.case zeros take
      using False assms(2,3) by simp
  qed
qed

lemma parse_int64_show_nat: "n < 10 ^ 18 \<Longrightarrow> parse_int64 (show_nat n) = Some (int n)"
proof -
  assume n: "n < 10 ^ 18"
  obtain c cs where c: "show_nat n = c # cs" by (cases "show_nat n") auto
  have "is_digit c" using show_nat_is_digits [of n] c by simp
  then have "hd (show_nat n) \<noteq> CHR ''-'' \<and> hd (show_nat n) \<noteq> CHR ''+''"
    using digit_not_special by (simp add: c)
  moreover have "int n < 2 ^ 63" using n by simp
  ultimately show ?thesis
    using show_nat_is_digits [of n] by (simp add: parse_int64_def Let_def)
qed

lemma sint_small_int32: "0 \<le> e \<Longrightarrow> e \<le> 18 \<Longrightarrow> sint (word_of_int e :: int32) = e"
  by (rule sint_word_of_int32) auto

lemma sint_precision:
  assumes "k \<le> 18"
  shows "0 \<le> sint (18 - of_nat k :: int32)"
proof -
  have "(18 - of_nat k :: int32) = word_of_int (18 - int k)" by simp
  then show ?thesis using assms sint_small_int32 [of "18 - int k"] by simp
qed

lemma sint_small_int64: "n < 10 ^ 18 \<Longrightarrow> sint (word_of_int (int n) :: int64) = int n"
  by (simp add: signed_of_int signed_take_bit_int_eq_self del: of_int_of_nat_eq)

text \<open>
  C23: Sizes parse to the value they denote: a decimal number of at most 18 digits followed by
  a decimal suffix becomes exactly that number with the suffix's power of ten as its scale, in
  64-bit arithmetic without rounding or wrap-around.
\<close>

theorem ParseQuantity_decimal:
  assumes "0 < n" "n < 10 ^ 18" "(suf, e) \<in> set decimal_suffixes"
  shows "\<exists>q. ParseQuantity (show_nat n @ suf) = Inr q \<and> q_dec q = None \<and>
    sint (q_value q) = int n \<and> sint (q_scale q) = e \<and> q_format q = DecimalSI"
proof -
  note suf = decimal_suffix_facts [OF assms(3)]
  obtain v where parts: "parseQuantityString (show_nat n @ suf) =
      Inr \<lparr>qp_positive = True, qp_value = v, qp_num = show_nat n, qp_denom = [], qp_suffix = suf\<rparr>"
    using parseQuantityString_decimal [OF assms(1) suf(2,3)] by blast
  have len: "length (show_nat n) \<le> 18" using length_show_nat [OF assms(2)] by simp
  have scale: "sint (word_of_int e :: int32) = e" using sint_small_int32 suf(4,5) by simp
  let ?p = "\<lparr>qp_positive = True, qp_value = v, qp_num = show_nat n, qp_denom = [], qp_suffix = suf\<rparr>"
  obtain str' where fast: "parse_fast (show_nat n @ suf) ?p (word_of_int e) DecimalSI =
      Some (Inr \<lparr>q_value = word_of_int (int n), q_scale = word_of_int e, q_dec = None,
                 q_str = str', q_format = DecimalSI\<rparr>)"
    using len sint_precision [OF len] scale suf(4) parse_int64_show_nat [OF assms(2)]
    by (simp add: parse_fast_def fast_precision_def int64Multiply_def Let_def not_less)
  have nz: "show_nat n @ suf \<noteq> []" "show_nat n @ suf \<noteq> ''0''"
    using hd_show_nat [OF assms(1)] by (auto simp: append_eq_Cons_conv)
  show ?thesis
    using sint_small_int64 [OF assms(2)] scale
    by (simp add: ParseQuantity_def nz parts suf(1) fast)
qed

theorem ParseQuantity_decimal_witness:
  "\<exists>q. ParseQuantity (show_nat 20 @ ''G'') = Inr q \<and> sint (q_value q) = 20 \<and> sint (q_scale q) = 9"
  using ParseQuantity_decimal [of 20 "''G''" 9] by (auto simp: decimal_suffixes_def)

subsection \<open>Registration\<close>

text \<open>When the registration contradicts what is in a scheme already.\<close>

definition registration_clash :: "scheme \<Rightarrow> bool" where
  "registration_clash s \<longleftrightarrow>
     list_ex (\<lambda>(g, u). sch_gvkToType s g \<notin> {None, Some u}) registered_kinds \<or>
     list_ex (\<lambda>m. sch_unversionedKinds s (meta_type_name m) \<notin> {None, Some (MetaType m)}) unversioned_meta"

lemma registrations_cases:
  "(g, ObjectType t, b) \<in> set registrations \<longleftrightarrow> t \<in> set custom_types \<and> g = agent_gvk t \<and> \<not> b"
  "(g, MetaType m, b) \<in> set registrations \<longleftrightarrow> g = meta_gvk m \<and> (b \<longrightarrow> m \<in> set unversioned_meta)"
  using all_meta [of m] by (auto simp: registrations_def registered_kinds_def)

lemma registration_clash_eq: "registration_clash s \<longleftrightarrow> (\<exists>op\<in>set registrations. clashes op s)"
proof -
  have "gvk_Kind (meta_gvk m) = meta_type_name m" if "m \<in> set unversioned_meta" for m
    using that by (auto simp: meta_gvk_def unversioned_meta_def)
  then have "(\<exists>m\<in>set unversioned_meta. clashes (meta_gvk m, MetaType m, True) s) \<longleftrightarrow>
      (\<exists>m\<in>set unversioned_meta. sch_unversionedKinds s (meta_type_name m) \<notin> {None, Some (MetaType m)})"
    by (intro bex_cong) (simp_all add: clashes_def)
  moreover have "(\<exists>op\<in>set registrations. clashes op s) \<longleftrightarrow>
      (\<exists>x\<in>set registered_kinds. clashes (fst x, snd x, False) s) \<or>
      (\<exists>m\<in>set unversioned_meta. clashes (meta_gvk m, MetaType m, True) s)"
    by (simp add: registrations_def bex_Un case_prod_beta)
  ultimately show ?thesis
    by (simp add: registration_clash_def clashes_def list_ex_iff case_prod_beta)
qed

lemma registered_kinds_map:
  "map_of registered_kinds g = Some u \<longleftrightarrow> (g, u) \<in> set registered_kinds"
proof (rule map_of_eq_Some_iff)
  show "distinct (map fst registered_kinds)" by code_simp
qed

lemma AddToScheme_gvkToType:
  assumes "AddToScheme s = Some s'"
  shows "sch_gvkToType s' g = (case map_of registered_kinds g of None \<Rightarrow> sch_gvkToType s g | Some u \<Rightarrow> Some u)"
proof -
  note all = assms [unfolded AddToScheme_all] and coh = all_registrations_coherent
  have mem: "(g, u, False) \<in> set registrations \<longleftrightarrow> map_of registered_kinds g = Some u" for u
    unfolding registered_kinds_map by (auto simp: registrations_def)
  have sub: "map_of registered_kinds g = Some u" if "(g, u, v) \<in> set registrations" for u v
    using that all_meta unfolding registered_kinds_map by (auto simp: registrations_def registered_kinds_def)
  show ?thesis
  proof (cases "map_of registered_kinds g")
    case None
    then have "(g, u, v) \<notin> set all_registrations" for u v using sub by (auto simp: all_registrations_set)
    with None show ?thesis using register_all_gvkToType [OF coh all, of g] by simp
  next
    case (Some u)
    have "u' = u" if "(g, u', v) \<in> set all_registrations" for u' v
      using sub that Some by (auto simp: all_registrations_set)
    from register_all_gvkToType [OF coh all this] mem Some show ?thesis by (simp add: all_registrations_set)
  qed
qed

lemma AddToScheme_unversionedKinds:
  assumes "AddToScheme s = Some s'"
  shows "sch_unversionedKinds s' k =
    (case find (\<lambda>m. meta_type_name m = k) unversioned_meta of
       None \<Rightarrow> sch_unversionedKinds s k
     | Some m \<Rightarrow> Some (MetaType m))"
proof -
  have mem: "(g, u, True) \<in> set all_registrations \<longleftrightarrow> (\<exists>m\<in>set unversioned_meta. g = meta_gvk m \<and> u = MetaType m)"
    for g u by (auto simp: all_registrations_set registrations_def)
  have kind: "gvk_Kind (meta_gvk m) = meta_type_name m" if "m \<in> set unversioned_meta" for m
    using that by (auto simp: meta_gvk_def unversioned_meta_def)
  have inj: "m = m'" if "m \<in> set unversioned_meta" "m' \<in> set unversioned_meta" "meta_type_name m = meta_type_name m'"
    for m m' using that by (auto simp: unversioned_meta_def)
  note kinds = register_all_unversionedKinds [OF all_registrations_coherent assms [unfolded AddToScheme_all]]
  show ?thesis
  proof (cases "find (\<lambda>m. meta_type_name m = k) unversioned_meta")
    case None
    then have none: "meta_type_name m \<noteq> k" if "m \<in> set unversioned_meta" for m
      using that by (auto simp: find_None_iff)
    have "\<not> (\<exists>g. (g, t, True) \<in> set all_registrations \<and> gvk_Kind g = k)" for t
      using mem kind none by metis
    with None kinds [of k] show ?thesis by auto
  next
    case (Some m)
    then have m: "m \<in> set unversioned_meta" "meta_type_name m = k" by (auto simp: find_Some_iff)
    then have "u = MetaType m" if "(g, u, True) \<in> set all_registrations" "gvk_Kind g = k" for g u
      using that inj by (auto simp: mem kind)
    moreover have "(meta_gvk m, MetaType m, True) \<in> set all_registrations \<and> gvk_Kind (meta_gvk m) = k"
      using m by (auto simp: mem kind)
    ultimately show ?thesis using kinds [of k "MetaType m"] Some by auto
  qed
qed

text \<open>
  C24: Registration. \<^verbatim>\<open>apis.AddToScheme\<close> panics exactly if one of the kinds that it registers
  belongs to another type in the scheme: a kind of one of the three resources or their lists, or
  of the types of \<^verbatim>\<open>metav1\<close> that go with every API group (watch events, options, statuses).
  Otherwise, on a scheme without the custom types, each of the six gets exactly one kind of
  \<^verbatim>\<open>agent.atomix.io/v1alpha1\<close>, the types of other objects keep theirs, each type of \<^verbatim>\<open>metav1\<close> has
  its kind of that group, of the internal version or of the unversioned group besides those it had,
  five of them are unversioned types, and no other kind changes its type. A second registration has
  no effect.
\<close>

theorem AddToScheme_registers:
  assumes "list_all (\<lambda>t. sch_typeToGVK s (ObjectType t) = None) custom_types"
  shows "case AddToScheme s of
      None \<Rightarrow> registration_clash s
    | Some s' \<Rightarrow>
        \<not> registration_clash s \<and>
        sch_typeToGVK s' (ObjectType t) =
          (if t \<in> set custom_types then Some [agent_gvk t] else sch_typeToGVK s (ObjectType t)) \<and>
        sch_typeToGVK s' (MetaType m) = Some (add_kind (meta_gvk m) (sch_typeToGVK s (MetaType m))) \<and>
        sch_gvkToType s' g = (case map_of registered_kinds g of None \<Rightarrow> sch_gvkToType s g | Some u \<Rightarrow> Some u) \<and>
        sch_unversionedTypes s' (ObjectType t) = sch_unversionedTypes s (ObjectType t) \<and>
        sch_unversionedTypes s' (MetaType m) =
          (if m \<in> set unversioned_meta then Some (meta_gvk m) else sch_unversionedTypes s (MetaType m)) \<and>
        sch_unversionedKinds s' k =
          (case find (\<lambda>m. meta_type_name m = k) unversioned_meta of
             None \<Rightarrow> sch_unversionedKinds s k
           | Some m \<Rightarrow> Some (MetaType m)) \<and>
        AddToScheme s' = Some s'"
proof (cases "AddToScheme s")
  case None
  then have "registration_clash s"
    using register_all_panics [OF all_registrations_coherent, of s]
    by (simp add: AddToScheme_all all_registrations_set registration_clash_eq)
  with None show ?thesis by simp
next
  case (Some s')
  note all = Some [unfolded AddToScheme_all] and coh = all_registrations_coherent
  have "\<not> registration_clash s"
    using register_all_panics [OF coh, of s] all by (simp add: all_registrations_set registration_clash_eq)
  moreover have "AddToScheme s' = Some s'"
    using register_all_again [OF coh all] by (simp add: AddToScheme_all)
  moreover have "sch_typeToGVK s' (ObjectType t) =
      (if t \<in> set custom_types then Some [agent_gvk t] else sch_typeToGVK s (ObjectType t))"
    using register_all_typeToGVK [OF coh all, of "ObjectType t" "agent_gvk t"] assms
    by (simp add: all_registrations_set registrations_cases list_all_iff add_kind_def)
  moreover have "sch_typeToGVK s' (MetaType m) = Some (add_kind (meta_gvk m) (sch_typeToGVK s (MetaType m)))"
    using register_all_typeToGVK [OF coh all, of "MetaType m" "meta_gvk m"]
    by (simp add: all_registrations_set registrations_cases)
  moreover have "sch_unversionedTypes s' (ObjectType t) = sch_unversionedTypes s (ObjectType t)"
    using register_all_unversioned [OF coh all, of "ObjectType t" "agent_gvk t"]
    by (simp add: all_registrations_set registrations_cases)
  moreover have "sch_unversionedTypes s' (MetaType m) =
      (if m \<in> set unversioned_meta then Some (meta_gvk m) else sch_unversionedTypes s (MetaType m))"
    using register_all_unversioned [OF coh all, of "MetaType m" "meta_gvk m"]
    by (simp add: all_registrations_set registrations_cases)
  moreover have "sch_gvkToType s' g =
      (case map_of registered_kinds g of None \<Rightarrow> sch_gvkToType s g | Some u \<Rightarrow> Some u)"
    by (rule AddToScheme_gvkToType [OF Some])
  ultimately show ?thesis using Some AddToScheme_unversionedKinds [OF Some, of k] by simp
qed

theorem AddToScheme_registers_witness:
  "sch_typeToGVK operator_scheme (ObjectType PartitionGroupT) = Some [agent_gvk PartitionGroupT] \<and>
   sch_typeToGVK operator_scheme (ObjectType PodT) = sch_typeToGVK builtin_scheme (ObjectType PodT) \<and>
   \<not> registration_clash builtin_scheme \<and> AddToScheme operator_scheme = Some operator_scheme"
proof -
  have none: "list_all (\<lambda>t. sch_typeToGVK builtin_scheme (ObjectType t) = None) custom_types" by code_simp
  show ?thesis
    using AddToScheme_registers [OF none, of PartitionGroupT] AddToScheme_registers [OF none, of PodT]
    by (simp add: operator_scheme_registered custom_types_def)
qed

subsection \<open>Controller references\<close>

text \<open>The references that do not name the object of a given one.\<close>

definition foreign_controllers :: "owner_reference \<Rightarrow> owner_reference list \<Rightarrow> owner_reference list" where
  "foreign_controllers ref rs =
     filter (\<lambda>r. or_Controller r = Some True \<and> \<not> referSameObject ref r) rs"

lemma scan_refs_Inl:
  "scan_refs ref rs i fi = Inl r \<Longrightarrow> r \<in> set (foreign_controllers ref rs)"
  by (induction rs arbitrary: i fi) (auto simp: foreign_controllers_def split: if_splits)

lemma scan_refs_Inr:
  "(\<exists>fi'. scan_refs ref rs i fi = Inr fi') \<longleftrightarrow> foreign_controllers ref rs = []"
  by (induction rs arbitrary: i fi) (auto simp: foreign_controllers_def)

lemma scan_refs_append:
  "scan_refs ref (rs @ rs') i fi =
   (case scan_refs ref rs i fi of Inl r \<Rightarrow> Inl r | Inr fi' \<Rightarrow> scan_refs ref rs' (i + length rs) fi')"
  by (induction rs arbitrary: i fi) (auto cong: sum.case_cong)

lemma scan_refs_found:
  "scan_refs ref rs i fi = Inr (Some n) \<Longrightarrow>
   fi = Some n \<or> (i \<le> n \<and> n < i + length rs \<and> referSameObject ref (rs ! (n - i)))"
proof (induction rs arbitrary: i fi)
  case Nil
  then show ?case by simp
next
  case (Cons r rs)
  have "referSameObject ref ((r # rs) ! (n - i))" if "Suc i \<le> n" "referSameObject ref (rs ! (n - Suc i))"
    using that by (cases "n - i") (auto simp: Suc_diff_le [symmetric] nth_Cons' diff_Suc)
  with Cons show ?case by (fastforce split: if_splits)
qed

lemma scan_refs_cong:
  assumes "map (referSameObject ref) rs = map (referSameObject ref) rs'"
    and "foreign_controllers ref rs = []" "foreign_controllers ref rs' = []"
  shows "scan_refs ref rs i fi = scan_refs ref rs' i fi"
  using map_eq_imp_length_eq [OF assms(1)] assms
  by (induction rs rs' arbitrary: i fi rule: list_induct2)
    (auto simp: foreign_controllers_def split: if_splits)

lemma referSameObject_refl:
  assumes "t \<in> {AtomixClusterT, PartitionGroupT, AtomixBenchmarkT}"
  shows "referSameObject (NewControllerRef owner (agent_gvk t)) (NewControllerRef owner (agent_gvk t))"
proof -
  have "ParseGroupVersion ''agent.atomix.io/v1alpha1'' = Inr (''agent.atomix.io'', ''v1alpha1'')"
    by code_simp
  then show ?thesis
    using assms by (auto simp: referSameObject_def NewControllerRef_def agent_gvk_def gv_string_def)
qed

text \<open>Writing the reference over one to the same object, or at the end.\<close>

lemma foreign_controllers_update:
  assumes "referSameObject ref ref" "foreign_controllers ref rs = []"
  shows "foreign_controllers ref (rs[n := ref]) = []" and "foreign_controllers ref (rs @ [ref]) = []"
  using assms set_update_subset_insert [of rs n ref]
  by (auto simp: foreign_controllers_def filter_empty_conv)

text \<open>
  C25: Ownership. Setting a custom resource as the controller of an object fails exactly when
  a reference to something else is already the controller, naming that owner. Otherwise the
  object has the new reference, keeps all references to others, has no other controller than
  the owner, keeps its key, and setting the reference again changes nothing.
\<close>

theorem SetControllerReference_sole:
  assumes "scheme_ready s" "t \<in> {AtomixClusterT, PartitionGroupT, AtomixBenchmarkT}"
    and "ref = NewControllerRef owner (agent_gvk t)" "refs = om_OwnerReferences (meta_of ob)"
  shows "case SetControllerReference t owner ob s of
      Inl err \<Rightarrow> \<exists>r\<in>set (foreign_controllers ref refs).
        err = AlreadyOwnedError (om_Namespace (meta_of ob)) (om_Name (meta_of ob)) (or_Kind r) (or_Name r)
    | Inr ob' \<Rightarrow>
        foreign_controllers ref refs = [] \<and> key_of ob' = key_of ob \<and>
        ref \<in> set (om_OwnerReferences (meta_of ob')) \<and>
        (\<forall>r\<in>set refs. referSameObject ref r \<or> r \<in> set (om_OwnerReferences (meta_of ob'))) \<and>
        foreign_controllers ref (om_OwnerReferences (meta_of ob')) = [] \<and>
        SetControllerReference t owner ob' s = Inr ob'"
proof -
  have g: "GVKForObject t s = Inr (agent_gvk t)" using scheme_readyD [OF assms(1)] assms(2) by auto
  have same: "referSameObject ref ref" unfolding assms(3) by (rule referSameObject_refl [OF assms(2)])
  note set_def = SetControllerReference_def g sum.case Let_def assms(3) [symmetric]
  show ?thesis
  proof (cases "scan_refs ref refs 0 None")
    case (Inl r)
    then show ?thesis
      using scan_refs_Inl [OF Inl] by (auto simp: set_def assms(4) [symmetric])
  next
    case (Inr fi)
    then have none: "foreign_controllers ref refs = []" using scan_refs_Inr by blast
    note upd = foreign_controllers_update [OF same none]
    show ?thesis
    proof (cases fi)
      case None
      have "scan_refs ref (refs @ [ref]) 0 None = Inr (Some (length refs))"
        by (simp add: scan_refs_append Inr same)
      with Inr None none upd show ?thesis
        by (simp add: set_def assms(4) [symmetric] key_of_def meta_name_def)
    next
      case (Some n)
      have n: "n < length refs" "referSameObject ref (refs ! n)"
        using scan_refs_found [OF Inr [unfolded Some]] by simp_all
      have "map (referSameObject ref) (refs[n := ref]) = map (referSameObject ref) refs"
        using n same by (simp add: map_update list_update_same_conv)
      then have "scan_refs ref (refs[n := ref]) 0 None = Inr (Some n)"
        using scan_refs_cong upd none Inr Some by metis
      moreover have "referSameObject ref r \<or> r \<in> set (refs[n := ref])" if "r \<in> set refs" for r
        using that n(2) by (metis in_set_conv_nth length_list_update nth_list_update_neq)
      moreover have "ref \<in> set (refs[n := ref])" using n(1) by (simp add: set_update_memI)
      ultimately show ?thesis
        using Inr Some none upd
        by (simp add: set_def assms(4) [symmetric] key_of_def meta_name_def)
    qed
  qed
qed

theorem SetControllerReference_sole_witness:
  "SetControllerReference AtomixClusterT sample_meta
     (owned_by (agent_gvk PartitionGroupT) sample_meta (ServiceO (NewManagementService (sample_cluster [])))) operator_scheme =
   Inl (AlreadyOwnedError ''default'' ''atomix'' ''PartitionGroup'' ''atomix'')"
proof -
  let ?ob = "owned_by (agent_gvk PartitionGroupT) sample_meta (ServiceO (NewManagementService (sample_cluster [])))"
  let ?ref = "NewControllerRef sample_meta (agent_gvk AtomixClusterT)"
  let ?other = "NewControllerRef sample_meta (agent_gvk PartitionGroupT)"
  have "\<not> referSameObject ?ref ?other"
    by (auto simp: referSameObject_def NewControllerRef_def agent_gvk_def split: sum.splits)
  then have "foreign_controllers ?ref (om_OwnerReferences (meta_of ?ob)) = [?other]"
    by (simp add: foreign_controllers_def owned_by_def NewControllerRef_def)
  then show ?thesis
    using SetControllerReference_sole [OF operator_scheme_ready, of AtomixClusterT ?ref sample_meta _ ?ob]
    by (auto simp: owned_by_def NewControllerRef_def agent_gvk_def NewManagementService_def
        GetManagementServiceName_def new_meta_def sample_meta_def split: sum.splits)
qed

subsection \<open>The fake client\<close>



end
