(* ===== verification/Reconcile_Properties.thy ===== *)
theory Reconcile_Properties
  imports Reconcile_Facts
begin

section \<open>Properties of the reconcilers\<close>

text \<open>
  The properties of the three \<^verbatim>\<open>Reconcile\<close> methods. Those about the store that a run computes
  assume a reliable client; those about ordering and completeness a sound one, such as the
  manager's client over its cache; safety holds for every client, whatever it reads and
  whichever of its requests fail.
\<close>

subsection \<open>Clusters\<close>

text \<open>
  C1: When the storage size of the cluster, after defaulting, parses, one run of the cluster
  reconciler succeeds and leaves exactly the five children, each owned by the cluster, added
  to what was there; existing objects under their keys are kept as they are.
\<close>

theorem cluster_reconcile_converges:
  assumes "reliable_client cl objs ok" "ok w" "proper_name nn" "scheme_ready s"
    and "objs w (AtomixClusterT, nn) = Some (AtomixClusterO c)"
    and "NewManagementStatefulSet (SetDefaults_Cluster c) = Inr sset"
  shows "\<exists>w'. cluster_Reconcile \<lparr>r_client = cl, r_scheme = s\<rparr> nn w = (w', zero_result, None) \<and> ok w' \<and>
    abs_store (objs w') =
      owned_store cluster_gvk (ac_Meta c) (cluster_children (SetDefaults_Cluster c) sset) ++
      abs_store (objs w)"
  using reliable_reconciler.reconcile_refines [OF cluster_reliable [OF assms(1)] assms(2,3,5), of s]
  by (simp add: cluster_items_built [OF assms(4,6)] converge_owned)

lemma sample_cluster_set:
  "\<exists>sset. NewManagementStatefulSet (SetDefaults_Cluster (sample_cluster [])) = Inr sset"
  using default_size_parses
  by (auto simp: NewManagementStatefulSet_def newPersistentVolumeClaims_def
      newPersistentVolumeClaim_def sample_cluster_def storage_of_size_def SetDefaults_Cluster_def
      SetDefaults_ClusterSpec_def defaults_defs)

lemma cluster_world:
  "fake_ok (world_with (AtomixClusterO (sample_cluster sz)))"
  "fake_objs (world_with (AtomixClusterO (sample_cluster sz))) =
    [(AtomixClusterT, sample_name) \<mapsto> AtomixClusterO (sample_cluster sz)]"
  using world_with_facts [of "AtomixClusterO (sample_cluster sz)"] by (simp_all add: key_of_def)

theorem cluster_reconcile_converges_witness:
  "\<exists>sset w'. NewManagementStatefulSet (SetDefaults_Cluster (sample_cluster [])) = Inr sset \<and>
    cluster_Reconcile \<lparr>r_client = fake_client, r_scheme = operator_scheme\<rparr> sample_name
      (world_with (AtomixClusterO (sample_cluster []))) = (w', zero_result, None) \<and>
    abs_store (fake_objs w') =
      owned_store cluster_gvk sample_meta (cluster_children (SetDefaults_Cluster (sample_cluster [])) sset) ++
      abs_store [(AtomixClusterT, sample_name) \<mapsto> AtomixClusterO (sample_cluster [])]"
proof -
  obtain sset where sset: "NewManagementStatefulSet (SetDefaults_Cluster (sample_cluster [])) = Inr sset"
    using sample_cluster_set by blast
  have stored: "fake_objs (world_with (AtomixClusterO (sample_cluster []))) (AtomixClusterT, sample_name) =
      Some (AtomixClusterO (sample_cluster []))" by (simp add: cluster_world)
  show ?thesis
    using cluster_reconcile_converges [OF fake.reliable_client_axioms cluster_world(1) proper_sample
        operator_scheme_ready stored sset] sset
    unfolding cluster_world(2) sample_sel by blast
qed

text \<open>
  C3: When the storage size does not parse, the run reports the parse error, and it has added
  the two config maps and the disruption budget but neither the stateful set nor the service.
\<close>

theorem cluster_reconcile_bad_size:
  assumes "reliable_client cl objs ok" "ok w" "proper_name nn" "scheme_ready s"
    and "objs w (AtomixClusterT, nn) = Some (AtomixClusterO c)"
    and "ParseQuantity (st_Size (cs_Storage (ac_Spec (SetDefaults_Cluster c)))) = Inl err"
    and "objs w (StatefulSetT, nn) = None"
  shows "\<exists>w'. cluster_Reconcile \<lparr>r_client = cl, r_scheme = s\<rparr> nn w = (w', zero_result, Some err) \<and>
    abs_store (objs w') =
      owned_store cluster_gvk (ac_Meta c) (cluster_configs (SetDefaults_Cluster c)) ++
      abs_store (objs w)"
proof -
  let ?d = "SetDefaults_Cluster c"
  have "newPersistentVolumeClaims (st_ClassName (cs_Storage (ac_Spec ?d))) (st_Size (cs_Storage (ac_Spec ?d))) =
      Inl err" using assms(6) newPersistentVolumeClaims_Inl by blast
  then have bad: "NewManagementStatefulSet ?d = Inl err" by (simp add: NewManagementStatefulSet_def)
  have "key_of (AtomixClusterO c) = (AtomixClusterT, nn)"
    by (rule reliable_client.stored_key [OF assms(1-3,5)])
  then have nn: "nn = NamespacedName (om_Namespace (ac_Meta c)) (om_Name (ac_Meta c))"
    by (simp add: key_of_def meta_name_def)
  have "converge (cluster_items s ?d) (abs_store (objs w)) =
      (owned_store cluster_gvk (ac_Meta c) (cluster_configs ?d) ++ abs_store (objs w), Some err)"
    unfolding cluster_items_failed [OF assms(4) bad] SetDefaults_Cluster_Meta
    by (rule converge_owned_stuck)
      (simp_all add: assms(7) nn [symmetric] cluster_configs_def cluster_keys name_defs)
  then show ?thesis
    using reliable_reconciler.reconcile_refines [OF cluster_reliable [OF assms(1)] assms(2,3,5), of s]
    by auto
qed

lemma sample_bad_size:
  "ParseQuantity (st_Size (cs_Storage (ac_Spec (SetDefaults_Cluster (sample_cluster ''lots''))))) =
   Inl ErrFormatWrong"
  by code_simp

theorem cluster_reconcile_bad_size_witness:
  "\<exists>w'. cluster_Reconcile \<lparr>r_client = fake_client, r_scheme = operator_scheme\<rparr> sample_name
      (world_with (AtomixClusterO (sample_cluster ''lots''))) = (w', zero_result, Some ErrFormatWrong)"
proof -
  have stored:
    "fake_objs (world_with (AtomixClusterO (sample_cluster ''lots''))) (AtomixClusterT, sample_name) =
      Some (AtomixClusterO (sample_cluster ''lots''))"
    "fake_objs (world_with (AtomixClusterO (sample_cluster ''lots''))) (StatefulSetT, sample_name) = None"
    by (simp_all add: cluster_world)
  show ?thesis
    using cluster_reconcile_bad_size [where objs = fake_objs and w = "world_with (AtomixClusterO (sample_cluster ''lots''))",
        OF fake.reliable_client_axioms cluster_world(1) proper_sample
        operator_scheme_ready stored(1) sample_bad_size stored(2)] by blast
qed

text \<open>
  C4: With a sound client, in particular the manager's client over its cache: when a run of
  the cluster reconciler succeeds, the two config maps, the disruption budget, the stateful set
  and the service of the cluster all exist; and a run that creates the stateful set, even one
  that fails later, leaves both config maps that its pods mount in place.
\<close>

theorem cluster_reconcile_complete:
  assumes "sound_client cl objs ok" "ok w" "proper_name nn"
    and "cl_Get cl w AtomixClusterT nn = (w1, Inr (AtomixClusterO c))"
    and "cluster_Reconcile \<lparr>r_client = cl, r_scheme = s\<rparr> nn w = (w', res, e)"
  shows "(e = None \<longrightarrow>
       (\<forall>k\<in>{(ConfigMapT, GetManagementInitConfigMapName c), (ConfigMapT, GetManagementSystemConfigMapName c),
            (PodDisruptionBudgetT, GetManagementDisruptionBudgetName c),
            (StatefulSetT, GetManagementStatefulSetName c), (ServiceT, GetManagementServiceName c)}.
          objs w' (fst k, NamespacedName (om_Namespace (ac_Meta c)) (snd k)) \<noteq> None)) \<and>
    (objs w (StatefulSetT, nn) = None \<longrightarrow> objs w' (StatefulSetT, nn) \<noteq> None \<longrightarrow>
       objs w' (ConfigMapT, NamespacedName (om_Namespace (ac_Meta c)) (GetManagementInitConfigMapName c)) \<noteq> None \<and>
       objs w' (ConfigMapT, NamespacedName (om_Namespace (ac_Meta c)) (GetManagementSystemConfigMapName c)) \<noteq> None)"
proof -
  note rec = cluster_sound [OF assms(1), of s]
  let ?d = "SetDefaults_Cluster c" and ?ob = "AtomixClusterO c"
  have api: "api_client cl objs ok" using assms(1) by (simp add: sound_client_def)
  have nn: "nn = NamespacedName (om_Namespace (ac_Meta c)) (om_Name (ac_Meta c))"
    using api_client.get_key [OF api assms(2-4)] by (simp add: key_of_def meta_name_def)
  have names: "GetManagementInitConfigMapName ?d = GetManagementInitConfigMapName c"
    "GetManagementSystemConfigMapName ?d = GetManagementSystemConfigMapName c"
    "GetManagementDisruptionBudgetName ?d = GetManagementDisruptionBudgetName c"
    "GetManagementStatefulSetName ?d = GetManagementStatefulSetName c"
    "GetManagementServiceName ?d = GetManagementServiceName c" by (simp_all add: name_defs)
  have complete: "e = None \<Longrightarrow> k \<in> plan_keys (cluster_plan s ?ob) \<Longrightarrow> objs w' k \<noteq> None" for k
    using sound_reconciler.reconcile_complete [OF rec assms(2-4)] assms(5) by blast
  have split: "cluster_plan s ?ob = take 3 (cluster_items s ?d) @ cluster_items s ?d ! 3 # drop 4 (cluster_items s ?d)"
    by (simp add: cluster_items_def Let_def)
  have ordered: "k \<in> plan_keys (take 3 (cluster_items s ?d)) \<Longrightarrow> objs w (StatefulSetT, nn) = None \<Longrightarrow>
      objs w' (StatefulSetT, nn) \<noteq> None \<Longrightarrow> objs w' k \<noteq> None" for k
    using sound_reconciler.reconcile_ordered [OF rec assms(2-5) split, of k] nn
    by (simp add: cluster_items_def Let_def name_defs)
  show ?thesis
    using complete ordered
    by (simp add: cluster_items_def Let_def names)
qed
text \<open>The manager's client, started, over a server with one object and with no informer yet.\<close>

definition cached_world :: "kobj \<Rightarrow> fakeClient DelegatingClient" where
  "cached_world ob =
     \<lparr>dc_informers = Map.empty, dc_started = True, dc_scheme = operator_scheme,
      dc_server = world_with ob\<rparr>"

lemma cached_world_ok:
  "proper_name (snd (key_of ob)) \<Longrightarrow> split_ok fake_objs fake_ok (cached_world ob)"
  using world_with_facts by (simp add: split_ok_def cached_world_def)

lemma cached_world_read:
  "\<exists>w1 c. cl_Get (split_client fake_server) (cached_world (AtomixClusterO (sample_cluster [])))
     AtomixClusterT sample_name = (w1, Inr (AtomixClusterO c))"
proof -
  let ?w = "cached_world (AtomixClusterO (sample_cluster []))"
  have ok: "split_ok fake_objs fake_ok ?w" by (rule cached_world_ok) (simp add: key_of_def)
  obtain w1 x where get: "cl_Get (split_client fake_server) ?w AtomixClusterT sample_name = (w1, x)"
    by fastforce
  have "\<not> isl (snd (cl_Get (split_client fake_server) ?w AtomixClusterT sample_name))" by code_simp
  then obtain ob where "x = Inr ob" using get by (cases x) simp_all
  with fake_api.split.get_key [OF ok proper_sample] get show ?thesis
    by (fastforce simp: key_of_def type_of_custom)
qed

theorem cluster_reconcile_complete_witness:
  "\<exists>w' res e. cluster_Reconcile \<lparr>r_client = split_client fake_server, r_scheme = operator_scheme\<rparr>
      sample_name (cached_world (AtomixClusterO (sample_cluster []))) = (w', res, e) \<and>
    (e = None \<longrightarrow> split_objs fake_objs w' (ServiceT, sample_name) \<noteq> None)"
proof -
  let ?w = "cached_world (AtomixClusterO (sample_cluster []))"
  have ok: "split_ok fake_objs fake_ok ?w" by (rule cached_world_ok) (simp add: key_of_def)
  obtain w1 c where get: "cl_Get (split_client fake_server) ?w AtomixClusterT sample_name =
      (w1, Inr (AtomixClusterO c))" using cached_world_read by blast
  obtain w' res e where run: "cluster_Reconcile
      \<lparr>r_client = split_client fake_server, r_scheme = operator_scheme\<rparr> sample_name ?w = (w', res, e)"
    by (metis prod_cases3)
  have "sample_name = NamespacedName (om_Namespace (ac_Meta c)) (om_Name (ac_Meta c))"
    using fake_api.split.get_key [OF ok proper_sample get] by (simp add: key_of_def meta_name_def)
  then show ?thesis
    using cluster_reconcile_complete [OF fake_api.split.sound_client_axioms ok proper_sample get run] run
    by (simp add: GetManagementServiceName_def)
qed

subsection \<open>Partition groups\<close>

text \<open>
  C5: When the group names a protocol and its storage size, if it has one, parses, one run of
  the partition group reconciler succeeds and adds exactly the five children of the group,
  with the configuration and the stateful set of its protocol.
\<close>

theorem group_reconcile_converges:
  assumes "reliable_client cl objs ok" "ok w" "proper_name nn" "scheme_ready s"
    and "objs w (PartitionGroupT, nn) = Some (PartitionGroupO g)"
    and "NewPartitionGroupConfigMap (SetDefaults_PartitionGroup g) = Inr (Some cm)"
    and "NewPartitionGroupStatefulSet (SetDefaults_PartitionGroup g) = Inr (Some sset)"
  shows "\<exists>w'. group_Reconcile \<lparr>r_client = cl, r_scheme = s\<rparr> nn w = (w', zero_result, None) \<and> ok w' \<and>
    abs_store (objs w') =
      owned_store group_gvk (pg_Meta g) (group_children (SetDefaults_PartitionGroup g) cm sset) ++
      abs_store (objs w)"
  using reliable_reconciler.reconcile_refines [OF group_reliable [OF assms(1)] assms(2,3,5), of s]
  by (simp add: group_items_built [OF assms(4,6,7)] converge_owned)

lemma sample_group_outputs:
  "(case NewPartitionGroupConfigMap (SetDefaults_PartitionGroup (sample_group (Some (sample_raft [])))) of
      Inr (Some _) \<Rightarrow> True | _ \<Rightarrow> False)"
  "(case NewPartitionGroupStatefulSet (SetDefaults_PartitionGroup (sample_group (Some (sample_raft [])))) of
      Inr (Some _) \<Rightarrow> True | _ \<Rightarrow> False)"
  by code_simp+

lemma sample_group_built:
  "\<exists>cm sset. NewPartitionGroupConfigMap (SetDefaults_PartitionGroup (sample_group (Some (sample_raft [])))) = Inr (Some cm) \<and>
    NewPartitionGroupStatefulSet (SetDefaults_PartitionGroup (sample_group (Some (sample_raft [])))) = Inr (Some sset)"
  using sample_group_outputs by (simp split: sum.splits option.splits)

lemma group_world:
  "fake_ok (world_with (PartitionGroupO (sample_group r)))"
  "fake_objs (world_with (PartitionGroupO (sample_group r))) =
    [(PartitionGroupT, sample_name) \<mapsto> PartitionGroupO (sample_group r)]"
  using world_with_facts [of "PartitionGroupO (sample_group r)"] by (simp_all add: key_of_def)

theorem group_reconcile_converges_witness:
  "\<exists>cm sset w'. group_Reconcile \<lparr>r_client = fake_client, r_scheme = operator_scheme\<rparr> sample_name
      (world_with (PartitionGroupO (sample_group (Some (sample_raft []))))) = (w', zero_result, None) \<and>
    abs_store (fake_objs w') =
      owned_store group_gvk sample_meta
        (group_children (SetDefaults_PartitionGroup (sample_group (Some (sample_raft [])))) cm sset) ++
      abs_store [(PartitionGroupT, sample_name) \<mapsto> PartitionGroupO (sample_group (Some (sample_raft [])))]"
proof -
  let ?g = "sample_group (Some (sample_raft []))"
  obtain cm sset where b: "NewPartitionGroupConfigMap (SetDefaults_PartitionGroup ?g) = Inr (Some cm)"
    "NewPartitionGroupStatefulSet (SetDefaults_PartitionGroup ?g) = Inr (Some sset)"
    using sample_group_built by blast
  have stored: "fake_objs (world_with (PartitionGroupO ?g)) (PartitionGroupT, sample_name) =
      Some (PartitionGroupO ?g)" by (simp add: group_world)
  show ?thesis
    using group_reconcile_converges [OF fake.reliable_client_axioms group_world(1) proper_sample
        operator_scheme_ready stored b]
    unfolding group_world(2) sample_sel by blast
qed

text \<open>The two runs on a group without a protocol.\<close>

lemma untyped_group_runs:
  assumes "reliable_client cl objs ok" "ok w" "proper_name nn" "scheme_ready s"
    and "objs w (PartitionGroupT, nn) = Some (PartitionGroupO g)"
    and "gs_Raft (pg_Spec g) = None" "gs_PrimaryBackup (pg_Spec g) = None" "gs_Log (pg_Spec g) = None"
    and "objs w (ConfigMapT, NamespacedName (om_Namespace (pg_Meta g)) (GetPartitionGroupSystemConfigMapName g)) = None"
  shows "\<exists>w' w''. group_Reconcile \<lparr>r_client = cl, r_scheme = s\<rparr> nn w =
      (w', zero_result, Some unknown_partition_group_type) \<and>
    abs_store (objs w') =
      owned_store group_gvk (pg_Meta g)
        [ConfigMapO (NewPartitionGroupInitConfigMap (SetDefaults_PartitionGroup g))] ++ abs_store (objs w) \<and>
    group_Reconcile \<lparr>r_client = cl, r_scheme = s\<rparr> nn w' =
      (w'', zero_result, Some unknown_partition_group_type) \<and>
    abs_store (objs w'') = abs_store (objs w')"
proof -
  let ?d = "SetDefaults_PartitionGroup g"
  let ?init = "[ConfigMapO (NewPartitionGroupInitConfigMap ?d)]"
  let ?k = "(ConfigMapT, NamespacedName (om_Namespace (pg_Meta ?d)) (GetPartitionGroupSystemConfigMapName ?d))"
  note rec = group_reliable [OF assms(1), of s]
  have api: "api_client cl objs ok" using assms(1) by (simp add: reliable_client_def sound_client_def)
  have untyped: "GetPartitionGroupType ?d = Inl unknown_partition_group_type"
    unfolding GetPartitionGroupType_SetDefaults using assms(6-8) by (simp add: GetPartitionGroupType_def)
  obtain rest where items: "group_items s ?d =
      map (owned_item group_gvk (pg_Meta ?d)) ?init @ (?k, Inl unknown_partition_group_type) # rest"
    using group_items_untyped [OF assms(4) untyped] by blast
  have other: "?k \<notin> key_of ` set ?init"
    by (simp add: group_keys(1) name_defs suffix_defs)
  have conv: "converge (group_plan s (PartitionGroupO g)) m =
      (owned_store group_gvk (pg_Meta g) ?init ++ m, Some unknown_partition_group_type)" if "m ?k = None" for m
    unfolding group_plan_simp items SetDefaults_PartitionGroup_Meta
    by (rule converge_owned_stuck) (use that other in simp_all)
  have missing: "abs_store (objs w) ?k = None" using assms(9) by (simp add: name_defs)
  obtain w' where w': "group_Reconcile \<lparr>r_client = cl, r_scheme = s\<rparr> nn w =
      (w', zero_result, Some unknown_partition_group_type)" "ok w'"
    "abs_store (objs w') = owned_store group_gvk (pg_Meta g) ?init ++ abs_store (objs w)"
    using reliable_reconciler.reconcile_refines [OF rec assms(2,3,5)] unfolding conv [of "abs_store (objs w)", OF missing] by auto
  have missing': "abs_store (objs w') ?k = None"
    using missing other unfolding w'(3) by (auto simp: map_add_None owned_store_def)
  have "objs w \<subseteq>\<^sub>m objs w'"
    using planned_reconciler.reconcile_ok [OF group_planned [OF api] assms(2,3) w'(1)] by blast
  then have stored: "objs w' (PartitionGroupT, nn) = Some (PartitionGroupO g)"
    using assms(5) by (rule map_leD)
  obtain w'' where "group_Reconcile \<lparr>r_client = cl, r_scheme = s\<rparr> nn w' =
      (w'', zero_result, Some unknown_partition_group_type)"
    "abs_store (objs w'') = owned_store group_gvk (pg_Meta g) ?init ++ abs_store (objs w')"
    using reliable_reconciler.reconcile_refines [OF rec w'(2) assms(3) stored] unfolding conv [of "abs_store (objs w')", OF missing'] by auto
  with w' show ?thesis by (simp add: map_add_assoc)
qed

text \<open>
  C6: A group that names none of the three protocols fails with the error of
  \<^verbatim>\<open>GetPartitionGroupType\<close>, after its init config map has been created and before anything
  else is; every retry fails in the same way and changes nothing.
\<close>

theorem group_reconcile_untyped:
  assumes "reliable_client cl objs ok" "ok w" "proper_name nn" "scheme_ready s"
    and "objs w (PartitionGroupT, nn) = Some (PartitionGroupO g)"
    and "gs_Raft (pg_Spec g) = None" "gs_PrimaryBackup (pg_Spec g) = None" "gs_Log (pg_Spec g) = None"
    and "objs w (ConfigMapT, NamespacedName (om_Namespace (pg_Meta g)) (GetPartitionGroupSystemConfigMapName g)) = None"
  shows "\<exists>w' w''. group_Reconcile \<lparr>r_client = cl, r_scheme = s\<rparr> nn w =
      (w', zero_result, Some unknown_partition_group_type) \<and>
    abs_store (objs w') =
      owned_store group_gvk (pg_Meta g)
        [ConfigMapO (NewPartitionGroupInitConfigMap (SetDefaults_PartitionGroup g))] ++ abs_store (objs w) \<and>
    group_Reconcile \<lparr>r_client = cl, r_scheme = s\<rparr> nn w' =
      (w'', zero_result, Some unknown_partition_group_type) \<and>
    abs_store (objs w'') = abs_store (objs w')"
  using assms by (rule untyped_group_runs)

theorem group_reconcile_untyped_witness:
  "\<exists>w' w''. group_Reconcile \<lparr>r_client = fake_client, r_scheme = operator_scheme\<rparr> sample_name
      (world_with (PartitionGroupO (sample_group None))) = (w', zero_result, Some unknown_partition_group_type) \<and>
    group_Reconcile \<lparr>r_client = fake_client, r_scheme = operator_scheme\<rparr> sample_name w' =
      (w'', zero_result, Some unknown_partition_group_type)"
proof -
  let ?g = "sample_group None"
  have stored: "fake_objs (world_with (PartitionGroupO ?g)) (PartitionGroupT, sample_name) =
      Some (PartitionGroupO ?g)"
    "fake_objs (world_with (PartitionGroupO ?g)) (ConfigMapT, NamespacedName (om_Namespace (pg_Meta ?g))
      (GetPartitionGroupSystemConfigMapName ?g)) = None" by (simp_all add: group_world)
  have none: "gs_Raft (pg_Spec ?g) = None" "gs_PrimaryBackup (pg_Spec ?g) = None" "gs_Log (pg_Spec ?g) = None"
    by (simp_all add: sample_group_def)
  show ?thesis
    using group_reconcile_untyped [OF fake.reliable_client_axioms group_world(1) proper_sample
        operator_scheme_ready stored(1) none stored(2)] by blast
qed

text \<open>
  A group whose storage size does not parse fails with the parse error after the config
  maps and the disruption budget have been created; no stateful set and no service is.
\<close>

lemma group_reconcile_bad_size:
  assumes "reliable_client cl objs ok" "ok w" "proper_name nn" "scheme_ready s"
    and "objs w (PartitionGroupT, nn) = Some (PartitionGroupO g)"
    and "NewPartitionGroupConfigMap (SetDefaults_PartitionGroup g) = Inr (Some cm)"
    and "group_storage (SetDefaults_PartitionGroup g) = Some stor" "ParseQuantity (st_Size stor) = Inl err"
    and "objs w (StatefulSetT, nn) = None"
  shows "\<exists>w'. group_Reconcile \<lparr>r_client = cl, r_scheme = s\<rparr> nn w = (w', zero_result, Some err) \<and>
    abs_store (objs w') =
      owned_store group_gvk (pg_Meta g)
        [ConfigMapO (NewPartitionGroupInitConfigMap (SetDefaults_PartitionGroup g)), ConfigMapO cm,
         PodDisruptionBudgetO (NewPartitionGroupDisruptionBudget (SetDefaults_PartitionGroup g))] ++
      abs_store (objs w)"
proof -
  let ?d = "SetDefaults_PartitionGroup g"
  have bad: "NewPartitionGroupStatefulSet ?d = Inl err"
    using assms(7,8) NewPartitionGroupStatefulSet_Inl by blast
  have "key_of (PartitionGroupO g) = (PartitionGroupT, nn)"
    by (rule reliable_client.stored_key [OF assms(1-3,5)])
  then have nn: "nn = NamespacedName (om_Namespace (pg_Meta g)) (om_Name (pg_Meta g))"
    by (simp add: key_of_def meta_name_def)
  obtain rest where items: "group_items s ?d =
      map (owned_item group_gvk (pg_Meta ?d))
        [ConfigMapO (NewPartitionGroupInitConfigMap ?d), ConfigMapO cm,
         PodDisruptionBudgetO (NewPartitionGroupDisruptionBudget ?d)] @
      ((StatefulSetT, NamespacedName (om_Namespace (pg_Meta ?d)) (GetPartitionGroupStatefulSetName ?d)),
       Inl err) # rest"
    using group_items_bad_size [OF assms(4,6) bad] by blast
  have "converge (group_items s ?d) (abs_store (objs w)) =
      (owned_store group_gvk (pg_Meta g)
        [ConfigMapO (NewPartitionGroupInitConfigMap ?d), ConfigMapO cm,
         PodDisruptionBudgetO (NewPartitionGroupDisruptionBudget ?d)] ++ abs_store (objs w), Some err)"
    unfolding items SetDefaults_PartitionGroup_Meta
    by (rule converge_owned_stuck)
      (simp_all add: assms(9) nn [symmetric] group_keys(1,3) group_built_keys(1) [OF assms(6)] name_defs)
  then show ?thesis
    using reliable_reconciler.reconcile_refines [OF group_reliable [OF assms(1)] assms(2,3,5), of s]
    by auto
qed

lemma sample_group_bad_size:
  "ParseQuantity (st_Size (storage_of_size ''lots'')) = Inl ErrFormatWrong"
  by code_simp

lemma group_reconcile_bad_size_witness:
  "\<exists>w'. group_Reconcile \<lparr>r_client = fake_client, r_scheme = operator_scheme\<rparr> sample_name
      (world_with (PartitionGroupO (sample_group (Some (sample_raft ''lots''))))) =
      (w', zero_result, Some ErrFormatWrong)"
proof -
  let ?g = "sample_group (Some (sample_raft ''lots''))"
  let ?d = "SetDefaults_PartitionGroup ?g"
  have stored: "fake_objs (world_with (PartitionGroupO ?g)) (PartitionGroupT, sample_name) =
      Some (PartitionGroupO ?g)"
    "fake_objs (world_with (PartitionGroupO ?g)) (StatefulSetT, sample_name) = None"
    by (simp_all add: group_world)
  obtain cm where cm: "NewPartitionGroupConfigMap ?d = Inr (Some cm)"
    by (simp add: NewPartitionGroupConfigMap_def sample_group_def GetPartitionGroupType_def
        SetDefaults_PartitionGroup_def SetDefaults_PartitionGroupSpec_def Let_def)
  obtain stor where stor: "group_storage ?d = Some stor" "st_Size stor = ''lots''"
    by (simp add: group_storage_def sample_group_def sample_raft_def storage_of_size_def
        SetDefaults_PartitionGroup_def SetDefaults_PartitionGroupSpec_def defaults_defs)
  have bad: "ParseQuantity (st_Size stor) = Inl ErrFormatWrong"
    using sample_group_bad_size stor(2) by (simp add: storage_of_size_def)
  show ?thesis
    using group_reconcile_bad_size [where objs = fake_objs and w = "world_with (PartitionGroupO ?g)",
        OF fake.reliable_client_axioms group_world(1) proper_sample
        operator_scheme_ready stored(1) cm stor(1) bad stored(2)] by blast
qed

subsection \<open>Benchmarks\<close>

text \<open>
  C9: One run of the benchmark reconciler succeeds and adds the coordinator's four objects and
  the workers' stateful set, and nothing else: the workers' init config map, system
  configuration and service have the names of the coordinator's and are never created.
\<close>

theorem benchmark_reconcile_converges:
  assumes "reliable_client cl objs ok" "ok w" "proper_name nn" "scheme_ready s"
    and "objs w (AtomixBenchmarkT, nn) = Some (AtomixBenchmarkO b)"
  shows "\<exists>w'. benchmark_Reconcile \<lparr>r_client = cl, r_scheme = s\<rparr> nn w = (w', zero_result, None) \<and> ok w' \<and>
    abs_store (objs w') =
      owned_store benchmark_gvk (ab_Meta b) (benchmark_created (SetDefaults_Benchmark b)) ++
      abs_store (objs w)"
  using reliable_reconciler.reconcile_refines [OF benchmark_reliable [OF assms(1)] assms(2,3,5), of s]
  by (simp add: benchmark_items_built [OF assms(4)] converge_owned benchmark_shadowed)

lemma benchmark_world:
  "fake_ok (world_with (AtomixBenchmarkO sample_benchmark))"
  "fake_objs (world_with (AtomixBenchmarkO sample_benchmark)) =
    [(AtomixBenchmarkT, sample_name) \<mapsto> AtomixBenchmarkO sample_benchmark]"
  using world_with_facts [of "AtomixBenchmarkO sample_benchmark"] by (simp_all add: key_of_def)

theorem benchmark_reconcile_converges_witness:
  "\<exists>w'. benchmark_Reconcile \<lparr>r_client = fake_client, r_scheme = operator_scheme\<rparr> sample_name
      (world_with (AtomixBenchmarkO sample_benchmark)) = (w', zero_result, None) \<and>
    abs_store (fake_objs w') =
      owned_store benchmark_gvk sample_meta (benchmark_created (SetDefaults_Benchmark sample_benchmark)) ++
      abs_store [(AtomixBenchmarkT, sample_name) \<mapsto> AtomixBenchmarkO sample_benchmark]"
proof -
  have stored: "fake_objs (world_with (AtomixBenchmarkO sample_benchmark)) (AtomixBenchmarkT, sample_name) =
      Some (AtomixBenchmarkO sample_benchmark)" by (simp add: benchmark_world)
  show ?thesis
    using benchmark_reconcile_converges [OF fake.reliable_client_axioms benchmark_world(1) proper_sample
        operator_scheme_ready stored]
    unfolding benchmark_world(2) sample_sel by blast
qed

subsection \<open>All three\<close>

text \<open>The three methods with the type of their owner.\<close>

definition reconcilers ::
  "'w reconciler \<Rightarrow>
   (go_type \<times> (namespaced_name \<Rightarrow> 'w \<Rightarrow> 'w \<times> reconcile_result \<times> go_error option)) list" where
  "reconcilers r =
     [(AtomixClusterT, cluster_Reconcile r), (PartitionGroupT, group_Reconcile r),
      (AtomixBenchmarkT, benchmark_Reconcile r)]"

lemma reconcilers_planned:
  assumes "api_client cl objs ok" "(t, rec) \<in> set (reconcilers \<lparr>r_client = cl, r_scheme = s\<rparr>)"
  shows "\<exists>mk plan_of. planned_reconciler cl objs ok t mk plan_of rec"
proof -
  consider "t = AtomixClusterT" "rec = cluster_Reconcile \<lparr>r_client = cl, r_scheme = s\<rparr>"
    | "t = PartitionGroupT" "rec = group_Reconcile \<lparr>r_client = cl, r_scheme = s\<rparr>"
    | "t = AtomixBenchmarkT" "rec = benchmark_Reconcile \<lparr>r_client = cl, r_scheme = s\<rparr>"
    using assms(2) by (auto simp: reconcilers_def)
  then show ?thesis
    using cluster_planned [OF assms(1), of s] group_planned [OF assms(1), of s]
      benchmark_planned [OF assms(1), of s]
    by cases blast+
qed

text \<open>
  C11: Once a run of a reconciler has succeeded, another run right after it succeeds as well
  and changes nothing.
\<close>

theorem reconcile_idempotent:
  assumes "reliable_client cl objs ok" "ok w" "proper_name nn"
    and "(t, rec) \<in> set (reconcilers \<lparr>r_client = cl, r_scheme = s\<rparr>)"
    and "objs w (t, nn) = Some ob" "rec nn w = (w', res, None)"
  shows "\<exists>w''. rec nn w' = (w'', zero_result, None) \<and> objs w'' = objs w'"
proof -
  have "api_client cl objs ok" using assms(1) by (simp add: reliable_client_def sound_client_def)
  then obtain mk plan_of where "planned_reconciler cl objs ok t mk plan_of rec"
    using reconcilers_planned [OF _ assms(4)] by blast
  then have rec: "reliable_reconciler cl objs ok t mk plan_of rec"
    by (rule reliable_reconcilerI [OF assms(1)])
  show ?thesis
    by (rule reliable_reconciler.run_idempotent [OF rec assms(2,3,5,6)])
qed

theorem reconcile_idempotent_witness:
  "\<exists>w' w''. benchmark_Reconcile \<lparr>r_client = fake_client, r_scheme = operator_scheme\<rparr> sample_name
      (world_with (AtomixBenchmarkO sample_benchmark)) = (w', zero_result, None) \<and>
    benchmark_Reconcile \<lparr>r_client = fake_client, r_scheme = operator_scheme\<rparr> sample_name w' =
      (w'', zero_result, None) \<and> fake_objs w'' = fake_objs w'"
proof -
  let ?w = "world_with (AtomixBenchmarkO sample_benchmark)"
  have stored: "fake_objs ?w (AtomixBenchmarkT, sample_name) = Some (AtomixBenchmarkO sample_benchmark)"
    by (simp add: benchmark_world)
  have member: "(AtomixBenchmarkT, benchmark_Reconcile \<lparr>r_client = fake_client, r_scheme = operator_scheme\<rparr>)
      \<in> set (reconcilers \<lparr>r_client = fake_client, r_scheme = operator_scheme\<rparr>)"
    by (simp add: reconcilers_def)
  obtain w' where "benchmark_Reconcile \<lparr>r_client = fake_client, r_scheme = operator_scheme\<rparr> sample_name ?w =
      (w', zero_result, None)"
    using fake_benchmark.reconcile_refines [OF benchmark_world(1) proper_sample stored, of operator_scheme]
    by (auto simp: benchmark_items_built [OF operator_scheme_ready] converge_owned)
  with reconcile_idempotent [OF fake.reliable_client_axioms benchmark_world(1) proper_sample member stored]
  show ?thesis by blast
qed

text \<open>When the owner cannot be read, nothing changes.\<close>

lemma reconcile_owner_unread:
  assumes "api_client cl objs ok" "ok w" "proper_name nn"
    and "(t, rec) \<in> set (reconcilers \<lparr>r_client = cl, r_scheme = s\<rparr>)"
    and "cl_Get cl w t nn = (w1, Inl err)"
  shows "rec nn w = (w1, zero_result, if IsNotFound err then None else Some err) \<and> objs w1 = objs w"
proof -
  obtain mk plan_of where rec: "planned_reconciler cl objs ok t mk plan_of rec"
    using reconcilers_planned [OF assms(1,4)] by blast
  show ?thesis
    using planned_reconciler.reconcile_unread [OF rec assms(2,3,5)] by blast
qed

text \<open>The types of the objects that the controller of a type of owner creates.\<close>

definition child_types_of :: "go_type \<Rightarrow> go_type set" where
  "child_types_of t = (if t = AtomixBenchmarkT then benchmark_types else managed_types)"

lemma reconcilers_only_add:
  assumes "api_client cl objs ok" "ok w" "proper_name nn" "scheme_ready s"
    and "(t, rec) \<in> set (reconcilers \<lparr>r_client = cl, r_scheme = s\<rparr>)" "rec nn w = (w', res, e)"
  shows "ok w' \<and> only_adds t (child_types_of t) nn (objs w) (objs w')"
proof -
  consider "t = AtomixClusterT" "rec = cluster_Reconcile \<lparr>r_client = cl, r_scheme = s\<rparr>"
    | "t = PartitionGroupT" "rec = group_Reconcile \<lparr>r_client = cl, r_scheme = s\<rparr>"
    | "t = AtomixBenchmarkT" "rec = benchmark_Reconcile \<lparr>r_client = cl, r_scheme = s\<rparr>"
    using assms(5) by (auto simp: reconcilers_def)
  then show ?thesis
    using cluster_only_adds [OF assms(1-4), of w' res e] group_only_adds [OF assms(1-4), of w' res e]
      benchmark_only_adds [OF assms(1-4), of w' res e] assms(6)
    by cases (simp_all add: child_types_of_def)
qed

text \<open>
  C2: Safety of the three reconcilers, with any client. Whatever a run reads and however it ends,
  it changes and removes nothing, and all it adds are objects of the kinds that the controller
  manages, in the owner's namespace, whose controller is the owner. If the owner cannot be read
  nothing is added either; the run succeeds if the reason is that the owner is gone, so that the
  request is not tried again, and reports the error otherwise.
\<close>

theorem reconcilers_safe:
  assumes "api_client cl objs ok" "ok w" "proper_name nn" "scheme_ready s"
    and "(t, rec) \<in> set (reconcilers \<lparr>r_client = cl, r_scheme = s\<rparr>)" "rec nn w = (w', res, e)"
  shows "ok w' \<and> only_adds t (child_types_of t) nn (objs w) (objs w') \<and>
    (\<forall>err. snd (cl_Get cl w t nn) = Inl err \<longrightarrow>
       objs w' = objs w \<and> res = zero_result \<and> e = (if IsNotFound err then None else Some err))"
  using reconcilers_only_add [OF assms] reconcile_owner_unread [OF assms(1-3,5)] assms(6)
  by (cases "cl_Get cl w t nn") auto

theorem reconcilers_safe_witness:
  "\<exists>w' res e. benchmark_Reconcile \<lparr>r_client = fake_client, r_scheme = operator_scheme\<rparr> sample_name
      (world_with (AtomixBenchmarkO sample_benchmark)) = (w', res, e) \<and>
    only_adds AtomixBenchmarkT benchmark_types sample_name
      (fake_objs (world_with (AtomixBenchmarkO sample_benchmark))) (fake_objs w')"
proof -
  have "(AtomixBenchmarkT, benchmark_Reconcile \<lparr>r_client = fake_client, r_scheme = operator_scheme\<rparr>)
      \<in> set (reconcilers \<lparr>r_client = fake_client, r_scheme = operator_scheme\<rparr>)"
    by (simp add: reconcilers_def)
  note safe = reconcilers_safe [OF fake.api_client_axioms benchmark_world(1) proper_sample
      operator_scheme_ready this]
  then show ?thesis by (metis prod_cases3 child_types_of_def)
qed

end
