(* ===== verification/Workqueue.thy ===== *)
theory Workqueue
  imports Reconciling
begin

section \<open>The work queue\<close>

text \<open>
  \<^verbatim>\<open>client-go/util/workqueue\<close>: the queue type with its three parts, the items in order, the
  dirty items that still need processing and the items being processed. A locale states what
  the controller relies on: an item that is added is waiting, taking an item marks it as being
  processed, and an item that becomes dirty while it is processed waits again afterwards.
  The condition variable is not modelled: \<open>Get\<close> is only defined when it does not block.
\<close>

subsection \<open>The type\<close>

record 'a work_queue =
  wq_queue :: "'a list"
  wq_dirty :: "'a set"
  wq_processing :: "'a set"
  wq_shuttingDown :: bool

definition wq_New :: "'a work_queue" where
  "wq_New = \<lparr>wq_queue = [], wq_dirty = {}, wq_processing = {}, wq_shuttingDown = False\<rparr>"

definition wq_Add :: "'a \<Rightarrow> 'a work_queue \<Rightarrow> 'a work_queue" where
  "wq_Add item q =
     (if wq_shuttingDown q then q
      else if item \<in> wq_dirty q then q
      else
        let q1 = q\<lparr>wq_dirty := insert item (wq_dirty q)\<rparr>
        in if item \<in> wq_processing q1 then q1 else q1\<lparr>wq_queue := wq_queue q1 @ [item]\<rparr>)"

text \<open>
  \<open>None\<close> is a call that would block; the inner \<open>None\<close> is the answer that the queue shuts down.
\<close>

definition wq_Get :: "'a work_queue \<Rightarrow> ('a work_queue \<times> 'a option) option" where
  "wq_Get q =
     (case wq_queue q of
        [] \<Rightarrow> if wq_shuttingDown q then Some (q, None) else None
      | item # rest \<Rightarrow>
          Some (q\<lparr>wq_queue := rest, wq_processing := insert item (wq_processing q),
                  wq_dirty := wq_dirty q - {item}\<rparr>, Some item))"

definition wq_Done :: "'a \<Rightarrow> 'a work_queue \<Rightarrow> 'a work_queue" where
  "wq_Done item q =
     (let q1 = q\<lparr>wq_processing := wq_processing q - {item}\<rparr>
      in if item \<in> wq_dirty q1 then q1\<lparr>wq_queue := wq_queue q1 @ [item]\<rparr> else q1)"

definition wq_ShutDown :: "'a work_queue \<Rightarrow> 'a work_queue" where
  "wq_ShutDown q = q\<lparr>wq_shuttingDown := True\<rparr>"

subsection \<open>The invariant\<close>

text \<open>
  The comment on the type: every element of the queue is dirty and not being processed; and
  conversely, every dirty item is in the queue or being processed.
\<close>

definition wq_inv :: "'a work_queue \<Rightarrow> bool" where
  "wq_inv q \<longleftrightarrow> distinct (wq_queue q) \<and> set (wq_queue q) = wq_dirty q - wq_processing q"

lemma wq_inv_New [simp]: "wq_inv wq_New"
  by (simp add: wq_inv_def wq_New_def)

lemma wq_inv_Add [simp]: "wq_inv q \<Longrightarrow> wq_inv (wq_Add item q)"
  by (auto simp: wq_inv_def wq_Add_def Let_def)

lemma wq_inv_Get: "wq_inv q \<Longrightarrow> wq_Get q = Some (q', x) \<Longrightarrow> wq_inv q'"
  by (auto simp: wq_inv_def wq_Get_def split: list.splits if_splits)

lemma wq_inv_Done: "wq_inv q \<Longrightarrow> item \<in> wq_processing q \<Longrightarrow> wq_inv (wq_Done item q)"
  by (auto simp: wq_inv_def wq_Done_def Let_def)

lemma wq_inv_ShutDown [simp]: "wq_inv q \<Longrightarrow> wq_inv (wq_ShutDown q)"
  by (simp add: wq_inv_def wq_ShutDown_def)

subsection \<open>What a controller relies on\<close>

text \<open>
  The interface: \<open>waiting\<close> are the items that will be handed out without another event,
  \<open>busy\<close> those that are being processed, \<open>open\<close> says that items are still accepted.
\<close>

locale item_queue =
  fixes add :: "'a \<Rightarrow> 'q \<Rightarrow> 'q"
    and get :: "'q \<Rightarrow> ('q \<times> 'a option) option"
    and finish :: "'a \<Rightarrow> 'q \<Rightarrow> 'q"
    and waiting :: "'q \<Rightarrow> 'a list"
    and busy :: "'q \<Rightarrow> 'a set"
    and pending :: "'q \<Rightarrow> 'a set"
    and accepting :: "'q \<Rightarrow> bool"
    and inv :: "'q \<Rightarrow> bool"
  assumes inv_add: "inv q \<Longrightarrow> inv (add x q)"
    and inv_get: "inv q \<Longrightarrow> get q = Some (q', r) \<Longrightarrow> inv q'"
    and inv_finish: "inv q \<Longrightarrow> x \<in> busy q \<Longrightarrow> inv (finish x q)"
    and waiting_idle: "inv q \<Longrightarrow> distinct (waiting q) \<and> set (waiting q) = pending q - busy q"
    and add_pending: "inv q \<Longrightarrow> pending (add x q) = (if accepting q then insert x (pending q) else pending q)"
    and add_busy: "inv q \<Longrightarrow> busy (add x q) = busy q"
    and add_accepting: "accepting (add x q) = accepting q"
    and add_waiting: "inv q \<Longrightarrow> \<exists>xs. waiting (add x q) = waiting q @ xs \<and> set xs \<subseteq> {x}"
    and get_head: "inv q \<Longrightarrow> waiting q = x # xs \<Longrightarrow>
      \<exists>q'. get q = Some (q', Some x) \<and> waiting q' = xs \<and> busy q' = insert x (busy q) \<and>
        pending q' = pending q - {x} \<and> accepting q' = accepting q"
    and finish_busy: "inv q \<Longrightarrow> busy (finish x q) = busy q - {x}"
    and finish_pending: "inv q \<Longrightarrow> pending (finish x q) = pending q"
    and finish_accepting: "accepting (finish x q) = accepting q"
    and finish_waiting: "inv q \<Longrightarrow> \<exists>xs. waiting (finish x q) = waiting q @ xs \<and> set xs \<subseteq> {x}"
begin

text \<open>Nothing is handed out while it is being processed.\<close>

lemma get_not_busy:
  assumes "inv q" "waiting q = x # xs"
  shows "x \<notin> busy q"
  using waiting_idle [OF assms(1)] assms(2) by auto

text \<open>An item added while it is processed waits again as soon as it is finished.\<close>

lemma readd_not_lost:
  assumes "inv q" "accepting q" "x \<in> busy q"
  shows "x \<in> set (waiting (finish x (add x q)))"
proof -
  have inv: "inv (add x q)" by (rule inv_add [OF assms(1)])
  moreover have "x \<in> busy (add x q)" by (simp add: add_busy assms)
  ultimately have "inv (finish x (add x q))" by (rule inv_finish)
  moreover have "x \<in> pending (finish x (add x q))" using inv assms by (simp add: finish_pending add_pending)
  moreover have "x \<notin> busy (finish x (add x q))" using inv by (simp add: finish_busy)
  ultimately show ?thesis using waiting_idle by blast
qed

text \<open>Adding an item that is neither pending nor busy puts it at the end.\<close>

lemma add_then_waiting:
  assumes "inv q" "accepting q" "x \<notin> busy q"
  shows "x \<in> set (waiting (add x q))"
  using waiting_idle [OF inv_add [OF assms(1), of x]] assms by (simp add: add_pending add_busy)

end

interpretation wq: item_queue wq_Add wq_Get wq_Done wq_queue wq_processing wq_dirty
  "\<lambda>q. \<not> wq_shuttingDown q" wq_inv
proof unfold_locales
  fix q q' :: "'a work_queue" and x :: 'a and xs :: "'a list" and r
  show "wq_inv q \<Longrightarrow> wq_inv (wq_Add x q)" by simp
  show "wq_inv q \<Longrightarrow> wq_Get q = Some (q', r) \<Longrightarrow> wq_inv q'" by (rule wq_inv_Get)
  show "wq_inv q \<Longrightarrow> x \<in> wq_processing q \<Longrightarrow> wq_inv (wq_Done x q)" by (rule wq_inv_Done)
  show "wq_inv q \<Longrightarrow> distinct (wq_queue q) \<and> set (wq_queue q) = wq_dirty q - wq_processing q"
    by (simp add: wq_inv_def)
  show "wq_inv q \<Longrightarrow> wq_dirty (wq_Add x q) =
      (if \<not> wq_shuttingDown q then insert x (wq_dirty q) else wq_dirty q)"
    by (auto simp: wq_Add_def Let_def)
  show "wq_inv q \<Longrightarrow> wq_processing (wq_Add x q) = wq_processing q"
    by (simp add: wq_Add_def Let_def)
  show "(\<not> wq_shuttingDown (wq_Add x q)) = (\<not> wq_shuttingDown q)"
    by (simp add: wq_Add_def Let_def)
  show "wq_inv q \<Longrightarrow> \<exists>xs. wq_queue (wq_Add x q) = wq_queue q @ xs \<and> set xs \<subseteq> {x}"
    by (simp add: wq_Add_def Let_def)
  show "wq_inv q \<Longrightarrow> wq_queue q = x # xs \<Longrightarrow>
      \<exists>q'. wq_Get q = Some (q', Some x) \<and> wq_queue q' = xs \<and>
        wq_processing q' = insert x (wq_processing q) \<and> wq_dirty q' = wq_dirty q - {x} \<and>
        (\<not> wq_shuttingDown q') = (\<not> wq_shuttingDown q)"
    by (simp add: wq_Get_def)
  show "wq_inv q \<Longrightarrow> wq_processing (wq_Done x q) = wq_processing q - {x}"
    by (simp add: wq_Done_def Let_def)
  show "wq_inv q \<Longrightarrow> wq_dirty (wq_Done x q) = wq_dirty q"
    by (simp add: wq_Done_def Let_def)
  show "(\<not> wq_shuttingDown (wq_Done x q)) = (\<not> wq_shuttingDown q)"
    by (simp add: wq_Done_def Let_def)
  show "wq_inv q \<Longrightarrow> \<exists>xs. wq_queue (wq_Done x q) = wq_queue q @ xs \<and> set xs \<subseteq> {x}"
    by (simp add: wq_Done_def Let_def)
qed

end
