(* ===== verification/Watches.thy ===== *)
theory Watches
  imports Workqueue Benchmark_Reconciler
begin

section \<open>Watches and event handlers\<close>

text \<open>
  The \<^verbatim>\<open>Add\<close> functions of the three controllers register what each of them watches and with
  which handler: its own resource with \<^verbatim>\<open>EnqueueRequestForObject\<close> and one kind of owned object
  with \<^verbatim>\<open>EnqueueRequestForOwner\<close> (\<^verbatim>\<open>controller-runtime/pkg/handler\<close>). A handler turns an event
  into requests for the work queue. The manager behind \<^verbatim>\<open>controller.New\<close> and \<^verbatim>\<open>Watch\<close> is a
  parameter.
\<close>

subsection \<open>Handlers\<close>

datatype event_handler =
    EnqueueRequestForObject
  | EnqueueRequestForOwner go_type bool \<comment> \<open>\<^verbatim>\<open>OwnerType\<close>, \<^verbatim>\<open>IsController\<close>\<close>

datatype event =
    CreateEvent object_meta
  | UpdateEvent object_meta object_meta
  | DeleteEvent object_meta
  | GenericEvent object_meta

definition parseOwnerTypeGroupKind :: "scheme \<Rightarrow> go_type \<Rightarrow> go_error + string \<times> string" where
  "parseOwnerTypeGroupKind s t =
     (case ObjectKinds s t of
        Inl err \<Rightarrow> Inl err
      | Inr (kinds, _) \<Rightarrow>
          if length kinds \<noteq> 1 then Inl (ErrorString ''Expected exactly 1 kind for OwnerType'')
          else Inr (gvk_Group (hd kinds), gvk_Kind (hd kinds)))"

definition getOwnersReferences :: "bool \<Rightarrow> object_meta \<Rightarrow> owner_reference list" where
  "getOwnersReferences isController ob =
     (if \<not> isController then om_OwnerReferences ob
      else (case GetControllerOf ob of Some ref \<Rightarrow> [ref] | None \<Rightarrow> []))"

text \<open>The loop over the references; one that does not parse gives up the whole result.\<close>

fun matching_owners ::
  "string \<times> string \<Rightarrow> string \<Rightarrow> owner_reference list \<Rightarrow> namespaced_name list \<Rightarrow> namespaced_name list" where
  "matching_owners gk ns [] result = result"
| "matching_owners gk ns (ref # refs) result =
     (case ParseGroupVersion (or_APIVersion ref) of
        Inl err \<Rightarrow> []
      | Inr refGV \<Rightarrow>
          if or_Kind ref = snd gk \<and> fst refGV = fst gk
          then matching_owners gk ns refs (result @ [NamespacedName ns (or_Name ref)])
          else matching_owners gk ns refs result)"

definition getOwnerReconcileRequest ::
  "string \<times> string \<Rightarrow> bool \<Rightarrow> object_meta \<Rightarrow> namespaced_name list" where
  "getOwnerReconcileRequest gk isController ob =
     matching_owners gk (om_Namespace ob) (getOwnersReferences isController ob) []"

text \<open>
  The requests of one object for a handler. An owner type that the scheme does not have makes
  the registration of the watch fail, so the handler is never called; it yields nothing here.
\<close>

definition object_requests :: "scheme \<Rightarrow> event_handler \<Rightarrow> object_meta \<Rightarrow> namespaced_name list" where
  "object_requests s h ob =
     (case h of
        EnqueueRequestForObject \<Rightarrow> [NamespacedName (om_Namespace ob) (om_Name ob)]
      | EnqueueRequestForOwner t isController \<Rightarrow>
          (case parseOwnerTypeGroupKind s t of
             Inl err \<Rightarrow> []
           | Inr gk \<Rightarrow> getOwnerReconcileRequest gk isController ob))"

fun event_requests :: "scheme \<Rightarrow> event_handler \<Rightarrow> event \<Rightarrow> namespaced_name list" where
  "event_requests s h (CreateEvent ob) = object_requests s h ob"
| "event_requests s h (UpdateEvent old new) = object_requests s h old @ object_requests s h new"
| "event_requests s h (DeleteEvent ob) = object_requests s h ob"
| "event_requests s h (GenericEvent ob) = object_requests s h ob"

definition handle_event ::
  "scheme \<Rightarrow> event_handler \<Rightarrow> event \<Rightarrow> namespaced_name work_queue \<Rightarrow> namespaced_name work_queue" where
  "handle_event s h ev q = fold wq_Add (event_requests s h ev) q"

subsection \<open>Registration\<close>

record 'm manager =
  mg_New :: "string \<Rightarrow> 'm \<Rightarrow> 'm \<times> go_error option"
  mg_Watch :: "string \<Rightarrow> go_type \<Rightarrow> event_handler \<Rightarrow> 'm \<Rightarrow> 'm \<times> go_error option"

definition cluster_Add :: "'m manager \<Rightarrow> 'm \<Rightarrow> 'm \<times> go_error option" where
  "cluster_Add mgr = run_steps
     [mg_New mgr ''atomixcluster-controller'',
      mg_Watch mgr ''atomixcluster-controller'' AtomixClusterT EnqueueRequestForObject,
      mg_Watch mgr ''atomixcluster-controller'' StatefulSetT (EnqueueRequestForOwner AtomixClusterT True)]"

definition group_Add :: "'m manager \<Rightarrow> 'm \<Rightarrow> 'm \<times> go_error option" where
  "group_Add mgr = run_steps
     [mg_New mgr ''partitiongroup-controller'',
      mg_Watch mgr ''partitiongroup-controller'' PartitionGroupT EnqueueRequestForObject,
      mg_Watch mgr ''partitiongroup-controller'' StatefulSetT (EnqueueRequestForOwner PartitionGroupT True)]"

definition benchmark_Add :: "'m manager \<Rightarrow> 'm \<Rightarrow> 'm \<times> go_error option" where
  "benchmark_Add mgr = run_steps
     [mg_New mgr ''benchmark-controller'',
      mg_Watch mgr ''benchmark-controller'' AtomixBenchmarkT EnqueueRequestForObject,
      mg_Watch mgr ''benchmark-controller'' PodT (EnqueueRequestForOwner AtomixBenchmarkT True)]"

text \<open>\<^verbatim>\<open>pkg/controller/manager.go\<close>\<close>

definition AddController ::
  "('m manager \<Rightarrow> 'm \<Rightarrow> 'm \<times> go_error option) \<Rightarrow>
   ('m manager \<Rightarrow> 'm \<Rightarrow> 'm \<times> go_error option) list \<Rightarrow>
   ('m manager \<Rightarrow> 'm \<Rightarrow> 'm \<times> go_error option) list" where
  "AddController f fs = fs @ [f]"

definition AddToManagerFuncs :: "('m manager \<Rightarrow> 'm \<Rightarrow> 'm \<times> go_error option) list" where
  "AddToManagerFuncs =
     AddController group_Add (AddController cluster_Add (AddController benchmark_Add []))"

definition AddToManager :: "'m manager \<Rightarrow> 'm \<Rightarrow> 'm \<times> go_error option" where
  "AddToManager mgr = run_steps (map (\<lambda>f. f mgr) AddToManagerFuncs)"

subsection \<open>The registered watches\<close>

text \<open>A manager that accepts every registration and records it.\<close>

type_synonym watch = "string \<times> go_type \<times> event_handler"

definition recording_manager :: "watch list manager" where
  "recording_manager =
     \<lparr>mg_New = (\<lambda>n ws. (ws, None)), mg_Watch = (\<lambda>n t h ws. (ws @ [(n, t, h)], None))\<rparr>"

definition operator_watches :: "watch list" where
  "operator_watches = fst (AddToManager recording_manager [])"

lemma operator_watches_eq:
  "operator_watches =
     [(''benchmark-controller'', AtomixBenchmarkT, EnqueueRequestForObject),
      (''benchmark-controller'', PodT, EnqueueRequestForOwner AtomixBenchmarkT True),
      (''atomixcluster-controller'', AtomixClusterT, EnqueueRequestForObject),
      (''atomixcluster-controller'', StatefulSetT, EnqueueRequestForOwner AtomixClusterT True),
      (''partitiongroup-controller'', PartitionGroupT, EnqueueRequestForObject),
      (''partitiongroup-controller'', StatefulSetT, EnqueueRequestForOwner PartitionGroupT True)]"
  by (simp add: operator_watches_def AddToManager_def AddToManagerFuncs_def AddController_def
      cluster_Add_def group_Add_def benchmark_Add_def recording_manager_def)

text \<open>What an event on an object of a type puts into the queue of a controller.\<close>

definition routed :: "scheme \<Rightarrow> string \<Rightarrow> go_type \<Rightarrow> event \<Rightarrow> namespaced_name list" where
  "routed s ctl t ev =
     concat (map (\<lambda>(n, src, h). if n = ctl \<and> src = t then event_requests s h ev else [])
       operator_watches)"

lemma parseOwnerTypeGroupKind_ready:
  assumes "scheme_ready s" "t \<in> {AtomixClusterT, PartitionGroupT, AtomixBenchmarkT}"
  shows "parseOwnerTypeGroupKind s t = Inr (''agent.atomix.io'', type_name t)"
proof -
  have "GVKForObject t s = Inr (agent_gvk t)" using scheme_readyD [OF assms(1)] assms(2) by auto
  then obtain gs b where gs: "ObjectKinds s t = Inr (gs, b)" "\<not> length gs < 1" "\<not> 1 < length gs"
    "hd gs = agent_gvk t"
    by (auto simp: GVKForObject_def split: sum.splits prod.splits if_splits)
  then have "length gs = 1" by linarith
  with gs show ?thesis by (simp add: parseOwnerTypeGroupKind_def agent_gvk_def)
qed

text \<open>An owned object is routed to its owner, and to no owner of another type.\<close>

lemma object_requests_owned:
  assumes "scheme_ready s" "t \<in> {AtomixClusterT, PartitionGroupT, AtomixBenchmarkT}"
    "t' \<in> {AtomixClusterT, PartitionGroupT, AtomixBenchmarkT}"
  shows "object_requests s (EnqueueRequestForOwner t True) (meta_of (with_uid u (owned_by (agent_gvk t') owner ob))) =
    (if t = t' then [NamespacedName (om_Namespace (meta_of ob)) (om_Name owner)] else [])"
proof -
  have gv: "ParseGroupVersion ''agent.atomix.io/v1alpha1'' = Inr (''agent.atomix.io'', ''v1alpha1'')"
    by code_simp
  show ?thesis
    using assms(2,3) gv
    by (auto simp: object_requests_def parseOwnerTypeGroupKind_ready [OF assms(1)]
        getOwnerReconcileRequest_def getOwnersReferences_def NewControllerRef_def agent_gvk_def
        gv_string_def with_uid_def owned_by_def GetControllerOf_def)
qed

end
