(* ===== verification/Controller.thy ===== *)
theory Controller
  imports Watches
begin

section \<open>The controller\<close>

text \<open>
  \<^verbatim>\<open>controller-runtime/pkg/internal/controller\<close>: one worker takes items off the queue and
  reconciles them; an error brings the item back after a delay. \<open>processNextWorkItem\<close> is the
  method run without interruption. The step relation splits it where other threads can run:
  between taking an item and finishing it, events may add requests, delayed requests may fall
  due or be merged when a request is delayed twice, and the world may change. The reconcile method, the requests that the events can ask for
  and the changes that others make to the world are parameters.
\<close>

subsection \<open>The method\<close>

record 'w controller =
  ct_world :: 'w
  ct_queue :: "namespaced_name work_queue"
  ct_delayed :: "namespaced_name list" \<comment> \<open>rate-limited requests that are not due yet\<close>
  ct_current :: "namespaced_name option" \<comment> \<open>what the worker is reconciling\<close>

type_synonym 'w reconcile_method = "namespaced_name \<Rightarrow> 'w \<Rightarrow> 'w \<times> reconcile_result \<times> go_error option"

text \<open>Whether the outcome of a run brings the request back.\<close>

definition requeues :: "reconcile_result \<Rightarrow> go_error option \<Rightarrow> bool" where
  "requeues res err \<longleftrightarrow> err \<noteq> None \<or> 0 < res_RequeueAfter res \<or> res_Requeue res"

text \<open>
  The part after \<^verbatim>\<open>Get\<close>: reconcile, add the request again after a delay on an error or a
  requeue, and at last (it is deferred) mark the item as done.
\<close>

definition finish_item :: "'w reconcile_method \<Rightarrow> namespaced_name \<Rightarrow> 'w controller \<Rightarrow> 'w controller \<times> bool" where
  "finish_item rec req c =
     (case rec req (ct_world c) of
        (w', res, err) \<Rightarrow>
          (c\<lparr>ct_world := w',
             ct_delayed := (if requeues res err then ct_delayed c @ [req] else ct_delayed c),
             ct_queue := wq_Done req (ct_queue c),
             ct_current := None\<rparr>,
           err = None))"

text \<open>\<open>None\<close> is a call that blocks on an empty queue.\<close>

definition processNextWorkItem :: "'w reconcile_method \<Rightarrow> 'w controller \<Rightarrow> ('w controller \<times> bool) option" where
  "processNextWorkItem rec c =
     (case wq_Get (ct_queue c) of
        None \<Rightarrow> None
      | Some (q, None) \<Rightarrow> Some (c\<lparr>ct_queue := q\<rparr>, False)
      | Some (q, Some req) \<Rightarrow>
          Some (finish_item rec req (c\<lparr>ct_queue := q, ct_current := Some req\<rparr>)))"

subsection \<open>The step relation\<close>

inductive ctl_step ::
  "'w reconcile_method \<Rightarrow> ('w \<Rightarrow> 'w \<Rightarrow> bool) \<Rightarrow> namespaced_name set \<Rightarrow>
   'w controller \<Rightarrow> 'w controller \<Rightarrow> bool"
  for rec :: "'w reconcile_method" and env :: "'w \<Rightarrow> 'w \<Rightarrow> bool" and reqs :: "namespaced_name set" where
  arrive: "r \<in> reqs \<Longrightarrow> ctl_step rec env reqs c (c\<lparr>ct_queue := wq_Add r (ct_queue c)\<rparr>)"
| due: "ct_delayed c = xs @ r # ys \<Longrightarrow>
    ctl_step rec env reqs c (c\<lparr>ct_delayed := xs @ ys, ct_queue := wq_Add r (ct_queue c)\<rparr>)"
| merge: "ct_delayed c = xs @ r # ys \<Longrightarrow> r \<in> set xs \<union> set ys \<Longrightarrow>
    ctl_step rec env reqs c (c\<lparr>ct_delayed := xs @ ys\<rparr>)"
| take: "ct_current c = None \<Longrightarrow> wq_Get (ct_queue c) = Some (q, Some r) \<Longrightarrow>
    ctl_step rec env reqs c (c\<lparr>ct_queue := q, ct_current := Some r\<rparr>)"
| finish: "ct_current c = Some r \<Longrightarrow> ctl_step rec env reqs c (fst (finish_item rec r c))"
| change: "env (ct_world c) w' \<Longrightarrow> ctl_step rec env reqs c (c\<lparr>ct_world := w'\<rparr>)"

inductive_cases ctl_stepE: "ctl_step rec env reqs c c'"

text \<open>
  The invariant of the queue, and the worker's item is the only one being processed.
\<close>

definition ctl_inv :: "('w \<Rightarrow> bool) \<Rightarrow> 'w controller \<Rightarrow> bool" where
  "ctl_inv ok c \<longleftrightarrow>
     ok (ct_world c) \<and> wq_inv (ct_queue c) \<and> wq_processing (ct_queue c) = set_option (ct_current c) \<and>
     \<not> wq_shuttingDown (ct_queue c)"

definition initial_controller :: "'w \<Rightarrow> 'w controller" where
  "initial_controller w = \<lparr>ct_world = w, ct_queue = wq_New, ct_delayed = [], ct_current = None\<rparr>"

lemma ctl_inv_initial: "ok w \<Longrightarrow> ctl_inv ok (initial_controller w)"
  by (simp add: ctl_inv_def initial_controller_def wq_New_def wq_inv_def)

lemma wq_Get_fields:
  "wq_Get q = Some (q', Some r) \<Longrightarrow>
   wq_processing q' = insert r (wq_processing q) \<and> wq_dirty q' = wq_dirty q - {r} \<and>
   wq_shuttingDown q' = wq_shuttingDown q \<and> wq_queue q = r # wq_queue q'"
  by (auto simp: wq_Get_def split: list.splits if_splits)

lemma wq_Add_fields [simp]:
  "wq_processing (wq_Add r q) = wq_processing q" "wq_shuttingDown (wq_Add r q) = wq_shuttingDown q"
  "wq_dirty (wq_Add r q) = (if wq_shuttingDown q then wq_dirty q else insert r (wq_dirty q))"
  by (auto simp: wq_Add_def Let_def)

lemma wq_Done_fields [simp]:
  "wq_processing (wq_Done r q) = wq_processing q - {r}"
  "wq_shuttingDown (wq_Done r q) = wq_shuttingDown q" "wq_dirty (wq_Done r q) = wq_dirty q"
  by (auto simp: wq_Done_def Let_def)

lemma finish_item_fields:
  assumes "rec r (ct_world c) = (w', res, err)"
  shows "ct_world (fst (finish_item rec r c)) = w'"
    and "ct_delayed (fst (finish_item rec r c)) =
      (if requeues res err then ct_delayed c @ [r] else ct_delayed c)"
    and "ct_queue (fst (finish_item rec r c)) = wq_Done r (ct_queue c)"
    and "ct_current (fst (finish_item rec r c)) = None"
  using assms by (simp_all add: finish_item_def)

lemma ctl_inv_step:
  assumes "ctl_step rec env reqs c c'" "ctl_inv ok c"
    and "\<And>r w w' res e. ok w \<Longrightarrow> rec r w = (w', res, e) \<Longrightarrow> ok w'"
    and "\<And>w w'. ok w \<Longrightarrow> env w w' \<Longrightarrow> ok w'"
  shows "ctl_inv ok c'"
  using assms(1)
proof cases
  case (take q r)
  with assms(2) show ?thesis
    using wq_Get_fields [OF take(3)] wq_inv_Get [OF _ take(3)] by (auto simp: ctl_inv_def)
next
  case (finish r)
  obtain w' res e where run: "rec r (ct_world c) = (w', res, e)" by (metis prod_cases3)
  with assms(2) finish show ?thesis
    using assms(3) [OF _ run] wq_inv_Done [of "ct_queue c" r] by (auto simp: ctl_inv_def finish_item_fields [where rec = rec and c = c, OF run])
qed (use assms(2,4) in \<open>auto simp: ctl_inv_def\<close>)

text \<open>A request is outstanding while it is dirty, delayed or being reconciled.\<close>

definition outstanding :: "'w controller \<Rightarrow> namespaced_name set" where
  "outstanding c = wq_dirty (ct_queue c) \<union> set (ct_delayed c) \<union> set_option (ct_current c)"

lemma ctl_inv_steps:
  assumes "(ctl_step rec env reqs)\<^sup>*\<^sup>* c c'" "ctl_inv ok c"
    and "\<And>r w w' res e. ok w \<Longrightarrow> rec r w = (w', res, e) \<Longrightarrow> ok w'"
    and "\<And>w w'. ok w \<Longrightarrow> env w w' \<Longrightarrow> ok w'"
  shows "ctl_inv ok c'"
  using assms(1,2) by (induction) (blast intro: ctl_inv_step assms(3,4))+

text \<open>The requests a controller deals with all come from events.\<close>

lemma outstanding_reqs:
  assumes "(ctl_step rec env reqs)\<^sup>*\<^sup>* c c'" "set (wq_queue (ct_queue c)) \<subseteq> reqs" "outstanding c \<subseteq> reqs"
  shows "set (wq_queue (ct_queue c')) \<subseteq> reqs \<and> outstanding c' \<subseteq> reqs"
  using assms
proof induction
  case base
  then show ?case by simp
next
  case (step c1 c2)
  then have IH: "set (wq_queue (ct_queue c1)) \<subseteq> reqs" "outstanding c1 \<subseteq> reqs" by simp_all
  have add: "set (wq_queue (wq_Add r q)) \<subseteq> insert r (set (wq_queue q))" for r and q :: "namespaced_name work_queue"
    by (auto simp: wq_Add_def Let_def)
  have don: "set (wq_queue (wq_Done r q)) \<subseteq> insert r (set (wq_queue q))" for r and q :: "namespaced_name work_queue"
    by (auto simp: wq_Done_def Let_def)
  from step(2) show ?case
  proof cases
    case (arrive r)
    then show ?thesis using IH add [of r "ct_queue c1"] by (auto simp: outstanding_def)
  next
    case (due xs r ys)
    then have "r \<in> reqs" using IH(2) by (auto simp: outstanding_def)
    with due show ?thesis using IH add [of r "ct_queue c1"] by (auto simp: outstanding_def)
  next
    case (merge xs r ys)
    then show ?thesis using IH by (auto simp: outstanding_def)
  next
    case (take q r)
    then show ?thesis using IH wq_Get_fields [OF take(3)] by (auto simp: outstanding_def)
  next
    case (finish r)
    obtain w' res e where run: "rec r (ct_world c1) = (w', res, e)" by (metis prod_cases3)
    show ?thesis
      using IH finish don [of r "ct_queue c1"]
      by (auto simp: outstanding_def finish_item_fields [where rec = rec and c = c1, OF run])
  next
    case (change w')
    then show ?thesis using IH by (auto simp: outstanding_def)
  qed
qed

subsection \<open>No request is lost\<close>

text \<open>
  The only step after which a request is no longer outstanding is the end of a run for it that
  does not requeue, with no event for it since the run began.
\<close>

definition settles :: "'w reconcile_method \<Rightarrow> namespaced_name \<Rightarrow> 'w controller \<Rightarrow> bool" where
  "settles rec r c \<longleftrightarrow>
     ct_current c = Some r \<and> r \<notin> wq_dirty (ct_queue c) \<and>
     (case rec r (ct_world c) of (w', res, err) \<Rightarrow> \<not> requeues res err)"

lemma outstanding_step:
  assumes "ctl_step rec env reqs c c'" "ctl_inv ok c" "r \<in> outstanding c"
  shows "r \<in> outstanding c' \<or> settles rec r c"
  using assms(1)
proof cases
  case (take q x)
  with assms(2,3) show ?thesis
    using wq_Get_fields [OF take(3)] by (auto simp: outstanding_def)
next
  case (finish x)
  obtain w' res e where run: "rec x (ct_world c) = (w', res, e)" by (metis prod_cases3)
  with assms(3) finish show ?thesis
    by (auto simp: outstanding_def settles_def finish_item_fields [where rec = rec and c = c, OF run])
qed (use assms(2,3) in \<open>auto simp: outstanding_def ctl_inv_def\<close>)

subsection \<open>Draining the queue\<close>

fun work :: "nat \<Rightarrow> 'w reconcile_method \<Rightarrow> 'w controller \<Rightarrow> 'w controller" where
  "work 0 rec c = c"
| "work (Suc n) rec c =
     (case processNextWorkItem rec c of None \<Rightarrow> c | Some (c', _) \<Rightarrow> work n rec c')"

fun reconcile_all ::
  "'w reconcile_method \<Rightarrow> namespaced_name list \<Rightarrow> 'w \<Rightarrow> 'w \<times> namespaced_name list" where
  "reconcile_all rec [] w = (w, [])"
| "reconcile_all rec (r # rs) w =
     (case rec r w of
        (w1, res, err) \<Rightarrow>
          (case reconcile_all rec rs w1 of
             (w2, again) \<Rightarrow> (w2, if requeues res err then r # again else again)))"

text \<open>
  With no events in between, as many turns of the worker as the queue is long empty the queue:
  every request is reconciled once, in order, and those whose runs ask for it are delayed.
\<close>

lemma work_drains:
  assumes "wq_inv (ct_queue c)" "wq_processing (ct_queue c) = {}" "ct_current c = None"
  shows "work (length (wq_queue (ct_queue c))) rec c =
    (case reconcile_all rec (wq_queue (ct_queue c)) (ct_world c) of
       (w', again) \<Rightarrow>
         c\<lparr>ct_world := w', ct_delayed := ct_delayed c @ again,
           ct_queue := (ct_queue c)\<lparr>wq_queue := [], wq_dirty := {}\<rparr>\<rparr>)"
  using assms
proof (induction "wq_queue (ct_queue c)" arbitrary: c)
  case Nil
  then have "wq_dirty (ct_queue c) = {}" by (simp add: wq_inv_def)
  with Nil show ?case by (cases c; cases "ct_queue c") simp
next
  case (Cons r rs)
  let ?q = "ct_queue c"
  obtain w1 res err where run: "rec r (ct_world c) = (w1, res, err)" by (metis prod_cases3)
  let ?c1 = "c\<lparr>ct_world := w1,
      ct_delayed := (if requeues res err then ct_delayed c @ [r] else ct_delayed c),
      ct_queue := ?q\<lparr>wq_queue := rs, wq_dirty := wq_dirty ?q - {r}\<rparr>\<rparr>"
  have q: "wq_queue ?q = r # rs" using Cons.hyps(2) by simp
  have step: "processNextWorkItem rec c = Some (?c1, err = None)"
    using q run Cons.prems(2,3)
    by (cases c; cases "ct_queue c")
      (simp add: processNextWorkItem_def wq_Get_def finish_item_def wq_Done_def)
  have "r \<notin> set rs" "wq_dirty ?q = insert r (set rs)"
    using Cons.prems(1,2) q by (auto simp: wq_inv_def)
  then have "wq_inv (ct_queue ?c1)" using Cons.prems(1,2) q by (auto simp: wq_inv_def)
  with Cons.hyps(1) [of ?c1] Cons.prems(2,3)
  have "work (length rs) rec ?c1 = (case reconcile_all rec rs w1 of
       (w', again) \<Rightarrow> ?c1\<lparr>ct_world := w', ct_delayed := ct_delayed ?c1 @ again,
           ct_queue := (ct_queue ?c1)\<lparr>wq_queue := [], wq_dirty := {}\<rparr>\<rparr>)"
    by simp
  then show ?case
    by (simp add: q [symmetric] step run split: prod.splits) (simp add: q step run split: prod.splits)
qed

end
