(* ===== verification/Operator.thy ===== *)
theory Operator
  imports Controller
begin

section \<open>The program\<close>

text \<open>
  \<^verbatim>\<open>cmd/manager/main.go\<close>. The calls into the SDK and the manager are parameters, each with the
  error it returns; the model keeps the order of the calls, the early exits and the two side
  effects that matter, the ready file and the state of the manager. \<^verbatim>\<open>os.Exit\<close> ends the program
  without running deferred calls, so the deferred removal of the ready file only happens when
  \<^verbatim>\<open>main\<close> returns, or when it panics: the registration of the custom resources does that if their
  kinds are already those of other types in the scheme of the manager.
\<close>

subsection \<open>The environment\<close>

record 'm main_env =
  me_GetWatchNamespace :: "go_error option"
  me_GetConfig :: "go_error option"
  me_Become :: "go_error option"
  me_ReadySet :: "go_error option"
  me_NewManager :: "go_error + 'm"
  me_manager :: "'m manager"
  me_scheme :: scheme
  me_Start :: "'m \<Rightarrow> go_error option"

datatype exit_status = Returned | Exited int | Panicked

text \<open>What \<^verbatim>\<open>main\<close> has done: calls in order, the ready file, the scheme and the manager.\<close>

datatype main_call =
    CallGetWatchNamespace | CallGetConfig | CallBecome | CallReadySet | CallNewManager
  | CallAddToScheme | CallAddToManager | CallStart | CallReadyUnset

record 'm main_state =
  ms_calls :: "main_call list"
  ms_ready :: bool
  ms_scheme :: scheme
  ms_manager :: "'m option"

definition called :: "main_call \<Rightarrow> 'm main_state \<Rightarrow> 'm main_state" where
  "called cl m = m\<lparr>ms_calls := ms_calls m @ [cl]\<rparr>"

subsection \<open>The steps of main\<close>

text \<open>Each step logs the error and exits, so its error ends the chain.\<close>

definition main_namespace :: "'m main_env \<Rightarrow> 'm main_state \<Rightarrow> 'm main_state \<times> go_error option" where
  "main_namespace env m = (called CallGetWatchNamespace m, me_GetWatchNamespace env)"

definition main_config :: "'m main_env \<Rightarrow> 'm main_state \<Rightarrow> 'm main_state \<times> go_error option" where
  "main_config env m = (called CallGetConfig m, me_GetConfig env)"

text \<open>The error of \<^verbatim>\<open>leader.Become\<close> is dropped.\<close>

definition main_become :: "'m main_env \<Rightarrow> 'm main_state \<Rightarrow> 'm main_state \<times> go_error option" where
  "main_become env m = (case me_Become env of _ \<Rightarrow> (called CallBecome m, None))"

definition main_ready :: "'m main_env \<Rightarrow> 'm main_state \<Rightarrow> 'm main_state \<times> go_error option" where
  "main_ready env m =
     (case me_ReadySet env of
        Some err \<Rightarrow> (called CallReadySet m, Some err)
      | None \<Rightarrow> ((called CallReadySet m)\<lparr>ms_ready := True\<rparr>, None))"

definition main_manager :: "'m main_env \<Rightarrow> 'm main_state \<Rightarrow> 'm main_state \<times> go_error option" where
  "main_manager env m =
     (case me_NewManager env of
        Inl err \<Rightarrow> (called CallNewManager m, Some err)
      | Inr mgr \<Rightarrow>
          ((called CallNewManager m)\<lparr>ms_manager := Some mgr, ms_scheme := me_scheme env\<rparr>, None))"

text \<open>\<^verbatim>\<open>apis.AddToScheme\<close> returns no error, but it may panic (\<open>None\<close>).\<close>

definition main_scheme :: "'m main_state \<Rightarrow> 'm main_state option" where
  "main_scheme m =
     map_option (\<lambda>s. (called CallAddToScheme m)\<lparr>ms_scheme := s\<rparr>) (AddToScheme (ms_scheme m))"

definition main_controllers :: "'m main_env \<Rightarrow> 'm main_state \<Rightarrow> 'm main_state \<times> go_error option" where
  "main_controllers env m =
     (case ms_manager m of
        None \<Rightarrow> (m, Some (ErrorString ''nil manager''))
      | Some mgr \<Rightarrow>
          (case AddToManager (me_manager env) mgr of
             (mgr', err) \<Rightarrow> ((called CallAddToManager m)\<lparr>ms_manager := Some mgr'\<rparr>, err)))"

definition main_start :: "'m main_env \<Rightarrow> 'm main_state \<Rightarrow> 'm main_state \<times> go_error option" where
  "main_start env m =
     (case ms_manager m of
        None \<Rightarrow> (m, Some (ErrorString ''nil manager''))
      | Some mgr \<Rightarrow> (called CallStart m, me_Start env mgr))"

definition main_setup :: "'m main_env \<Rightarrow> ('m main_state \<Rightarrow> 'm main_state \<times> go_error option) list" where
  "main_setup env =
     [main_namespace env, main_config env, main_become env, main_ready env, main_manager env]"

definition main_run :: "'m main_env \<Rightarrow> ('m main_state \<Rightarrow> 'm main_state \<times> go_error option) list" where
  "main_run env = [main_controllers env, main_start env]"

text \<open>The deferred \<^verbatim>\<open>r.Unset\<close> runs when \<^verbatim>\<open>main\<close> returns and when it panics.\<close>

definition main_unset :: "'m main_state \<Rightarrow> 'm main_state" where
  "main_unset m = (called CallReadyUnset m)\<lparr>ms_ready := False\<rparr>"

definition main :: "'m main_env \<Rightarrow> 'm main_state \<times> exit_status" where
  "main env =
     (case run_steps (main_setup env)
             \<lparr>ms_calls = [], ms_ready = False, ms_scheme = NewScheme, ms_manager = None\<rparr> of
        (m, Some err) \<Rightarrow> (m, Exited 1)
      | (m, None) \<Rightarrow>
          (case main_scheme m of
             None \<Rightarrow> (main_unset (called CallAddToScheme m), Panicked)
           | Some m1 \<Rightarrow>
               (case run_steps (main_run env) m1 of
                  (m2, Some err) \<Rightarrow> (m2, Exited 1)
                | (m2, None) \<Rightarrow> (main_unset m2, Returned))))"

lemmas main_step_defs =
  main_setup_def main_run_def main_namespace_def main_config_def main_become_def main_ready_def
  main_manager_def main_scheme_def main_controllers_def main_start_def main_unset_def called_def

lemma called_fields [simp]:
  "ms_ready (called cl m) = ms_ready m" "ms_scheme (called cl m) = ms_scheme m"
  "ms_manager (called cl m) = ms_manager m" "ms_calls (called cl m) = ms_calls m @ [cl]"
  by (simp_all add: called_def)

text \<open>Where \<^verbatim>\<open>main\<close> ends, as a function of the first call that fails.\<close>

definition first_failure :: "'m main_env \<Rightarrow> main_call option" where
  "first_failure env =
     (if me_GetWatchNamespace env \<noteq> None then Some CallGetWatchNamespace
      else if me_GetConfig env \<noteq> None then Some CallGetConfig
      else if me_ReadySet env \<noteq> None then Some CallReadySet
      else (case me_NewManager env of
              Inl e \<Rightarrow> Some CallNewManager
            | Inr mgr \<Rightarrow>
                if AddToScheme (me_scheme env) = None then Some CallAddToScheme
                else
                  (case AddToManager (me_manager env) mgr of
                     (mgr', Some e) \<Rightarrow> Some CallAddToManager
                   | (mgr', None) \<Rightarrow> if me_Start env mgr' \<noteq> None then Some CallStart else None)))"

definition main_order :: "main_call list" where
  "main_order =
     [CallGetWatchNamespace, CallGetConfig, CallBecome, CallReadySet, CallNewManager,
      CallAddToScheme, CallAddToManager, CallStart]"

text \<open>The calls of a list up to and including a given one.\<close>

fun upto_call :: "main_call \<Rightarrow> main_call list \<Rightarrow> main_call list" where
  "upto_call x [] = []"
| "upto_call x (y # ys) = (if x = y then [y] else y # upto_call x ys)"

lemma main_outcome:
  "main env = (m, st) \<Longrightarrow>
   (case first_failure env of
      None \<Rightarrow> st = Returned \<and> ms_calls m = main_order @ [CallReadyUnset] \<and> \<not> ms_ready m
    | Some f \<Rightarrow>
        st = (if f = CallAddToScheme then Panicked else Exited 1) \<and>
        ms_calls m = upto_call f main_order @ (if f = CallAddToScheme then [CallReadyUnset] else []) \<and>
        (ms_ready m \<longleftrightarrow> f \<in> {CallNewManager, CallAddToManager, CallStart}))"
  by (cases "me_GetWatchNamespace env"; cases "me_GetConfig env"; cases "me_ReadySet env";
      cases "me_NewManager env"; cases "AddToScheme (me_scheme env)")
    (auto simp: main_def main_step_defs first_failure_def main_order_def split: prod.splits option.splits)

end
