(* ===== verification/Operation_Properties.thy ===== *)
theory Operation_Properties
  imports Reconcile_Properties Operator
begin

section \<open>Properties of the running operator\<close>

text \<open>
  What happens around the reconcilers: events reach the owners of watched children, requests
  are neither lost nor processed twice at a time, everything a controller ever adds has its
  owner, and the program ends as its calls tell it to.
\<close>

subsection \<open>Watches\<close>

text \<open>The controllers with the type they reconcile and the type of child they watch.\<close>

definition operator_controllers :: "(string \<times> go_type \<times> go_type) list" where
  "operator_controllers =
     [(''atomixcluster-controller'', AtomixClusterT, StatefulSetT),
      (''partitiongroup-controller'', PartitionGroupT, StatefulSetT),
      (''benchmark-controller'', AtomixBenchmarkT, PodT)]"

lemma operator_controllersE:
  assumes "(ctl, t, child) \<in> set operator_controllers"
  obtains "ctl = ''atomixcluster-controller''" "t = AtomixClusterT" "child = StatefulSetT"
    | "ctl = ''partitiongroup-controller''" "t = PartitionGroupT" "child = StatefulSetT"
    | "ctl = ''benchmark-controller''" "t = AtomixBenchmarkT" "child = PodT"
  using assms by (auto simp: operator_controllers_def)

text \<open>What a controller is told about an object of a type.\<close>

lemma routed_simps:
  assumes "(ctl, t, child) \<in> set operator_controllers"
  shows "routed s ctl ty ev =
    (if ty = t then event_requests s EnqueueRequestForObject ev
     else if ty = child then event_requests s (EnqueueRequestForOwner t True) ev else [])"
  using assms by (cases rule: operator_controllersE) (simp_all add: routed_def operator_watches_eq)

text \<open>What an event asks of a handler, when each object on its own asks for \<open>f\<close> of it.\<close>

fun event_asks :: "(object_meta \<Rightarrow> namespaced_name list) \<Rightarrow> event \<Rightarrow> namespaced_name list" where
  "event_asks f (CreateEvent m) = f m"
| "event_asks f (UpdateEvent old new) = f old @ f new"
| "event_asks f (DeleteEvent m) = f m"
| "event_asks f (GenericEvent m) = f m"

fun event_objects :: "event \<Rightarrow> object_meta set" where
  "event_objects (CreateEvent m) = {m}"
| "event_objects (UpdateEvent old new) = {old, new}"
| "event_objects (DeleteEvent m) = {m}"
| "event_objects (GenericEvent m) = {m}"

text \<open>
  A child as the reconcilers create it, of a type, with the type and metadata of its owner, or an
  object that nothing controls.
\<close>

definition child_meta :: "go_type \<Rightarrow> (go_type \<times> object_meta) option \<Rightarrow> object_meta \<Rightarrow> bool" where
  "child_meta ty owner m \<longleftrightarrow>
     (case owner of
        None \<Rightarrow> GetControllerOf m = None
      | Some (t, o_meta) \<Rightarrow>
          t \<in> {AtomixClusterT, PartitionGroupT, AtomixBenchmarkT} \<and>
          (\<exists>u ob. type_of ob = ty \<and> m = meta_of (with_uid u (owned_by (agent_gvk t) o_meta ob))))"

definition owner_request :: "go_type \<Rightarrow> (go_type \<times> object_meta) option \<Rightarrow> object_meta \<Rightarrow> namespaced_name list" where
  "owner_request t owner m =
     (case owner of
        Some (t', o_meta) \<Rightarrow> if t' = t then [NamespacedName (om_Namespace m) (om_Name o_meta)] else []
      | None \<Rightarrow> [])"

lemma object_requests_child:
  assumes "scheme_ready s" "t \<in> {AtomixClusterT, PartitionGroupT, AtomixBenchmarkT}" "child_meta ty owner m"
  shows "object_requests s (EnqueueRequestForOwner t True) m = owner_request t owner m"
proof (cases owner)
  case None
  with assms(3) have "GetControllerOf m = None" by (simp add: child_meta_def)
  with None show ?thesis
    by (simp add: object_requests_def parseOwnerTypeGroupKind_ready [OF assms(1,2)] owner_request_def
        getOwnerReconcileRequest_def getOwnersReferences_def)
next
  case (Some p)
  then obtain t' o_meta u ob where owner: "owner = Some (t', o_meta)"
    and t': "t' \<in> {AtomixClusterT, PartitionGroupT, AtomixBenchmarkT}"
    and m: "m = meta_of (with_uid u (owned_by (agent_gvk t') o_meta ob))"
    using assms(3) by (cases p) (auto simp: child_meta_def)
  have "om_Namespace m = om_Namespace (meta_of ob)" by (simp add: m with_uid_def owned_by_def)
  moreover have "object_requests s (EnqueueRequestForOwner t True) m =
      (if t = t' then [NamespacedName (om_Namespace (meta_of ob)) (om_Name o_meta)] else [])"
    unfolding m by (rule object_requests_owned [OF assms(1,2) t'])
  ultimately show ?thesis by (simp add: owner owner_request_def eq_commute)
qed

lemma event_requests_asks:
  "(\<And>m. m \<in> event_objects ev \<Longrightarrow> object_requests s h m = f m) \<Longrightarrow> event_requests s h ev = event_asks f ev"
  by (cases ev) simp_all

text \<open>
  C26: Routing, for every kind of event. An event on a custom resource asks its controller, and
  no other, for the resource: an update for the old and for the new object, every other event for
  its one object. An event on a child asks exactly the controller of its owner's type for the
  owner, by the name in the child's controller reference, and only if the child is of the one kind
  that controller watches: stateful sets for clusters and groups, pods for benchmarks. An update
  that changes the owner asks for both owners, and what nothing controls asks for nobody. So
  nobody is told when a config map, disruption budget, service or benchmark worker set changes or
  goes.
\<close>

theorem events_reach_owner:
  assumes "scheme_ready s" "(ctl, t, child) \<in> set operator_controllers"
    and "ty \<notin> {AtomixClusterT, PartitionGroupT, AtomixBenchmarkT}"
    and "\<And>m. m \<in> event_objects ev \<Longrightarrow> child_meta ty (owner m) m"
    and "t' \<in> {AtomixClusterT, PartitionGroupT, AtomixBenchmarkT}"
  shows "routed s ctl ty ev = (if ty = child then event_asks (\<lambda>m. owner_request t (owner m) m) ev else []) \<and>
    routed s ctl t' ev' =
      (if t' = t then event_asks (\<lambda>m. [NamespacedName (om_Namespace m) (om_Name m)]) ev' else [])"
proof -
  have t: "t \<in> {AtomixClusterT, PartitionGroupT, AtomixBenchmarkT}" "child \<in> {StatefulSetT, PodT}"
    using assms(2) by (cases rule: operator_controllersE; simp)+
  have "event_requests s (EnqueueRequestForOwner t True) ev = event_asks (\<lambda>m. owner_request t (owner m) m) ev"
    by (rule event_requests_asks) (rule object_requests_child [OF assms(1) t(1) assms(4)])
  moreover have "event_requests s EnqueueRequestForObject ev' =
      event_asks (\<lambda>m. [NamespacedName (om_Namespace m) (om_Name m)]) ev'"
    by (rule event_requests_asks) (simp add: object_requests_def)
  moreover have "ty \<noteq> t" "t' \<noteq> child" using assms(3,5) t by auto
  ultimately show ?thesis by (simp add: routed_simps [OF assms(2)])
qed

text \<open>The workers' set of a benchmark asks for nobody.\<close>

theorem events_reach_owner_witness:
  "routed operator_scheme ''benchmark-controller'' StatefulSetT
     (DeleteEvent (meta_of (with_uid ''7'' (owned_by (agent_gvk AtomixBenchmarkT) sample_meta
       (StatefulSetO (NewBenchmarkWorkerStatefulSet sample_benchmark)))))) = []"
proof -
  let ?m = "meta_of (with_uid ''7'' (owned_by (agent_gvk AtomixBenchmarkT) sample_meta
       (StatefulSetO (NewBenchmarkWorkerStatefulSet sample_benchmark))))"
  have child: "child_meta StatefulSetT (Some (AtomixBenchmarkT, sample_meta)) ?m"
    by (simp add: child_meta_def)
      (intro exI [of _ "''7''"] exI [of _ "StatefulSetO (NewBenchmarkWorkerStatefulSet sample_benchmark)"], simp)
  show ?thesis
    using events_reach_owner [OF operator_scheme_ready, of "''benchmark-controller''" AtomixBenchmarkT PodT
        StatefulSetT "DeleteEvent ?m" "\<lambda>_. Some (AtomixBenchmarkT, sample_meta)" AtomixBenchmarkT] child
    by (simp add: operator_controllers_def)
qed

subsection \<open>The work queue\<close>

text \<open>A benchmark's controller that has just heard of the benchmark.\<close>

definition sample_arrival :: "fakeClient controller" where
  "sample_arrival =
     (let c = initial_controller (world_with (AtomixBenchmarkO sample_benchmark))
      in c\<lparr>ct_queue := wq_Add sample_name (ct_queue c)\<rparr>)"

abbreviation sample_run :: "fakeClient reconcile_method" where
  "sample_run \<equiv> benchmark_Reconcile \<lparr>r_client = fake_client, r_scheme = operator_scheme\<rparr>"

lemma sample_arrival_reachable:
  "(ctl_step sample_run (=) {sample_name})\<^sup>*\<^sup>*
     (initial_controller (world_with (AtomixBenchmarkO sample_benchmark))) sample_arrival"
  unfolding sample_arrival_def Let_def by (rule r_into_rtranclp) (rule ctl_step.arrive, simp)

lemma sample_arrival_facts:
  "wq_dirty (ct_queue sample_arrival) = {sample_name}" "ct_current sample_arrival = None"
  "ct_world sample_arrival = world_with (AtomixBenchmarkO sample_benchmark)" "ct_delayed sample_arrival = []"
  by (simp_all add: sample_arrival_def initial_controller_def wq_New_def wq_Add_def Let_def)

text \<open>The worker has taken the request, and has reconciled it.\<close>

definition sample_taken :: "fakeClient controller" where
  "sample_taken =
     sample_arrival\<lparr>ct_queue := wq_New\<lparr>wq_processing := {sample_name}\<rparr>, ct_current := Some sample_name\<rparr>"

lemma sample_taken_step: "ctl_step sample_run (=) {sample_name} sample_arrival sample_taken"
  unfolding sample_taken_def
  by (rule ctl_step.take)
    (simp_all add: sample_arrival_def initial_controller_def wq_New_def wq_Add_def wq_Get_def Let_def)

definition sample_finished :: "fakeClient controller" where
  "sample_finished = fst (finish_item sample_run sample_name sample_taken)"

lemma sample_finished_reachable:
  "(ctl_step sample_run (=) {sample_name})\<^sup>*\<^sup>*
     (initial_controller (world_with (AtomixBenchmarkO sample_benchmark))) sample_finished"
proof -
  have "ctl_step sample_run (=) {sample_name} sample_taken sample_finished"
    unfolding sample_finished_def by (rule ctl_step.finish) (simp add: sample_taken_def)
  with sample_arrival_reachable sample_taken_step show ?thesis by (meson rtranclp.rtrancl_into_rtrancl)
qed

lemma sample_finished_pod: "\<exists>x. fake_objs (ct_world sample_finished) (PodT, sample_name) = Some x"
proof -
  let ?w = "world_with (AtomixBenchmarkO sample_benchmark)"
  have stored: "fake_objs ?w (AtomixBenchmarkT, sample_name) = Some (AtomixBenchmarkO sample_benchmark)"
    by (simp add: benchmark_world)
  obtain w' where run: "sample_run sample_name ?w = (w', zero_result, None)"
    using fake_benchmark.reconcile_refines [OF benchmark_world(1) proper_sample stored, of operator_scheme]
    by (auto simp: benchmark_items_built [OF operator_scheme_ready] converge_owned)
  obtain w1 where get: "cl_Get fake_client ?w AtomixBenchmarkT sample_name = (w1, Inr (AtomixBenchmarkO sample_benchmark))"
    by (rule fake_benchmark.owner_get [OF benchmark_world(1) proper_sample stored])
  have "(PodT, sample_name) \<in> plan_keys (benchmark_plan operator_scheme (AtomixBenchmarkO sample_benchmark))"
    by (simp add: benchmark_items_def Let_def name_defs sample_name_def sample_meta_def new_meta_def)
  with fake_benchmark.reconcile_complete [OF benchmark_world(1) proper_sample get run]
  have "fake_objs w' (PodT, sample_name) \<noteq> None" by blast
  moreover have "ct_world sample_taken = ?w" by (simp add: sample_taken_def sample_arrival_facts)
  ultimately show ?thesis
    using run by (simp add: sample_finished_def finish_item_def)
qed

text \<open>
  C27: In every reachable state of a controller the queue holds each request once, the only
  request being processed is the worker's, and it is not in the queue: no owner is reconciled
  by two runs at a time, and every dirty request that is not being processed is in the queue.
\<close>

theorem never_reconciled_twice_at_a_time:
  assumes "(ctl_step rec env reqs)\<^sup>*\<^sup>* (initial_controller w) c"
  shows "distinct (wq_queue (ct_queue c)) \<and>
    wq_processing (ct_queue c) = set_option (ct_current c) \<and>
    set (wq_queue (ct_queue c)) = wq_dirty (ct_queue c) - set_option (ct_current c)"
  using ctl_inv_steps [OF assms, of "\<lambda>_. True"] ctl_inv_initial [of "\<lambda>_. True" w]
  by (simp add: ctl_inv_def wq_inv_def)

theorem never_reconciled_twice_at_a_time_witness:
  "sample_name \<in> set (wq_queue (ct_queue sample_arrival)) \<and> distinct (wq_queue (ct_queue sample_arrival))"
  using never_reconciled_twice_at_a_time [OF sample_arrival_reachable] sample_arrival_facts by simp

text \<open>
  C28: No request is lost. From any reachable state a request that is waiting, delayed or being
  reconciled stays so, through any interleaving of events, delays, runs and changes of the
  world, until a run for it ends that does not ask for a retry and during which no event for it
  came in. In particular a run that fails brings its request back.
\<close>

theorem requests_not_lost:
  assumes "(ctl_step rec env reqs)\<^sup>*\<^sup>* (initial_controller w) c" "r \<in> outstanding c"
    and "(ctl_step rec env reqs)\<^sup>*\<^sup>* c c'"
  shows "r \<in> outstanding c' \<or>
    (\<exists>c1 c2. (ctl_step rec env reqs)\<^sup>*\<^sup>* c c1 \<and> settles rec r c1 \<and> ctl_step rec env reqs c1 c2 \<and>
       (ctl_step rec env reqs)\<^sup>*\<^sup>* c2 c')"
  using assms(3)
proof induction
  case base
  with assms(2) show ?case by simp
next
  case (step c1 c2)
  have inv: "ctl_inv (\<lambda>_. True) c1"
    using ctl_inv_steps [OF rtranclp_trans [OF assms(1) step.hyps(1)], of "\<lambda>_. True"]
      ctl_inv_initial [of "\<lambda>_. True" w] by simp
  from step.IH show ?case
  proof
    assume "r \<in> outstanding c1"
    with outstanding_step [OF step.hyps(2) inv] have "r \<in> outstanding c2 \<or> settles rec r c1" by blast
    with step.hyps show ?thesis by blast
  qed (use step.hyps(2) in \<open>blast intro: rtranclp.rtrancl_into_rtrancl\<close>)
qed

theorem requests_not_lost_witness:
  "ct_current sample_taken = Some sample_name \<and>
   (sample_name \<in> outstanding sample_taken \<or>
    (\<exists>c1. (ctl_step sample_run (=) {sample_name})\<^sup>*\<^sup>* sample_arrival c1 \<and> settles sample_run sample_name c1))"
proof -
  have "sample_name \<in> outstanding sample_arrival" by (simp add: outstanding_def sample_arrival_facts)
  moreover have "(ctl_step sample_run (=) {sample_name})\<^sup>*\<^sup>* sample_arrival sample_taken"
    by (rule r_into_rtranclp) (rule sample_taken_step)
  ultimately have "sample_name \<in> outstanding sample_taken \<or>
    (\<exists>c1. (ctl_step sample_run (=) {sample_name})\<^sup>*\<^sup>* sample_arrival c1 \<and> settles sample_run sample_name c1)"
    using requests_not_lost [OF sample_arrival_reachable] by blast
  then show ?thesis by (simp add: sample_taken_def)
qed

text \<open>
  A request that arrives while it is being processed is not merged into the run that may
  already have read the old state: it is not handed out as long as the run goes on, and once the
  run is done it is in the queue again.
\<close>

lemma request_during_run_kept:
  assumes "wq_inv q" "\<not> wq_shuttingDown q" "r \<in> wq_processing q"
  shows "r \<notin> set (wq_queue (wq_Add r q)) \<and> r \<in> set (wq_queue (wq_Done r (wq_Add r q)))"
  using wq.readd_not_lost [OF assms] wq.waiting_idle [OF wq.inv_add [OF assms(1)]] wq.add_busy [OF assms(1)]
    assms(3) by auto

lemma request_during_run_kept_witness:
  "wq_queue (wq_Done sample_name (wq_Add sample_name
     \<lparr>wq_queue = [], wq_dirty = {}, wq_processing = {sample_name}, wq_shuttingDown = False\<rparr>)) \<noteq> []"
  using request_during_run_kept
    [of "\<lparr>wq_queue = [], wq_dirty = {}, wq_processing = {sample_name}, wq_shuttingDown = False\<rparr>" sample_name]
  by (auto simp: wq_inv_def)

text \<open>
  The queue drains. From a reachable state in which the worker is idle, and with no events
  in between, as many turns of the worker as there are requests empty the queue: every request
  is reconciled once, in the order of the queue, and exactly those whose runs fail or ask for it
  are delayed for a retry.
\<close>

lemma queue_drains:
  assumes "(ctl_step rec env reqs)\<^sup>*\<^sup>* (initial_controller w) c" "ct_current c = None"
  shows "work (length (wq_queue (ct_queue c))) rec c =
    (case reconcile_all rec (wq_queue (ct_queue c)) (ct_world c) of
       (w', again) \<Rightarrow>
         c\<lparr>ct_world := w', ct_delayed := ct_delayed c @ again,
           ct_queue := (ct_queue c)\<lparr>wq_queue := [], wq_dirty := {}\<rparr>\<rparr>)"
proof -
  have "ctl_inv (\<lambda>_. True) c"
    using ctl_inv_steps [OF assms(1), of "\<lambda>_. True"] ctl_inv_initial [of "\<lambda>_. True" w] by simp
  then show ?thesis using assms(2) by (intro work_drains) (simp_all add: ctl_inv_def)
qed

lemma queue_drains_witness:
  "wq_queue (ct_queue (work 1 sample_run sample_arrival)) = []"
proof -
  have "wq_queue (ct_queue sample_arrival) = [sample_name]"
    by (simp add: sample_arrival_def initial_controller_def wq_New_def wq_Add_def Let_def)
  then show ?thesis
    using queue_drains [OF sample_arrival_reachable sample_arrival_facts(2)]
    by (simp split: prod.splits)
qed

definition child_types :: "go_type set" where
  "child_types = managed_types \<union> benchmark_types"

definition is_child_of :: "go_type \<Rightarrow> namespaced_name \<Rightarrow> obj_key \<Rightarrow> kobj \<Rightarrow> bool" where
  "is_child_of t r k x \<longleftrightarrow>
     fst k \<in> child_types \<and> key_of x = k \<and> nn_Namespace (snd k) = nn_Namespace r \<and>
     controlled_by t (nn_Name r) x"

lemma reconcilers_add_children:
  assumes "api_client cl objs ok" "ok w" "proper_name r" "scheme_ready s"
    and "(t, rec) \<in> set (reconcilers \<lparr>r_client = cl, r_scheme = s\<rparr>)" "rec r w = (w', res, e)"
  shows "ok w' \<and> (\<forall>k x. objs w' k = Some x \<longrightarrow> objs w k = Some x \<or> is_child_of t r k x)"
proof -
  have "ok w'" "only_adds t (child_types_of t) r (objs w) (objs w')" "child_types_of t \<subseteq> child_types"
    using reconcilers_only_add [OF assms] by (simp_all add: child_types_of_def child_types_def)
  then show ?thesis by (fastforce simp: only_adds_def is_child_of_def dest: map_leD)
qed

text \<open>
  C29: Safety of a whole controller. Whatever events come in, however runs, retries and the
  changes of others interleave, every object in the store at any time was there at the start,
  was written by somebody else, or is a child: of one of the managed types, under its own key,
  in the namespace of a requested owner and with that owner as its controller.
\<close>

theorem controller_only_adds_children:
  assumes "api_client cl objs ok" "scheme_ready s" "ok w"
    and "(t, rec) \<in> set (reconcilers \<lparr>r_client = cl, r_scheme = s\<rparr>)" "reqs \<subseteq> Collect proper_name"
    and "\<And>v v'. ok v \<Longrightarrow> env v v' \<Longrightarrow>
      ok v' \<and> (\<forall>k x. objs v' k = Some x \<longrightarrow> objs v k = Some x \<or> (k, x) \<in> others)"
    and "(ctl_step rec env reqs)\<^sup>*\<^sup>* (initial_controller w) c" "objs (ct_world c) k = Some x"
  shows "objs w k = Some x \<or> (k, x) \<in> others \<or> (\<exists>r\<in>reqs. is_child_of t r k x)"
proof -
  let ?good = "\<lambda>k x. objs w k = Some x \<or> (k, x) \<in> others \<or> (\<exists>r\<in>reqs. is_child_of t r k x)"
  have "ok (ct_world c) \<and> (\<forall>k x. objs (ct_world c) k = Some x \<longrightarrow> ?good k x)"
    using assms(7)
  proof induction
    case base
    then show ?case using assms(3) by (simp add: initial_controller_def)
  next
    case (step c1 c2)
    have reqs: "outstanding c1 \<subseteq> reqs"
      using outstanding_reqs [OF step.hyps(1)] by (simp add: initial_controller_def wq_New_def outstanding_def)
    from step.hyps(2) show ?case
    proof cases
      case (finish r)
      then have r: "r \<in> reqs" "proper_name r" using reqs assms(5) by (auto simp: outstanding_def)
      obtain w' res e where run: "rec r (ct_world c1) = (w', res, e)" by (metis prod_cases3)
      have "ct_world c2 = w'" using finish(1) by (simp add: finish_item_fields [where rec = rec and c = c1, OF run])
      with reconcilers_add_children [OF assms(1) _ r(2) assms(2,4) run] step.IH r(1)
      show ?thesis by blast
    next
      case (change w')
      then have "ct_world c2 = w'" by simp
      moreover have "ok w' \<and> (\<forall>k x. objs w' k = Some x \<longrightarrow> objs (ct_world c1) k = Some x \<or> (k, x) \<in> others)"
        using change(2) step.IH by (intro assms(6)) simp_all
      ultimately show ?thesis using step.IH by blast
    qed (use step.IH in simp_all)
  qed
  with assms(8) show ?thesis by blast
qed

theorem controller_only_adds_children_witness:
  "\<exists>x. fake_objs (ct_world sample_finished) (PodT, sample_name) = Some x \<and>
     is_child_of AtomixBenchmarkT sample_name (PodT, sample_name) x"
proof -
  obtain x where x: "fake_objs (ct_world sample_finished) (PodT, sample_name) = Some x"
    using sample_finished_pod by blast
  have member: "(AtomixBenchmarkT, sample_run) \<in> set (reconcilers \<lparr>r_client = fake_client, r_scheme = operator_scheme\<rparr>)"
    by (simp add: reconcilers_def)
  have "fake_objs (world_with (AtomixBenchmarkO sample_benchmark)) (PodT, sample_name) = Some x \<or>
      ((PodT, sample_name), x) \<in> {} \<or> (\<exists>r\<in>{sample_name}. is_child_of AtomixBenchmarkT r (PodT, sample_name) x)"
    by (rule controller_only_adds_children [OF fake.api_client_axioms operator_scheme_ready
        benchmark_world(1) member _ _ sample_finished_reachable x]) auto
  with x show ?thesis by (simp add: benchmark_world)
qed

subsection \<open>The program\<close>

lemma leader_ignored: "main (env\<lparr>me_Become := e\<rparr>) = main env"
proof -
  have "main_setup (env\<lparr>me_Become := e\<rparr>) = main_setup env" "main_run (env\<lparr>me_Become := e\<rparr>) = main_run env"
    by (simp_all add: main_step_defs fun_eq_iff cong: option.case_cong sum.case_cong)
  then show ?thesis by (simp only: main_def)
qed

text \<open>The manager that is started has been given the scheme and the controllers.\<close>

lemma main_starts:
  assumes "me_NewManager env = Inr mgr" "first_failure env \<in> {None, Some CallStart}"
  shows "ms_manager (fst (main env)) = Some (fst (AddToManager (me_manager env) mgr))"
    and "AddToScheme (me_scheme env) = Some (ms_scheme (fst (main env)))"
  using assms
  by (auto simp: main_def main_step_defs first_failure_def split: option.splits if_splits prod.splits)

lemma watched_by_operator:
  "(\<lambda>(ctl, t, h). (ctl, t)) ` set (fst (AddToManager recording_manager [])) =
     {p. \<exists>(ctl, t, child)\<in>set operator_controllers. p = (ctl, t) \<or> p = (ctl, child)}"
  unfolding operator_watches_def [symmetric] by (auto simp: operator_watches_eq operator_controllers_def)

text \<open>
  What the manager runs with. When the program gets as far as starting the manager, the
  custom resources are registered in its scheme, and the manager has the three controllers with
  their six watches, which is all that it will ever watch.
\<close>

lemma main_starts_ready:
  assumes "me_manager env = recording_manager" "me_NewManager env = Inr []"
    and "first_failure env \<in> {None, Some CallStart}"
  shows "ms_manager (fst (main env)) = Some operator_watches \<and>
    AddToScheme (me_scheme env) = Some (ms_scheme (fst (main env))) \<and>
    (\<lambda>(ctl, t, h). (ctl, t)) ` set operator_watches =
      {p. \<exists>(ctl, t, child)\<in>set operator_controllers. p = (ctl, t) \<or> p = (ctl, child)}"
proof -
  have "AddToManager recording_manager [] = (operator_watches, None)"
    by (simp add: operator_watches_eq AddToManager_def AddToManagerFuncs_def AddController_def
        cluster_Add_def group_Add_def benchmark_Add_def recording_manager_def)
  with main_starts [of env "[]"] assms watched_by_operator show ?thesis by simp
qed

definition sample_env :: "watch list main_env" where
  "sample_env =
     \<lparr>me_GetWatchNamespace = None, me_GetConfig = None, me_Become = Some (ErrorString ''not the leader''),
      me_ReadySet = None, me_NewManager = Inr [], me_manager = recording_manager,
      me_scheme = builtin_scheme, me_Start = (\<lambda>_. None)\<rparr>"

lemma main_starts_ready_witness:
  "ms_manager (fst (main sample_env)) = Some operator_watches \<and>
   ms_scheme (fst (main sample_env)) = operator_scheme"
proof -
  have "first_failure sample_env \<in> {None, Some CallStart}"
    by (simp add: sample_env_def first_failure_def operator_scheme_registered split: prod.splits option.splits)
      (simp add: AddToManager_def AddToManagerFuncs_def AddController_def cluster_Add_def group_Add_def
        benchmark_Add_def recording_manager_def)
  with main_starts_ready [of sample_env] show ?thesis
    by (simp add: sample_env_def operator_scheme_registered)
qed

text \<open>
  C30: The end of the program is the first call that fails. If none does, \<^verbatim>\<open>main\<close> makes all calls
  in order, removes the ready file and returns. Otherwise it makes the calls up to the failing
  one and exits with status 1, and the ready file stays behind exactly if the failure comes
  after it was written: the deferred removal does not run. It does run when the registration of
  the custom resources panics, because their kinds belong to other types (C24). The one call whose failure changes
  nothing is \<^verbatim>\<open>leader.Become\<close>: an operator that is not the leader runs its controllers like one
  that is. When the manager is started, the custom resources are registered in its scheme and the
  three controllers have been added to it, with their six watches and no more.
\<close>

theorem main_ends:
  "(case (main env, first_failure env) of
      ((m, st), None) \<Rightarrow> st = Returned \<and> ms_calls m = main_order @ [CallReadyUnset] \<and> \<not> ms_ready m
    | ((m, st), Some f) \<Rightarrow>
        st = (if f = CallAddToScheme then Panicked else Exited 1) \<and>
        ms_calls m = upto_call f main_order @ (if f = CallAddToScheme then [CallReadyUnset] else []) \<and>
        (ms_ready m \<longleftrightarrow> f \<in> {CallNewManager, CallAddToManager, CallStart})) \<and>
   main (env\<lparr>me_Become := e\<rparr>) = main env \<and>
   (\<forall>mgr. me_NewManager env = Inr mgr \<and> first_failure env \<in> {None, Some CallStart} \<longrightarrow>
      ms_manager (fst (main env)) = Some (fst (AddToManager (me_manager env) mgr)) \<and>
      AddToScheme (me_scheme env) = Some (ms_scheme (fst (main env)))) \<and>
   (\<lambda>(ctl, t, h). (ctl, t)) ` set (fst (AddToManager recording_manager [])) =
     {p. \<exists>(ctl, t, child)\<in>set operator_controllers. p = (ctl, t) \<or> p = (ctl, child)}"
  using main_starts [of env] watched_by_operator main_outcome [of env]
    leader_ignored [where env = env and e = e]
  by (auto split: prod.splits option.splits)

theorem main_ends_witness:
  "ms_scheme (fst (main sample_env)) = operator_scheme \<and> \<not> ms_ready (fst (main sample_env))"
proof -
  have none: "first_failure sample_env = None"
    by (simp add: sample_env_def first_failure_def operator_scheme_registered split: prod.splits option.splits)
      (simp add: AddToManager_def AddToManagerFuncs_def AddController_def cluster_Add_def group_Add_def
        benchmark_Add_def recording_manager_def)
  have "me_NewManager sample_env = Inr []" "me_scheme sample_env = builtin_scheme" by (simp_all add: sample_env_def)
  with main_ends [of sample_env] none show ?thesis
    by (cases "main sample_env") (simp add: operator_scheme_registered)
qed

end
