(* ===== verification/Child_Keys.thy ===== *)
theory Child_Keys
  imports Operation_Properties
begin

section \<open>The children of an owner by their keys\<close>

text \<open>
  Which objects the reconciler of a custom resource looks at, as a function of the resource's
  name, and what a successful run leaves under these keys: the view of a run that the
  composition of the controllers (\<open>Operator_System\<close>) and the life of a resource
  (\<open>Spec2Isabelle\<close>) rest on.
\<close>

subsection \<open>The children of an owner\<close>

text \<open>
  The keys a reconciler looks at. They depend on the name and namespace of the owner only, and
  are the same for a cluster and a group.
\<close>

definition child_keys :: "go_type \<Rightarrow> namespaced_name \<Rightarrow> obj_key list" where
  "child_keys t nn =
     (let key = (\<lambda>ty suffix. (ty, NamespacedName (nn_Namespace nn) (nn_Name nn @ suffix)))
      in [key ConfigMapT ''-init'', key ConfigMapT ''-config'', key StatefulSetT []] @
         (if t = AtomixBenchmarkT then [key PodT [], key ServiceT ''-service'']
          else [key PodDisruptionBudgetT ''-pdb'', key ServiceT []]))"

lemma plan_child_keys:
  "plan_keys (cluster_plan s (AtomixClusterO c)) = set (child_keys AtomixClusterT (meta_name (ac_Meta c)))"
  "plan_keys (group_plan s (PartitionGroupO g)) = set (child_keys PartitionGroupT (meta_name (pg_Meta g)))"
  "plan_keys (benchmark_plan s (AtomixBenchmarkO b)) =
     set (child_keys AtomixBenchmarkT (meta_name (ab_Meta b)))"
  by (auto simp: cluster_items_def group_items_def benchmark_items_def Let_def child_keys_def
      meta_name_def name_defs suffix_defs)

text \<open>The plan for a custom resource of any of the three kinds.\<close>

definition operator_plan :: "scheme \<Rightarrow> kobj \<Rightarrow> plan" where
  "operator_plan s ob =
     (if type_of ob = AtomixClusterT then cluster_plan s ob
      else if type_of ob = PartitionGroupT then group_plan s ob
      else benchmark_plan s ob)"

text \<open>All three are reconcilers in the sense of the locale, with these keys in their plans.\<close>

lemma reconcilers_reliable_plan:
  assumes "reliable_client cl objs ok" "(t, rec) \<in> set (reconcilers \<lparr>r_client = cl, r_scheme = s\<rparr>)"
  obtains mk plan_of where "reliable_reconciler cl objs ok t mk plan_of rec"
    "\<And>ob nn. key_of ob = (t, nn) \<Longrightarrow> plan_keys (plan_of ob) = set (child_keys t nn)"
    "\<And>ob nn. key_of ob = (t, nn) \<Longrightarrow> plan_of ob = operator_plan s ob"
proof -
  consider "t = AtomixClusterT" "rec = cluster_Reconcile \<lparr>r_client = cl, r_scheme = s\<rparr>"
    | "t = PartitionGroupT" "rec = group_Reconcile \<lparr>r_client = cl, r_scheme = s\<rparr>"
    | "t = AtomixBenchmarkT" "rec = benchmark_Reconcile \<lparr>r_client = cl, r_scheme = s\<rparr>"
    using assms(2) by (auto simp: reconcilers_def)
  then show thesis
  proof cases
    case 1
    show thesis
      by (rule that [of ensure "cluster_plan s"]) (use 1 cluster_reliable [OF assms(1), of s] plan_child_keys(1) in
        \<open>auto simp: key_of_def type_of_custom operator_plan_def\<close>)
  next
    case 2
    show thesis
      by (rule that [of ensure "group_plan s"]) (use 2 group_reliable [OF assms(1), of s] plan_child_keys(2) in
        \<open>auto simp: key_of_def type_of_custom operator_plan_def\<close>)
  next
    case 3
    show thesis
      by (rule that [of ensure_twice "benchmark_plan s"]) (use 3 benchmark_reliable [OF assms(1), of s] plan_child_keys(3) in
        \<open>auto simp: key_of_def type_of_custom operator_plan_def\<close>)
  qed
qed

lemma reconcilers_reliable:
  assumes "reliable_client cl objs ok" "(t, rec) \<in> set (reconcilers \<lparr>r_client = cl, r_scheme = s\<rparr>)"
  obtains mk plan_of where "reliable_reconciler cl objs ok t mk plan_of rec"
    "\<And>ob nn. key_of ob = (t, nn) \<Longrightarrow> plan_keys (plan_of ob) = set (child_keys t nn)"
  using reconcilers_reliable_plan [OF assms] that by metis

lemma run_keeps_and_completes:
  assumes "reliable_client cl objs ok" "ok w" "proper_name nn"
    and "(t, rec) \<in> set (reconcilers \<lparr>r_client = cl, r_scheme = s\<rparr>)"
    and "objs w (t, nn) = Some ob" "rec nn w = (w', res, None)"
  shows "ok w'" "objs w \<subseteq>\<^sub>m objs w'" "\<forall>k\<in>set (child_keys t nn). objs w' k \<noteq> None"
proof -
  obtain mk plan_of where rec: "reliable_reconciler cl objs ok t mk plan_of rec"
    and keys: "\<And>ob nn. key_of ob = (t, nn) \<Longrightarrow> plan_keys (plan_of ob) = set (child_keys t nn)"
    using reconcilers_reliable [OF assms(1,4)] by blast
  have sound: "sound_reconciler cl objs ok t mk plan_of rec" and planned: "planned_reconciler cl objs ok t mk plan_of rec"
    using rec by (simp_all add: reliable_reconciler_def sound_reconciler_def)
  show "ok w'" "objs w \<subseteq>\<^sub>m objs w'" using planned_reconciler.reconcile_ok [OF planned assms(2,3,6)] by simp_all
  obtain w1 where "cl_Get cl w t nn = (w1, Inr ob)"
    by (rule reliable_reconciler.owner_get [OF rec assms(2,3,5)])
  from sound_reconciler.reconcile_complete [OF sound assms(2,3) this assms(6)]
  show "\<forall>k\<in>set (child_keys t nn). objs w' k \<noteq> None"
    using keys reliable_client.stored_key [OF assms(1-3,5)] by blast
qed

text \<open>
  What a run does, in one place: it only adds children of its resource under the child keys, it
  asks for nothing but a retry on an error, and it fails only if the resource has a child that
  cannot be built.
\<close>

lemma run_effect:
  assumes "reliable_client cl objs ok" "ok w" "proper_name nn" "scheme_ready s"
    and "(t, rec) \<in> set (reconcilers \<lparr>r_client = cl, r_scheme = s\<rparr>)" "rec nn w = (w', res, e)"
  shows "ok w'" "objs w \<subseteq>\<^sub>m objs w'" "res = zero_result"
    and "objs w' k = Some x \<Longrightarrow> objs w k = None \<Longrightarrow> k \<in> set (child_keys t nn) \<and> is_child_of t nn k x"
    and "e = None \<Longrightarrow> objs w (t, nn) \<noteq> None \<Longrightarrow> \<forall>k\<in>set (child_keys t nn). objs w' k \<noteq> None"
    and "e = Some err \<Longrightarrow> \<exists>ob k. objs w (t, nn) = Some ob \<and> (k, Inl err) \<in> set (operator_plan s ob)"
proof -
  obtain mk plan_of where rec: "reliable_reconciler cl objs ok t mk plan_of rec"
    and keys: "\<And>ob nn. key_of ob = (t, nn) \<Longrightarrow> plan_keys (plan_of ob) = set (child_keys t nn)"
    and plan: "\<And>ob nn. key_of ob = (t, nn) \<Longrightarrow> plan_of ob = operator_plan s ob"
    using reconcilers_reliable_plan [OF assms(1,5)] by metis
  have planned: "planned_reconciler cl objs ok t mk plan_of rec" and api: "api_client cl objs ok"
    using rec by (simp_all add: reliable_reconciler_def sound_reconciler_def planned_reconciler_def)
  show "ok w'" "objs w \<subseteq>\<^sub>m objs w'" using planned_reconciler.reconcile_ok [OF planned assms(2,3,6)] by simp_all
  show "e = None \<Longrightarrow> objs w (t, nn) \<noteq> None \<Longrightarrow> \<forall>k\<in>set (child_keys t nn). objs w' k \<noteq> None"
    using run_keeps_and_completes(3) [OF assms(1-3,5)] assms(6) by auto
  note key = reliable_client.stored_key [OF assms(1-3)]
  show "res = zero_result"
    using reliable_reconciler.reconcile_absent [OF rec assms(2,3)]
      reliable_reconciler.reconcile_refines [OF rec assms(2,3)] assms(6)
    by (cases "objs w (t, nn)") fastforce+
  show "\<exists>ob k. objs w (t, nn) = Some ob \<and> (k, Inl err) \<in> set (operator_plan s ob)" if "e = Some err"
  proof -
    obtain ob where ob: "objs w (t, nn) = Some ob"
      using reliable_reconciler.reconcile_absent [OF rec assms(2,3)] assms(6) \<open>e = Some err\<close>
      by (cases "objs w (t, nn)") auto
    with reliable_reconciler.reconcile_failsE [OF rec assms(2,3) ob] assms(6) \<open>e = Some err\<close>
    obtain pre k post where "plan_of ob = pre @ (k, Inl err) # post" by blast
    then have "(k, Inl err) \<in> set (operator_plan s ob)" using plan [OF key [OF ob]] by simp
    with ob show ?thesis by blast
  qed
  assume new: "objs w' k = Some x" "objs w k = None"
  have "is_child_of t nn k x"
    using reconcilers_add_children [OF api assms(2,3,4,5,6)] new by (metis option.distinct(1))
  moreover have "k \<in> set (child_keys t nn)"
  proof (cases "objs w (t, nn)")
    case None
    with reliable_reconciler.reconcile_absent [OF rec assms(2,3)] assms(6) new show ?thesis by auto
  next
    case (Some ob)
    obtain w1 where "cl_Get cl w t nn = (w1, Inr ob)"
      by (rule reliable_reconciler.owner_get [OF rec assms(2,3) Some])
    from planned_reconciler.reconcile_safe(2) [OF planned assms(2,3) this assms(6)]
    obtain ob0 where "(k, ob0) \<in> plan_objects (plan_of ob)"
      using grows_by_new new by blast
    then show ?thesis using plan_objects_keys keys [OF key [OF Some]] by blast
  qed
  ultimately show "k \<in> set (child_keys t nn) \<and> is_child_of t nn k x" by simp
qed

text \<open>The method at which the properties of runs are instantiated.\<close>

abbreviation sample_cluster_run :: "fakeClient reconcile_method" where
  "sample_cluster_run \<equiv> cluster_Reconcile \<lparr>r_client = fake_client, r_scheme = operator_scheme\<rparr>"

lemma sample_cluster_member:
  "(AtomixClusterT, sample_cluster_run) \<in> set (reconcilers \<lparr>r_client = fake_client, r_scheme = operator_scheme\<rparr>)"
  by (simp add: reconcilers_def)

end
