(* ===== verification/Operator_System.thy ===== *)
theory Operator_System
  imports Child_Keys
begin

section \<open>The operator as a whole\<close>

text \<open>
  The three controllers run at the same time in one process: they share the store, and what one
  of them writes comes back to all as events. This theory composes them. A state holds the
  world, the three controllers with their queues and workers, and the events that informers have
  noticed and not yet handed to a controller. Steps are the delivery of an event, a step of a
  worker, a delayed request that falls due, the periodic resynchronisation of the informers, and
  a change that somebody else makes to the store.
\<close>

subsection \<open>The controllers\<close>

definition owner_types :: "go_type set" where
  "owner_types = {AtomixClusterT, PartitionGroupT, AtomixBenchmarkT}"

text \<open>A controller is identified by the type of the resources that it reconciles.\<close>

definition controller_name :: "go_type \<Rightarrow> string" where
  "controller_name t =
     (if t = AtomixClusterT then ''atomixcluster-controller''
      else if t = PartitionGroupT then ''partitiongroup-controller''
      else ''benchmark-controller'')"

definition watched_types :: "go_type \<Rightarrow> go_type set" where
  "watched_types t = (\<lambda>(n, src, h). src) ` {x \<in> set operator_watches. fst x = controller_name t}"

lemma watched_types_eq:
  "t \<in> owner_types \<Longrightarrow> watched_types t = {t, if t = AtomixBenchmarkT then PodT else StatefulSetT}"
  by (auto simp: owner_types_def watched_types_def controller_name_def operator_watches_eq image_iff)

lemma controllers_of_types:
  "t \<in> owner_types \<Longrightarrow>
   (controller_name t, t, if t = AtomixBenchmarkT then PodT else StatefulSetT) \<in> set operator_controllers"
  by (auto simp: owner_types_def controller_name_def operator_controllers_def)

subsection \<open>Events\<close>

text \<open>
  An informer compares an object with what it has in its index and notifies its listeners of an
  addition, an update or a deletion (\<^verbatim>\<open>HandleDeltas\<close>); the source of the watch wraps that as an
  event and calls the handler (\<^verbatim>\<open>OnAdd\<close>, \<^verbatim>\<open>OnUpdate\<close>, \<^verbatim>\<open>OnDelete\<close>; no predicates are used).
  The object of a deletion is the last version of it, which is the one in the index.
\<close>

fun notification :: "kobj option \<Rightarrow> kobj option \<Rightarrow> event option" where
  "notification None None = None"
| "notification None (Some new) = Some (CreateEvent (meta_of new))"
| "notification (Some old) (Some new) = Some (UpdateEvent (meta_of old) (meta_of new))"
| "notification (Some old) None = Some (DeleteEvent (meta_of old))"

type_synonym typed_event = "go_type \<times> event"

text \<open>The events of a change of the store, and those of a resynchronisation: an update for each object.\<close>

definition changes :: "store \<Rightarrow> store \<Rightarrow> typed_event set" where
  "changes m m' = {(ty, ev). \<exists>nn. m (ty, nn) \<noteq> m' (ty, nn) \<and> notification (m (ty, nn)) (m' (ty, nn)) = Some ev}"

definition resync_events :: "store \<Rightarrow> typed_event set" where
  "resync_events m = {(ty, ev). \<exists>nn. notification (m (ty, nn)) (m (ty, nn)) = Some ev}"

definition requests_of :: "scheme \<Rightarrow> go_type \<Rightarrow> typed_event \<Rightarrow> namespaced_name list" where
  "requests_of s t e = routed s (controller_name t) (fst e) (snd e)"

text \<open>A controller receives an event on an object of a type.\<close>

definition deliver_event :: "scheme \<Rightarrow> string \<Rightarrow> go_type \<Rightarrow> event \<Rightarrow> 'w controller \<Rightarrow> 'w controller" where
  "deliver_event s ctl t ev c = c\<lparr>ct_queue := fold wq_Add (routed s ctl t ev) (ct_queue c)\<rparr>"

subsection \<open>States\<close>

record 'w operator_state =
  os_world :: 'w
  os_ctl :: "go_type \<Rightarrow> 'w controller" \<comment> \<open>queue, delayed requests and worker of each controller\<close>
  os_events :: "go_type \<Rightarrow> typed_event set" \<comment> \<open>noticed and not yet handled, for each controller\<close>

text \<open>A controller sees the shared world.\<close>

definition view ::
  "('w, 'z) operator_state_scheme \<Rightarrow> go_type \<Rightarrow> 'w controller" where
  "view sy t = (os_ctl sy t)\<lparr>ct_world := os_world sy\<rparr>"

definition announce ::
  "typed_event set \<Rightarrow> ('w, 'z) operator_state_scheme \<Rightarrow> ('w, 'z) operator_state_scheme" where
  "announce evs sy = sy\<lparr>os_events := \<lambda>t. os_events sy t \<union> {e \<in> evs. fst e \<in> watched_types t}\<rparr>"

text \<open>A controller has made a step; what it has changed in the world is announced to all.\<close>

definition put_view ::
  "('w \<Rightarrow> store) \<Rightarrow> go_type \<Rightarrow> 'w controller \<Rightarrow> 'w operator_state \<Rightarrow> 'w operator_state" where
  "put_view objs t c sy =
     announce (changes (objs (os_world sy)) (objs (ct_world c)))
       (sy\<lparr>os_world := ct_world c, os_ctl := (os_ctl sy)(t := c)\<rparr>)"

definition deliver ::
  "scheme \<Rightarrow> go_type \<Rightarrow> typed_event \<Rightarrow> ('w, 'z) operator_state_scheme \<Rightarrow> ('w, 'z) operator_state_scheme" where
  "deliver s t e sy =
     sy\<lparr>os_ctl := (os_ctl sy)(t := deliver_event s (controller_name t) (fst e) (snd e) (os_ctl sy t)),
       os_events := (os_events sy)(t := os_events sy t - {e})\<rparr>"

text \<open>The informers find all objects when they start.\<close>

definition initial_system :: "('w \<Rightarrow> store) \<Rightarrow> 'w \<Rightarrow> 'w operator_state" where
  "initial_system objs w =
     announce (changes Map.empty (objs w))
       \<lparr>os_world = w, os_ctl = (\<lambda>t. initial_controller w), os_events = (\<lambda>t. {})\<rparr>"

definition resynced :: "('w \<Rightarrow> store) \<Rightarrow> 'w operator_state \<Rightarrow> 'w operator_state" where
  "resynced objs sy = announce (resync_events (objs (os_world sy))) sy"

subsection \<open>Steps\<close>

text \<open>The two steps of a worker, and the two of the delaying queue.\<close>

inductive worker_step :: "'w reconcile_method \<Rightarrow> 'w controller \<Rightarrow> 'w controller \<Rightarrow> bool"
  for rec :: "'w reconcile_method" where
  take: "ct_current c = None \<Longrightarrow> wq_Get (ct_queue c) = Some (q, Some r) \<Longrightarrow>
    worker_step rec c (c\<lparr>ct_queue := q, ct_current := Some r\<rparr>)"
| finish: "ct_current c = Some r \<Longrightarrow> worker_step rec c (fst (finish_item rec r c))"

inductive retry_step :: "'w controller \<Rightarrow> 'w controller \<Rightarrow> bool" where
  due: "ct_delayed c = xs @ r # ys \<Longrightarrow>
    retry_step c (c\<lparr>ct_delayed := xs @ ys, ct_queue := wq_Add r (ct_queue c)\<rparr>)"
| merge: "ct_delayed c = xs @ r # ys \<Longrightarrow> r \<in> set xs \<union> set ys \<Longrightarrow>
    retry_step c (c\<lparr>ct_delayed := xs @ ys\<rparr>)"

lemma worker_ctl_step: "worker_step rec c c' \<Longrightarrow> ctl_step rec env reqs c c'"
  by (auto elim!: worker_step.cases intro: ctl_step.intros)

lemma retry_ctl_step: "retry_step c c' \<Longrightarrow> ctl_step rec env reqs c c'"
  by (auto elim!: retry_step.cases intro: ctl_step.intros)

text \<open>What the operator does by itself, and everything that happens.\<close>

inductive work_step ::
  "'w client \<Rightarrow> scheme \<Rightarrow> ('w \<Rightarrow> store) \<Rightarrow> 'w operator_state \<Rightarrow> 'w operator_state \<Rightarrow> bool"
  for cl :: "'w client" and s :: scheme and objs :: "'w \<Rightarrow> store" where
  deliver: "t \<in> owner_types \<Longrightarrow> e \<in> os_events sy t \<Longrightarrow> work_step cl s objs sy (deliver s t e sy)"
| worker: "(t, rec) \<in> set (reconcilers \<lparr>r_client = cl, r_scheme = s\<rparr>) \<Longrightarrow>
    worker_step rec (view sy t) c \<Longrightarrow> work_step cl s objs sy (put_view objs t c sy)"

inductive sys_step ::
  "'w client \<Rightarrow> scheme \<Rightarrow> ('w \<Rightarrow> store) \<Rightarrow> ('w \<Rightarrow> 'w \<Rightarrow> bool) \<Rightarrow>
   'w operator_state \<Rightarrow> 'w operator_state \<Rightarrow> bool"
  for cl :: "'w client" and s :: scheme and objs :: "'w \<Rightarrow> store" and foreign :: "'w \<Rightarrow> 'w \<Rightarrow> bool" where
  work: "work_step cl s objs sy sy' \<Longrightarrow> sys_step cl s objs foreign sy sy'"
| retry: "t \<in> owner_types \<Longrightarrow> retry_step (view sy t) c \<Longrightarrow>
    sys_step cl s objs foreign sy (put_view objs t c sy)"
| resync: "sys_step cl s objs foreign sy (resynced objs sy)"
| change: "foreign (os_world sy) w' \<Longrightarrow>
    sys_step cl s objs foreign sy
      (announce (changes (objs (os_world sy)) (objs w')) (sy\<lparr>os_world := w'\<rparr>))"

subsection \<open>Views\<close>

text \<open>What a step does to the view of each controller, and to its events.\<close>

lemma view_announce [simp]: "view (announce evs sy) t = view sy t"
  by (simp add: view_def announce_def)

lemma announce_fields [simp]:
  "os_world (announce evs sy) = os_world sy" "os_ctl (announce evs sy) = os_ctl sy"
  "os_events (announce evs sy) t = os_events sy t \<union> {e \<in> evs. fst e \<in> watched_types t}"
  by (simp_all add: announce_def)

lemma view_world [simp]: "ct_world (view sy t) = os_world sy"
  by (simp add: view_def)

lemma view_change [simp]: "view (sy\<lparr>os_world := w\<rparr>) t = (view sy t)\<lparr>ct_world := w\<rparr>"
  by (simp add: view_def)

lemma put_view_fields [simp]:
  "os_world (put_view objs t c sy) = ct_world c"
  "view (put_view objs t c sy) t' = (if t' = t then c else (view sy t')\<lparr>ct_world := ct_world c\<rparr>)"
  "os_events (put_view objs t c sy) t' =
     os_events sy t' \<union> {e \<in> changes (objs (os_world sy)) (objs (ct_world c)). fst e \<in> watched_types t'}"
  by (simp_all add: put_view_def view_def)

lemma deliver_fields [simp]:
  "os_world (deliver s t e sy) = os_world sy"
  "view (deliver s t e sy) t' =
     (if t' = t then deliver_event s (controller_name t) (fst e) (snd e) (view sy t) else view sy t')"
  "os_events (deliver s t e sy) t' = (if t' = t then os_events sy t - {e} else os_events sy t')"
  by (simp_all add: deliver_def view_def deliver_event_def)

lemma resynced_fields [simp]:
  "os_world (resynced objs sy) = os_world sy" "view (resynced objs sy) t = view sy t"
  "os_events (resynced objs sy) t =
     os_events sy t \<union> {e \<in> resync_events (objs (os_world sy)). fst e \<in> watched_types t}"
  by (simp_all add: resynced_def)

lemma initial_system_fields [simp]:
  "os_world (initial_system objs w) = w" "view (initial_system objs w) t = initial_controller w"
  "os_events (initial_system objs w) t = {e \<in> changes Map.empty (objs w). fst e \<in> watched_types t}"
  by (simp_all add: initial_system_def view_def) (simp add: initial_controller_def)

lemma fold_wq_Add:
  assumes "\<not> wq_shuttingDown q" "wq_inv q"
  shows "wq_dirty (fold wq_Add rs q) = set rs \<union> wq_dirty q"
    and "wq_processing (fold wq_Add rs q) = wq_processing q"
    and "\<not> wq_shuttingDown (fold wq_Add rs q)" "wq_inv (fold wq_Add rs q)"
  using assms by (induction rs arbitrary: q) auto

lemma outstanding_world [simp]: "outstanding (c\<lparr>ct_world := w\<rparr>) = outstanding c"
  by (simp add: outstanding_def)

lemma ctl_inv_world [simp]: "ctl_inv ok (c\<lparr>ct_world := w\<rparr>) \<longleftrightarrow> ctl_inv (\<lambda>_. ok w) c"
  by (simp add: ctl_inv_def)

lemma deliver_event_outstanding:
  assumes "ctl_inv ok c"
  shows "ctl_inv ok (deliver_event s n ty ev c)"
    and "outstanding (deliver_event s n ty ev c) = set (routed s n ty ev) \<union> outstanding c"
  using assms by (auto simp: ctl_inv_def deliver_event_def outstanding_def fold_wq_Add)

lemma worker_step_outstanding:
  assumes "worker_step rec c c'" "ctl_inv ok c"
  shows "outstanding c' \<subseteq> outstanding c"
  using assms
proof cases
  case (take q r)
  have "r \<in> wq_dirty (ct_queue c)"
    using wq_Get_fields [OF take(3)] assms(2) by (auto simp: ctl_inv_def wq_inv_def)
  then show ?thesis using take wq_Get_fields [OF take(3)] by (auto simp: outstanding_def)
next
  case (finish r)
  obtain w' res e where run: "rec r (ct_world c) = (w', res, e)" by (metis prod_cases3)
  show ?thesis using finish by (auto simp: outstanding_def finish_item_fields [where rec = rec and c = c, OF run])
qed

lemma retry_step_outstanding:
  assumes "retry_step c c'" "ctl_inv ok c"
  shows "outstanding c' = outstanding c" "ctl_inv ok c'" "ct_world c' = ct_world c"
proof -
  have "outstanding c' = outstanding c \<and> ctl_inv ok c' \<and> ct_world c' = ct_world c"
    using assms(1)
  proof cases
    case (due xs r ys)
    with assms(2) show ?thesis by (auto simp: outstanding_def ctl_inv_def)
  next
    case (merge xs r ys)
    with assms(2) show ?thesis by (auto simp: outstanding_def ctl_inv_def)
  qed
  then show "outstanding c' = outstanding c" "ctl_inv ok c'" "ct_world c' = ct_world c" by simp_all
qed

text \<open>
  Every controller of the operator behaves as one that is alone, in an environment that changes
  the world: what holds of \<open>ctl_step\<close> holds of each view.
\<close>

lemma deliver_event_steps:
  assumes "set (routed s n ty ev) \<subseteq> reqs"
  shows "(ctl_step rec env reqs)\<^sup>*\<^sup>* c (deliver_event s n ty ev c)"
proof -
  have "(ctl_step rec env reqs)\<^sup>*\<^sup>* c (c\<lparr>ct_queue := fold wq_Add rs (ct_queue c)\<rparr>)" if "set rs \<subseteq> reqs" for rs
    using that
  proof (induction rs arbitrary: c)
    case (Cons r rs)
    have "ctl_step rec env reqs c (c\<lparr>ct_queue := wq_Add r (ct_queue c)\<rparr>)"
      by (rule ctl_step.arrive) (use Cons.prems in simp)
    with Cons.IH [of "c\<lparr>ct_queue := wq_Add r (ct_queue c)\<rparr>"] Cons.prems show ?case
      by (simp add: converse_rtranclp_into_rtranclp)
  qed simp
  then show ?thesis using assms by (simp add: deliver_event_def)
qed

lemma reconcilers_functional:
  "(t, rec) \<in> set (reconcilers r) \<Longrightarrow> (t, rec') \<in> set (reconcilers r) \<Longrightarrow> rec = rec'"
  by (auto simp: reconcilers_def)

lemma ctl_step_change: "(ctl_step rec (\<lambda>_ _. True) reqs)\<^sup>*\<^sup>* c (c\<lparr>ct_world := w\<rparr>)"
  by (rule r_into_rtranclp) (rule ctl_step.change, rule TrueI)

lemma view_step:
  assumes "sys_step cl s objs foreign sy sy'"
    and "(t, rec) \<in> set (reconcilers \<lparr>r_client = cl, r_scheme = s\<rparr>)"
    and "\<And>e. e \<in> os_events sy t \<Longrightarrow> set (requests_of s t e) \<subseteq> reqs"
  shows "(ctl_step rec (\<lambda>_ _. True) reqs)\<^sup>*\<^sup>* (view sy t) (view sy' t)"
  using assms(1)
proof cases
  case work
  then show ?thesis
  proof cases
    case (deliver t' e)
    then show ?thesis
      using deliver_event_steps [of s "controller_name t" "fst e" "snd e" reqs rec] assms(3) [of e]
      by (cases "t = t'") (simp_all add: requests_of_def)
  next
    case (worker t' rec' c)
    show ?thesis
    proof (cases "t = t'")
      case True
      with worker assms(2) have "worker_step rec (view sy t) c" by (metis reconcilers_functional)
      with worker True show ?thesis by (auto intro: worker_ctl_step)
    qed (use worker ctl_step_change in simp)
  qed
next
  case (retry t' c)
  then show ?thesis using ctl_step_change retry_ctl_step [OF retry(3)] by (cases "t = t'") auto
next
  case (change w')
  then show ?thesis using ctl_step_change by simp
qed simp

end
