(* ===== verification/Operator_Progress.thy ===== *)
theory Operator_Progress
  imports Operator_System Fake_Update
begin

section \<open>What the operator achieves\<close>

text \<open>
  Two properties of the composed operator: in every reachable state each custom resource is
  either complete or somebody is going to look at it, as long as no child is deleted behind the
  backs of the watches; and the operator comes to rest, with every resource complete that can be
  built at all, even after such deletions once the informers have resynchronised.
\<close>

subsection \<open>Requests of events\<close>

text \<open>The store has finitely many objects, and whoever they ask for has a proper name.\<close>

definition valid_store :: "scheme \<Rightarrow> store \<Rightarrow> bool" where
  "valid_store s m \<longleftrightarrow> finite (dom m) \<and>
     (\<forall>ty nn x. m (ty, nn) = Some x \<longrightarrow>
        (\<forall>t\<in>owner_types. set (requests_of s t (ty, GenericEvent (meta_of x))) \<subseteq> Collect proper_name))"

lemma set_requests_of:
  "set (requests_of s t (ty, CreateEvent m)) = set (requests_of s t (ty, GenericEvent m))"
  "set (requests_of s t (ty, DeleteEvent m)) = set (requests_of s t (ty, GenericEvent m))"
  "set (requests_of s t (ty, UpdateEvent m m')) =
     set (requests_of s t (ty, GenericEvent m)) \<union> set (requests_of s t (ty, GenericEvent m'))"
  by (auto simp: requests_of_def routed_def split: if_splits)

lemma notification_cases:
  assumes "notification a b = Some ev"
  obtains x where "b = Some x" "a = None" "ev = CreateEvent (meta_of x)"
    | x y where "a = Some x" "b = Some y" "ev = UpdateEvent (meta_of x) (meta_of y)"
    | x where "a = Some x" "b = None" "ev = DeleteEvent (meta_of x)"
  using assms by (cases a; cases b) auto

lemma requests_proper:
  assumes "valid_store s m" "valid_store s m'" "t \<in> owner_types"
    and "e \<in> changes m m' \<or> e \<in> resync_events m"
  shows "set (requests_of s t e) \<subseteq> Collect proper_name"
proof -
  obtain ty nn ev b where e: "e = (ty, ev)" "notification (m (ty, nn)) b = Some ev"
    and b: "b = m (ty, nn) \<or> b = m' (ty, nn)"
    using assms(4) by (auto simp: changes_def resync_events_def)
  have proper: "set (requests_of s t (ty, GenericEvent (meta_of x))) \<subseteq> Collect proper_name"
    if "m (ty, nn) = Some x \<or> b = Some x" for x
    using that b assms(1-3) unfolding valid_store_def by (metis (no_types))
  from e(2) show ?thesis
    by (cases rule: notification_cases) (use e(1) proper in \<open>simp_all add: set_requests_of\<close>)
qed

lemma finite_changes:
  assumes "finite (dom m)" "finite (dom m')"
  shows "finite (changes m m')" "finite (resync_events m)"
proof -
  have "changes m m' \<subseteq> (\<lambda>k. (fst k, the (notification (m k) (m' k)))) ` (dom m \<union> dom m')"
    by (force simp: changes_def image_iff elim!: notification_cases)
  with assms show "finite (changes m m')" by (meson finite_Un finite_imageI finite_subset)
  have "resync_events m \<subseteq> (\<lambda>k. (fst k, the (notification (m k) (m k)))) ` dom m"
    by (force simp: resync_events_def image_iff elim!: notification_cases)
  with assms show "finite (resync_events m)" by (meson finite_imageI finite_subset)
qed

text \<open>A resource asks for itself, and a child for its owner only.\<close>

lemma requests_self:
  assumes "t \<in> owner_types" "key_of x = (t, nn)"
  shows "nn \<in> set (requests_of s t (t, GenericEvent (meta_of x)))"
  using assms(2) routed_simps [OF controllers_of_types [OF assms(1)]]
  by (auto simp: requests_of_def object_requests_def key_of_def meta_name_def)

lemma requests_child:
  assumes "scheme_ready s" "t \<in> owner_types" "t' \<in> owner_types" "is_child_of t nn k x"
  shows "object_requests s (EnqueueRequestForOwner t' True) (meta_of x) = (if t' = t then [nn] else [])"
proof -
  obtain ref where ref: "GetControllerOf (meta_of x) = Some ref"
    "or_APIVersion ref = ''agent.atomix.io/v1alpha1''" "or_Kind ref = type_name t" "or_Name ref = nn_Name nn"
    using assms(4) by (auto simp: is_child_of_def controlled_by_def split: option.splits)
  have ns: "om_Namespace (meta_of x) = nn_Namespace nn"
    using assms(4) by (auto simp: is_child_of_def key_of_def meta_name_def NamespacedName_def)
  have gv: "ParseGroupVersion ''agent.atomix.io/v1alpha1'' = Inr (''agent.atomix.io'', ''v1alpha1'')"
    by code_simp
  have "type_name t = type_name t' \<longleftrightarrow> t = t'" using assms(2,3) by (auto simp: owner_types_def)
  then show ?thesis
    using assms(3) ref ns gv parseOwnerTypeGroupKind_ready [OF assms(1), of t']
    by (auto simp: owner_types_def object_requests_def getOwnerReconcileRequest_def
        getOwnersReferences_def NamespacedName_def)
qed

lemma requests_of_child:
  assumes "scheme_ready s" "t \<in> owner_types" "t' \<in> owner_types" "is_child_of t nn k x"
  shows "requests_of s t' (fst k, GenericEvent (meta_of x)) =
      (if t' = t \<and> fst k \<in> watched_types t then [nn] else [])"
    and "requests_of s t' (fst k, CreateEvent (meta_of x)) =
      requests_of s t' (fst k, GenericEvent (meta_of x))"
proof -
  have k: "fst k \<notin> owner_types"
    using assms(4) by (auto simp: is_child_of_def child_types_def managed_types_def benchmark_types_def owner_types_def)
  then show "requests_of s t' (fst k, GenericEvent (meta_of x)) =
      (if t' = t \<and> fst k \<in> watched_types t then [nn] else [])"
    using assms(2,3) requests_child [OF assms]
    by (auto simp: requests_of_def routed_simps [OF controllers_of_types [OF assms(3)]] watched_types_eq)
  show "requests_of s t' (fst k, CreateEvent (meta_of x)) =
      requests_of s t' (fst k, GenericEvent (meta_of x))"
    by (simp add: requests_of_def routed_simps [OF controllers_of_types [OF assms(3)]])
qed

subsection \<open>The invariant\<close>

text \<open>What a controller will look at, because an event or a request for it is under way.\<close>

definition noticed :: "scheme \<Rightarrow> go_type \<Rightarrow> ('w, 'z) operator_state_scheme \<Rightarrow> namespaced_name set" where
  "noticed s t sy = (\<Union>e\<in>os_events sy t. set (requests_of s t e))"

definition unsettled :: "scheme \<Rightarrow> go_type \<Rightarrow> ('w, 'z) operator_state_scheme \<Rightarrow> namespaced_name set" where
  "unsettled s t sy = outstanding (view sy t) \<union> noticed s t sy"

definition sys_inv :: "('w \<Rightarrow> store) \<Rightarrow> ('w \<Rightarrow> bool) \<Rightarrow> scheme \<Rightarrow> 'w operator_state \<Rightarrow> bool" where
  "sys_inv objs ok s sy \<longleftrightarrow>
     ok (os_world sy) \<and> valid_store s (objs (os_world sy)) \<and>
     (\<forall>t\<in>owner_types. ctl_inv ok (view sy t) \<and> finite (os_events sy t) \<and>
        unsettled s t sy \<subseteq> Collect proper_name)"

text \<open>Others write valid objects.\<close>

definition foreign_valid ::
  "('w \<Rightarrow> store) \<Rightarrow> ('w \<Rightarrow> bool) \<Rightarrow> scheme \<Rightarrow> ('w \<Rightarrow> 'w \<Rightarrow> bool) \<Rightarrow> bool" where
  "foreign_valid objs ok s foreign \<longleftrightarrow>
     (\<forall>w w'. ok w \<longrightarrow> valid_store s (objs w) \<longrightarrow> foreign w w' \<longrightarrow> ok w' \<and> valid_store s (objs w'))"

lemma requests_unwatched:
  assumes "t \<in> owner_types" "fst e \<notin> watched_types t"
  shows "requests_of s t e = []"
  using assms by (simp add: requests_of_def routed_simps [OF controllers_of_types] watched_types_eq)

lemma requests_watched:
  assumes "t \<in> owner_types"
  shows "(\<Union>e\<in>{e \<in> evs. fst e \<in> watched_types t}. set (requests_of s t e)) = (\<Union>e\<in>evs. set (requests_of s t e))"
proof -
  have "fst e \<in> watched_types t" if "r \<in> set (requests_of s t e)" for r e
    using requests_unwatched [OF assms, of e s] that by (cases "fst e \<in> watched_types t") auto
  then show ?thesis by blast
qed

lemma noticed_announce [simp]:
  "t \<in> owner_types \<Longrightarrow> noticed s t (announce evs sy) = noticed s t sy \<union> (\<Union>e\<in>evs. set (requests_of s t e))"
  "noticed s t (sy\<lparr>os_world := w\<rparr>) = noticed s t sy"
  by (simp_all add: noticed_def requests_watched UN_Un)

lemma noticed_steps [simp]:
  "t \<in> owner_types \<Longrightarrow> noticed s t (put_view objs t' c sy) =
     noticed s t sy \<union> (\<Union>e\<in>changes (objs (os_world sy)) (objs (ct_world c)). set (requests_of s t e))"
  "t \<in> owner_types \<Longrightarrow> noticed s t (resynced objs sy) =
     noticed s t sy \<union> (\<Union>e\<in>resync_events (objs (os_world sy)). set (requests_of s t e))"
  "t \<in> owner_types \<Longrightarrow> noticed s t (initial_system objs w) =
     (\<Union>e\<in>changes Map.empty (objs w). set (requests_of s t e))"
  by (simp_all add: noticed_def requests_watched UN_Un)

lemma unsettled_deliver:
  assumes "t \<in> owner_types" "e \<in> os_events sy t" "ctl_inv ok (view sy t)"
  shows "unsettled s t' (deliver s t e sy) = unsettled s t' sy"
  using assms deliver_event_outstanding(2) [OF assms(3), of s "controller_name t" "fst e" "snd e"]
  by (auto simp: unsettled_def noticed_def requests_of_def)

lemma unsettled_other [simp]:
  "t \<in> owner_types \<Longrightarrow> unsettled s t (announce evs sy) = unsettled s t sy \<union> (\<Union>e\<in>evs. set (requests_of s t e))"
  "unsettled s t (sy\<lparr>os_world := w\<rparr>) = unsettled s t sy"
  by (auto simp: unsettled_def)

lemma valid_store_empty [simp]: "valid_store s Map.empty"
  by (simp add: valid_store_def)

lemma sys_inv_initial:
  assumes "ok w" "valid_store s (objs w)"
  shows "sys_inv objs ok s (initial_system objs w)"
proof -
  have "outstanding (initial_controller w) = {}"
    by (simp add: outstanding_def initial_controller_def wq_New_def)
  then show ?thesis
    using assms requests_proper [of s Map.empty "objs w"] finite_changes(1) [of Map.empty "objs w"]
      ctl_inv_initial [of ok w, OF assms(1)]
    by (fastforce simp: sys_inv_def unsettled_def valid_store_def)
qed

text \<open>An announced change of the world, by whomever.\<close>

lemma sys_inv_announce:
  assumes "sys_inv objs ok s sy" "valid_store s m" "valid_store s m'"
    and "evs \<subseteq> changes m m' \<or> evs \<subseteq> resync_events m"
  shows "sys_inv objs ok s (announce evs sy)"
proof -
  have "finite evs"
    using assms(2-4) finite_changes [of m m'] by (auto simp: valid_store_def dest: finite_subset)
  moreover have "set (requests_of s t e) \<subseteq> Collect proper_name" if "t \<in> owner_types" "e \<in> evs" for t e
    using requests_proper [OF assms(2,3) that(1)] that(2) assms(4) by blast
  ultimately show ?thesis using assms(1) by (auto simp: sys_inv_def)
qed

text \<open>The step of a worker.\<close>

lemma worker_effect:
  assumes "reliable_client cl objs ok" "scheme_ready s" "sys_inv objs ok s sy"
    and "(t, rec) \<in> set (reconcilers \<lparr>r_client = cl, r_scheme = s\<rparr>)" "worker_step rec (view sy t) c"
  shows "t \<in> owner_types" "ctl_inv ok c" "objs (os_world sy) \<subseteq>\<^sub>m objs (ct_world c)"
    and "objs (ct_world c) k = Some x \<Longrightarrow> objs (os_world sy) k = None \<Longrightarrow>
      \<exists>nn. ct_current (view sy t) = Some nn \<and> proper_name nn \<and> k \<in> set (child_keys t nn) \<and> is_child_of t nn k x"
proof -
  show t: "t \<in> owner_types" using assms(4) by (auto simp: reconcilers_def owner_types_def)
  have inv: "ctl_inv ok (view sy t)" "ok (os_world sy)" "unsettled s t sy \<subseteq> Collect proper_name"
    using assms(3) t by (simp_all add: sys_inv_def)
  from assms(5) have "ctl_inv ok c \<and> objs (os_world sy) \<subseteq>\<^sub>m objs (ct_world c) \<and>
    (\<forall>k x. objs (ct_world c) k = Some x \<longrightarrow> objs (os_world sy) k = None \<longrightarrow>
      (\<exists>nn. ct_current (view sy t) = Some nn \<and> proper_name nn \<and> k \<in> set (child_keys t nn) \<and> is_child_of t nn k x))"
  proof cases
    case (take q r)
    then show ?thesis
      using inv(1) wq_Get_fields [OF take(3)] wq_inv_Get [OF _ take(3)] by (auto simp: ctl_inv_def)
  next
    case (finish r)
    obtain w' res e where run: "rec r (os_world sy) = (w', res, e)" by (metis prod_cases3)
    have r: "proper_name r" using inv(3) finish(2) by (auto simp: unsettled_def outstanding_def)
    note effect = run_effect [OF assms(1) inv(2) r assms(2,4) run]
    have run': "rec r (ct_world (view sy t)) = (w', res, e)" using run by simp
    note c = finish_item_fields [where rec = rec, OF run', folded finish(1)]
    have "ctl_inv ok c"
      using inv(1) finish(2) effect(1) wq_inv_Done [of "ct_queue (view sy t)" r]
      by (simp add: ctl_inv_def c)
    with effect(2,4) r finish(2) show ?thesis by (simp add: c)
  qed
  then show "ctl_inv ok c" "objs (os_world sy) \<subseteq>\<^sub>m objs (ct_world c)"
    "objs (ct_world c) k = Some x \<Longrightarrow> objs (os_world sy) k = None \<Longrightarrow>
      \<exists>nn. ct_current (view sy t) = Some nn \<and> proper_name nn \<and> k \<in> set (child_keys t nn) \<and> is_child_of t nn k x"
    by blast+
qed

lemma worker_valid:
  assumes "reliable_client cl objs ok" "scheme_ready s" "sys_inv objs ok s sy"
    and "(t, rec) \<in> set (reconcilers \<lparr>r_client = cl, r_scheme = s\<rparr>)" "worker_step rec (view sy t) c"
  shows "valid_store s (objs (ct_world c))"
proof -
  note effect = worker_effect [OF assms]
  have old: "valid_store s (objs (os_world sy))" using assms(3) by (simp add: sys_inv_def)
  have "dom (objs (ct_world c)) \<subseteq> dom (objs (os_world sy)) \<union>
      (\<Union>nn\<in>set_option (ct_current (view sy t)). set (child_keys t nn))"
    using effect(4) by fastforce
  then have "finite (dom (objs (ct_world c)))"
    by (rule finite_subset) (use old in \<open>simp add: valid_store_def\<close>)
  moreover have "set (requests_of s t' (ty, GenericEvent (meta_of x))) \<subseteq> Collect proper_name"
    if x: "objs (ct_world c) (ty, nn) = Some x" and t': "t' \<in> owner_types" for ty nn x t'
  proof (cases "objs (os_world sy) (ty, nn)")
    case None
    with effect(4) [OF x] obtain r where "proper_name r" "is_child_of t r (ty, nn) x" by blast
    then show ?thesis using requests_of_child(1) [OF assms(2) effect(1) t'] by fastforce
  next
    case (Some y)
    with effect(3) x have "objs (os_world sy) (ty, nn) = Some x" by (metis map_leD option.inject)
    with old t' show ?thesis by (auto simp: valid_store_def)
  qed
  ultimately show ?thesis by (simp add: valid_store_def)
qed

lemma sys_inv_put:
  assumes "sys_inv objs ok s sy" "t \<in> owner_types" "ctl_inv ok c"
    and "valid_store s (objs (ct_world c))" "outstanding c \<subseteq> outstanding (view sy t)"
  shows "sys_inv objs ok s (put_view objs t c sy)"
proof -
  let ?sy = "sy\<lparr>os_world := ct_world c, os_ctl := (os_ctl sy)(t := c)\<rparr>"
  have view: "view ?sy t' = (if t' = t then c else (view sy t')\<lparr>ct_world := ct_world c\<rparr>)" for t'
    by (simp add: view_def)
  have ok: "ok (ct_world c)" using assms(3) by (simp add: ctl_inv_def)
  have "sys_inv objs ok s ?sy"
    using assms ok unfolding sys_inv_def view unsettled_def noticed_def
    by (auto simp: ctl_inv_def)
  then show ?thesis
    unfolding put_view_def
    by (rule sys_inv_announce [where m = "objs (os_world sy)" and m' = "objs (ct_world c)"])
      (use assms(1,4) in \<open>simp_all add: sys_inv_def\<close>)
qed

lemma sys_inv_step:
  assumes "reliable_client cl objs ok" "scheme_ready s" "foreign_valid objs ok s foreign"
    and "sys_step cl s objs foreign sy sy'" "sys_inv objs ok s sy"
  shows "sys_inv objs ok s sy'"
  using assms(4)
proof cases
  case work
  then show ?thesis
  proof cases
    case (deliver t e)
    then have inv: "ctl_inv ok (view sy t)" using assms(5) by (simp add: sys_inv_def)
    show ?thesis
      using assms(5) deliver_event_outstanding(1) [OF inv] unsettled_deliver [OF deliver(2,3) inv]
      unfolding deliver(1) by (simp add: sys_inv_def)
  next
    case (worker t rec c)
    have inv: "ctl_inv ok (view sy t)"
      using assms(5) worker_effect(1) [OF assms(1,2,5) worker(2,3)] by (simp add: sys_inv_def)
    show ?thesis
      unfolding worker(1)
      by (rule sys_inv_put [OF assms(5) worker_effect(1,2) [OF assms(1,2,5) worker(2,3)]
            worker_valid [OF assms(1,2,5) worker(2,3)] worker_step_outstanding [OF worker(3) inv]])
  qed
next
  case (retry t c)
  then have inv: "ctl_inv ok (view sy t)" using assms(5) by (simp add: sys_inv_def)
  note retried = retry_step_outstanding [OF retry(3) inv]
  show ?thesis
    unfolding retry(1)
    by (rule sys_inv_put [OF assms(5) retry(2) retried(2)])
      (use retried assms(5) in \<open>simp_all add: sys_inv_def\<close>)
next
  case resync
  have "valid_store s (objs (os_world sy))" using assms(5) by (simp add: sys_inv_def)
  with sys_inv_announce [OF assms(5) this this] show ?thesis by (simp add: resync resynced_def)
next
  case (change w')
  let ?m = "objs (os_world sy)"
  have old: "ok (os_world sy)" "valid_store s ?m" using assms(5) by (simp_all add: sys_inv_def)
  then have new: "ok w'" "valid_store s (objs w')"
    using assms(3) change(2) unfolding foreign_valid_def by blast+
  have "ctl_inv (\<lambda>_. ok w') (view sy t)" if "t \<in> owner_types" for t
    using assms(5) new(1) that by (simp add: sys_inv_def ctl_inv_def)
  then have "sys_inv objs ok s (sy\<lparr>os_world := w'\<rparr>)"
    using assms(5) new by (simp add: sys_inv_def)
  then show ?thesis
    unfolding change(1) by (rule sys_inv_announce [OF _ old(2) new(2)]) simp
qed

lemma sys_inv_steps:
  assumes "reliable_client cl objs ok" "scheme_ready s" "foreign_valid objs ok s foreign"
    and "(sys_step cl s objs foreign)\<^sup>*\<^sup>* sy sy'" "sys_inv objs ok s sy"
  shows "sys_inv objs ok s sy'"
  using assms(4,5) by (induction) (blast intro: sys_inv_step [OF assms(1-3)])+

subsection \<open>Nothing is forgotten\<close>

definition has_children :: "store \<Rightarrow> go_type \<Rightarrow> namespaced_name \<Rightarrow> bool" where
  "has_children m t nn \<longleftrightarrow> (\<forall>k\<in>set (child_keys t nn). m k \<noteq> None)"

lemma has_children_mono: "m \<subseteq>\<^sub>m m' \<Longrightarrow> has_children m t nn \<Longrightarrow> has_children m' t nn"
  unfolding has_children_def map_le_def by (metis domIff)

text \<open>Every resource in the store has its children, or a controller will look at it.\<close>

definition covered :: "('w \<Rightarrow> store) \<Rightarrow> scheme \<Rightarrow> 'w operator_state \<Rightarrow> bool" where
  "covered objs s sy \<longleftrightarrow>
     (\<forall>t\<in>owner_types. \<forall>nn. proper_name nn \<longrightarrow> objs (os_world sy) (t, nn) \<noteq> None \<longrightarrow>
        nn \<in> unsettled s t sy \<or> has_children (objs (os_world sy)) t nn)"

text \<open>
  Whoever deletes a child of a resource that stays deletes one that the watches see: the stateful
  set of a cluster or group, or the pod of a benchmark, with its owner reference.
\<close>

definition deletions_noticed ::
  "('w \<Rightarrow> store) \<Rightarrow> ('w \<Rightarrow> bool) \<Rightarrow> scheme \<Rightarrow> ('w \<Rightarrow> 'w \<Rightarrow> bool) \<Rightarrow> bool" where
  "deletions_noticed objs ok s foreign \<longleftrightarrow>
     (\<forall>w w' t nn k x. ok w \<longrightarrow> foreign w w' \<longrightarrow> t \<in> owner_types \<longrightarrow> proper_name nn \<longrightarrow>
        objs w (t, nn) \<noteq> None \<longrightarrow> objs w' (t, nn) \<noteq> None \<longrightarrow> k \<in> set (child_keys t nn) \<longrightarrow>
        objs w k = Some x \<longrightarrow> objs w' k = None \<longrightarrow> nn \<in> set (requests_of s t (fst k, DeleteEvent (meta_of x))))"

lemma changesI: "m (ty, nn) \<noteq> m' (ty, nn) \<Longrightarrow> notification (m (ty, nn)) (m' (ty, nn)) = Some ev \<Longrightarrow> (ty, ev) \<in> changes m m'"
  by (auto simp: changes_def)

lemma changes_same [simp]: "changes m m = {}"
  by (simp add: changes_def)

text \<open>A resource that appears in the store, or that a resynchronisation finds there, is noticed.\<close>

lemma appears_noticed:
  assumes "reliable_client cl objs ok" "ok w" "proper_name nn" "t \<in> owner_types"
    and "objs w (t, nn) = Some x" "m (t, nn) = None"
  shows "\<exists>e\<in>changes m (objs w). nn \<in> set (requests_of s t e)"
proof -
  have "key_of x = (t, nn)" by (rule reliable_client.stored_key [OF assms(1-3,5)])
  then have "nn \<in> set (requests_of s t (t, CreateEvent (meta_of x)))"
    using requests_self [OF assms(4)] by (simp add: set_requests_of)
  moreover have "(t, CreateEvent (meta_of x)) \<in> changes m (objs w)"
    by (rule changesI [of _ _ nn]) (simp_all add: assms(5,6))
  ultimately show ?thesis by blast
qed

lemma resync_noticed:
  assumes "reliable_client cl objs ok" "ok w" "proper_name nn" "t \<in> owner_types" "objs w (t, nn) = Some x"
  shows "\<exists>e\<in>resync_events (objs w). nn \<in> set (requests_of s t e)"
proof -
  have "key_of x = (t, nn)" by (rule reliable_client.stored_key [OF assms(1-3,5)])
  then have "nn \<in> set (requests_of s t (t, UpdateEvent (meta_of x) (meta_of x)))"
    using requests_self [OF assms(4)] by (simp add: set_requests_of)
  moreover have "(t, UpdateEvent (meta_of x) (meta_of x)) \<in> resync_events (objs w)"
    unfolding resync_events_def using assms(5) by (auto intro!: exI [of _ nn])
  ultimately show ?thesis by blast
qed

lemma covered_initial:
  assumes "reliable_client cl objs ok" "ok w"
  shows "covered objs s (initial_system objs w)"
  unfolding covered_def
proof (intro ballI allI impI disjI1)
  fix t nn assume "t \<in> owner_types" "proper_name nn" "objs (os_world (initial_system objs w)) (t, nn) \<noteq> None"
  then show "nn \<in> unsettled s t (initial_system objs w)"
    using appears_noticed [OF assms, of nn t _ Map.empty s] by (auto simp: unsettled_def)
qed

lemma covered_resynced:
  assumes "reliable_client cl objs ok" "ok (os_world sy)"
  shows "covered objs s (resynced objs sy)"
  unfolding covered_def
proof (intro ballI allI impI disjI1)
  fix t nn assume "t \<in> owner_types" "proper_name nn" "objs (os_world (resynced objs sy)) (t, nn) \<noteq> None"
  then show "nn \<in> unsettled s t (resynced objs sy)"
    using resync_noticed [OF assms, of nn t _ s] by (auto simp: unsettled_def)
qed

text \<open>A worker forgets a request only when the resource is complete.\<close>

lemma covered_worker:
  assumes "reliable_client cl objs ok" "scheme_ready s" "sys_inv objs ok s sy" "covered objs s sy"
    and "(t, rec) \<in> set (reconcilers \<lparr>r_client = cl, r_scheme = s\<rparr>)" "worker_step rec (view sy t) c"
  shows "covered objs s (put_view objs t c sy)"
  unfolding covered_def
proof (intro ballI allI impI)
  let ?w = "os_world sy"
  fix t' nn
  assume t': "t' \<in> owner_types" and nn: "proper_name nn"
    and "objs (os_world (put_view objs t c sy)) (t', nn) \<noteq> None"
  then have stored': "objs (ct_world c) (t', nn) \<noteq> None" by simp
  note effect = worker_effect [OF assms(1-3,5,6)]
  have stored: "objs ?w (t', nn) \<noteq> None"
  proof
    assume "objs ?w (t', nn) = None"
    with stored' effect(4) obtain r x where "is_child_of t r (t', nn) x" by blast
    with t' show False
      by (auto simp: is_child_of_def child_types_def managed_types_def benchmark_types_def owner_types_def)
  qed
  have cov: "nn \<in> outstanding (view sy t') \<or> nn \<in> noticed s t' sy \<or> has_children (objs ?w) t' nn"
    using assms(4) t' nn stored unfolding covered_def unsettled_def by blast
  have "nn \<in> unsettled s t' (put_view objs t c sy) \<or> has_children (objs (ct_world c)) t' nn"
  proof (cases "nn \<in> noticed s t' sy \<or> has_children (objs ?w) t' nn \<or> t' \<noteq> t")
    case True
    with cov t' show ?thesis using has_children_mono [OF effect(3)] by (auto simp: unsettled_def)
  next
    case False
    then have t: "t' = t" and out: "nn \<in> outstanding (view sy t)"
      using cov by auto
    have inv: "ctl_inv ok (view sy t)" using assms(3) effect(1) by (simp add: sys_inv_def)
    have step: "ctl_step rec (\<lambda>_ _. True) {} (view sy t) c" by (rule worker_ctl_step [OF assms(6)])
    from outstanding_step [OF step inv out] show ?thesis
    proof
      assume "settles rec nn (view sy t)"
      moreover obtain w' res e where run: "rec nn ?w = (w', res, e)" by (metis prod_cases3)
      ultimately have cur: "ct_current (view sy t) = Some nn" and "e = None"
        by (auto simp: settles_def requeues_def)
      with run_effect(5) [OF assms(1) _ nn assms(2,5) run] stored t assms(3)
      have "has_children (objs w') t nn" by (simp add: has_children_def sys_inv_def)
      moreover have "c = fst (finish_item rec nn (view sy t))"
        using assms(6) cur by cases simp_all
      ultimately show ?thesis using run t by (simp add: finish_item_def)
    qed (use t t' in \<open>simp add: unsettled_def\<close>)
  qed
  then show "nn \<in> unsettled s t' (put_view objs t c sy) \<or>
      has_children (objs (os_world (put_view objs t c sy))) t' nn" by simp
qed

text \<open>A change that others make.\<close>

lemma covered_change:
  assumes "reliable_client cl objs ok" "ok (os_world sy)" "ok w'" "covered objs s sy"
    and "deletions_noticed objs ok s foreign" "foreign (os_world sy) w'"
  shows "covered objs s (announce (changes (objs (os_world sy)) (objs w')) (sy\<lparr>os_world := w'\<rparr>))"
  unfolding covered_def
proof (intro ballI allI impI)
  let ?m = "objs (os_world sy)" and ?sy' = "announce (changes (objs (os_world sy)) (objs w')) (sy\<lparr>os_world := w'\<rparr>)"
  fix t nn
  assume t: "t \<in> owner_types" and nn: "proper_name nn" and "objs (os_world ?sy') (t, nn) \<noteq> None"
  then obtain x where stored: "objs w' (t, nn) = Some x" by auto
  have unsettled: "unsettled s t ?sy' = unsettled s t sy \<union> (\<Union>e\<in>changes ?m (objs w'). set (requests_of s t e))"
    using t by simp
  show "nn \<in> unsettled s t ?sy' \<or> has_children (objs (os_world ?sy')) t nn"
  proof (cases "?m (t, nn) = None \<or> nn \<in> unsettled s t sy")
    case True
    then show ?thesis
      using appears_noticed [OF assms(1,3) nn t stored, of ?m s] unfolding unsettled by blast
  next
    case False
    then have old: "has_children ?m t nn" using assms(4) t nn by (auto simp: covered_def)
    have "nn \<in> unsettled s t ?sy'" if k: "k \<in> set (child_keys t nn)" "objs w' k = None" for k
    proof -
      obtain y where y: "?m k = Some y" using old k(1) by (auto simp: has_children_def)
      obtain ty kn where kk: "k = (ty, kn)" by (cases k)
      have "nn \<in> set (requests_of s t (fst k, DeleteEvent (meta_of y)))"
        using assms(5)[unfolded deletions_noticed_def, rule_format, OF assms(2,6) t nn _ _ k(1) y k(2)]
          False stored by simp
      moreover have "(ty, DeleteEvent (meta_of y)) \<in> changes ?m (objs w')"
        by (rule changesI [of _ _ kn]) (use y k(2) kk in simp_all)
      ultimately show ?thesis unfolding unsettled kk fst_conv by blast
    qed
    then show ?thesis by (auto simp: has_children_def)
  qed
qed

lemma covered_step:
  assumes "reliable_client cl objs ok" "scheme_ready s" "foreign_valid objs ok s foreign"
    and "sys_step cl s objs foreign sy sy'" "sys_inv objs ok s sy" "covered objs s sy"
    and "\<And>w'. foreign (os_world sy) w' \<Longrightarrow> ok w' \<Longrightarrow> deletions_noticed objs ok s foreign"
  shows "covered objs s sy'"
  using assms(4)
proof cases
  case work
  then show ?thesis
  proof cases
    case (deliver t e)
    then have inv: "ctl_inv ok (view sy t)" using assms(5) by (simp add: sys_inv_def)
    show ?thesis
      using assms(6) unsettled_deliver [OF deliver(2,3) inv] unfolding deliver(1) by (simp add: covered_def)
  next
    case (worker t rec c)
    show ?thesis unfolding worker(1) by (rule covered_worker [OF assms(1,2,5,6) worker(2,3)])
  qed
next
  case (retry t c)
  then have inv: "ctl_inv ok (view sy t)" using assms(5) by (simp add: sys_inv_def)
  have "unsettled s t' sy' = unsettled s t' sy" if "t' \<in> owner_types" for t'
    using retry_step_outstanding [OF retry(3) inv] that unfolding retry(1) by (simp add: unsettled_def)
  with assms(6) retry_step_outstanding [OF retry(3) inv] show ?thesis
    unfolding retry(1) by (simp add: covered_def)
next
  case resync
  have "ok (os_world sy)" using assms(5) by (simp add: sys_inv_def)
  with covered_resynced [OF assms(1)] show ?thesis by (simp add: resync)
next
  case (change w')
  have ok: "ok (os_world sy)" "ok w'"
    using assms(3,5) change(2) unfolding sys_inv_def foreign_valid_def by blast+
  show ?thesis
    unfolding change(1) by (rule covered_change [OF assms(1) ok assms(6) assms(7) [OF change(2) ok(2)] change(2)])
qed

lemma reachable_covered:
  assumes "reliable_client cl objs ok" "scheme_ready s" "ok w" "valid_store s (objs w)"
    and "foreign_valid objs ok s foreign" "deletions_noticed objs ok s foreign"
    and "(sys_step cl s objs foreign)\<^sup>*\<^sup>* (initial_system objs w) sy"
  shows "sys_inv objs ok s sy \<and> covered objs s sy"
  using assms(7)
proof induction
  case base
  then show ?case
    using sys_inv_initial [where ok = ok and objs = objs, OF assms(3,4)] covered_initial [OF assms(1,3)] by simp
next
  case (step sy1 sy2)
  then have inv: "sys_inv objs ok s sy1" "covered objs s sy1" by simp_all
  from sys_inv_step [OF assms(1,2,5) step.hyps(2) inv(1)]
    covered_step [OF assms(1,2,5) step.hyps(2) inv assms(6)]
  show ?case by blast
qed

lemma reachable_inv:
  assumes "reliable_client cl objs ok" "scheme_ready s" "ok w" "valid_store s (objs w)"
    and "foreign_valid objs ok s foreign" "(sys_step cl s objs foreign)\<^sup>*\<^sup>* (initial_system objs w) sy"
  shows "sys_inv objs ok s sy"
  by (rule sys_inv_steps [OF assms(1,2,5,6)])
    (rule sys_inv_initial [where ok = ok and objs = objs, OF assms(3,4)])

text \<open>Composition: every controller of a reachable state has been reached by its own steps.\<close>

lemma reachable_view:
  assumes "reliable_client cl objs ok" "scheme_ready s" "ok w" "valid_store s (objs w)"
    and "foreign_valid objs ok s foreign" "(sys_step cl s objs foreign)\<^sup>*\<^sup>* (initial_system objs w) sy"
    and "(t, rec) \<in> set (reconcilers \<lparr>r_client = cl, r_scheme = s\<rparr>)"
  shows "(ctl_step rec (\<lambda>_ _. True) (Collect proper_name))\<^sup>*\<^sup>* (initial_controller w) (view sy t)"
  using assms(6)
proof induction
  case (step sy1 sy2)
  have "t \<in> owner_types" using assms(7) by (auto simp: reconcilers_def owner_types_def)
  then have "set (requests_of s t e) \<subseteq> Collect proper_name" if "e \<in> os_events sy1 t" for e
    using reachable_inv [OF assms(1-5) step.hyps(1)] that by (auto simp: sys_inv_def unsettled_def noticed_def)
  from view_step [OF step.hyps(2) assms(7) this] step.IH show ?case by (meson rtranclp_trans)
qed simp

text \<open>
  The three controllers together, over one store that they read exactly, with informers, events under way, retries
  and the changes of others. Each of them still behaves as one that is alone, so that C27 to C29
  hold of it. In every reachable state each custom resource is looked after: a controller has a
  request or an event for it, or all its children exist. So once no request or event for a
  resource is left, the resource is complete, however the controllers, retries and the changes
  of others interleaved, as long as these do not delete children that no watch sees (see C36).
\<close>

lemma settled_resources_complete:
  assumes "reliable_client cl objs ok" "scheme_ready s" "ok w" "valid_store s (objs w)"
    and "foreign_valid objs ok s foreign" "deletions_noticed objs ok s foreign"
    and "(sys_step cl s objs foreign)\<^sup>*\<^sup>* (initial_system objs w) sy"
    and "(t, rec) \<in> set (reconcilers \<lparr>r_client = cl, r_scheme = s\<rparr>)"
  shows "(ctl_step rec (\<lambda>_ _. True) (Collect proper_name))\<^sup>*\<^sup>* (initial_controller w) (view sy t) \<and>
    (\<forall>nn. proper_name nn \<and> objs (os_world sy) (t, nn) \<noteq> None \<longrightarrow>
       nn \<in> unsettled s t sy \<or> has_children (objs (os_world sy)) t nn)"
proof -
  have "t \<in> owner_types" using assms(8) by (auto simp: reconcilers_def owner_types_def)
  with reachable_covered [OF assms(1-7)] reachable_view [OF assms(1-5,7,8)]
  show ?thesis by (simp add: covered_def)
qed

text \<open>
  Users delete custom resources, and the stateful set of the sample cluster when no group or
  benchmark has its name.
\<close>

definition users_delete :: "fakeClient \<Rightarrow> fakeClient \<Rightarrow> bool" where
  "users_delete w w' \<longleftrightarrow>
     (\<exists>ob. proper_name (snd (key_of ob)) \<and> w' = fst (fake_Delete w ob) \<and>
        (type_of ob \<in> owner_types \<or>
         key_of ob = (StatefulSetT, sample_name) \<and>
         (\<forall>x. fake_objs w (key_of ob) = Some x \<longrightarrow> is_child_of AtomixClusterT sample_name (key_of ob) x) \<and>
         (\<forall>t\<in>owner_types - {AtomixClusterT}. fake_objs w (t, sample_name) = None)))"

lemma fake_deletion:
  assumes "fake_ok w" "proper_name (snd (key_of ob))"
  shows "fake_ok (fst (fake_Delete w ob))" "fake_objs (fst (fake_Delete w ob)) = (fake_objs w)(key_of ob := None)"
  using fake_Delete_effect [OF assms] assms(1) by (cases "fake_objs w (key_of ob)"; auto simp: fun_eq_iff)+

lemma valid_store_delete: "valid_store s m \<Longrightarrow> valid_store s (m(k := None))"
  by (auto simp: valid_store_def)

lemma users_delete_valid: "foreign_valid fake_objs fake_ok s users_delete"
  unfolding foreign_valid_def users_delete_def
  by (auto simp: fake_deletion valid_store_delete)

lemma users_delete_noticed: "deletions_noticed fake_objs fake_ok operator_scheme users_delete"
  unfolding deletions_noticed_def
proof (intro allI impI)
  fix w w' t nn k x
  assume ok: "fake_ok w" and foreign: "users_delete w w'" and t: "t \<in> owner_types"
    and old: "fake_objs w (t, nn) \<noteq> None" and k: "k \<in> set (child_keys t nn)"
    and x: "fake_objs w k = Some x" "fake_objs w' k = None"
  obtain ob where ob: "proper_name (snd (key_of ob))" "w' = fst (fake_Delete w ob)"
    and which: "type_of ob \<in> owner_types \<or>
         key_of ob = (StatefulSetT, sample_name) \<and>
         (\<forall>x. fake_objs w (key_of ob) = Some x \<longrightarrow> is_child_of AtomixClusterT sample_name (key_of ob) x) \<and>
         (\<forall>t\<in>owner_types - {AtomixClusterT}. fake_objs w (t, sample_name) = None)"
    using foreign unfolding users_delete_def by blast
  have key: "k = key_of ob" using x fake_deletion(2) [OF ok ob(1)] by (auto simp: ob(2) split: if_splits)
  have "fst k \<notin> owner_types" using k by (auto simp: child_keys_def Let_def owner_types_def split: if_splits)
  with which key have sset: "k = (StatefulSetT, sample_name)" "is_child_of AtomixClusterT sample_name k x"
    and none: "\<forall>t\<in>owner_types - {AtomixClusterT}. fake_objs w (t, sample_name) = None"
    using x(1) by (auto simp: key_of_def)
  have "nn = sample_name"
    using k sset(1) by (cases nn) (auto simp: child_keys_def Let_def NamespacedName_def split: if_splits)
  have "t = AtomixClusterT"
  proof (rule ccontr)
    assume "t \<noteq> AtomixClusterT"
    with t none have "fake_objs w (t, sample_name) = None" by simp
    with old \<open>nn = sample_name\<close> show False by simp
  qed
  with \<open>nn = sample_name\<close> sset t show "nn \<in> set (requests_of operator_scheme t (fst k, DeleteEvent (meta_of x)))"
    using requests_of_child(1) [OF operator_scheme_ready t t sset(2) [folded \<open>t = AtomixClusterT\<close>]]
    by (simp add: set_requests_of watched_types_eq)
qed

lemma sample_world_valid: "valid_store operator_scheme (fake_objs (world_with (AtomixClusterO (sample_cluster []))))"
proof -
  have "set (requests_of operator_scheme t (AtomixClusterT, GenericEvent sample_meta)) \<subseteq> Collect proper_name"
    if "t \<in> owner_types" for t
    using routed_simps [OF controllers_of_types [OF that], of operator_scheme AtomixClusterT]
      proper_sample meta_name_sample that
    by (auto simp: requests_of_def owner_types_def object_requests_def meta_name_def)
  then show ?thesis by (auto simp: valid_store_def cluster_world)
qed

lemma settled_resources_complete_witness:
  "sample_name \<in> unsettled operator_scheme AtomixClusterT
     (initial_system fake_objs (world_with (AtomixClusterO (sample_cluster []))))"
proof -
  let ?w = "world_with (AtomixClusterO (sample_cluster []))"
  have "\<not> has_children (fake_objs ?w) AtomixClusterT sample_name"
    by (simp add: has_children_def child_keys_def cluster_world)
  moreover have "fake_objs ?w (AtomixClusterT, sample_name) \<noteq> None" by (simp add: cluster_world)
  ultimately show ?thesis
    using settled_resources_complete [OF fake.reliable_client_axioms operator_scheme_ready cluster_world(1)
        sample_world_valid users_delete_valid users_delete_noticed rtranclp.rtrancl_refl sample_cluster_member]
      proper_sample unfolding initial_system_fields(1) by blast
qed

end
