(* ===== verification/Lagging_Client.thy ===== *)
theory Lagging_Client
  imports Child_Keys
begin

section \<open>A client whose reads lag behind\<close>

text \<open>
  The manager's client reads from the caches of the informers and writes to the API server. A
  cache may miss what was created and still hold what was deleted a moment ago. The interface
  \<open>lagging_client\<close> has the content of the caches (\<open>seen\<close>) beside that of the server
  (\<open>objs\<close>), and an operation by which an informer updates one entry. What runs of the
  reconcilers do over such a client is shown once, for all three; the split client provides it.
\<close>

subsection \<open>Interface\<close>

locale lagging_client = api_client cl objs ok
  for cl :: "'w client" and objs :: "'w \<Rightarrow> store" and ok :: "'w \<Rightarrow> bool" +
  fixes seen :: "'w \<Rightarrow> store"
    and sync :: "obj_key \<Rightarrow> kobj option \<Rightarrow> 'w \<Rightarrow> 'w"
  assumes get_seen: "ok w \<Longrightarrow> proper_name nn \<Longrightarrow> cl_Get cl w t nn = (w', r) \<Longrightarrow> seen w' = seen w"
    and get_hit: "ok w \<Longrightarrow> proper_name nn \<Longrightarrow> cl_Get cl w t nn = (w', Inr ob) \<Longrightarrow> seen w (t, nn) = Some ob"
    and get_miss: "ok w \<Longrightarrow> proper_name nn \<Longrightarrow> cl_Get cl w t nn = (w', Inl err) \<Longrightarrow> IsNotFound err \<Longrightarrow>
      seen w (t, nn) = None"
    and create_seen: "ok w \<Longrightarrow> proper_name (snd (key_of ob)) \<Longrightarrow> cl_Create cl w ob = (w', e) \<Longrightarrow> seen w' = seen w"
    and stored: "ok w \<Longrightarrow> objs w k = Some x \<Longrightarrow> key_of x = k \<and> proper_name (snd k)"
    and sync_ok: "ok w \<Longrightarrow> proper_name (snd k) \<Longrightarrow> (\<And>x. v = Some x \<Longrightarrow> key_of x = k) \<Longrightarrow> ok (sync k v w)"
    and sync_objs: "objs (sync k v w) = objs w"
    and sync_seen: "ok w \<Longrightarrow> proper_name (snd k) \<Longrightarrow> (\<And>x. v = Some x \<Longrightarrow> key_of x = k) \<Longrightarrow>
      seen (sync k v w) = (seen w)(k := v)"
begin

text \<open>A step that succeeds leaves its key on the server, unless the cache has it already.\<close>

lemma ensure_lags:
  assumes "plan_item_ok p" "ok w" "ensure cl p w = (w', r)"
  shows "seen w' = seen w" and "r = None \<Longrightarrow> objs w' (fst p) \<noteq> None \<or> seen w (fst p) \<noteq> None"
proof -
  obtain w1 g where get: "cl_Get cl w (fst (fst p)) (snd (fst p)) = (w1, g)" by fastforce
  note proper = plan_item_proper [OF assms(1)]
  have w1: "ok w1" "seen w1 = seen w" using get_frame [OF assms(2) get] get_seen [OF assms(2) proper get] by auto
  have "seen w' = seen w \<and> (r = None \<longrightarrow> objs w' (fst p) \<noteq> None \<or> seen w (fst p) \<noteq> None)"
  proof (cases g)
    case (Inr ob)
    with get have "seen w (fst p) = Some ob" using get_hit [OF assms(2) proper] by (cases p) fastforce
    with Inr get assms(3) w1 show ?thesis by (auto simp: ensure_def)
  next
    case (Inl e)
    show ?thesis
    proof (cases "IsNotFound e \<and> (\<exists>ob. snd p = Inr ob)")
      case True
      then obtain ob where ob: "snd p = Inr ob" by blast
      then have create: "cl_Create cl w1 ob = (w', r)" using True Inl get assms(3) by (simp add: ensure_def)
      have key: "key_of ob = fst p" "proper_name (snd (key_of ob))"
        using assms(1) ob by (simp_all add: plan_item_ok_def)
      show ?thesis
        using create_effect [OF w1(1) key(2) create] create_seen [OF w1(1) key(2) create] w1(2) key(1) by auto
    next
      case False
      with Inl get assms(3) w1 show ?thesis by (auto simp: ensure_def split: sum.splits if_splits)
    qed
  qed
  then show "seen w' = seen w" "r = None \<Longrightarrow> objs w' (fst p) \<noteq> None \<or> seen w (fst p) \<noteq> None" by simp_all
qed

lemma ensure_twice_lags:
  assumes "plan_item_ok p" "ok w" "ensure_twice cl p w = (w', r)"
  shows "seen w' = seen w" and "r = None \<Longrightarrow> objs w' (fst p) \<noteq> None \<or> seen w (fst p) \<noteq> None"
proof -
  obtain w1 g where get: "cl_Get cl w (fst (fst p)) (snd (fst p)) = (w1, g)" by fastforce
  note proper = plan_item_proper [OF assms(1)]
  have w1: "ok w1" "seen w1 = seen w" using get_frame [OF assms(2) get] get_seen [OF assms(2) proper get] by auto
  have "seen w' = seen w \<and> (r = None \<longrightarrow> objs w' (fst p) \<noteq> None \<or> seen w (fst p) \<noteq> None)"
  proof (cases g)
    case (Inr ob)
    with get have "seen w (fst p) = Some ob" using get_hit [OF assms(2) proper] by (cases p) fastforce
    with Inr get assms(3) w1 show ?thesis by (auto simp: ensure_twice_def)
  next
    case (Inl e)
    with get assms(3) consider "ensure cl p w1 = (w', r)" | "w' = w1" "r \<noteq> None"
      by (auto simp: ensure_twice_def split: if_splits)
    then show ?thesis using ensure_lags [OF assms(1) w1(1)] w1(2) by cases auto
  qed
  then show "seen w' = seen w" "r = None \<Longrightarrow> objs w' (fst p) \<noteq> None \<or> seen w (fst p) \<noteq> None" by simp_all
qed

lemma chain_lags:
  assumes "mk = ensure \<or> mk = ensure_twice" "plan_ok ps" "ok w" "run_steps (map (mk cl) ps) w = (w', e)"
  shows "seen w' = seen w \<and> (e = None \<longrightarrow> (\<forall>k\<in>plan_keys ps. objs w' k \<noteq> None \<or> seen w k \<noteq> None))"
  using assms(2-4)
proof (induction ps arbitrary: w)
  case Nil
  then show ?case by simp
next
  case (Cons p ps)
  obtain w1 r where step: "mk cl p w = (w1, r)" by fastforce
  have p: "plan_item_ok p" and ps: "plan_ok ps" using Cons.prems(1) by simp_all
  have safe: "safe_step objs ok p (mk cl p)" using assms(1) safe_ensure [OF p] safe_ensure_twice [OF p] by auto
  have w1: "ok w1" using safe_stepD(1) [OF safe Cons.prems(2) step] .
  have lag: "seen w1 = seen w" "r = None \<Longrightarrow> objs w1 (fst p) \<noteq> None \<or> seen w (fst p) \<noteq> None"
    using assms(1) step ensure_lags [OF p Cons.prems(2)] ensure_twice_lags [OF p Cons.prems(2)] by auto
  show ?case
  proof (cases r)
    case (Some x)
    with Cons.prems(3) step lag(1) show ?thesis by auto
  next
    case None
    then have rest: "run_steps (map (mk cl) ps) w1 = (w', e)" using Cons.prems(3) step by simp
    have "list_all2 (safe_step objs ok) ps (map (mk cl) ps)"
      using assms(1) ps safe_ensure safe_ensure_twice by (induction ps) auto
    from safe_chain(2) [OF this w1 rest] have "objs w1 \<subseteq>\<^sub>m objs w'" by (rule grows_by_le)
    then have "objs w1 (fst p) \<noteq> None \<Longrightarrow> objs w' (fst p) \<noteq> None" by (metis domIff map_le_def)
    with Cons.IH [OF ps w1 rest] lag None show ?thesis by auto
  qed
qed

end

subsection \<open>Runs of the reconcilers\<close>

lemma reconcilers_planned_plan:
  assumes "api_client cl objs ok" "(t, rec) \<in> set (reconcilers \<lparr>r_client = cl, r_scheme = s\<rparr>)"
  obtains mk plan_of where "planned_reconciler cl objs ok t mk plan_of rec"
    "\<And>ob nn. key_of ob = (t, nn) \<Longrightarrow> plan_keys (plan_of ob) = set (child_keys t nn)"
proof -
  consider "t = AtomixClusterT" "rec = cluster_Reconcile \<lparr>r_client = cl, r_scheme = s\<rparr>"
    | "t = PartitionGroupT" "rec = group_Reconcile \<lparr>r_client = cl, r_scheme = s\<rparr>"
    | "t = AtomixBenchmarkT" "rec = benchmark_Reconcile \<lparr>r_client = cl, r_scheme = s\<rparr>"
    using assms(2) by (auto simp: reconcilers_def)
  then show thesis
  proof cases
    case 1
    show thesis
      by (rule that [of ensure "cluster_plan s"]) (use 1 cluster_planned [OF assms(1), of s] plan_child_keys(1) in
        \<open>auto simp: key_of_def type_of_custom\<close>)
  next
    case 2
    show thesis
      by (rule that [of ensure "group_plan s"]) (use 2 group_planned [OF assms(1), of s] plan_child_keys(2) in
        \<open>auto simp: key_of_def type_of_custom\<close>)
  next
    case 3
    show thesis
      by (rule that [of ensure_twice "benchmark_plan s"]) (use 3 benchmark_planned [OF assms(1), of s] plan_child_keys(3) in
        \<open>auto simp: key_of_def type_of_custom\<close>)
  qed
qed

text \<open>
  What a run does over caches that lag behind: it adds children of its resource, and when it
  succeeds on a resource that the cache has, each child exists on the server or at least in the
  cache.
\<close>

lemma lagging_run_effect:
  assumes "lagging_client cl objs ok seen sync" "ok w" "proper_name nn" "scheme_ready s"
    and "(t, rec) \<in> set (reconcilers \<lparr>r_client = cl, r_scheme = s\<rparr>)" "rec nn w = (w', res, e)"
  shows "ok w'" "objs w \<subseteq>\<^sub>m objs w'" "seen w' = seen w"
    and "objs w' k = Some x \<Longrightarrow> objs w k = None \<Longrightarrow> k \<in> set (child_keys t nn) \<and> is_child_of t nn k x"
    and "e = None \<Longrightarrow> seen w (t, nn) \<noteq> None \<Longrightarrow>
      \<forall>k\<in>set (child_keys t nn). objs w' k \<noteq> None \<or> seen w k \<noteq> None"
proof -
  have api: "api_client cl objs ok" using assms(1) by (simp add: lagging_client_def)
  obtain mk plan_of where planned: "planned_reconciler cl objs ok t mk plan_of rec"
    and keys: "\<And>ob nn. key_of ob = (t, nn) \<Longrightarrow> plan_keys (plan_of ob) = set (child_keys t nn)"
    using reconcilers_planned_plan [OF api assms(5)] by metis
  show "ok w'" "objs w \<subseteq>\<^sub>m objs w'" using planned_reconciler.reconcile_ok [OF planned assms(2,3,6)] by simp_all
  obtain w1 r where get: "cl_Get cl w t nn = (w1, r)" by fastforce
  note seen1 = lagging_client.get_seen [OF assms(1-3) get]
  have "seen w' = seen w \<and>
    (e = None \<longrightarrow> seen w (t, nn) \<noteq> None \<longrightarrow> (\<forall>k\<in>set (child_keys t nn). objs w' k \<noteq> None \<or> seen w k \<noteq> None)) \<and>
    (objs w' k = Some x \<longrightarrow> objs w k = None \<longrightarrow> k \<in> set (child_keys t nn))"
  proof (cases r)
    case (Inl err)
    with get have get': "cl_Get cl w t nn = (w1, Inl err)" by simp
    from planned_reconciler.reconcile_unread [OF planned assms(2,3) get'] assms(6)
    show ?thesis using seen1 lagging_client.get_miss [OF assms(1-3) get'] by (auto split: if_splits)
  next
    case (Inr ob)
    with get have get': "cl_Get cl w t nn = (w1, Inr ob)" by simp
    note key = api_client.get_key [OF api assms(2,3) get']
    note run = planned_reconciler.reconcile_read [OF planned assms(2,3) get' assms(6)]
    have mk: "mk = ensure \<or> mk = ensure_twice"
      using planned by (simp add: planned_reconciler_def planned_reconciler_axioms_def)
    note lag = lagging_client.chain_lags [OF assms(1) mk run(4,2,1)]
    have "k \<in> set (child_keys t nn)" if new: "objs w' k = Some x" "objs w k = None"
    proof -
      obtain ob0 where "(k, ob0) \<in> plan_objects (plan_of ob)"
        using grows_by_new planned_reconciler.reconcile_safe(2) [OF planned assms(2,3) get' assms(6)] new by blast
      then show ?thesis using plan_objects_keys keys [OF key] by blast
    qed
    with lag seen1 keys [OF key] show ?thesis by simp
  qed
  then show "seen w' = seen w"
    and "e = None \<Longrightarrow> seen w (t, nn) \<noteq> None \<Longrightarrow>
      \<forall>k\<in>set (child_keys t nn). objs w' k \<noteq> None \<or> seen w k \<noteq> None"
    and "objs w' k = Some x \<Longrightarrow> objs w k = None \<Longrightarrow> k \<in> set (child_keys t nn) \<and> is_child_of t nn k x"
    using reconcilers_add_children [OF api assms(2,3,4,5,6)] by (simp_all, metis option.distinct(1))
qed

subsection \<open>The split client lags\<close>

text \<open>A server that keeps each object under its key, and a scheme in which types have kinds of their own.\<close>

locale keyed_server = api_server +
  assumes server_stored: "sok s \<Longrightarrow> sobjs s k = Some x \<Longrightarrow> key_of x = k \<and> proper_name (snd k)"

definition kinds_distinct :: "scheme \<Rightarrow> bool" where
  "kinds_distinct s \<longleftrightarrow>
     (\<forall>t. \<not> isl (GVKForObject t s)) \<and> distinct (map (\<lambda>t. projr (GVKForObject t s)) enum_class.enum)"

lemma kinds_distinctE:
  assumes "kinds_distinct s"
  obtains g where "GVKForObject t s = Inr g" "\<And>t'. GVKForObject t' s = Inr g \<Longrightarrow> t' = t"
proof -
  obtain g where g: "GVKForObject t s = Inr g"
    using assms unfolding kinds_distinct_def by (metis sum.collapse(2))
  have "inj (\<lambda>t. projr (GVKForObject t s))"
    using assms by (simp add: kinds_distinct_def distinct_map UNIV_enum)
  then have "t' = t" if "GVKForObject t' s = Inr g" for t'
    using that g by (metis (mono_tags) injD)
  with g show thesis by (rule that)
qed

definition informer_of :: "'sv DelegatingClient \<Rightarrow> go_type \<Rightarrow> indexer option" where
  "informer_of c t = (case GVKForObject t (dc_scheme c) of Inl err \<Rightarrow> None | Inr g \<Rightarrow> dc_informers c g)"

text \<open>Every kind has an informer, whose entries are objects of its type under their keys.\<close>

definition lag_ok :: "('sv \<Rightarrow> bool) \<Rightarrow> 'sv DelegatingClient \<Rightarrow> bool" where
  "lag_ok sok c \<longleftrightarrow>
     sok (dc_server c) \<and> kinds_distinct (dc_scheme c) \<and>
     (\<forall>t. \<exists>ix. informer_of c t = Some ix \<and>
        (\<forall>key ob. ix key = Some ob \<longrightarrow>
           type_of ob = t \<and> key = MetaNamespaceKeyFunc ob \<and> proper_name (snd (key_of ob))))"

definition lag_seen :: "'sv DelegatingClient \<Rightarrow> store" where
  "lag_seen c k =
     (case informer_of c (fst k) of
        None \<Rightarrow> None
      | Some ix \<Rightarrow> if proper_name (snd k) then ix (objectKeyToStoreKey (snd k)) else None)"

text \<open>The informer of a type adds, replaces or deletes an entry of its index.\<close>

definition update_index :: "obj_key \<Rightarrow> kobj option \<Rightarrow> 'sv DelegatingClient \<Rightarrow> 'sv DelegatingClient" where
  "update_index k v c =
     (case GVKForObject (fst k) (dc_scheme c) of
        Inl err \<Rightarrow> c
      | Inr g \<Rightarrow>
          (case dc_informers c g of
             None \<Rightarrow> c
           | Some ix \<Rightarrow>
               c\<lparr>dc_informers := (dc_informers c)(g \<mapsto> ix(objectKeyToStoreKey (snd k) := v))\<rparr>))"

lemma lag_okE:
  assumes "lag_ok sok c"
  obtains g ix where "GVKForObject t (dc_scheme c) = Inr g" "dc_informers c g = Some ix"
    "\<And>t'. GVKForObject t' (dc_scheme c) = Inr g \<Longrightarrow> t' = t"
    "\<And>key ob. ix key = Some ob \<Longrightarrow>
       type_of ob = t \<and> key = MetaNamespaceKeyFunc ob \<and> proper_name (snd (key_of ob))"
proof -
  obtain g where g: "GVKForObject t (dc_scheme c) = Inr g" "\<And>t'. GVKForObject t' (dc_scheme c) = Inr g \<Longrightarrow> t' = t"
    using assms kinds_distinctE unfolding lag_ok_def by metis
  with assms that show thesis unfolding lag_ok_def informer_of_def by (metis sum.simps(6))
qed

lemma lag_Get:
  assumes "lag_ok sok c" "proper_name nn"
  shows "\<exists>g :: gvk. DelegatingReader_Get sv c t nn =
    (c, case lag_seen c (t, nn) of
          None \<Rightarrow> Inl (NewNotFound (gvk_Group g) (gvk_Kind g) (nn_Name nn)) | Some ob \<Rightarrow> Inr ob)"
    and "lag_seen c (t, nn) = Some ob \<Longrightarrow> key_of ob = (t, nn)"
proof -
  obtain g ix where ix: "GVKForObject t (dc_scheme c) = Inr g" "dc_informers c g = Some ix"
    "\<And>key ob. ix key = Some ob \<Longrightarrow>
       type_of ob = t \<and> key = MetaNamespaceKeyFunc ob \<and> proper_name (snd (key_of ob))"
    using lag_okE [OF assms(1)] by metis
  have seen: "lag_seen c (t, nn) = ix (objectKeyToStoreKey nn)"
    using ix(1,2) assms(2) by (simp add: lag_seen_def informer_of_def)
  have "DelegatingReader_Get sv c t nn = (c, CacheReader_Get g ix t nn)"
    using ix(1,2) by (simp add: DelegatingReader_Get_def informerCache_Get_def InformersMap_Get_def)
  with ix(3) have "DelegatingReader_Get sv c t nn =
    (c, case lag_seen c (t, nn) of
          None \<Rightarrow> Inl (NewNotFound (gvk_Group g) (gvk_Kind g) (nn_Name nn)) | Some ob \<Rightarrow> Inr ob)"
    unfolding seen by (simp add: CacheReader_Get_def split: option.split)
  then show "\<exists>g :: gvk. DelegatingReader_Get sv c t nn =
    (c, case lag_seen c (t, nn) of
          None \<Rightarrow> Inl (NewNotFound (gvk_Group g) (gvk_Kind g) (nn_Name nn)) | Some ob \<Rightarrow> Inr ob)" ..
  show "key_of ob = (t, nn)" if "lag_seen c (t, nn) = Some ob"
  proof -
    have ob: "type_of ob = t" "objectKeyToStoreKey nn = MetaNamespaceKeyFunc ob" "proper_name (snd (key_of ob))"
      using that ix(3) unfolding seen by blast+
    then have "nn = meta_name (meta_of ob)"
      using objectKeyToStoreKey_inject [OF assms(2)] by (simp add: MetaNamespaceKeyFunc_eq key_of_def)
    with ob(1) show ?thesis by (simp add: key_of_def)
  qed
qed

lemma lag_read:
  assumes "lag_ok sok c" "proper_name nn" "cl_Get (split_client sv) c t nn = (c', r)"
  shows "c' = c" "r = Inr ob \<Longrightarrow> key_of ob = (t, nn) \<and> lag_seen c (t, nn) = Some ob"
    and "r = Inl err \<Longrightarrow> lag_seen c (t, nn) = None"
proof -
  obtain g :: gvk where get: "DelegatingReader_Get sv c t nn =
    (c, case lag_seen c (t, nn) of
          None \<Rightarrow> Inl (NewNotFound (gvk_Group g) (gvk_Kind g) (nn_Name nn)) | Some ob \<Rightarrow> Inr ob)"
    using lag_Get(1) [OF assms(1,2), of sv t] by blast
  with assms(3) show "c' = c" "r = Inl err \<Longrightarrow> lag_seen c (t, nn) = None"
    by (simp_all add: split_client_def split: option.splits)
  show "key_of ob = (t, nn) \<and> lag_seen c (t, nn) = Some ob" if "r = Inr ob"
  proof -
    have "lag_seen c (t, nn) = Some ob"
      using get assms(3) that by (simp add: split_client_def split: option.splits)
    with lag_Get(2) [OF assms(1,2)] show ?thesis by blast
  qed
qed

lemma update_index_informer:
  assumes "lag_ok sok c"
  obtains ix where "informer_of c (fst k) = Some ix" "dc_server (update_index k v c) = dc_server c"
    "dc_scheme (update_index k v c) = dc_scheme c"
    "\<And>t. informer_of (update_index k v c) t =
       (if t = fst k then Some (ix(objectKeyToStoreKey (snd k) := v)) else informer_of c t)"
proof -
  obtain g ix where g: "GVKForObject (fst k) (dc_scheme c) = Inr g" and ix: "dc_informers c g = Some ix"
    and other: "\<And>t'. GVKForObject t' (dc_scheme c) = Inr g \<Longrightarrow> t' = fst k"
    using lag_okE [OF assms] by metis
  let ?ix = "ix(objectKeyToStoreKey (snd k) := v)"
  have update: "update_index k v c = c\<lparr>dc_informers := (dc_informers c)(g \<mapsto> ?ix)\<rparr>"
    using g ix by (simp add: update_index_def)
  have "informer_of (update_index k v c) t = (if t = fst k then Some ?ix else informer_of c t)" for t
  proof (cases "t = fst k")
    case True
    with g show ?thesis by (simp add: update informer_of_def)
  next
    case False
    with other have "GVKForObject t (dc_scheme c) \<noteq> Inr g" by blast
    with False show ?thesis by (cases "GVKForObject t (dc_scheme c)") (simp_all add: update informer_of_def)
  qed
  moreover have "informer_of c (fst k) = Some ix" using g ix by (simp add: informer_of_def)
  ultimately show thesis by (intro that) (simp_all add: update)
qed

lemma lag_update_ok:
  assumes "lag_ok sok c" "proper_name (snd k)" "\<And>x. v = Some x \<Longrightarrow> key_of x = k"
  shows "lag_ok sok (update_index k v c)"
proof -
  obtain ix where ix: "informer_of c (fst k) = Some ix" "dc_server (update_index k v c) = dc_server c"
    "dc_scheme (update_index k v c) = dc_scheme c"
    and informer: "\<And>t. informer_of (update_index k v c) t =
       (if t = fst k then Some (ix(objectKeyToStoreKey (snd k) := v)) else informer_of c t)"
    using update_index_informer [OF assms(1)] by metis
  have content: "type_of ob = fst k \<and> key = MetaNamespaceKeyFunc ob \<and> proper_name (snd (key_of ob))"
    if "ix key = Some ob" for key ob
    using assms(1) ix(1) that unfolding lag_ok_def by (metis option.inject)
  have "type_of ob = fst k \<and> key = MetaNamespaceKeyFunc ob \<and> proper_name (snd (key_of ob))"
    if "(ix(objectKeyToStoreKey (snd k) := v)) key = Some ob" for key ob
  proof (cases "key = objectKeyToStoreKey (snd k)")
    case True
    with that have "key_of ob = k" using assms(3) by simp
    with True assms(2) show ?thesis by (auto simp: key_of_def MetaNamespaceKeyFunc_eq)
  next
    case False
    with that content show ?thesis by simp
  qed
  with assms(1) ix(2,3) show ?thesis unfolding lag_ok_def informer by simp
qed

lemma lag_update_seen:
  assumes "lag_ok sok c" "proper_name (snd k)"
  shows "lag_seen (update_index k v c) = (lag_seen c)(k := v)"
proof
  obtain ix where old: "informer_of c (fst k) = Some ix"
    and informer: "\<And>t. informer_of (update_index k v c) t =
       (if t = fst k then Some (ix(objectKeyToStoreKey (snd k) := v)) else informer_of c t)"
    using update_index_informer [OF assms(1)] by metis
  fix k' :: obj_key
  obtain t nn where k': "k' = (t, nn)" by (cases k')
  consider "t \<noteq> fst k" | "t = fst k" "proper_name nn" "nn \<noteq> snd k" | "t = fst k" "\<not> proper_name nn" | "k' = k"
    using k' by (cases k) auto
  then show "lag_seen (update_index k v c) k' = ((lag_seen c)(k := v)) k'"
  proof cases
    case 1
    then show ?thesis using k' by (auto simp: lag_seen_def informer)
  next
    case 2
    then have "objectKeyToStoreKey nn \<noteq> objectKeyToStoreKey (snd k)"
      using objectKeyToStoreKey_inject assms(2) by blast
    moreover have "k' \<noteq> k" using 2 k' by (metis snd_conv)
    ultimately show ?thesis using 2 by (simp add: lag_seen_def informer old k')
  next
    case 3
    then have "k' \<noteq> k" using k' assms(2) by (metis snd_conv)
    with 3 show ?thesis by (simp add: lag_seen_def informer old k')
  next
    case 4
    with assms(2) show ?thesis by (simp add: lag_seen_def informer)
  qed
qed

sublocale keyed_server \<subseteq> lag: lagging_client "split_client sv" "split_objs sobjs" "lag_ok sok" lag_seen update_index
proof unfold_locales
  fix w w' t nn r
  assume ok: "lag_ok sok w" and get: "cl_Get (split_client sv) w t nn = (w', r)"
  obtain g ix where "GVKForObject t (dc_scheme w) = Inr g" "dc_informers w g = Some ix"
    using lag_okE [OF ok] by metis
  with get have "w' = w"
    by (simp add: split_client_def DelegatingReader_Get_def informerCache_Get_def InformersMap_Get_def)
  then show "lag_ok sok w' \<and> split_objs sobjs w' = split_objs sobjs w"
    using ok by simp
next
  fix w w' t nn ob
  assume read: "lag_ok sok w" "proper_name nn" "cl_Get (split_client sv) w t nn = (w', Inr ob)"
  then show "key_of ob = (t, nn)" "lag_seen w (t, nn) = Some ob" using lag_read(2) [OF read] by simp_all
next
  fix w w' t nn err
  assume read: "lag_ok sok w" "proper_name nn" "cl_Get (split_client sv) w t nn = (w', Inl err)"
  then show "lag_seen w (t, nn) = None" using lag_read(3) [OF read] by simp
next
  fix w w' t nn r
  assume read: "lag_ok sok w" "proper_name nn" "cl_Get (split_client sv) w t nn = (w', r)"
  then show "lag_seen w' = lag_seen w" using lag_read(1) [OF read] by simp
next
  fix w w' ob e
  assume ok: "lag_ok sok w" and name: "proper_name (snd (key_of ob))" and create: "cl_Create (split_client sv) w ob = (w', e)"
  obtain g where "GVKForObject (type_of ob) (dc_scheme w) = Inr g" using lag_okE [OF ok] by metis
  with create obtain s' where s': "sv_Post sv (dc_server w) ob = (s', e)" "w' = w\<lparr>dc_server := s'\<rparr>"
    by (auto simp: split_client_def typedClient_Create_def split: prod.splits)
  have sok: "sok (dc_server w)" using ok by (simp add: lag_ok_def)
  have informer: "informer_of w' t = informer_of w t" for t
    by (simp add: informer_of_def s'(2) split: sum.split)
  show "lag_ok sok w'"
    using ok post_ok [OF sok name s'(1)] unfolding lag_ok_def informer by (simp add: s'(2))
  show "lag_seen w' = lag_seen w" by (rule ext) (simp add: lag_seen_def informer)
  show "split_objs sobjs w' = split_objs sobjs w \<and> e \<noteq> None \<or>
      split_objs sobjs w (key_of ob) = None \<and> (\<exists>u. split_objs sobjs w' = (split_objs sobjs w)(key_of ob \<mapsto> with_uid u ob))"
    using post_effect [OF sok name s'(1)] by (simp add: split_objs_def s'(2))
next
  fix w k x
  assume "lag_ok sok w" "split_objs sobjs w k = Some x"
  then show "key_of x = k \<and> proper_name (snd k)"
    using server_stored unfolding lag_ok_def split_objs_def by blast
next
  fix w k v
  show "split_objs sobjs (update_index k v w) = split_objs sobjs w"
    by (simp add: split_objs_def update_index_def split: sum.splits option.splits)
  assume update: "lag_ok sok w" "proper_name (snd k)" "\<And>x. v = Some x \<Longrightarrow> key_of x = k"
  show "lag_ok sok (update_index k v w)" by (rule lag_update_ok [OF update])
  show "lag_seen (update_index k v w) = (lag_seen w)(k := v)" by (rule lag_update_seen [OF update(1,2)])
qed

interpretation fake_keyed: keyed_server fake_server fake_objs fake_ok
proof unfold_locales
  fix s k x
  assume "fake_ok s" "fake_objs s k = Some x"
  then show "key_of x = k \<and> proper_name (snd k)"
    using fake_okD(2,3) [of s x "fst k"] by (cases k) (auto simp: fake_objs_def find_Some_iff key_of_def)
qed

lemma operator_kinds_distinct: "kinds_distinct operator_scheme"
  by code_simp

end
