(* ===== verification/Cached_System.thy ===== *)
theory Cached_System
  imports Operator_Progress Lagging_Client
begin

section \<open>The operator over its caches\<close>

text \<open>
  The composition again, now with the client that the manager gives the reconcilers. Informers
  receive the versions of every object in order, one after the other, and only when an informer
  takes a version does it update its cache and notify the controllers of the difference. Until
  then the reads of all reconcilers lag behind, and different objects lag behind differently.
\<close>

subsection \<open>Versions on their way\<close>

text \<open>The events that an informer will send which has one version and is going to get others.\<close>

fun stream_events :: "kobj option \<Rightarrow> kobj option list \<Rightarrow> event list" where
  "stream_events a [] = []"
| "stream_events a (b # bs) =
     (case notification a b of None \<Rightarrow> stream_events b bs | Some ev \<Rightarrow> ev # stream_events b bs)"

type_synonym streams = "obj_key \<Rightarrow> kobj option list"

text \<open>A change of the server puts the new versions of the changed objects on their way.\<close>

definition write_streams :: "store \<Rightarrow> store \<Rightarrow> streams \<Rightarrow> streams" where
  "write_streams m m' st = (\<lambda>k. if m k = m' k then st k else st k @ [m' k])"

definition upcoming :: "store \<Rightarrow> streams \<Rightarrow> typed_event set" where
  "upcoming c st = {(ty, ev). \<exists>nn. ev \<in> set (stream_events (c (ty, nn)) (st (ty, nn)))}"

lemma stream_events_append:
  "stream_events a (bs @ [c]) =
     stream_events a bs @ (case notification (last (a # bs)) c of None \<Rightarrow> [] | Some ev \<Rightarrow> [ev])"
  by (induction bs arbitrary: a) (auto split: option.splits)

lemma write_same [simp]: "write_streams m m st = st"
  by (simp add: write_streams_def)

text \<open>The events of a change come after those that are on their way already.\<close>

lemma upcoming_write:
  assumes "\<And>k. last (c k # st k) = m k"
  shows "upcoming c (write_streams m m' st) = upcoming c st \<union> changes m m'"
proof -
  have "set (stream_events (c k) (write_streams m m' st k)) =
      set (stream_events (c k) (st k)) \<union> {ev. m k \<noteq> m' k \<and> notification (m k) (m' k) = Some ev}" for k
    using assms [of k] stream_events_append [of "c k" "st k" "m' k"]
    by (auto simp: write_streams_def split: option.splits)
  then show ?thesis by (auto simp: upcoming_def changes_def)
qed

lemma last_write: "last (c k # st k) = m k \<Longrightarrow> last (c k # write_streams m m' st k) = m' k"
  by (auto simp: write_streams_def split: if_splits)

lemma upcoming_UN: "upcoming c st = (\<Union>k. Pair (fst k) ` set (stream_events (c k) (st k)))"
  by (auto simp: upcoming_def) force

lemma upcoming_sync:
  assumes "st k = v # vs"
  shows "upcoming c st = {(ty, ev). ty = fst k \<and> notification (c k) v = Some ev} \<union> upcoming (c(k := v)) (st(k := vs))"
proof -
  define X where "X k' = set (stream_events ((c(k := v)) k') ((st(k := vs)) k'))" for k'
  have "set (stream_events (c k') (st k')) =
      (if k' = k then {ev. notification (c k) v = Some ev} else {}) \<union> X k'" for k'
    using assms by (auto simp: X_def split: option.splits)
  then have "upcoming c st = (\<Union>k'. Pair (fst k') ` ((if k' = k then {ev. notification (c k) v = Some ev} else {}) \<union> X k'))"
    by (simp add: upcoming_UN)
  also have "\<dots> = Pair (fst k) ` {ev. notification (c k) v = Some ev} \<union> (\<Union>k'. Pair (fst k') ` X k')"
    by (auto split: if_splits)
  finally show ?thesis by (auto simp: upcoming_UN X_def)
qed

text \<open>The last version that was there, of an object that is gone: the informer will delete it.\<close>

fun last_some :: "'a option list \<Rightarrow> 'a option" where
  "last_some [] = None"
| "last_some (x # xs) = (case last_some xs of None \<Rightarrow> x | Some y \<Rightarrow> Some y)"

lemma last_some_append [simp]:
  "last_some (xs @ [x]) = (case x of None \<Rightarrow> last_some xs | Some y \<Rightarrow> Some y)"
  by (induction xs) (auto split: option.splits)

lemma last_some_None: "last_some xs = None \<longleftrightarrow> set xs \<subseteq> {None}"
  by (induction xs) (auto split: option.splits)

lemma last_some_last: "last (x # xs) = Some y \<Longrightarrow> last_some (x # xs) = Some y"
  by (induction xs arbitrary: x) (auto split: if_splits option.splits)

lemma last_some_deleted:
  "last_some (a # bs) = Some y \<Longrightarrow> last (a # bs) = None \<Longrightarrow> DeleteEvent (meta_of y) \<in> set (stream_events a bs)"
proof (induction bs arbitrary: a)
  case (Cons b bs)
  show ?case
  proof (cases "last_some (b # bs)")
    case None
    then have "b = None" "a = Some y" using Cons.prems by (auto split: option.splits)
    then show ?thesis by simp
  next
    case (Some z)
    then have "z = y" "last (b # bs) = None" using Cons.prems by (auto split: if_splits)
    with Cons.IH [of b] Some show ?thesis by (auto split: option.splits)
  qed
qed simp

subsection \<open>States and steps\<close>

record 'w cached_state = "'w operator_state" +
  cs_stream :: streams \<comment> \<open>versions that the informers have not taken yet\<close>

definition cached_put ::
  "('w \<Rightarrow> store) \<Rightarrow> go_type \<Rightarrow> 'w controller \<Rightarrow> 'w cached_state \<Rightarrow> 'w cached_state" where
  "cached_put objs t c sy =
     sy\<lparr>os_world := ct_world c, os_ctl := (os_ctl sy)(t := c),
       cs_stream := write_streams (objs (os_world sy)) (objs (ct_world c)) (cs_stream sy)\<rparr>"

text \<open>An informer takes a version: it updates its cache and notifies its listeners.\<close>

definition take_version ::
  "('w \<Rightarrow> store) \<Rightarrow> (obj_key \<Rightarrow> kobj option \<Rightarrow> 'w \<Rightarrow> 'w) \<Rightarrow> obj_key \<Rightarrow> kobj option \<Rightarrow>
   'w cached_state \<Rightarrow> 'w cached_state" where
  "take_version seen sync k v sy =
     announce {(ty, ev). ty = fst k \<and> notification (seen (os_world sy) k) v = Some ev}
       (sy\<lparr>os_world := sync k v (os_world sy), cs_stream := (cs_stream sy)(k := tl (cs_stream sy k))\<rparr>)"

definition cached_change :: "('w \<Rightarrow> store) \<Rightarrow> 'w \<Rightarrow> 'w cached_state \<Rightarrow> 'w cached_state" where
  "cached_change objs w' sy =
     sy\<lparr>os_world := w', cs_stream := write_streams (objs (os_world sy)) (objs w') (cs_stream sy)\<rparr>"

text \<open>At the start the caches are empty, and the initial lists are on their way.\<close>

definition initial_cached :: "('w \<Rightarrow> store) \<Rightarrow> 'w \<Rightarrow> 'w cached_state" where
  "initial_cached objs w =
     \<lparr>os_world = w, os_ctl = (\<lambda>t. initial_controller w), os_events = (\<lambda>t. {}),
      cs_stream = write_streams Map.empty (objs w) (\<lambda>k. [])\<rparr>"

inductive cached_work ::
  "'w client \<Rightarrow> scheme \<Rightarrow> ('w \<Rightarrow> store) \<Rightarrow> ('w \<Rightarrow> store) \<Rightarrow> (obj_key \<Rightarrow> kobj option \<Rightarrow> 'w \<Rightarrow> 'w) \<Rightarrow>
   'w cached_state \<Rightarrow> 'w cached_state \<Rightarrow> bool"
  for cl :: "'w client" and s :: scheme and objs seen :: "'w \<Rightarrow> store"
    and sync :: "obj_key \<Rightarrow> kobj option \<Rightarrow> 'w \<Rightarrow> 'w" where
  deliver: "t \<in> owner_types \<Longrightarrow> e \<in> os_events sy t \<Longrightarrow> cached_work cl s objs seen sync sy (deliver s t e sy)"
| sync: "cs_stream sy k = v # vs \<Longrightarrow> cached_work cl s objs seen sync sy (take_version seen sync k v sy)"
| worker: "(t, rec) \<in> set (reconcilers \<lparr>r_client = cl, r_scheme = s\<rparr>) \<Longrightarrow>
    worker_step rec (view sy t) c \<Longrightarrow> cached_work cl s objs seen sync sy (cached_put objs t c sy)"

text \<open>A resynchronisation goes over the caches. Others may do what depends on the whole state.\<close>

inductive cached_step ::
  "'w client \<Rightarrow> scheme \<Rightarrow> ('w \<Rightarrow> store) \<Rightarrow> ('w \<Rightarrow> store) \<Rightarrow> (obj_key \<Rightarrow> kobj option \<Rightarrow> 'w \<Rightarrow> 'w) \<Rightarrow>
   ('w cached_state \<Rightarrow> 'w \<Rightarrow> bool) \<Rightarrow> 'w cached_state \<Rightarrow> 'w cached_state \<Rightarrow> bool"
  for cl :: "'w client" and s :: scheme and objs seen :: "'w \<Rightarrow> store"
    and sync :: "obj_key \<Rightarrow> kobj option \<Rightarrow> 'w \<Rightarrow> 'w" and foreign :: "'w cached_state \<Rightarrow> 'w \<Rightarrow> bool" where
  work: "cached_work cl s objs seen sync sy sy' \<Longrightarrow> cached_step cl s objs seen sync foreign sy sy'"
| retry: "t \<in> owner_types \<Longrightarrow> retry_step (view sy t) c \<Longrightarrow>
    cached_step cl s objs seen sync foreign sy (cached_put objs t c sy)"
| resync: "cached_step cl s objs seen sync foreign sy (announce (resync_events (seen (os_world sy))) sy)"
| change: "foreign sy w' \<Longrightarrow> cached_step cl s objs seen sync foreign sy (cached_change objs w' sy)"

subsection \<open>What a controller will hear of\<close>

definition awaited :: "scheme \<Rightarrow> ('w \<Rightarrow> store) \<Rightarrow> go_type \<Rightarrow> 'w cached_state \<Rightarrow> namespaced_name set" where
  "awaited s seen t sy =
     unsettled s t sy \<union> (\<Union>e\<in>upcoming (seen (os_world sy)) (cs_stream sy). set (requests_of s t e))"

lemma cached_put_fields [simp]:
  "os_world (cached_put objs t c sy) = ct_world c"
  "view (cached_put objs t c sy) t' = (if t' = t then c else (view sy t')\<lparr>ct_world := ct_world c\<rparr>)"
  "noticed s t' (cached_put objs t c sy) = noticed s t' sy"
  "cs_stream (cached_put objs t c sy) = write_streams (objs (os_world sy)) (objs (ct_world c)) (cs_stream sy)"
  by (simp_all add: cached_put_def view_def noticed_def)

lemma cached_change_fields [simp]:
  "os_world (cached_change objs w' sy) = w'" "view (cached_change objs w' sy) t = (view sy t)\<lparr>ct_world := w'\<rparr>"
  "noticed s t (cached_change objs w' sy) = noticed s t sy"
  "cs_stream (cached_change objs w' sy) = write_streams (objs (os_world sy)) (objs w') (cs_stream sy)"
  by (simp_all add: cached_change_def view_def noticed_def)

lemma announce_stream [simp]: "cs_stream (announce evs sy) = cs_stream sy"
  by (simp add: announce_def)

lemma take_version_fields [simp]:
  "os_world (take_version seen sync k v sy) = sync k v (os_world sy)"
  "view (take_version seen sync k v sy) t = (view sy t)\<lparr>ct_world := sync k v (os_world sy)\<rparr>"
  "t \<in> owner_types \<Longrightarrow> noticed s t (take_version seen sync k v sy) =
     noticed s t sy \<union> (\<Union>e\<in>{(ty, ev). ty = fst k \<and> notification (seen (os_world sy) k) v = Some ev}. set (requests_of s t e))"
  "cs_stream (take_version seen sync k v sy) = (cs_stream sy)(k := tl (cs_stream sy k))"
  unfolding take_version_def by (simp_all add: view_def) (simp add: noticed_def)

lemma deliver_stream [simp]: "cs_stream (deliver s t e sy) = cs_stream sy"
  by (simp add: deliver_def)

lemma initial_cached_fields [simp]:
  "os_world (initial_cached objs w) = w" "view (initial_cached objs w) t = initial_controller w"
  "noticed s t (initial_cached objs w) = {}"
  "cs_stream (initial_cached objs w) = write_streams Map.empty (objs w) (\<lambda>k. [])"
  by (simp_all add: initial_cached_def view_def noticed_def) (simp add: initial_controller_def)

end
