(* ===== verification/Cached_Progress.thy ===== *)
theory Cached_Progress
  imports Cached_System
begin

section \<open>Nothing is forgotten over caches either\<close>

text \<open>
  The invariant of the operator over its caches. The versions on their way lead from what a
  cache has to what the server has; and when a child is gone on the server but not yet in the
  cache, the deletion that is on its way will bring the owner back to work. So a run that
  takes a stale child for an existing one, or does not see its resource yet, loses nothing.
\<close>

subsection \<open>The invariant\<close>

definition valid_object :: "scheme \<Rightarrow> go_type \<Rightarrow> kobj \<Rightarrow> bool" where
  "valid_object s ty x \<longleftrightarrow>
     (\<forall>t\<in>owner_types. set (requests_of s t (ty, GenericEvent (meta_of x))) \<subseteq> Collect proper_name)"

definition versions :: "('w \<Rightarrow> store) \<Rightarrow> 'w cached_state \<Rightarrow> obj_key \<Rightarrow> kobj option list" where
  "versions seen sy k = seen (os_world sy) k # cs_stream sy k"

definition streams_ok ::
  "('w \<Rightarrow> store) \<Rightarrow> ('w \<Rightarrow> store) \<Rightarrow> scheme \<Rightarrow> 'w cached_state \<Rightarrow> bool" where
  "streams_ok objs seen s sy \<longleftrightarrow>
     (\<forall>k. last (versions seen sy k) = objs (os_world sy) k \<and>
        (cs_stream sy k \<noteq> [] \<longrightarrow> proper_name (snd k)) \<and>
        (\<forall>x. Some x \<in> set (versions seen sy k) \<longrightarrow> key_of x = k \<and> valid_object s (fst k) x))"

lemma streams_okD:
  assumes "streams_ok objs seen s sy"
  shows "last (versions seen sy k) = objs (os_world sy) k"
    and "cs_stream sy k \<noteq> [] \<Longrightarrow> proper_name (snd k)"
    and "Some x \<in> set (versions seen sy k) \<Longrightarrow> key_of x = k \<and> valid_object s (fst k) x"
    and "objs (os_world sy) k = Some x \<Longrightarrow> key_of x = k \<and> valid_object s (fst k) x"
proof -
  show last: "last (versions seen sy k) = objs (os_world sy) k"
    and "cs_stream sy k \<noteq> [] \<Longrightarrow> proper_name (snd k)"
    and all: "Some x \<in> set (versions seen sy k) \<Longrightarrow> key_of x = k \<and> valid_object s (fst k) x" for x
    using assms unfolding streams_ok_def by blast+
  have "versions seen sy k \<noteq> []" by (simp add: versions_def)
  then show "objs (os_world sy) k = Some x \<Longrightarrow> key_of x = k \<and> valid_object s (fst k) x"
    using last all last_in_set by metis
qed

definition cached_inv ::
  "('w \<Rightarrow> store) \<Rightarrow> ('w \<Rightarrow> bool) \<Rightarrow> ('w \<Rightarrow> store) \<Rightarrow> scheme \<Rightarrow> 'w cached_state \<Rightarrow> bool" where
  "cached_inv objs ok seen s sy \<longleftrightarrow>
     ok (os_world sy) \<and> streams_ok objs seen s sy \<and>
     (\<forall>t\<in>owner_types. ctl_inv (\<lambda>_. True) (view sy t) \<and> awaited s seen t sy \<subseteq> Collect proper_name)"

definition cached_covered ::
  "('w \<Rightarrow> store) \<Rightarrow> ('w \<Rightarrow> store) \<Rightarrow> scheme \<Rightarrow> 'w cached_state \<Rightarrow> bool" where
  "cached_covered objs seen s sy \<longleftrightarrow>
     (\<forall>t\<in>owner_types. \<forall>nn. proper_name nn \<longrightarrow> objs (os_world sy) (t, nn) \<noteq> None \<longrightarrow>
        nn \<in> awaited s seen t sy \<or> has_children (objs (os_world sy)) t nn)"

text \<open>The deletions on their way, of children of resources in the store, ask for these resources.\<close>

definition deletions_covered ::
  "('w \<Rightarrow> store) \<Rightarrow> ('w \<Rightarrow> store) \<Rightarrow> scheme \<Rightarrow> 'w cached_state \<Rightarrow> bool" where
  "deletions_covered objs seen s sy \<longleftrightarrow>
     (\<forall>t\<in>owner_types. \<forall>nn k y. proper_name nn \<longrightarrow> objs (os_world sy) (t, nn) \<noteq> None \<longrightarrow>
        k \<in> set (child_keys t nn) \<longrightarrow> objs (os_world sy) k = None \<longrightarrow>
        last_some (versions seen sy k) = Some y \<longrightarrow> nn \<in> set (requests_of s t (fst k, DeleteEvent (meta_of y))))"

text \<open>
  What others do. They write valid objects and do not touch the caches; they delete children
  that stay wanted only where a watch sees it; and they do not create a resource as long as a
  cache has leftovers of children of its name that are gone.
\<close>

definition others_valid ::
  "('w \<Rightarrow> store) \<Rightarrow> ('w \<Rightarrow> bool) \<Rightarrow> ('w \<Rightarrow> store) \<Rightarrow> scheme \<Rightarrow> ('w cached_state \<Rightarrow> 'w \<Rightarrow> bool) \<Rightarrow> bool" where
  "others_valid objs ok seen s foreign \<longleftrightarrow>
     (\<forall>sy w'. ok (os_world sy) \<longrightarrow> foreign sy w' \<longrightarrow>
        ok w' \<and> seen w' = seen (os_world sy) \<and>
        (\<forall>k x. objs w' k = Some x \<longrightarrow> objs (os_world sy) k = Some x \<or> valid_object s (fst k) x))"

definition others_considerate ::
  "('w \<Rightarrow> store) \<Rightarrow> ('w \<Rightarrow> bool) \<Rightarrow> ('w \<Rightarrow> store) \<Rightarrow> scheme \<Rightarrow> ('w cached_state \<Rightarrow> 'w \<Rightarrow> bool) \<Rightarrow> bool" where
  "others_considerate objs ok seen s foreign \<longleftrightarrow>
     (\<forall>sy w' t nn k. ok (os_world sy) \<longrightarrow> foreign sy w' \<longrightarrow> t \<in> owner_types \<longrightarrow> proper_name nn \<longrightarrow>
        objs w' (t, nn) \<noteq> None \<longrightarrow> k \<in> set (child_keys t nn) \<longrightarrow> objs w' k = None \<longrightarrow>
        (if objs (os_world sy) (t, nn) \<noteq> None
         then \<forall>x. objs (os_world sy) k = Some x \<longrightarrow> nn \<in> set (requests_of s t (fst k, DeleteEvent (meta_of x)))
         else last_some (versions seen sy k) = None))"

subsection \<open>Versions and events\<close>

lemma versions_put [simp]:
  "seen (ct_world c) = seen (os_world sy) \<Longrightarrow> versions seen (cached_put objs t c sy) k =
     versions seen sy k @ (if objs (os_world sy) k = objs (ct_world c) k then [] else [objs (ct_world c) k])"
  "seen w' = seen (os_world sy) \<Longrightarrow> versions seen (cached_change objs w' sy) k =
     versions seen sy k @ (if objs (os_world sy) k = objs w' k then [] else [objs w' k])"
  "versions seen (deliver s t' e sy) k = versions seen sy k"
  "versions seen (announce evs sy) k = versions seen sy k"
  by (simp_all add: versions_def write_streams_def)

lemma awaited_put:
  assumes "streams_ok objs seen s' sy" "seen (ct_world c) = seen (os_world sy)"
  shows "awaited s seen t' (cached_put objs t c sy) =
    outstanding (view (cached_put objs t c sy) t') \<union> noticed s t' sy \<union>
    (\<Union>e\<in>upcoming (seen (os_world sy)) (cs_stream sy). set (requests_of s t' e)) \<union>
    (\<Union>e\<in>changes (objs (os_world sy)) (objs (ct_world c)). set (requests_of s t' e))"
proof -
  have "last (seen (os_world sy) k # cs_stream sy k) = objs (os_world sy) k" for k
    using streams_okD(1) [OF assms(1), of k] by (simp add: versions_def)
  from upcoming_write [OF this] show ?thesis
    by (simp add: awaited_def unsettled_def assms(2) UN_Un Un_assoc)
qed

lemma awaited_change:
  assumes "streams_ok objs seen s' sy" "seen w' = seen (os_world sy)"
  shows "awaited s seen t (cached_change objs w' sy) =
    awaited s seen t sy \<union> (\<Union>e\<in>changes (objs (os_world sy)) (objs w'). set (requests_of s t e))"
proof -
  have "last (seen (os_world sy) k # cs_stream sy k) = objs (os_world sy) k" for k
    using streams_okD(1) [OF assms(1), of k] by (simp add: versions_def)
  from upcoming_write [OF this] show ?thesis
    by (simp add: awaited_def unsettled_def assms(2) UN_Un Un_assoc)
qed

lemma awaited_deliver:
  assumes "t \<in> owner_types" "e \<in> os_events sy t" "ctl_inv ok (view sy t)"
  shows "awaited s seen t' (deliver s t e sy) = awaited s seen t' sy"
  using unsettled_deliver [OF assms, of s t'] by (simp add: awaited_def)

lemma awaited_announce:
  "t \<in> owner_types \<Longrightarrow> awaited s seen t (announce evs sy) = awaited s seen t sy \<union> (\<Union>e\<in>evs. set (requests_of s t e))"
  by (auto simp: awaited_def)

text \<open>Taking a version moves an event from the future to the present.\<close>

lemma awaited_sync:
  assumes "lagging_client cl objs ok seen sync" "cached_inv objs ok seen s' sy" "cs_stream sy k = v # vs"
    and "t \<in> owner_types"
  shows "awaited s seen t (take_version seen sync k v sy) = awaited s seen t sy"
    and "seen (sync k v (os_world sy)) = (seen (os_world sy))(k := v)" "ok (sync k v (os_world sy))"
proof -
  have inv: "ok (os_world sy)" "streams_ok objs seen s' sy" using assms(2) by (simp_all add: cached_inv_def)
  have proper: "proper_name (snd k)" using streams_okD(2) [OF inv(2)] assms(3) by simp
  have key: "key_of x = k" if "v = Some x" for x
    using streams_okD(3) [OF inv(2), of x k] assms(3) that by (simp add: versions_def)
  show seen: "seen (sync k v (os_world sy)) = (seen (os_world sy))(k := v)" "ok (sync k v (os_world sy))"
    using lagging_client.sync_seen [OF assms(1) inv(1) proper key] lagging_client.sync_ok [OF assms(1) inv(1) proper key]
    by simp_all
  show "awaited s seen t (take_version seen sync k v sy) = awaited s seen t sy"
    using upcoming_sync [of "cs_stream sy" k v vs "seen (os_world sy)", OF assms(3)] assms(3,4)
    by (simp add: awaited_def unsettled_def seen(1) UN_Un Un_ac)
qed

lemma changes_proper:
  assumes "e \<in> changes m m'" "t \<in> owner_types"
    and "\<And>k x. m k = Some x \<or> m' k = Some x \<Longrightarrow> valid_object s (fst k) x"
  shows "set (requests_of s t e) \<subseteq> Collect proper_name"
proof -
  obtain ty nn ev where e: "e = (ty, ev)" "notification (m (ty, nn)) (m' (ty, nn)) = Some ev"
    using assms(1) by (auto simp: changes_def)
  have "set (requests_of s t (ty, GenericEvent (meta_of x))) \<subseteq> Collect proper_name"
    if "m (ty, nn) = Some x \<or> m' (ty, nn) = Some x" for x
    using assms(3) [OF that] assms(2) by (simp add: valid_object_def)
  with e show ?thesis by (auto elim!: notification_cases simp: set_requests_of) blast+
qed

text \<open>A resource that appears or changes on the server is on its way.\<close>

lemma appears_requests:
  assumes "t \<in> owner_types" "key_of x = (t, nn)" "m (t, nn) \<noteq> Some x" "m' (t, nn) = Some x"
  shows "\<exists>e\<in>changes m m'. nn \<in> set (requests_of s t e)"
proof -
  have self: "nn \<in> set (requests_of s t (t, GenericEvent (meta_of x)))" by (rule requests_self [OF assms(1,2)])
  obtain ev where ev: "notification (m (t, nn)) (Some x) = Some ev" "nn \<in> set (requests_of s t (t, ev))"
    using self by (cases "m (t, nn)") (auto simp: set_requests_of)
  have "(t, ev) \<in> changes m m'" by (rule changesI [of _ _ nn]) (use assms(3,4) ev(1) in simp_all)
  with ev(2) show ?thesis by blast
qed

lemma stream_last:
  assumes "last (a # bs) = Some x" "a \<noteq> Some x"
  shows "\<exists>ev\<in>set (stream_events a bs). ev = CreateEvent (meta_of x) \<or> (\<exists>m. ev = UpdateEvent m (meta_of x))"
proof (cases bs rule: rev_cases)
  case (snoc cs c)
  then have "c = Some x" using assms(1) by simp
  then show ?thesis using snoc stream_events_append [of a cs c] by (cases "last (a # cs)") auto
qed (use assms in simp)

lemma unseen_awaited:
  assumes "streams_ok objs seen s sy" "t \<in> owner_types" "objs (os_world sy) (t, nn) = Some x"
    and "seen (os_world sy) (t, nn) = None"
  shows "\<exists>e\<in>upcoming (seen (os_world sy)) (cs_stream sy). nn \<in> set (requests_of s t e)"
proof -
  let ?k = "(t, nn)"
  have "last (seen (os_world sy) ?k # cs_stream sy ?k) = Some x"
    using streams_okD(1) [OF assms(1), of ?k] assms(3) by (simp add: versions_def)
  from stream_last [OF this] assms(4)
  obtain ev where ev: "ev \<in> set (stream_events (seen (os_world sy) ?k) (cs_stream sy ?k))"
    "ev = CreateEvent (meta_of x) \<or> (\<exists>m. ev = UpdateEvent m (meta_of x))" by auto
  have "key_of x = ?k" using streams_okD(4) [OF assms(1,3)] by simp
  then have "nn \<in> set (requests_of s t (t, ev))"
    using requests_self [OF assms(2)] ev(2) by (auto simp: set_requests_of)
  moreover have "(t, ev) \<in> upcoming (seen (os_world sy)) (cs_stream sy)"
    using ev(1) by (auto simp: upcoming_def)
  ultimately show ?thesis by blast
qed

text \<open>A stale entry means that its deletion is on its way.\<close>

lemma stale_awaited:
  assumes "streams_ok objs seen s sy" "deletions_covered objs seen s sy" "t \<in> owner_types" "proper_name nn"
    and "objs (os_world sy) (t, nn) \<noteq> None" "k \<in> set (child_keys t nn)" "objs (os_world sy) k = None"
    and "seen (os_world sy) k \<noteq> None"
  shows "\<exists>e\<in>upcoming (seen (os_world sy)) (cs_stream sy). nn \<in> set (requests_of s t e)"
proof -
  have "last_some (versions seen sy k) \<noteq> None" using assms(8) by (auto simp: versions_def split: option.splits)
  then obtain y where y: "last_some (versions seen sy k) = Some y" by blast
  have "nn \<in> set (requests_of s t (fst k, DeleteEvent (meta_of y)))"
    using assms(2)[unfolded deletions_covered_def] assms(3-7) y by blast
  moreover have "DeleteEvent (meta_of y) \<in> set (stream_events (seen (os_world sy) k) (cs_stream sy k))"
    using last_some_deleted y streams_okD(1) [OF assms(1), of k] assms(7) by (metis versions_def)
  then have "(fst k, DeleteEvent (meta_of y)) \<in> upcoming (seen (os_world sy)) (cs_stream sy)"
    unfolding upcoming_def by (cases k) auto
  ultimately show ?thesis by blast
qed

subsection \<open>Steps\<close>

lemma streams_ok_write:
  assumes "lagging_client cl objs ok seen sync" "streams_ok objs seen s sy" "ok (os_world sy)" "ok (os_world sy')"
    and "seen (os_world sy') = seen (os_world sy)"
    and "cs_stream sy' = write_streams (objs (os_world sy)) (objs (os_world sy')) (cs_stream sy)"
    and "\<And>k x. objs (os_world sy') k = Some x \<Longrightarrow> objs (os_world sy) k = Some x \<or> valid_object s (fst k) x"
  shows "streams_ok objs seen s sy'"
  unfolding streams_ok_def
proof (intro allI conjI impI)
  let ?m = "objs (os_world sy)" and ?m' = "objs (os_world sy')"
  have versions: "versions seen sy' k = versions seen sy k @ (if ?m k = ?m' k then [] else [?m' k])" for k
    by (simp add: versions_def assms(5,6) write_streams_def)
  note old = streams_okD [OF assms(2)] and stored = lagging_client.stored [OF assms(1)]
  fix k
  show "last (versions seen sy' k) = ?m' k" using old(1) [of k] by (simp add: versions)
  show "proper_name (snd k)" if "cs_stream sy' k \<noteq> []"
  proof (cases "?m k = ?m' k")
    case True
    with that old(2) [of k] show ?thesis by (simp add: assms(6) write_streams_def)
  next
    case False
    then obtain x where "?m k = Some x \<or> ?m' k = Some x" by (cases "?m k"; cases "?m' k") auto
    with stored [OF assms(3), of k x] stored [OF assms(4), of k x] show ?thesis by blast
  qed
  fix x assume "Some x \<in> set (versions seen sy' k)"
  then consider "Some x \<in> set (versions seen sy k)" | "?m' k = Some x" by (auto simp: versions split: if_splits)
  then have "key_of x = k \<and> valid_object s (fst k) x"
  proof cases
    case 1
    then show ?thesis by (rule old(3))
  next
    case 2
    with assms(7) [OF 2] old(4) [of k x] stored [OF assms(4), of k x] show ?thesis by blast
  qed
  then show "key_of x = k" "valid_object s (fst k) x" by simp_all
qed

lemma streams_ok_sync:
  assumes "streams_ok objs seen s sy" "cs_stream sy k = v # vs"
    and "seen (sync k v (os_world sy)) = (seen (os_world sy))(k := v)" "objs (sync k v (os_world sy)) = objs (os_world sy)"
  shows "streams_ok objs seen s (take_version seen sync k v sy)"
    and "versions seen (take_version seen sync k v sy) k' = (if k' = k then tl (versions seen sy k) else versions seen sy k')"
proof -
  let ?sy = "take_version seen sync k v sy"
  show versions: "versions seen ?sy k' = (if k' = k then tl (versions seen sy k) else versions seen sy k')" for k'
    by (simp add: versions_def assms(2,3))
  show "streams_ok objs seen s ?sy"
    unfolding streams_ok_def
  proof (intro allI conjI impI)
    fix k'
    note old = streams_okD [OF assms(1), where k = k']
    show "last (versions seen ?sy k') = objs (os_world ?sy) k'"
      using old(1) by (auto simp: versions assms(4)) (simp add: versions_def assms(2))
    show "proper_name (snd k')" if "cs_stream ?sy k' \<noteq> []"
      using old(2) that by (auto simp: assms(2) split: if_splits)
    fix x assume "Some x \<in> set (versions seen ?sy k')"
    then have "Some x \<in> set (versions seen sy k')"
      unfolding versions by (auto simp: versions_def assms(2) split: if_splits)
    with old(3) show "key_of x = k'" "valid_object s (fst k') x" by blast+
  qed
qed

lemma last_some_tl: "last_some (tl xs) = Some y \<Longrightarrow> last_some xs = Some y"
  by (cases xs) auto

lemma cached_sync_step:
  assumes "lagging_client cl objs ok seen sync" "cached_inv objs ok seen s sy" "cs_stream sy k = v # vs"
  shows "cached_inv objs ok seen s (take_version seen sync k v sy)"
    and "cached_covered objs seen s sy \<Longrightarrow> cached_covered objs seen s (take_version seen sync k v sy)"
    and "deletions_covered objs seen s sy \<Longrightarrow> deletions_covered objs seen s (take_version seen sync k v sy)"
proof -
  let ?sy = "take_version seen sync k v sy"
  note sync = awaited_sync [OF assms]
  have objs: "objs (sync k v (os_world sy)) = objs (os_world sy)" by (rule lagging_client.sync_objs [OF assms(1)])
  have ex: "AtomixClusterT \<in> owner_types" by (simp add: owner_types_def)
  note stream = streams_ok_sync [where sync = sync, OF _ assms(3) sync(2) [OF ex] objs]
  have inv: "streams_ok objs seen s sy" using assms(2) by (simp add: cached_inv_def)
  show "cached_inv objs ok seen s ?sy"
    using assms(2) stream(1) [OF inv] sync(1) sync(3) [OF ex] by (simp add: cached_inv_def)
  show "cached_covered objs seen s sy \<Longrightarrow> cached_covered objs seen s ?sy"
    by (simp add: cached_covered_def sync(1) objs)
  show "deletions_covered objs seen s ?sy" if "deletions_covered objs seen s sy"
    using that last_some_tl [of "versions seen sy k"]
    unfolding deletions_covered_def stream(2) [OF inv] by (simp add: objs) metis
qed

text \<open>The step of a worker.\<close>

lemma cached_worker_effect:
  assumes "lagging_client cl objs ok seen sync" "scheme_ready s" "cached_inv objs ok seen s sy"
    and "(t, rec) \<in> set (reconcilers \<lparr>r_client = cl, r_scheme = s\<rparr>)" "worker_step rec (view sy t) c"
  shows "t \<in> owner_types" "ctl_inv (\<lambda>_. True) c" "ok (ct_world c)" "seen (ct_world c) = seen (os_world sy)"
    and "objs (os_world sy) \<subseteq>\<^sub>m objs (ct_world c)"
    and "objs (ct_world c) k = Some x \<Longrightarrow> objs (os_world sy) k = None \<Longrightarrow>
      \<exists>nn. ct_current (view sy t) = Some nn \<and> proper_name nn \<and> k \<in> set (child_keys t nn) \<and> is_child_of t nn k x"
proof -
  show t: "t \<in> owner_types" using assms(4) by (auto simp: reconcilers_def owner_types_def)
  have inv: "ctl_inv (\<lambda>_. True) (view sy t)" "ok (os_world sy)" "awaited s seen t sy \<subseteq> Collect proper_name"
    using assms(3) t by (simp_all add: cached_inv_def)
  show "ctl_inv (\<lambda>_. True) c"
    by (rule ctl_inv_step [OF worker_ctl_step [OF assms(5), of "\<lambda>_ _. True" "{}"] inv(1)]) simp_all
  from assms(5) have "ok (ct_world c) \<and> seen (ct_world c) = seen (os_world sy) \<and>
    objs (os_world sy) \<subseteq>\<^sub>m objs (ct_world c) \<and>
    (\<forall>k x. objs (ct_world c) k = Some x \<longrightarrow> objs (os_world sy) k = None \<longrightarrow>
      (\<exists>nn. ct_current (view sy t) = Some nn \<and> proper_name nn \<and> k \<in> set (child_keys t nn) \<and> is_child_of t nn k x))"
  proof cases
    case (take q r)
    then show ?thesis using inv(2) by simp
  next
    case (finish r)
    obtain w' res e where run: "rec r (os_world sy) = (w', res, e)" by (metis prod_cases3)
    have r: "proper_name r" using inv(3) finish(2) by (auto simp: awaited_def unsettled_def outstanding_def)
    have "ct_world c = w'" using run finish(1) by (simp add: finish_item_def)
    with lagging_run_effect [OF assms(1) inv(2) r assms(2,4) run] r finish(2) show ?thesis by blast
  qed
  then show "ok (ct_world c)" "seen (ct_world c) = seen (os_world sy)" "objs (os_world sy) \<subseteq>\<^sub>m objs (ct_world c)"
    "objs (ct_world c) k = Some x \<Longrightarrow> objs (os_world sy) k = None \<Longrightarrow>
      \<exists>nn. ct_current (view sy t) = Some nn \<and> proper_name nn \<and> k \<in> set (child_keys t nn) \<and> is_child_of t nn k x"
    by blast+
qed

lemma child_key_type: "is_child_of t nn k x \<Longrightarrow> fst k \<notin> owner_types"
  by (auto simp: is_child_of_def child_types_def managed_types_def benchmark_types_def owner_types_def)

lemma child_valid:
  assumes "scheme_ready s" "t \<in> owner_types" "is_child_of t nn k x" "proper_name nn"
  shows "valid_object s (fst k) x"
  using requests_of_child(1) [OF assms(1,2) _ assms(3)] assms(4) by (auto simp: valid_object_def)

lemma cached_put_inv:
  assumes "lagging_client cl objs ok seen sync" "cached_inv objs ok seen s sy" "t \<in> owner_types"
    and "ctl_inv (\<lambda>_. True) c" "ok (ct_world c)" "seen (ct_world c) = seen (os_world sy)"
    and "outstanding c \<subseteq> outstanding (view sy t)"
    and "\<And>k x. objs (ct_world c) k = Some x \<Longrightarrow> objs (os_world sy) k = Some x \<or> valid_object s (fst k) x"
  shows "cached_inv objs ok seen s (cached_put objs t c sy)"
proof -
  have inv: "ok (os_world sy)" "streams_ok objs seen s sy" using assms(2) by (simp_all add: cached_inv_def)
  have new: "streams_ok objs seen s (cached_put objs t c sy)"
    by (rule streams_ok_write [OF assms(1) inv(2,1)]) (use assms(5,6,8) in simp_all)
  have "set (requests_of s t' e) \<subseteq> Collect proper_name"
    if "e \<in> changes (objs (os_world sy)) (objs (ct_world c))" "t' \<in> owner_types" for e t'
    by (rule changes_proper [OF that]) (use assms(8) streams_okD(4) [OF inv(2)] in blast)
  moreover have "outstanding (view sy t') \<subseteq> Collect proper_name" "noticed s t' sy \<subseteq> Collect proper_name"
    "(\<Union>e\<in>upcoming (seen (os_world sy)) (cs_stream sy). set (requests_of s t' e)) \<subseteq> Collect proper_name"
    if "t' \<in> owner_types" for t'
    using assms(2) that unfolding cached_inv_def awaited_def unsettled_def by blast+
  moreover have "outstanding (view (cached_put objs t c sy) t') \<subseteq> outstanding (view sy t')" for t'
    using assms(7) by simp
  ultimately have "awaited s seen t' (cached_put objs t c sy) \<subseteq> Collect proper_name" if "t' \<in> owner_types" for t'
    using that unfolding awaited_put [OF inv(2) assms(6)] by (intro Un_least UN_least) blast+
  with assms(2,4,5) new show ?thesis by (simp add: cached_inv_def ctl_inv_def)
qed

lemma cached_worker_step:
  assumes "lagging_client cl objs ok seen sync" "scheme_ready s" "cached_inv objs ok seen s sy"
    and "(t, rec) \<in> set (reconcilers \<lparr>r_client = cl, r_scheme = s\<rparr>)" "worker_step rec (view sy t) c"
  shows "cached_inv objs ok seen s (cached_put objs t c sy)"
    and "deletions_covered objs seen s sy \<Longrightarrow> deletions_covered objs seen s (cached_put objs t c sy)"
proof -
  note effect = cached_worker_effect [OF assms]
  have old: "objs (os_world sy) k = objs (ct_world c) k" if "objs (ct_world c) k = None" for k
    using effect(5) that by (metis domIff map_le_def)
  have stored: "objs (os_world sy) (t', nn) \<noteq> None"
    if "t' \<in> owner_types" "objs (ct_world c) (t', nn) \<noteq> None" for t' nn
    using effect(6) child_key_type that by fastforce
  have inv: "ctl_inv (\<lambda>_. True) (view sy t)" using assms(3) effect(1) by (simp add: cached_inv_def)
  show "cached_inv objs ok seen s (cached_put objs t c sy)"
  proof (rule cached_put_inv [OF assms(1,3) effect(1-4) worker_step_outstanding [OF assms(5) inv]])
    fix k x assume x: "objs (ct_world c) k = Some x"
    show "objs (os_world sy) k = Some x \<or> valid_object s (fst k) x"
    proof (cases "objs (os_world sy) k")
      case None
      with effect(6) [OF x] child_valid [OF assms(2) effect(1)] show ?thesis by blast
    next
      case (Some y)
      with effect(5) x show ?thesis by (metis map_leD option.inject)
    qed
  qed
  show "deletions_covered objs seen s (cached_put objs t c sy)" if "deletions_covered objs seen s sy"
    unfolding deletions_covered_def
  proof (intro ballI allI impI)
    fix t' nn k y
    assume t': "t' \<in> owner_types" "proper_name nn" "k \<in> set (child_keys t' nn)"
      and new: "objs (os_world (cached_put objs t c sy)) (t', nn) \<noteq> None"
        "objs (os_world (cached_put objs t c sy)) k = None"
        "last_some (versions seen (cached_put objs t c sy) k) = Some y"
    have gone: "objs (os_world sy) k = None" "objs (ct_world c) k = None" using new(2) old [of k] by simp_all
    then have "last_some (versions seen sy k) = Some y" using new(3) effect(4) by simp
    with that t' stored [OF t'(1)] new(1) gone(1)
    show "nn \<in> set (requests_of s t' (fst k, DeleteEvent (meta_of y)))"
      unfolding deletions_covered_def cached_put_fields(1) by blast
  qed
qed

text \<open>A run that succeeds has made its resource complete, or a version on its way brings it back.\<close>

lemma settled_run_covered:
  assumes "lagging_client cl objs ok seen sync" "scheme_ready s" "cached_inv objs ok seen s sy"
    and "deletions_covered objs seen s sy"
    and "(t, rec) \<in> set (reconcilers \<lparr>r_client = cl, r_scheme = s\<rparr>)" "worker_step rec (view sy t) c"
    and "settles rec nn (view sy t)" "proper_name nn" "objs (os_world sy) (t, nn) \<noteq> None"
  shows "has_children (objs (ct_world c)) t nn \<or>
    (\<exists>e\<in>upcoming (seen (os_world sy)) (cs_stream sy). nn \<in> set (requests_of s t e))"
proof -
  let ?w = "os_world sy"
  note effect = cached_worker_effect [OF assms(1-3,5,6)]
  have inv: "ok ?w" "streams_ok objs seen s sy" using assms(3) by (simp_all add: cached_inv_def)
  obtain w' res e where run: "rec nn ?w = (w', res, e)" by (metis prod_cases3)
  with assms(7) have cur: "ct_current (view sy t) = Some nn" and ok: "e = None"
    by (auto simp: settles_def requeues_def)
  have "c = fst (finish_item rec nn (view sy t))" using assms(6) cur by cases simp_all
  then have w': "ct_world c = w'" using run by (simp add: finish_item_def)
  show ?thesis
  proof (cases "has_children (objs w') t nn \<or> seen ?w (t, nn) = None")
    case True
    with w' assms(9) unseen_awaited [OF inv(2) effect(1)] show ?thesis by blast
  next
    case False
    with lagging_run_effect(5) [OF assms(1) inv(1) assms(8,2,5) run ok]
    obtain k where k: "k \<in> set (child_keys t nn)" "objs w' k = None" "seen ?w k \<noteq> None"
      by (auto simp: has_children_def)
    have "objs ?w k = None" using effect(5) k(2) w' by (metis domIff map_le_def)
    with stale_awaited [OF inv(2) assms(4) effect(1) assms(8,9) k(1) _ k(3)] show ?thesis by blast
  qed
qed

lemma cached_worker_covered:
  assumes "lagging_client cl objs ok seen sync" "scheme_ready s" "cached_inv objs ok seen s sy"
    and "cached_covered objs seen s sy" "deletions_covered objs seen s sy"
    and "(t, rec) \<in> set (reconcilers \<lparr>r_client = cl, r_scheme = s\<rparr>)" "worker_step rec (view sy t) c"
  shows "cached_covered objs seen s (cached_put objs t c sy)"
  unfolding cached_covered_def
proof (intro ballI allI impI)
  let ?w = "os_world sy" and ?up = "upcoming (seen (os_world sy)) (cs_stream sy)"
  fix t' nn
  assume t': "t' \<in> owner_types" and nn: "proper_name nn"
    and "objs (os_world (cached_put objs t c sy)) (t', nn) \<noteq> None"
  note effect = cached_worker_effect [OF assms(1-3,6,7)]
  have inv: "streams_ok objs seen s sy" "ctl_inv (\<lambda>_. True) (view sy t)"
    using assms(3) effect(1) by (simp_all add: cached_inv_def)
  have stored: "objs ?w (t', nn) \<noteq> None"
    using \<open>objs (os_world (cached_put objs t c sy)) (t', nn) \<noteq> None\<close> effect(6) child_key_type t' by fastforce
  note awaited = awaited_put [OF inv(1) effect(4), of s t' t]
  have cov: "nn \<in> outstanding (view sy t') \<or> nn \<in> noticed s t' sy \<or> (\<exists>e\<in>?up. nn \<in> set (requests_of s t' e)) \<or>
      has_children (objs ?w) t' nn"
    using assms(4) t' nn stored unfolding cached_covered_def awaited_def unsettled_def by blast
  have "nn \<in> awaited s seen t' (cached_put objs t c sy) \<or> has_children (objs (ct_world c)) t' nn"
  proof (cases "t' = t \<and> nn \<in> outstanding (view sy t)")
    case False
    with cov has_children_mono [OF effect(5)] show ?thesis unfolding awaited by auto
  next
    case True
    have step: "ctl_step rec (\<lambda>_ _. True) {} (view sy t) c" by (rule worker_ctl_step [OF assms(7)])
    from outstanding_step [OF step inv(2) conjunct2 [OF True]] show ?thesis
    proof
      assume "settles rec nn (view sy t)"
      with settled_run_covered [OF assms(1-3,5-7) _ nn] stored True show ?thesis unfolding awaited by blast
    next
      assume "nn \<in> outstanding c"
      with True show ?thesis unfolding awaited by simp
    qed
  qed
  then show "nn \<in> awaited s seen t' (cached_put objs t c sy) \<or>
      has_children (objs (os_world (cached_put objs t c sy))) t' nn" by simp
qed

text \<open>The changes of others.\<close>

lemma cached_change_inv:
  assumes "lagging_client cl objs ok seen sync" "others_valid objs ok seen s foreign"
    and "foreign sy w'" "cached_inv objs ok seen s sy"
  shows "cached_inv objs ok seen s (cached_change objs w' sy)" "ok w'" "seen w' = seen (os_world sy)"
proof -
  let ?sy = "cached_change objs w' sy" and ?m = "objs (os_world sy)" and ?m' = "objs w'"
  have inv: "ok (os_world sy)" "streams_ok objs seen s sy" using assms(4) by (simp_all add: cached_inv_def)
  have w': "ok w'" "seen w' = seen (os_world sy)"
    and valid: "\<And>k x. ?m' k = Some x \<Longrightarrow> ?m k = Some x \<or> valid_object s (fst k) x"
    using assms(2,3) inv(1) unfolding others_valid_def by blast+
  have new: "streams_ok objs seen s ?sy"
    by (rule streams_ok_write [OF assms(1) inv(2,1)]) (use w' valid in simp_all)
  have "set (requests_of s t e) \<subseteq> Collect proper_name" if "e \<in> changes ?m ?m'" "t \<in> owner_types" for e t
    by (rule changes_proper [OF that]) (use valid streams_okD(4) [OF inv(2)] in blast)
  then have "awaited s seen t ?sy \<subseteq> Collect proper_name" if "t \<in> owner_types" for t
    using assms(4) that unfolding awaited_change [OF inv(2) w'(2)] cached_inv_def by (intro Un_least UN_least) blast+
  with assms(4) new w'(1) show "cached_inv objs ok seen s ?sy" by (simp add: cached_inv_def ctl_inv_def)
  show "ok w'" "seen w' = seen (os_world sy)" by (rule w')+
qed

lemma change_deletions_covered:
  assumes "others_considerate objs ok seen s foreign" "foreign sy w'" "ok (os_world sy)"
    and "streams_ok objs seen s sy" "seen w' = seen (os_world sy)" "deletions_covered objs seen s sy"
  shows "deletions_covered objs seen s (cached_change objs w' sy)"
  unfolding deletions_covered_def
proof (intro ballI allI impI)
  let ?sy = "cached_change objs w' sy" and ?m = "objs (os_world sy)" and ?m' = "objs w'"
  fix t nn k y
  assume t: "t \<in> owner_types" "proper_name nn" and k: "k \<in> set (child_keys t nn)"
    and "objs (os_world ?sy) (t, nn) \<noteq> None" "objs (os_world ?sy) k = None"
    and y: "last_some (versions seen ?sy k) = Some y"
  then have stored: "?m' (t, nn) \<noteq> None" and gone: "?m' k = None" by simp_all
  note polite = assms(1)[unfolded others_considerate_def, rule_format, OF assms(3,2) t stored k gone]
  have last: "last_some (versions seen sy k) = Some y" using y gone assms(5) by (simp split: if_splits)
  have "?m (t, nn) \<noteq> None" using polite last by (auto split: if_splits)
  with polite have deleted: "nn \<in> set (requests_of s t (fst k, DeleteEvent (meta_of x)))" if "?m k = Some x" for x
    using that by simp
  show "nn \<in> set (requests_of s t (fst k, DeleteEvent (meta_of y)))"
  proof (cases "?m k")
    case None
    with assms(6)[unfolded deletions_covered_def] t k last \<open>?m (t, nn) \<noteq> None\<close> show ?thesis by blast
  next
    case (Some x)
    have "last_some (versions seen sy k) = Some x"
      using last_some_last streams_okD(1) [OF assms(4), of k] Some by (metis versions_def)
    with last deleted [OF Some] show ?thesis by simp
  qed
qed

lemma change_covered:
  assumes "lagging_client cl objs ok seen sync" "others_considerate objs ok seen s foreign" "foreign sy w'"
    and "ok (os_world sy)" "ok w'" "streams_ok objs seen s sy" "seen w' = seen (os_world sy)"
    and "cached_covered objs seen s sy"
  shows "cached_covered objs seen s (cached_change objs w' sy)"
  unfolding cached_covered_def
proof (intro ballI allI impI)
  let ?sy = "cached_change objs w' sy" and ?m = "objs (os_world sy)" and ?m' = "objs w'"
  note awaited = awaited_change [OF assms(6,7)]
  fix t nn assume t: "t \<in> owner_types" "proper_name nn" and "objs (os_world ?sy) (t, nn) \<noteq> None"
  then obtain x where stored: "?m' (t, nn) = Some x" by auto
  have key: "key_of x = (t, nn)" using lagging_client.stored [OF assms(1,5) stored] by simp
  have "nn \<in> awaited s seen t ?sy \<or> has_children ?m' t nn"
  proof (cases "?m (t, nn) = None \<or> nn \<in> awaited s seen t sy")
    case True
    then show ?thesis using appears_requests [OF t(1) key, of ?m ?m' s] stored unfolding awaited by auto
  next
    case False
    with assms(8) t have old: "has_children ?m t nn" by (auto simp: cached_covered_def)
    have "nn \<in> awaited s seen t ?sy" if k: "k \<in> set (child_keys t nn)" "?m' k = None" for k
    proof -
      obtain y where y: "?m k = Some y" using old k(1) by (auto simp: has_children_def)
      have "nn \<in> set (requests_of s t (fst k, DeleteEvent (meta_of y)))"
        using assms(2)[unfolded others_considerate_def, rule_format, OF assms(4,3) t _ k] stored False y by simp
      moreover have "(fst k, DeleteEvent (meta_of y)) \<in> changes ?m ?m'"
        by (rule changesI [of _ _ "snd k"]) (use y k(2) in simp_all)
      ultimately show ?thesis unfolding awaited by blast
    qed
    then show ?thesis by (auto simp: has_children_def)
  qed
  then show "nn \<in> awaited s seen t ?sy \<or> has_children (objs (os_world ?sy)) t nn" by simp
qed

lemma cached_change_step:
  assumes "lagging_client cl objs ok seen sync" "others_valid objs ok seen s foreign"
    and "foreign sy w'" "cached_inv objs ok seen s sy"
  shows "cached_inv objs ok seen s (cached_change objs w' sy)"
    and "others_considerate objs ok seen s foreign \<Longrightarrow> deletions_covered objs seen s sy \<Longrightarrow>
      deletions_covered objs seen s (cached_change objs w' sy)"
    and "others_considerate objs ok seen s foreign \<Longrightarrow> cached_covered objs seen s sy \<Longrightarrow>
      cached_covered objs seen s (cached_change objs w' sy)"
proof -
  note change = cached_change_inv [OF assms]
  show "cached_inv objs ok seen s (cached_change objs w' sy)" by (rule change(1))
  have inv: "ok (os_world sy)" "streams_ok objs seen s sy" using assms(4) by (simp_all add: cached_inv_def)
  show "deletions_covered objs seen s (cached_change objs w' sy)"
    if "others_considerate objs ok seen s foreign" "deletions_covered objs seen s sy"
    by (rule change_deletions_covered [where ok = ok and foreign = foreign])
      (use that assms(3) inv change in simp_all)
  show "cached_covered objs seen s (cached_change objs w' sy)"
    if "others_considerate objs ok seen s foreign" "cached_covered objs seen s sy"
    by (rule change_covered [where ok = ok and foreign = foreign, OF assms(1)])
      (use that assms(3) inv change in simp_all)
qed

text \<open>The other steps.\<close>

lemma resync_proper:
  assumes "streams_ok objs seen s sy" "e \<in> resync_events (seen (os_world sy))" "t \<in> owner_types"
  shows "set (requests_of s t e) \<subseteq> Collect proper_name"
proof -
  obtain ty nn ev where e: "e = (ty, ev)"
    "notification (seen (os_world sy) (ty, nn)) (seen (os_world sy) (ty, nn)) = Some ev"
    using assms(2) by (auto simp: resync_events_def)
  then obtain x where x: "seen (os_world sy) (ty, nn) = Some x" "ev = UpdateEvent (meta_of x) (meta_of x)"
    by (auto elim: notification_cases)
  have "valid_object s ty x" using streams_okD(3) [OF assms(1), of x "(ty, nn)"] x(1) by (simp add: versions_def)
  with e(1) x(2) assms(3) show ?thesis by (simp add: valid_object_def set_requests_of)
qed

lemma cached_retry_step:
  assumes "lagging_client cl objs ok seen sync" "cached_inv objs ok seen s sy" "t \<in> owner_types" "retry_step (view sy t) c"
  shows "cached_inv objs ok seen s (cached_put objs t c sy)"
    and "cached_covered objs seen s sy \<Longrightarrow> cached_covered objs seen s (cached_put objs t c sy)"
    and "deletions_covered objs seen s sy \<Longrightarrow> deletions_covered objs seen s (cached_put objs t c sy)"
proof -
  have inv: "ctl_inv (\<lambda>_. True) (view sy t)" "ok (os_world sy)"
    using assms(2,3) by (simp_all add: cached_inv_def)
  note retried = retry_step_outstanding [OF assms(4) inv(1)]
  have world: "ct_world c = os_world sy" using retried(3) by simp
  have awaited: "awaited s seen t' (cached_put objs t c sy) = awaited s seen t' sy" for t'
    unfolding awaited_def unsettled_def using retried(1) world by simp
  show "cached_inv objs ok seen s (cached_put objs t c sy)"
    by (rule cached_put_inv [OF assms(1-3) retried(2)]) (use inv(2) world retried(1) in simp_all)
  show "cached_covered objs seen s sy \<Longrightarrow> cached_covered objs seen s (cached_put objs t c sy)"
    "deletions_covered objs seen s sy \<Longrightarrow> deletions_covered objs seen s (cached_put objs t c sy)"
    using world by (simp_all add: cached_covered_def deletions_covered_def awaited)
qed

lemma cached_resync_step:
  assumes "cached_inv objs ok seen s sy"
  shows "cached_inv objs ok seen s (announce (resync_events (seen (os_world sy))) sy)"
    and "cached_covered objs seen s sy \<Longrightarrow> cached_covered objs seen s (announce (resync_events (seen (os_world sy))) sy)"
proof -
  let ?sy = "announce (resync_events (seen (os_world sy))) sy"
  have "streams_ok objs seen s sy" using assms by (simp add: cached_inv_def)
  note proper = resync_proper [OF this]
  have "awaited s seen t ?sy \<subseteq> Collect proper_name" if "t \<in> owner_types" for t
    using assms that proper unfolding awaited_announce [OF that] cached_inv_def by (intro Un_least UN_least) blast+
  with assms show "cached_inv objs ok seen s ?sy" by (simp add: cached_inv_def streams_ok_def)
  have "awaited s seen t sy \<subseteq> awaited s seen t ?sy" if "t \<in> owner_types" for t
    unfolding awaited_announce [OF that] by blast
  then show "cached_covered objs seen s sy \<Longrightarrow> cached_covered objs seen s ?sy"
    unfolding cached_covered_def announce_fields by blast
qed

lemma cached_step_inv:
  assumes "lagging_client cl objs ok seen sync" "scheme_ready s" "others_valid objs ok seen s foreign"
    and "cached_step cl s objs seen sync foreign sy sy'" "cached_inv objs ok seen s sy"
  shows "cached_inv objs ok seen s sy'"
    and "others_considerate objs ok seen s foreign \<Longrightarrow> cached_covered objs seen s sy \<Longrightarrow>
      deletions_covered objs seen s sy \<Longrightarrow> cached_covered objs seen s sy' \<and> deletions_covered objs seen s sy'"
proof -
  let ?covered = "\<lambda>sy. cached_covered objs seen s sy \<and> deletions_covered objs seen s sy"
  from assms(4) have "cached_inv objs ok seen s sy' \<and>
    (others_considerate objs ok seen s foreign \<longrightarrow> ?covered sy \<longrightarrow> ?covered sy')"
  proof cases
    case work
    then show ?thesis
    proof cases
      case (deliver t e)
      have inv: "ctl_inv (\<lambda>_. True) (view sy t)" using assms(5) deliver(2) by (simp add: cached_inv_def)
      note awaited = awaited_deliver [OF deliver(2,3) inv]
      show ?thesis
        using assms(5) deliver_event_outstanding(1) [OF inv] unfolding deliver(1)
        by (simp add: cached_inv_def cached_covered_def deletions_covered_def awaited streams_ok_def)
    next
      case (sync k v vs)
      show ?thesis unfolding sync(1) using cached_sync_step [OF assms(1,5) sync(2)] by blast
    next
      case (worker t rec c)
      show ?thesis
        unfolding worker(1)
        using cached_worker_step [OF assms(1,2,5) worker(2,3)]
          cached_worker_covered [OF assms(1,2,5) _ _ worker(2,3)] by blast
    qed
  next
    case (retry t c)
    show ?thesis unfolding retry(1) using cached_retry_step [OF assms(1,5) retry(2,3)] by blast
  next
    case resync
    show ?thesis unfolding resync using cached_resync_step [OF assms(5)] by (simp add: deletions_covered_def)
  next
    case (change w')
    show ?thesis unfolding change(1) using cached_change_step [OF assms(1,3) change(2) assms(5)] by blast
  qed
  then show "cached_inv objs ok seen s sy'"
    and "others_considerate objs ok seen s foreign \<Longrightarrow> cached_covered objs seen s sy \<Longrightarrow>
      deletions_covered objs seen s sy \<Longrightarrow> cached_covered objs seen s sy' \<and> deletions_covered objs seen s sy'"
    by blast+
qed

lemma cached_initial:
  assumes "lagging_client cl objs ok seen sync" "ok w" "seen w = Map.empty"
    and "\<And>k x. objs w k = Some x \<Longrightarrow> valid_object s (fst k) x"
  shows "cached_inv objs ok seen s (initial_cached objs w)" "cached_covered objs seen s (initial_cached objs w)"
    and "deletions_covered objs seen s (initial_cached objs w)"
proof -
  let ?sy = "initial_cached objs w"
  note stored = lagging_client.stored [OF assms(1,2)]
  have versions: "versions seen ?sy k = (if objs w k = None then [None] else [None, objs w k])" for k
    by (simp add: versions_def assms(3) write_streams_def)
  have streams: "streams_ok objs seen s ?sy"
    unfolding streams_ok_def
  proof (intro allI conjI impI)
    fix k x
    show "last (versions seen ?sy k) = objs (os_world ?sy) k" by (simp add: versions)
    show "proper_name (snd k)" if "cs_stream ?sy k \<noteq> []"
      using that stored [of k] by (cases "objs w k") (simp_all add: write_streams_def)
    assume "Some x \<in> set (versions seen ?sy k)"
    then have "objs w k = Some x" by (auto simp: versions split: if_splits)
    with stored assms(4) show "key_of x = k" "valid_object s (fst k) x" by simp_all
  qed
  have "upcoming Map.empty (write_streams Map.empty (objs w) (\<lambda>k. [])) = changes Map.empty (objs w)"
    using upcoming_write [of Map.empty "\<lambda>k. []" Map.empty "objs w"] by (simp add: upcoming_def)
  then have awaited: "awaited s seen t ?sy = (\<Union>e\<in>changes Map.empty (objs w). set (requests_of s t e))" for t
    by (simp add: awaited_def unsettled_def assms(3) outstanding_def initial_controller_def wq_New_def)
  have "awaited s seen t ?sy \<subseteq> Collect proper_name" if "t \<in> owner_types" for t
    using changes_proper [of _ Map.empty "objs w", OF _ that] assms(4) unfolding awaited by (intro UN_least) simp
  with streams assms(2) show "cached_inv objs ok seen s ?sy"
    using ctl_inv_initial [of "\<lambda>_. True" w] by (simp add: cached_inv_def)
  show "cached_covered objs seen s ?sy"
    unfolding cached_covered_def
  proof (intro ballI allI impI disjI1)
    fix t nn assume t: "t \<in> owner_types" and "objs (os_world ?sy) (t, nn) \<noteq> None"
    then obtain x where x: "objs w (t, nn) = Some x" by auto
    with appears_requests [OF t, of x nn Map.empty "objs w" s] stored [OF x] show "nn \<in> awaited s seen t ?sy"
      unfolding awaited by auto
  qed
  show "deletions_covered objs seen s ?sy" by (simp add: deletions_covered_def versions)
qed

lemma cached_reachable:
  assumes "lagging_client cl objs ok seen sync" "scheme_ready s" "ok w" "seen w = Map.empty"
    and "\<And>k x. objs w k = Some x \<Longrightarrow> valid_object s (fst k) x" "others_valid objs ok seen s foreign"
    and "(cached_step cl s objs seen sync foreign)\<^sup>*\<^sup>* (initial_cached objs w) sy"
  shows "cached_inv objs ok seen s sy"
    and "others_considerate objs ok seen s foreign \<Longrightarrow>
      cached_covered objs seen s sy \<and> deletions_covered objs seen s sy"
proof -
  let ?covered = "\<lambda>sy. cached_covered objs seen s sy \<and> deletions_covered objs seen s sy"
  have "cached_inv objs ok seen s sy \<and> (others_considerate objs ok seen s foreign \<longrightarrow> ?covered sy)"
    using assms(7)
  proof induction
    case base
    then show ?case using cached_initial [OF assms(1,3-5)] by simp
  next
    case (step sy1 sy2)
    then show ?case using cached_step_inv [OF assms(1,2,6) step.hyps(2)] by blast
  qed
  then show "cached_inv objs ok seen s sy"
    and "others_considerate objs ok seen s foreign \<Longrightarrow> ?covered sy" by blast+
qed

end
