(* ===== verification/Operator_Rest.thy ===== *)
theory Operator_Rest
  imports Operator_Progress
begin

section \<open>The operator comes to rest\<close>

text \<open>
  Left alone, the operator stops working: deliveries and worker steps get rid of events and
  requests, and the events that the runs themselves cause are bounded by the children that are
  still missing. \<open>effort\<close> bounds the steps. Delayed requests do not count: each of them is one
  more round when it falls due.
\<close>

subsection \<open>The measure\<close>

text \<open>What the workers will look at without a delayed request falling due.\<close>

definition active :: "scheme \<Rightarrow> go_type \<Rightarrow> ('w, 'z) operator_state_scheme \<Rightarrow> namespaced_name set" where
  "active s t sy =
     wq_dirty (ct_queue (view sy t)) \<union> set_option (ct_current (view sy t)) \<union> noticed s t sy"

text \<open>The children that somebody may create who looks at these resources.\<close>

definition missing_of :: "(go_type \<Rightarrow> namespaced_name set) \<Rightarrow> store \<Rightarrow> obj_key set" where
  "missing_of A m = {k \<in> (\<Union>t\<in>owner_types. \<Union>nn\<in>A t. set (child_keys t nn)). m k = None}"

definition missing :: "('w \<Rightarrow> store) \<Rightarrow> scheme \<Rightarrow> 'w operator_state \<Rightarrow> obj_key set" where
  "missing objs s sy = missing_of (\<lambda>t. active s t sy) (objs (os_world sy))"

text \<open>One step for an event, and two for each request: taking it and finishing it.\<close>

definition event_cost :: "scheme \<Rightarrow> go_type \<Rightarrow> typed_event \<Rightarrow> nat" where
  "event_cost s t e = 1 + 2 * length (requests_of s t e)"

definition queue_effort :: "'w controller \<Rightarrow> nat" where
  "queue_effort c = 2 * card (wq_dirty (ct_queue c)) + (if ct_current c = None then 0 else 1)"

definition ctl_effort :: "scheme \<Rightarrow> go_type \<Rightarrow> ('w, 'z) operator_state_scheme \<Rightarrow> nat" where
  "ctl_effort s t sy = (\<Sum>e\<in>os_events sy t. event_cost s t e) + queue_effort (view sy t)"

text \<open>A new child is announced to three controllers, and at most one request each follows.\<close>

definition effort :: "('w \<Rightarrow> store) \<Rightarrow> scheme \<Rightarrow> 'w operator_state \<Rightarrow> nat" where
  "effort objs s sy = 9 * card (missing objs s sy) + (\<Sum>t\<in>owner_types. ctl_effort s t sy)"

lemma finite_owner_types [simp]: "finite owner_types" and card_owner_types: "card owner_types = 3"
  by (simp_all add: owner_types_def)

lemma finite_active:
  assumes "sys_inv objs ok s sy" "t \<in> owner_types"
  shows "finite (wq_dirty (ct_queue (view sy t)))" "finite (active s t sy)"
proof -
  have inv: "ctl_inv ok (view sy t)" "finite (os_events sy t)" using assms by (simp_all add: sys_inv_def)
  let ?q = "ct_queue (view sy t)"
  have "wq_dirty ?q \<subseteq> set (wq_queue ?q) \<union> set_option (ct_current (view sy t))"
    using inv(1) by (auto simp: ctl_inv_def wq_inv_def)
  then show dirty: "finite (wq_dirty ?q)" by (rule finite_subset) simp
  with inv(2) show "finite (active s t sy)" by (simp add: active_def noticed_def)
qed

lemma finite_missing_of: "(\<And>t. t \<in> owner_types \<Longrightarrow> finite (A t)) \<Longrightarrow> finite (missing_of A m)"
  by (simp add: missing_of_def)

lemma finite_missing: "sys_inv objs ok s sy \<Longrightarrow> finite (missing objs s sy)"
  unfolding missing_def by (rule finite_missing_of) (rule finite_active)

text \<open>Every child that is created is one less to create.\<close>

lemma missing_grown:
  assumes "\<And>t. t \<in> owner_types \<Longrightarrow> finite (A t)" "\<And>t. t \<in> owner_types \<Longrightarrow> A' t \<subseteq> A t" "m \<subseteq>\<^sub>m m'"
    and "\<And>k. k \<in> dom m' - dom m \<Longrightarrow> \<exists>t\<in>owner_types. \<exists>nn\<in>A t. k \<in> set (child_keys t nn)"
  shows "card (missing_of A' m') + card (dom m' - dom m) \<le> card (missing_of A m)"
proof -
  have fin: "finite (missing_of A m)" by (rule finite_missing_of [OF assms(1)])
  have "missing_of A' m' \<subseteq> missing_of A m - (dom m' - dom m)"
  proof
    fix k assume k: "k \<in> missing_of A' m'"
    then obtain t nn where t: "t \<in> owner_types" "nn \<in> A t" "k \<in> set (child_keys t nn)"
      using assms(2) unfolding missing_of_def by blast
    have "k \<notin> dom m'" using k by (simp add: missing_of_def domIff)
    moreover from this have "m k = None"
      using map_le_implies_dom_le [OF assms(3)] by (metis domIff subsetD)
    ultimately show "k \<in> missing_of A m - (dom m' - dom m)" using t unfolding missing_of_def by blast
  qed
  then have "card (missing_of A' m') \<le> card (missing_of A m - (dom m' - dom m))"
    by (intro card_mono) (simp_all add: fin)
  moreover have "dom m' - dom m \<subseteq> missing_of A m"
    using assms(4) unfolding missing_of_def by blast
  ultimately show ?thesis using fin card_mono [of "missing_of A m" "dom m' - dom m"]
    by (simp add: card_Diff_subset finite_subset)
qed

lemma missing_same:
  assumes "\<And>t. t \<in> owner_types \<Longrightarrow> finite (A t)" "\<And>t. t \<in> owner_types \<Longrightarrow> A' t \<subseteq> A t"
  shows "card (missing_of A' m) \<le> card (missing_of A m)"
  using missing_grown [where m = m and m' = m, OF assms] by simp

subsection \<open>Delivering an event\<close>

lemma card_fold_wq_Add:
  assumes "ctl_inv ok c" "finite (wq_dirty (ct_queue c))"
  shows "queue_effort (deliver_event s n ty ev c) \<le> 2 * length (routed s n ty ev) + queue_effort c"
proof -
  have card: "card (set rs \<union> wq_dirty (ct_queue c)) \<le> length rs + card (wq_dirty (ct_queue c))" for rs
    using card_Un_le [of "set rs" "wq_dirty (ct_queue c)"] card_length [of rs] by linarith
  show ?thesis
    using assms(1) card [of "routed s n ty ev"]
    by (simp add: queue_effort_def deliver_event_def ctl_inv_def fold_wq_Add)
qed

lemma sum_owner_types_less:
  assumes "t \<in> owner_types" "f t < (g t :: nat)" "\<And>t'. t' \<in> owner_types \<Longrightarrow> t' \<noteq> t \<Longrightarrow> f t' \<le> g t'"
  shows "sum f owner_types < sum g owner_types"
proof (rule sum_strict_mono_ex1)
  show "\<forall>t'\<in>owner_types. f t' \<le> g t'" using assms by (metis less_imp_le_nat)
  show "\<exists>t'\<in>owner_types. f t' < g t'" using assms by blast
qed simp

lemma ctl_effort_deliver:
  assumes "ctl_inv ok (view sy t)" "finite (os_events sy t)" "finite (wq_dirty (ct_queue (view sy t)))"
    and "t \<in> owner_types" "e \<in> os_events sy t"
  shows "(\<Sum>t'\<in>owner_types. ctl_effort s t' (deliver s t e sy)) < (\<Sum>t'\<in>owner_types. ctl_effort s t' sy)"
    and "active s t' (deliver s t e sy) \<subseteq> active s t' sy"
proof -
  let ?sy' = "deliver s t e sy"
  have "queue_effort (view ?sy' t) \<le> 2 * length (requests_of s t e) + queue_effort (view sy t)"
    using card_fold_wq_Add [OF assms(1,3)] by (simp add: requests_of_def)
  moreover have "(\<Sum>e\<in>os_events sy t. event_cost s t e) = event_cost s t e + (\<Sum>e\<in>os_events ?sy' t. event_cost s t e)"
    using assms(2,5) by (simp add: sum.remove)
  ultimately have "ctl_effort s t ?sy' < ctl_effort s t sy" by (simp add: ctl_effort_def event_cost_def)
  then show "(\<Sum>t\<in>owner_types. ctl_effort s t ?sy') < (\<Sum>t\<in>owner_types. ctl_effort s t sy)"
    by (rule sum_owner_types_less [OF assms(4)]) (simp add: ctl_effort_def)
  show "active s t' ?sy' \<subseteq> active s t' sy"
    using assms(1,5) by (auto simp: active_def noticed_def deliver_event_def ctl_inv_def fold_wq_Add requests_of_def)
qed

lemma effort_deliver:
  assumes "sys_inv objs ok s sy" "t \<in> owner_types" "e \<in> os_events sy t"
  shows "effort objs s (deliver s t e sy) < effort objs s sy"
proof -
  have inv: "ctl_inv ok (view sy t)" "finite (os_events sy t)" using assms(1,2) by (simp_all add: sys_inv_def)
  note delivered = ctl_effort_deliver [OF inv finite_active(1) [OF assms(1,2)] assms(2,3), of s]
  have "card (missing objs s (deliver s t e sy)) \<le> card (missing objs s sy)"
    unfolding missing_def deliver_fields(1) by (rule missing_same [OF finite_active(2) [OF assms(1)] delivered(2)])
  with delivered(1) show ?thesis by (simp add: effort_def)
qed

subsection \<open>A step of a worker\<close>

lemma worker_queue_effort:
  assumes "worker_step rec c c'" "ctl_inv ok c" "finite (wq_dirty (ct_queue c))"
  shows "queue_effort c' < queue_effort c"
    and "wq_dirty (ct_queue c') \<union> set_option (ct_current c') \<subseteq> wq_dirty (ct_queue c) \<union> set_option (ct_current c)"
proof -
  have "queue_effort c' < queue_effort c \<and>
    wq_dirty (ct_queue c') \<union> set_option (ct_current c') \<subseteq> wq_dirty (ct_queue c) \<union> set_option (ct_current c)"
    using assms(1)
  proof cases
    case (take q r)
    have r: "r \<in> wq_dirty (ct_queue c)"
      using wq_Get_fields [OF take(3)] assms(2) by (auto simp: ctl_inv_def wq_inv_def)
    then have "card (wq_dirty (ct_queue c)) > 0" using assms(3) by (auto simp: card_gt_0_iff)
    with take r show ?thesis
      using wq_Get_fields [OF take(3)] assms(3) by (auto simp: queue_effort_def)
  next
    case (finish r)
    obtain w' res e where run: "rec r (ct_world c) = (w', res, e)" by (metis prod_cases3)
    show ?thesis
      using finish by (auto simp: queue_effort_def finish_item_fields [where rec = rec and c = c, OF run])
  qed
  then show "queue_effort c' < queue_effort c"
    "wq_dirty (ct_queue c') \<union> set_option (ct_current c') \<subseteq> wq_dirty (ct_queue c) \<union> set_option (ct_current c)"
    by simp_all
qed

text \<open>The events that a worker causes: its resource's children appear, and it may be asked again.\<close>

lemma child_events:
  assumes "scheme_ready s" "t \<in> owner_types" "t' \<in> owner_types" "m \<subseteq>\<^sub>m m'" "e \<in> changes m m'"
    and "\<And>k x. m' k = Some x \<Longrightarrow> m k = None \<Longrightarrow> \<exists>nn. cur = Some nn \<and> is_child_of t nn k x"
  shows "event_cost s t' e \<le> 3" "set (requests_of s t' e) \<subseteq> (if t' = t then set_option cur else {})"
proof -
  obtain ty kn ev where e: "e = (ty, ev)" "m (ty, kn) \<noteq> m' (ty, kn)" "notification (m (ty, kn)) (m' (ty, kn)) = Some ev"
    using assms(5) by (auto simp: changes_def)
  have new: "m (ty, kn) = None" using e(2) assms(4) by (metis domIff map_le_def)
  with e(3) obtain x where x: "m' (ty, kn) = Some x" "ev = CreateEvent (meta_of x)"
    by (cases rule: notification_cases) simp_all
  obtain nn where nn: "cur = Some nn" "is_child_of t nn (ty, kn) x" using assms(6) [OF x(1) new] by blast
  have "requests_of s t' e = (if t' = t \<and> ty \<in> watched_types t then [nn] else [])"
    using requests_of_child [OF assms(1-3) nn(2)] by (simp add: e(1) x(2))
  then show "event_cost s t' e \<le> 3" "set (requests_of s t' e) \<subseteq> (if t' = t then set_option cur else {})"
    using nn(1) by (auto simp: event_cost_def)
qed

lemma worker_events:
  assumes "reliable_client cl objs ok" "scheme_ready s" "sys_inv objs ok s sy"
    and "(t, rec) \<in> set (reconcilers \<lparr>r_client = cl, r_scheme = s\<rparr>)" "worker_step rec (view sy t) c"
    and "e \<in> changes (objs (os_world sy)) (objs (ct_world c))" "t' \<in> owner_types"
  shows "event_cost s t' e \<le> 3" "set (requests_of s t' e) \<subseteq> active s t' sy"
proof -
  note effect = worker_effect [OF assms(1-5)]
  have new: "\<exists>nn. ct_current (view sy t) = Some nn \<and> is_child_of t nn k x"
    if "objs (ct_world c) k = Some x" "objs (os_world sy) k = None" for k x
    using effect(4) [OF that] by blast
  note events = child_events [OF assms(2) effect(1) assms(7) effect(3) assms(6) new]
  show "event_cost s t' e \<le> 3" "set (requests_of s t' e) \<subseteq> active s t' sy"
    using events by (auto simp: active_def split: if_splits)
qed

lemma card_changes_grown:
  assumes "m \<subseteq>\<^sub>m m'" "finite (dom m')"
  shows "finite (changes m m')" "card (changes m m') \<le> card (dom m' - dom m)"
proof -
  have "changes m m' \<subseteq> (\<lambda>k. (fst k, the (notification (m k) (m' k)))) ` (dom m' - dom m)"
  proof
    fix e assume "e \<in> changes m m'"
    then obtain ty nn ev where e: "e = (ty, ev)" "m (ty, nn) \<noteq> m' (ty, nn)"
      "notification (m (ty, nn)) (m' (ty, nn)) = Some ev"
      by (auto simp: changes_def)
    then have "(ty, nn) \<in> dom m' - dom m" using assms(1) by (metis DiffI domIff map_le_def)
    with e show "e \<in> (\<lambda>k. (fst k, the (notification (m k) (m' k)))) ` (dom m' - dom m)"
      by (intro image_eqI [of _ _ "(ty, nn)"]) simp_all
  qed
  moreover have fin: "finite (dom m' - dom m)" using assms(2) by simp
  ultimately show "finite (changes m m')" "card (changes m m') \<le> card (dom m' - dom m)"
    by (auto intro: finite_subset surj_card_le)
qed

lemma worker_missing:
  assumes "reliable_client cl objs ok" "scheme_ready s" "sys_inv objs ok s sy"
    and "(t, rec) \<in> set (reconcilers \<lparr>r_client = cl, r_scheme = s\<rparr>)" "worker_step rec (view sy t) c"
  shows "card (missing objs s (put_view objs t c sy)) + card (dom (objs (ct_world c)) - dom (objs (os_world sy)))
    \<le> card (missing objs s sy)"
proof -
  let ?sy' = "put_view objs t c sy"
  note effect = worker_effect [OF assms]
  have inv: "ctl_inv ok (view sy t)" using assms(3) effect(1) by (simp add: sys_inv_def)
  have less: "active s t' ?sy' \<subseteq> active s t' sy" if t': "t' \<in> owner_types" for t'
    using worker_events(2) [OF assms _ t'] worker_queue_effort(2) [OF assms(5) inv finite_active(1) [OF assms(3) effect(1)]] t'
    by (auto simp: active_def)
  have "\<exists>t\<in>owner_types. \<exists>nn\<in>active s t sy. k \<in> set (child_keys t nn)"
    if "k \<in> dom (objs (ct_world c)) - dom (objs (os_world sy))" for k
    using effect(4) [of k] effect(1) that by (fastforce simp: active_def)
  then show ?thesis
    unfolding missing_def put_view_fields(1)
    by (intro missing_grown [OF finite_active(2) [OF assms(3)] less effect(3)])
qed

text \<open>The events that are announced cost what they cost one by one.\<close>

lemma announce_effort:
  assumes "finite (os_events sy t)" "finite evs"
  shows "ctl_effort s t (announce evs sy) \<le> ctl_effort s t sy + (\<Sum>e\<in>evs. event_cost s t e)"
proof -
  let ?W = "{e \<in> evs. fst e \<in> watched_types t}"
  have "sum (event_cost s t) (os_events sy t \<union> ?W) \<le> sum (event_cost s t) (os_events sy t) + sum (event_cost s t) ?W"
    using sum_Un_nat [of "os_events sy t" ?W "event_cost s t"] assms by simp
  moreover have "sum (event_cost s t) ?W \<le> sum (event_cost s t) evs"
    by (rule sum_mono2) (use assms(2) in auto)
  ultimately show ?thesis by (simp add: ctl_effort_def)
qed

lemma effort_worker:
  assumes "reliable_client cl objs ok" "scheme_ready s" "sys_inv objs ok s sy"
    and "(t, rec) \<in> set (reconcilers \<lparr>r_client = cl, r_scheme = s\<rparr>)" "worker_step rec (view sy t) c"
  shows "effort objs s (put_view objs t c sy) < effort objs s sy"
proof -
  let ?sy = "sy\<lparr>os_world := ct_world c, os_ctl := (os_ctl sy)(t := c)\<rparr>"
  let ?sy' = "put_view objs t c sy" and ?E = "changes (objs (os_world sy)) (objs (ct_world c))"
  let ?n = "card (dom (objs (ct_world c)) - dom (objs (os_world sy)))"
  note effect = worker_effect [OF assms]
  have inv: "ctl_inv ok (view sy t)" using assms(3) effect(1) by (simp add: sys_inv_def)
  have "finite (dom (objs (ct_world c)))" using worker_valid [OF assms] by (simp add: valid_store_def)
  note E = card_changes_grown [OF effect(3) this]
  have announced: "ctl_effort s t' ?sy' \<le> ctl_effort s t' ?sy + 3 * ?n" if t': "t' \<in> owner_types" for t'
  proof -
    have "(\<Sum>e\<in>?E. event_cost s t' e) \<le> card ?E * 3"
      using sum_bounded_above [of ?E "event_cost s t'" 3] worker_events(1) [OF assms _ t'] by simp
    moreover have "finite (os_events ?sy t')" using assms(3) t' by (simp add: sys_inv_def)
    ultimately show ?thesis
      using announce_effort [of ?sy t' ?E s] E by (simp add: put_view_def)
  qed
  have view: "view ?sy t' = (if t' = t then c else (view sy t')\<lparr>ct_world := ct_world c\<rparr>)" for t'
    by (simp add: view_def)
  have "(\<Sum>t'\<in>owner_types. ctl_effort s t' ?sy') < (\<Sum>t'\<in>owner_types. ctl_effort s t' sy + 3 * ?n)"
  proof (rule sum_owner_types_less [OF effect(1)])
    show "ctl_effort s t ?sy' < ctl_effort s t sy + 3 * ?n"
      using announced [OF effect(1)]
        worker_queue_effort(1) [OF assms(5) inv finite_active(1) [OF assms(3) effect(1)]]
      by (simp add: ctl_effort_def view)
    show "ctl_effort s t' ?sy' \<le> ctl_effort s t' sy + 3 * ?n" if "t' \<in> owner_types" "t' \<noteq> t" for t'
      using announced [OF that(1)] that(2) by (simp add: ctl_effort_def queue_effort_def view)
  qed
  also have "\<dots> = (\<Sum>t'\<in>owner_types. ctl_effort s t' sy) + 9 * ?n"
    by (simp add: sum.distrib card_owner_types)
  finally show ?thesis using worker_missing [OF assms] by (simp add: effort_def)
qed

lemma effort_step:
  assumes "reliable_client cl objs ok" "scheme_ready s" "sys_inv objs ok s sy" "work_step cl s objs sy sy'"
  shows "effort objs s sy' < effort objs s sy"
  using assms(4)
proof cases
  case (deliver t e)
  then show ?thesis using effort_deliver [OF assms(3)] by simp
next
  case (worker t rec c)
  then show ?thesis using effort_worker [OF assms(1-3)] by simp
qed

subsection \<open>Rest\<close>

definition at_rest :: "'w client \<Rightarrow> scheme \<Rightarrow> ('w \<Rightarrow> store) \<Rightarrow> 'w operator_state \<Rightarrow> bool" where
  "at_rest cl s objs sy \<longleftrightarrow> \<not> (\<exists>sy'. work_step cl s objs sy sy')"

text \<open>A resource one of whose children cannot be built.\<close>

definition unbuildable :: "scheme \<Rightarrow> kobj \<Rightarrow> bool" where
  "unbuildable s ob \<longleftrightarrow> (\<exists>k err. (k, Inl err) \<in> set (operator_plan s ob))"

lemma work_inv:
  assumes "reliable_client cl objs ok" "scheme_ready s" "sys_inv objs ok s sy" "work_step cl s objs sy sy'"
  shows "sys_inv objs ok s sy'" "objs (os_world sy) \<subseteq>\<^sub>m objs (os_world sy')"
proof -
  have "foreign_valid objs ok s (\<lambda>_ _. False)" by (simp add: foreign_valid_def)
  from sys_inv_step [OF assms(1,2) this sys_step.work [OF assms(4)] assms(3)]
  show "sys_inv objs ok s sy'" .
  show "objs (os_world sy) \<subseteq>\<^sub>m objs (os_world sy')"
    using assms(4) by cases (use worker_effect(3) [OF assms(1-3)] in simp_all)
qed

lemma effort_bounds:
  assumes "reliable_client cl objs ok" "scheme_ready s" "sys_inv objs ok s sy"
    and "(work_step cl s objs ^^ n) sy sy'"
  shows "n + effort objs s sy' \<le> effort objs s sy \<and> sys_inv objs ok s sy'"
  using assms(4)
proof (induction n arbitrary: sy')
  case 0
  then show ?case using assms(3) by simp
next
  case (Suc n)
  then obtain sy1 where sy1: "(work_step cl s objs ^^ n) sy sy1" "work_step cl s objs sy1 sy'" by auto
  with Suc.IH have "n + effort objs s sy1 \<le> effort objs s sy" "sys_inv objs ok s sy1" by auto
  with effort_step [OF assms(1,2) _ sy1(2)] work_inv(1) [OF assms(1,2) _ sy1(2)] show ?case by fastforce
qed

lemma comes_to_rest:
  assumes "reliable_client cl objs ok" "scheme_ready s" "sys_inv objs ok s sy"
  shows "\<exists>sy'. (work_step cl s objs)\<^sup>*\<^sup>* sy sy' \<and> at_rest cl s objs sy'"
  using assms(3)
proof (induction "effort objs s sy" arbitrary: sy rule: less_induct)
  case less
  show ?case
  proof (cases "at_rest cl s objs sy")
    case False
    then obtain sy1 where sy1: "work_step cl s objs sy sy1" by (auto simp: at_rest_def)
    from less.hyps [OF effort_step [OF assms(1,2) less.prems sy1] work_inv(1) [OF assms(1,2) less.prems sy1]]
    show ?thesis using sy1 by (meson converse_rtranclp_into_rtranclp)
  qed blast
qed

text \<open>At rest, only delayed requests are left.\<close>

lemma idle_unsettled:
  assumes "ctl_inv ok (view sy t)" "os_events sy t = {}" "\<And>c. \<not> worker_step rec (view sy t) c"
  shows "unsettled s t sy = set (ct_delayed (view sy t))"
proof -
  have cur: "ct_current (view sy t) = None"
    using assms(3) worker_step.finish [of "view sy t" _ rec] by (cases "ct_current (view sy t)") auto
  have "wq_queue (ct_queue (view sy t)) = []"
  proof (cases "wq_queue (ct_queue (view sy t))")
    case (Cons r rs)
    then obtain q where "wq_Get (ct_queue (view sy t)) = Some (q, Some r)" by (simp add: wq_Get_def)
    with assms(3) worker_step.take [OF cur] show ?thesis by blast
  qed
  with assms(1) cur have "wq_dirty (ct_queue (view sy t)) = {}" by (auto simp: ctl_inv_def wq_inv_def)
  with assms(2) cur show ?thesis by (simp add: unsettled_def outstanding_def noticed_def)
qed

lemma owner_reconciler:
  assumes "t \<in> owner_types"
  obtains rec where "(t, rec) \<in> set (reconcilers r)"
  using assms by (auto simp: owner_types_def reconcilers_def)

lemma rest_unsettled:
  assumes "sys_inv objs ok s sy" "at_rest cl s objs sy" "t \<in> owner_types"
  shows "unsettled s t sy = set (ct_delayed (view sy t))"
proof -
  obtain rec where rec: "(t, rec) \<in> set (reconcilers \<lparr>r_client = cl, r_scheme = s\<rparr>)"
    by (rule owner_reconciler [OF assms(3)])
  show ?thesis
  proof (rule idle_unsettled)
    show "ctl_inv ok (view sy t)" using assms(1,3) by (simp add: sys_inv_def)
    show "os_events sy t = {}" using assms(2,3) by (auto simp: at_rest_def intro: work_step.deliver)
    show "\<not> worker_step rec (view sy t) c" for c
      using assms(2) rec by (auto simp: at_rest_def intro: work_step.worker)
  qed
qed

text \<open>A request is delayed by a run that failed, because its resource cannot be built.\<close>

definition delays_explained ::
  "('w \<Rightarrow> store) \<Rightarrow> scheme \<Rightarrow> (go_type \<Rightarrow> namespaced_name set) \<Rightarrow> 'w operator_state \<Rightarrow> bool" where
  "delays_explained objs s D sy \<longleftrightarrow>
     (\<forall>t\<in>owner_types. \<forall>nn\<in>set (ct_delayed (view sy t)).
        nn \<in> D t \<or> (\<exists>ob. objs (os_world sy) (t, nn) = Some ob \<and> unbuildable s ob))"

lemma delays_explained_step:
  assumes "reliable_client cl objs ok" "scheme_ready s" "sys_inv objs ok s sy" "work_step cl s objs sy sy'"
    and "delays_explained objs s D sy"
  shows "delays_explained objs s D sy'"
  unfolding delays_explained_def
proof (intro ballI)
  fix t nn assume t: "t \<in> owner_types" and nn: "nn \<in> set (ct_delayed (view sy' t))"
  note grow = work_inv(2) [OF assms(1-4)]
  have old: "nn \<in> D t \<or> (\<exists>ob. objs (os_world sy') (t, nn) = Some ob \<and> unbuildable s ob)"
    if "nn \<in> set (ct_delayed (view sy t))"
    using assms(5) t that map_leD [OF grow] unfolding delays_explained_def by blast
  from assms(4) show "nn \<in> D t \<or> (\<exists>ob. objs (os_world sy') (t, nn) = Some ob \<and> unbuildable s ob)"
  proof cases
    case (deliver t' e)
    with nn old show ?thesis by (auto simp: deliver_event_def split: if_splits)
  next
    case (worker t' rec c)
    show ?thesis
    proof (cases "nn \<in> set (ct_delayed (view sy t))")
      case False
      with worker(1) nn have t': "t' = t" and new: "nn \<in> set (ct_delayed c)" by (auto split: if_splits)
      from worker(3) show ?thesis
      proof cases
        case (finish r)
        obtain w' res e where run: "rec r (os_world sy) = (w', res, e)" by (metis prod_cases3)
        then have run': "rec r (ct_world (view sy t')) = (w', res, e)" by simp
        have r: "r = nn" "requeues res e"
          using new False t' finish(1) finish_item_fields(2) [where rec = rec, OF run'] by (auto split: if_splits)
        have inv: "ok (os_world sy)" "proper_name r"
          using assms(3) t t' finish(2) by (auto simp: sys_inv_def unsettled_def outstanding_def)
        note effect = run_effect [OF assms(1) inv assms(2) worker(2) run]
        have "e \<noteq> None" using r(2) effect(3) by (simp add: requeues_def zero_result_def)
        then obtain err where "e = Some err" by blast
        from effect(6) [OF this] r(1) t' map_leD [OF grow] show ?thesis by (auto simp: unbuildable_def)
      qed (use False new t' in simp)
    qed (rule old)
  qed
qed

lemma reachable_rest:
  assumes "reliable_client cl objs ok" "scheme_ready s" "sys_inv objs ok s sy" "covered objs s sy"
    and "(work_step cl s objs)\<^sup>*\<^sup>* sy sy'"
  shows "sys_inv objs ok s sy' \<and> covered objs s sy' \<and> objs (os_world sy) \<subseteq>\<^sub>m objs (os_world sy') \<and>
    delays_explained objs s (\<lambda>t. set (ct_delayed (view sy t))) sy'"
  using assms(5)
proof induction
  case base
  then show ?case using assms(3,4) by (simp add: delays_explained_def)
next
  case (step sy1 sy2)
  have valid: "foreign_valid objs ok s (\<lambda>_ _. False)" by (simp add: foreign_valid_def)
  have inv: "sys_inv objs ok s sy1" "covered objs s sy1" using step.IH by simp_all
  from covered_step [OF assms(1,2) valid sys_step.work [OF step.hyps(2)] inv]
    work_inv [OF assms(1,2) inv(1) step.hyps(2)] delays_explained_step [OF assms(1,2) inv(1) step.hyps(2)] step.IH
  show ?case by (meson map_le_trans)
qed

text \<open>
  C36: The operator comes to rest. Whatever has happened before, including deletions that no
  watch has seen, once the informers have resynchronised (without such deletions, at once) and
  nobody else interferes, the workers and the delivery of events stop after at most \<open>effort\<close>
  steps, in whatever order they come. Then every custom resource in the store has all its
  children, unless one of them cannot be built (an invalid storage size, a group without a
  protocol) or the resource was waiting for a retry already, and all that is left are the
  delayed retries.
\<close>

theorem operator_comes_to_rest:
  assumes "reliable_client cl objs ok" "scheme_ready s" "ok w" "valid_store s (objs w)"
    and "foreign_valid objs ok s foreign"
    and "(sys_step cl s objs foreign)\<^sup>*\<^sup>* (initial_system objs w) sy"
    and "start = resynced objs sy \<or> start = sy \<and> deletions_noticed objs ok s foreign"
  shows "(\<exists>sy'. (work_step cl s objs)\<^sup>*\<^sup>* start sy' \<and> at_rest cl s objs sy') \<and>
    (\<forall>n sy'. (work_step cl s objs ^^ n) start sy' \<longrightarrow>
       n \<le> effort objs s start \<and>
       (at_rest cl s objs sy' \<longrightarrow>
         (\<forall>t\<in>owner_types. unsettled s t sy' = set (ct_delayed (view sy' t)) \<and>
           (\<forall>nn ob. proper_name nn \<and> objs (os_world sy') (t, nn) = Some ob \<longrightarrow>
              has_children (objs (os_world sy')) t nn \<or> unbuildable s ob \<or>
              nn \<in> set (ct_delayed (view sy t))))))"
proof -
  note reached = reachable_inv [OF assms(1-6)]
  have inv: "sys_inv objs ok s start" and cov: "covered objs s start" and view: "view start = view sy"
    using assms(7) reached sys_inv_step [OF assms(1,2,5) sys_step.resync reached]
      reachable_covered [OF assms(1-5) _ assms(6)] covered_resynced [OF assms(1), of sy s]
    by (auto simp: sys_inv_def fun_eq_iff)
  have rest: "unsettled s t sy' = set (ct_delayed (view sy' t)) \<and>
      (\<forall>nn ob. proper_name nn \<and> objs (os_world sy') (t, nn) = Some ob \<longrightarrow>
         has_children (objs (os_world sy')) t nn \<or> unbuildable s ob \<or> nn \<in> set (ct_delayed (view sy t)))"
    if steps: "(work_step cl s objs ^^ n) start sy'" and stop: "at_rest cl s objs sy'" and t: "t \<in> owner_types"
    for n sy' t
  proof -
    note now = reachable_rest [OF assms(1,2) inv cov relpowp_imp_rtranclp [OF steps], unfolded view]
    have left: "unsettled s t sy' = set (ct_delayed (view sy' t))"
      using now stop t by (intro rest_unsettled [where ok = ok and objs = objs and cl = cl]) simp_all
    have "has_children (objs (os_world sy')) t nn \<or> unbuildable s ob \<or> nn \<in> set (ct_delayed (view sy t))"
      if "proper_name nn" "objs (os_world sy') (t, nn) = Some ob" for nn ob
      using now t that left unfolding covered_def delays_explained_def by (metis option.distinct(1) option.inject)
    with left show ?thesis by blast
  qed
  from comes_to_rest [OF assms(1,2) inv] effort_bounds [OF assms(1,2) inv] rest show ?thesis
    by (meson add_leD1)
qed

text \<open>The sample cluster gets all its children, from the start of the operator on.\<close>

lemma sample_buildable: "\<not> unbuildable operator_scheme (AtomixClusterO (sample_cluster []))"
proof -
  obtain sset where "NewManagementStatefulSet (SetDefaults_Cluster (sample_cluster [])) = Inr sset"
    using sample_cluster_set by blast
  from cluster_items_built [OF operator_scheme_ready this] show ?thesis
    by (auto simp: unbuildable_def operator_plan_def owned_item_def)
qed

theorem operator_comes_to_rest_witness:
  "\<exists>sy. (work_step fake_client operator_scheme fake_objs)\<^sup>*\<^sup>*
      (initial_system fake_objs (world_with (AtomixClusterO (sample_cluster [])))) sy \<and>
    at_rest fake_client operator_scheme fake_objs sy \<and>
    has_children (fake_objs (os_world sy)) AtomixClusterT sample_name"
proof -
  let ?w = "world_with (AtomixClusterO (sample_cluster []))"
  let ?sy = "initial_system fake_objs ?w"
  note rest = operator_comes_to_rest [OF fake.reliable_client_axioms operator_scheme_ready cluster_world(1)
      sample_world_valid users_delete_valid rtranclp.rtrancl_refl, of ?sy]
  have "?sy = resynced fake_objs ?sy \<or> ?sy = ?sy \<and> deletions_noticed fake_objs fake_ok operator_scheme users_delete"
    using users_delete_noticed by simp
  note rest = rest [OF this]
  obtain sy where sy: "(work_step fake_client operator_scheme fake_objs)\<^sup>*\<^sup>* ?sy sy"
    "at_rest fake_client operator_scheme fake_objs sy"
    using rest by blast
  then obtain n where n: "(work_step fake_client operator_scheme fake_objs ^^ n) ?sy sy"
    by (meson rtranclp_imp_relpowp)
  have inv: "sys_inv fake_objs fake_ok operator_scheme ?sy" "covered fake_objs operator_scheme ?sy"
    using sys_inv_initial [where ok = fake_ok and objs = fake_objs, OF cluster_world(1) sample_world_valid]
      covered_initial [OF fake.reliable_client_axioms cluster_world(1)] by simp_all
  have "fake_objs ?w (AtomixClusterT, sample_name) = Some (AtomixClusterO (sample_cluster []))"
    by (simp add: cluster_world)
  then have stored: "fake_objs (os_world sy) (AtomixClusterT, sample_name) = Some (AtomixClusterO (sample_cluster []))"
    using reachable_rest [OF fake.reliable_client_axioms operator_scheme_ready inv sy(1)]
    by (auto dest: map_leD)
  have "ct_delayed (view ?sy AtomixClusterT) = []" "AtomixClusterT \<in> owner_types"
    by (simp_all add: initial_controller_def owner_types_def)
  with rest n sy(2) proper_sample stored sample_buildable
  have "has_children (fake_objs (os_world sy)) AtomixClusterT sample_name" by fastforce
  with sy show ?thesis by blast
qed

end
