(* ===== verification/Cached_Rest.thy ===== *)
theory Cached_Rest
  imports Cached_Progress Operator_Rest
begin

section \<open>The operator over its caches comes to rest\<close>

text \<open>
  The measure of \<open>Operator_Rest\<close>, extended by the versions that the informers have not taken.
  A version on its way costs one step, and the event that will come of it what it costs in each
  of the three controllers; a child that may still be created costs up to ten, one for its version
  and three for its event in each controller.
\<close>

subsection \<open>The measure\<close>

definition cached_active :: "scheme \<Rightarrow> ('w \<Rightarrow> store) \<Rightarrow> go_type \<Rightarrow> 'w cached_state \<Rightarrow> namespaced_name set" where
  "cached_active s seen t sy =
     active s t sy \<union> (\<Union>e\<in>upcoming (seen (os_world sy)) (cs_stream sy). set (requests_of s t e))"

definition cached_missing ::
  "('w \<Rightarrow> store) \<Rightarrow> ('w \<Rightarrow> store) \<Rightarrow> scheme \<Rightarrow> 'w cached_state \<Rightarrow> obj_key set" where
  "cached_missing objs seen s sy =
     missing_of (\<lambda>t. cached_active s seen t sy) (objs (os_world sy))"

definition announce_cost :: "scheme \<Rightarrow> go_type \<Rightarrow> event \<Rightarrow> nat" where
  "announce_cost s ty ev = (\<Sum>t\<in>owner_types. event_cost s t (ty, ev))"

definition version_cost :: "scheme \<Rightarrow> go_type \<Rightarrow> kobj option \<Rightarrow> kobj option list \<Rightarrow> nat" where
  "version_cost s ty c bs = length bs + (\<Sum>ev\<leftarrow>stream_events c bs. announce_cost s ty ev)"

definition stream_effort :: "('w \<Rightarrow> store) \<Rightarrow> scheme \<Rightarrow> 'w cached_state \<Rightarrow> nat" where
  "stream_effort seen s sy =
     (\<Sum>k | cs_stream sy k \<noteq> []. version_cost s (fst k) (seen (os_world sy) k) (cs_stream sy k))"

definition cached_effort :: "('w \<Rightarrow> store) \<Rightarrow> ('w \<Rightarrow> store) \<Rightarrow> scheme \<Rightarrow> 'w cached_state \<Rightarrow> nat" where
  "cached_effort objs seen s sy =
     10 * card (cached_missing objs seen s sy) + stream_effort seen s sy + (\<Sum>t\<in>owner_types. ctl_effort s t sy)"

definition cached_finite :: "('w \<Rightarrow> store) \<Rightarrow> ('w \<Rightarrow> store) \<Rightarrow> 'w cached_state \<Rightarrow> bool" where
  "cached_finite objs seen sy \<longleftrightarrow>
     finite {k. cs_stream sy k \<noteq> []} \<and> finite (dom (objs (os_world sy))) \<and> finite (dom (seen (os_world sy))) \<and>
     (\<forall>t\<in>owner_types. finite (os_events sy t))"

lemma version_cost_Nil [simp]: "version_cost s ty c [] = 0"
  by (simp add: version_cost_def)

lemma version_cost_Cons:
  "version_cost s ty c (v # vs) =
     1 + (case notification c v of None \<Rightarrow> 0 | Some ev \<Rightarrow> announce_cost s ty ev) + version_cost s ty v vs"
  by (simp add: version_cost_def split: option.splits)

lemma version_cost_append:
  "version_cost s ty c (bs @ [v]) =
     version_cost s ty c bs + 1 +
     (case notification (last (c # bs)) v of None \<Rightarrow> 0 | Some ev \<Rightarrow> announce_cost s ty ev)"
  by (simp add: version_cost_def stream_events_append split: option.splits)

lemma stream_effort_superset:
  assumes "finite S" "{k. cs_stream sy k \<noteq> []} \<subseteq> S"
  shows "stream_effort seen s sy = (\<Sum>k\<in>S. version_cost s (fst k) (seen (os_world sy) k) (cs_stream sy k))"
  unfolding stream_effort_def by (rule sum.mono_neutral_left) (use assms in auto)

lemma finite_cached_active:
  assumes "cached_inv objs ok seen s sy" "cached_finite objs seen sy" "t \<in> owner_types"
  shows "finite (wq_dirty (ct_queue (view sy t)))" "finite (cached_active s seen t sy)"
proof -
  have inv: "ctl_inv (\<lambda>_. True) (view sy t)" using assms(1,3) by (simp add: cached_inv_def)
  let ?q = "ct_queue (view sy t)" and ?up = "upcoming (seen (os_world sy)) (cs_stream sy)"
  have "wq_dirty ?q \<subseteq> set (wq_queue ?q) \<union> set_option (ct_current (view sy t))"
    using inv by (auto simp: ctl_inv_def wq_inv_def)
  then show dirty: "finite (wq_dirty ?q)" by (rule finite_subset) simp
  have "?up \<subseteq> (\<Union>k\<in>{k. cs_stream sy k \<noteq> []}. Pair (fst k) ` set (stream_events (seen (os_world sy) k) (cs_stream sy k)))"
  proof
    fix e assume "e \<in> ?up"
    then obtain k where k: "e \<in> Pair (fst k) ` set (stream_events (seen (os_world sy) k) (cs_stream sy k))"
      unfolding upcoming_UN by blast
    then have "cs_stream sy k \<noteq> []" by auto
    with k show "e \<in> (\<Union>k\<in>{k. cs_stream sy k \<noteq> []}.
        Pair (fst k) ` set (stream_events (seen (os_world sy) k) (cs_stream sy k)))" by blast
  qed
  then have "finite ?up" by (rule finite_subset) (use assms(2) in \<open>simp add: cached_finite_def\<close>)
  with dirty assms(2,3) show "finite (cached_active s seen t sy)"
    by (simp add: cached_active_def active_def noticed_def cached_finite_def)
qed

subsection \<open>Finiteness\<close>

text \<open>Whatever happens, finitely many versions and events are on their way.\<close>

definition others_finite :: "('w \<Rightarrow> store) \<Rightarrow> ('w \<Rightarrow> bool) \<Rightarrow> ('w cached_state \<Rightarrow> 'w \<Rightarrow> bool) \<Rightarrow> bool" where
  "others_finite objs ok foreign \<longleftrightarrow>
     (\<forall>sy w'. ok (os_world sy) \<longrightarrow> foreign sy w' \<longrightarrow> finite (dom (objs (os_world sy))) \<longrightarrow> finite (dom (objs w')))"

lemma finite_write_streams:
  assumes "finite {k. st k \<noteq> []}" "finite (dom m)" "finite (dom m')"
  shows "finite {k. write_streams m m' st k \<noteq> []}"
proof (rule finite_subset)
  show "{k. write_streams m m' st k \<noteq> []} \<subseteq> {k. st k \<noteq> []} \<union> dom m \<union> dom m'"
    by (auto simp: write_streams_def dom_def)
  show "finite ({k. st k \<noteq> []} \<union> dom m \<union> dom m')" using assms by simp
qed

lemma cached_finite_put:
  assumes "cached_finite objs seen sy" "finite (dom (objs (ct_world c)))" "seen (ct_world c) = seen (os_world sy)"
  shows "cached_finite objs seen (cached_put objs t c sy)"
  using assms finite_write_streams [of "cs_stream sy" "objs (os_world sy)" "objs (ct_world c)"]
  unfolding cached_finite_def by (simp add: cached_put_def)

lemma cached_finite_change:
  assumes "cached_finite objs seen sy" "finite (dom (objs w'))" "seen w' = seen (os_world sy)"
  shows "cached_finite objs seen (cached_change objs w' sy)"
  using assms finite_write_streams [of "cs_stream sy" "objs (os_world sy)" "objs w'"]
  unfolding cached_finite_def by (simp add: cached_change_def)

lemma cached_finite_announce:
  "cached_finite objs seen sy \<Longrightarrow> finite evs \<Longrightarrow> cached_finite objs seen (announce evs sy)"
  by (simp add: cached_finite_def)

lemma finite_notified: "finite {(ty, ev). ty = t \<and> notification a b = Some ev}"
  by (rule finite_subset [of _ "{(t, the (notification a b))}"]) auto

lemma cached_finite_sync:
  assumes "lagging_client cl objs ok seen sync" "cached_inv objs ok seen s sy" "cached_finite objs seen sy"
    and "cs_stream sy k = v # vs"
  shows "cached_finite objs seen (take_version seen sync k v sy)"
proof -
  have "AtomixClusterT \<in> owner_types" by (simp add: owner_types_def)
  note synced = awaited_sync(2) [OF assms(1,2,4) this] lagging_client.sync_objs [OF assms(1)]
  have "{k'. ((cs_stream sy)(k := vs)) k' \<noteq> []} \<subseteq> insert k {k'. cs_stream sy k' \<noteq> []}" by auto
  then have "finite {k'. ((cs_stream sy)(k := vs)) k' \<noteq> []}"
    by (rule finite_subset) (use assms(3) in \<open>simp add: cached_finite_def\<close>)
  moreover have "finite (dom ((seen (os_world sy))(k := v)))"
    using assms(3) by (auto simp: cached_finite_def intro: finite_subset [of _ "insert k (dom (seen (os_world sy)))"])
  ultimately show ?thesis
    unfolding take_version_def
    by (intro cached_finite_announce finite_notified) (use assms(3,4) synced in \<open>simp add: cached_finite_def\<close>)
qed

lemma cached_worker_dom:
  assumes "lagging_client cl objs ok seen sync" "scheme_ready s" "cached_inv objs ok seen s sy"
    and "cached_finite objs seen sy"
    and "(t, rec) \<in> set (reconcilers \<lparr>r_client = cl, r_scheme = s\<rparr>)" "worker_step rec (view sy t) c"
  shows "finite (dom (objs (ct_world c)))"
proof (rule finite_subset)
  show "dom (objs (ct_world c)) \<subseteq> dom (objs (os_world sy)) \<union>
      (\<Union>nn\<in>set_option (ct_current (view sy t)). set (child_keys t nn))"
    using cached_worker_effect(6) [OF assms(1-3,5,6)] by fastforce
  show "finite (dom (objs (os_world sy)) \<union> (\<Union>nn\<in>set_option (ct_current (view sy t)). set (child_keys t nn)))"
    using assms(4) by (simp add: cached_finite_def)
qed

lemma cached_step_finite:
  assumes "lagging_client cl objs ok seen sync" "scheme_ready s" "cached_inv objs ok seen s sy"
    and "others_valid objs ok seen s foreign" "others_finite objs ok foreign"
    and "cached_step cl s objs seen sync foreign sy sy'" "cached_finite objs seen sy"
  shows "cached_finite objs seen sy'"
  using assms(6)
proof cases
  case work
  then show ?thesis
  proof cases
    case (deliver t e)
    then show ?thesis using assms(7) by (simp add: cached_finite_def)
  next
    case (sync k v vs)
    then show ?thesis using cached_finite_sync [OF assms(1,3,7)] by simp
  next
    case (worker t rec c)
    then show ?thesis
      using cached_finite_put [OF assms(7)] cached_worker_effect(4) [OF assms(1-3)]
        cached_worker_dom [OF assms(1-3,7)] by simp
  qed
next
  case (retry t c)
  have "ctl_inv (\<lambda>_. True) (view sy t)" using assms(3) retry(2) by (simp add: cached_inv_def)
  from retry_step_outstanding(3) [OF retry(3) this] have "ct_world c = os_world sy" by simp
  with retry assms(7) show ?thesis
    using cached_finite_put [OF assms(7)] by (simp add: cached_finite_def)
next
  case resync
  have "finite (dom (seen (os_world sy)))" using assms(7) by (simp add: cached_finite_def)
  then have "finite (resync_events (seen (os_world sy)))" using finite_changes(2) by blast
  then show ?thesis unfolding resync by (rule cached_finite_announce [OF assms(7)])
next
  case (change w')
  have "ok (os_world sy)" using assms(3) by (simp add: cached_inv_def)
  then have "seen w' = seen (os_world sy)" using assms(4) change(2) unfolding others_valid_def by blast
  moreover have "finite (dom (objs w'))"
    using assms(5,7) change(2) \<open>ok (os_world sy)\<close> unfolding others_finite_def cached_finite_def by blast
  ultimately show ?thesis unfolding change(1) using cached_finite_change [OF assms(7)] by blast
qed

subsection \<open>Every step of the operator costs something\<close>

lemma cached_effort_deliver:
  assumes "cached_inv objs ok seen s sy" "cached_finite objs seen sy" "t \<in> owner_types" "e \<in> os_events sy t"
  shows "cached_effort objs seen s (deliver s t e sy) < cached_effort objs seen s sy"
proof -
  have inv: "ctl_inv (\<lambda>_. True) (view sy t)" "finite (os_events sy t)"
    using assms(1-3) by (simp_all add: cached_inv_def cached_finite_def)
  note delivered = ctl_effort_deliver [OF inv finite_cached_active(1) [OF assms(1-3)] assms(3,4), of s]
  have "cached_active s seen t' (deliver s t e sy) \<subseteq> cached_active s seen t' sy" for t'
    using delivered(2) [of t'] by (auto simp: cached_active_def)
  then have "card (cached_missing objs seen s (deliver s t e sy)) \<le> card (cached_missing objs seen s sy)"
    unfolding cached_missing_def deliver_fields(1) by (intro missing_same finite_cached_active(2) [OF assms(1,2)])
  with delivered(1) show ?thesis by (simp add: cached_effort_def stream_effort_def)
qed

lemma sum_notified:
  "(\<Sum>e\<in>{(ty, ev). ty = ty' \<and> notification a b = Some ev}. f e) =
     (case notification a b of None \<Rightarrow> 0 | Some ev \<Rightarrow> f (ty', ev))"
proof (cases "notification a b")
  case None
  then have "{(ty, ev). ty = ty' \<and> notification a b = Some ev} = {}" by auto
  with None show ?thesis by simp
next
  case (Some ev)
  then have "{(ty, ev). ty = ty' \<and> notification a b = Some ev} = {(ty', ev)}" by auto
  with Some show ?thesis by simp
qed

lemma stream_effort_sync:
  assumes "finite {k. cs_stream sy k \<noteq> []}" "cs_stream sy k = v # vs"
    and "seen (sync k v (os_world sy)) = (seen (os_world sy))(k := v)"
  shows "stream_effort seen s sy = stream_effort seen s (take_version seen sync k v sy) + 1 +
    (case notification (seen (os_world sy) k) v of None \<Rightarrow> 0 | Some ev \<Rightarrow> announce_cost s (fst k) ev)"
proof -
  let ?S = "{k. cs_stream sy k \<noteq> []}" and ?sy' = "take_version seen sync k v sy"
  have k: "k \<in> ?S" using assms(2) by simp
  have sub: "{k'. cs_stream ?sy' k' \<noteq> []} \<subseteq> ?S" using k by auto
  have "stream_effort seen s ?sy' = version_cost s (fst k) v vs +
      (\<Sum>k'\<in>?S - {k}. version_cost s (fst k') (seen (os_world sy) k') (cs_stream sy k'))"
    unfolding stream_effort_superset [OF assms(1) sub] sum.remove [OF assms(1) k]
    by (simp add: assms(2,3))
  moreover have "stream_effort seen s sy = version_cost s (fst k) (seen (os_world sy) k) (v # vs) +
      (\<Sum>k'\<in>?S - {k}. version_cost s (fst k') (seen (os_world sy) k') (cs_stream sy k'))"
    unfolding stream_effort_def sum.remove [OF assms(1) k] by (simp add: assms(2))
  ultimately show ?thesis by (simp add: version_cost_Cons)
qed

lemma cached_effort_sync:
  assumes "lagging_client cl objs ok seen sync" "cached_inv objs ok seen s sy" "cached_finite objs seen sy"
    and "cs_stream sy k = v # vs"
  shows "cached_effort objs seen s (take_version seen sync k v sy) < cached_effort objs seen s sy"
proof -
  let ?sy' = "take_version seen sync k v sy" and ?w = "os_world sy"
  let ?E = "{(ty, ev). ty = fst k \<and> notification (seen ?w k) v = Some ev}"
  let ?mid = "sy\<lparr>os_world := sync k v ?w, cs_stream := (cs_stream sy)(k := tl (cs_stream sy k))\<rparr>"
  have "AtomixClusterT \<in> owner_types" by (simp add: owner_types_def)
  note synced = awaited_sync(2) [OF assms(1,2,4) this] lagging_client.sync_objs [OF assms(1)]
  have ctl: "ctl_effort s t ?sy' \<le> ctl_effort s t sy + (\<Sum>e\<in>?E. event_cost s t e)" if "t \<in> owner_types" for t
  proof -
    have "finite (os_events ?mid t)" using assms(3) that by (simp add: cached_finite_def)
    from announce_effort [OF this finite_notified, of s] show ?thesis
      by (simp add: take_version_def ctl_effort_def queue_effort_def view_def)
  qed
  have "(\<Sum>t\<in>owner_types. ctl_effort s t ?sy') \<le>
      (\<Sum>t\<in>owner_types. ctl_effort s t sy) + (\<Sum>t\<in>owner_types. \<Sum>e\<in>?E. event_cost s t e)"
    using sum_mono [OF ctl] by (simp add: sum.distrib)
  also have "(\<Sum>t\<in>owner_types. \<Sum>e\<in>?E. event_cost s t e) =
      (case notification (seen ?w k) v of None \<Rightarrow> 0 | Some ev \<Rightarrow> announce_cost s (fst k) ev)"
    unfolding sum_notified by (simp add: announce_cost_def split: option.split)
  finally have ctls: "(\<Sum>t\<in>owner_types. ctl_effort s t ?sy') + stream_effort seen s ?sy' <
      (\<Sum>t\<in>owner_types. ctl_effort s t sy) + stream_effort seen s sy"
    using stream_effort_sync [of sy k v vs seen sync s, OF _ assms(4) synced(1)] assms(3)
    by (simp add: cached_finite_def)
  have "cached_active s seen t ?sy' \<subseteq> cached_active s seen t sy" if t: "t \<in> owner_types" for t
  proof -
    have "active s t ?sy' = active s t sy \<union> (\<Union>e\<in>?E. set (requests_of s t e))"
      using t by (auto simp: active_def)
    moreover have "upcoming (seen ?w) (cs_stream sy) = ?E \<union> upcoming ((seen ?w)(k := v)) ((cs_stream sy)(k := vs))"
      by (rule upcoming_sync [of "cs_stream sy" k v vs "seen ?w", OF assms(4)])
    ultimately show ?thesis by (auto simp: cached_active_def synced(1) assms(4))
  qed
  then have "card (cached_missing objs seen s ?sy') \<le> card (cached_missing objs seen s sy)"
    unfolding cached_missing_def take_version_fields(1) synced(2)
    by (intro missing_same finite_cached_active(2) [OF assms(2,3)])
  with ctls show ?thesis by (simp add: cached_effort_def)
qed

text \<open>Each new child is one version on its way, with an event for each controller.\<close>

lemma stream_effort_grown:
  assumes "finite {k. cs_stream sy k \<noteq> []}" "finite (dom (objs (ct_world c)))"
    and "seen (ct_world c) = seen (os_world sy)" "objs (os_world sy) \<subseteq>\<^sub>m objs (ct_world c)"
    and "\<And>k. last (seen (os_world sy) k # cs_stream sy k) = objs (os_world sy) k"
    and "\<And>e t'. e \<in> changes (objs (os_world sy)) (objs (ct_world c)) \<Longrightarrow> t' \<in> owner_types \<Longrightarrow> event_cost s t' e \<le> 3"
  shows "stream_effort seen s (cached_put objs t c sy) \<le>
    stream_effort seen s sy + 10 * card (dom (objs (ct_world c)) - dom (objs (os_world sy)))"
proof -
  let ?m = "objs (os_world sy)" and ?m' = "objs (ct_world c)" and ?c = "seen (os_world sy)"
  let ?N = "dom ?m' - dom ?m" and ?sy' = "cached_put objs t c sy"
  let ?S = "{k. cs_stream sy k \<noteq> []} \<union> ?N"
  have fin: "finite ?S" using assms(1,2) by simp
  have same: "?m k = ?m' k" if "k \<notin> ?N" for k
    using that assms(4) by (metis DiffI domIff map_le_def)
  have sub: "{k. cs_stream ?sy' k \<noteq> []} \<subseteq> ?S"
  proof
    fix k assume k: "k \<in> {k. cs_stream ?sy' k \<noteq> []}"
    show "k \<in> ?S"
    proof (cases "k \<in> ?N")
      case False
      with k same [of k] show ?thesis by (simp add: write_streams_def)
    qed simp
  qed
  have cost: "version_cost s (fst k) (seen (os_world ?sy') k) (cs_stream ?sy' k) \<le>
      version_cost s (fst k) (?c k) (cs_stream sy k) + (if k \<in> ?N then 10 else 0)" for k
  proof (cases "k \<in> ?N")
    case False
    with same [of k] show ?thesis by (simp add: write_streams_def assms(3))
  next
    case True
    then obtain x where x: "?m' k = Some x" "?m k = None" by auto
    then have "(fst k, CreateEvent (meta_of x)) \<in> changes ?m ?m'"
      by (intro changesI [of _ _ "snd k"]) simp_all
    then have "announce_cost s (fst k) (CreateEvent (meta_of x)) \<le> card owner_types * 3"
      unfolding announce_cost_def using sum_bounded_above [of owner_types _ 3] assms(6) by (metis of_nat_id)
    then show ?thesis
      using True x assms(5) [of k] by (simp add: write_streams_def assms(3) version_cost_append card_owner_types)
  qed
  have "(\<Sum>k\<in>?S. if k \<in> ?N then 10 else 0) = (10::nat) * card ?N"
    using sum.inter_restrict [OF fin, of "\<lambda>_. 10 :: nat" ?N, symmetric] by (simp add: Int_absorb1 mult.commute)
  moreover have "stream_effort seen s ?sy' \<le>
      (\<Sum>k\<in>?S. version_cost s (fst k) (?c k) (cs_stream sy k) + (if k \<in> ?N then 10 else 0))"
    unfolding stream_effort_superset [OF fin sub] by (intro sum_mono cost)
  ultimately show ?thesis
    by (simp only: sum.distrib stream_effort_superset [OF fin Un_upper1])
qed

lemma cached_effort_worker:
  assumes "lagging_client cl objs ok seen sync" "scheme_ready s" "cached_inv objs ok seen s sy"
    and "cached_finite objs seen sy"
    and "(t, rec) \<in> set (reconcilers \<lparr>r_client = cl, r_scheme = s\<rparr>)" "worker_step rec (view sy t) c"
  shows "cached_effort objs seen s (cached_put objs t c sy) < cached_effort objs seen s sy"
proof -
  let ?m = "objs (os_world sy)" and ?m' = "objs (ct_world c)" and ?sy' = "cached_put objs t c sy"
  let ?N = "dom ?m' - dom ?m"
  note effect = cached_worker_effect [OF assms(1-3,5,6)]
  have inv: "ctl_inv (\<lambda>_. True) (view sy t)" using assms(3) effect(1) by (simp add: cached_inv_def)
  note queue = worker_queue_effort [OF assms(6) inv finite_cached_active(1) [OF assms(3,4) effect(1)]]
  have new: "\<exists>nn. ct_current (view sy t) = Some nn \<and> is_child_of t nn k x" if "?m' k = Some x" "?m k = None" for k x
    using effect(6) [OF that] by blast
  note events = child_events [OF assms(2) effect(1) _ effect(5) _ new]
  have "streams_ok objs seen s sy" using assms(3) by (simp add: cached_inv_def)
  then have last: "last (seen (os_world sy) k # cs_stream sy k) = ?m k" for k
    using streams_okD(1) [of objs seen s sy k] by (simp add: versions_def)
  have streams: "stream_effort seen s ?sy' \<le> stream_effort seen s sy + 10 * card ?N"
    using assms(4) events(1) cached_worker_dom [OF assms]
    by (intro stream_effort_grown last effect(4,5)) (simp_all add: cached_finite_def)
  have ctls: "(\<Sum>t'\<in>owner_types. ctl_effort s t' ?sy') < (\<Sum>t'\<in>owner_types. ctl_effort s t' sy)"
  proof (rule sum_owner_types_less [OF effect(1)])
    have events: "os_events ?sy' t' = os_events sy t'" for t' by (simp add: cached_put_def)
    show "ctl_effort s t ?sy' < ctl_effort s t sy" using queue(1) by (simp add: ctl_effort_def events)
    show "ctl_effort s t' ?sy' \<le> ctl_effort s t' sy" if "t' \<noteq> t" for t'
      using that by (simp add: ctl_effort_def queue_effort_def events)
  qed
  have active: "cached_active s seen t' ?sy' \<subseteq> cached_active s seen t' sy" if t': "t' \<in> owner_types" for t'
  proof -
    have "upcoming (seen (os_world sy)) (write_streams ?m ?m' (cs_stream sy)) =
        upcoming (seen (os_world sy)) (cs_stream sy) \<union> changes ?m ?m'"
      by (rule upcoming_write [OF last])
    moreover have "(if t' = t then set_option (ct_current (view sy t)) else {}) \<subseteq> active s t' sy"
      by (auto simp: active_def)
    then have "(\<Union>e\<in>changes ?m ?m'. set (requests_of s t' e)) \<subseteq> active s t' sy"
      using events(2) [OF t'] by (intro UN_least) blast
    moreover have "active s t' ?sy' \<subseteq> active s t' sy" using queue(2) by (auto simp: active_def)
    ultimately show ?thesis unfolding cached_active_def by (simp add: effect(4) UN_Un) blast
  qed
  have "\<exists>t\<in>owner_types. \<exists>nn\<in>cached_active s seen t sy. k \<in> set (child_keys t nn)" if "k \<in> ?N" for k
    using effect(6) [of k] effect(1) that by (fastforce simp: cached_active_def active_def)
  then have "card (cached_missing objs seen s ?sy') + card ?N \<le> card (cached_missing objs seen s sy)"
    unfolding cached_missing_def cached_put_fields(1)
    by (intro missing_grown finite_cached_active(2) [OF assms(3,4)] active effect(5))
  with streams ctls show ?thesis by (simp add: cached_effort_def)
qed

lemma cached_effort_step:
  assumes "lagging_client cl objs ok seen sync" "scheme_ready s" "cached_inv objs ok seen s sy"
    and "cached_finite objs seen sy" "cached_work cl s objs seen sync sy sy'"
  shows "cached_effort objs seen s sy' < cached_effort objs seen s sy"
  using assms(5)
proof cases
  case (deliver t e)
  then show ?thesis using cached_effort_deliver [OF assms(3,4)] by simp
next
  case (sync k v vs)
  then show ?thesis using cached_effort_sync [OF assms(1,3,4)] by simp
next
  case (worker t rec c)
  then show ?thesis using cached_effort_worker [OF assms(1-4)] by simp
qed

subsection \<open>Rest\<close>

definition cached_rest ::
  "'w client \<Rightarrow> scheme \<Rightarrow> ('w \<Rightarrow> store) \<Rightarrow> ('w \<Rightarrow> store) \<Rightarrow> (obj_key \<Rightarrow> kobj option \<Rightarrow> 'w \<Rightarrow> 'w) \<Rightarrow>
   'w cached_state \<Rightarrow> bool" where
  "cached_rest cl s objs seen sync sy \<longleftrightarrow> \<not> (\<exists>sy'. cached_work cl s objs seen sync sy sy')"

text \<open>What the work of the operator keeps, and that it ends.\<close>

definition cached_good :: "('w \<Rightarrow> store) \<Rightarrow> ('w \<Rightarrow> bool) \<Rightarrow> ('w \<Rightarrow> store) \<Rightarrow> scheme \<Rightarrow> 'w cached_state \<Rightarrow> bool" where
  "cached_good objs ok seen s sy \<longleftrightarrow>
     cached_inv objs ok seen s sy \<and> cached_finite objs seen sy \<and> cached_covered objs seen s sy \<and>
     deletions_covered objs seen s sy"

lemma cached_good_work:
  assumes "lagging_client cl objs ok seen sync" "scheme_ready s" "cached_good objs ok seen s sy"
    and "cached_work cl s objs seen sync sy sy'"
  shows "cached_good objs ok seen s sy'" "cached_effort objs seen s sy' < cached_effort objs seen s sy"
proof -
  let ?none = "\<lambda>sy w'. False"
  have step: "cached_step cl s objs seen sync ?none sy sy'" by (rule cached_step.work [OF assms(4)])
  have good: "cached_inv objs ok seen s sy" "cached_finite objs seen sy"
    using assms(3) by (simp_all add: cached_good_def)
  have none: "others_valid objs ok seen s ?none" "others_considerate objs ok seen s ?none" "others_finite objs ok ?none"
    by (simp_all add: others_valid_def others_considerate_def others_finite_def)
  show "cached_good objs ok seen s sy'"
    using assms(3) cached_step_inv [OF assms(1,2) none(1) step good(1)] none(2)
      cached_step_finite [OF assms(1,2) good(1) none(1,3) step good(2)] by (simp add: cached_good_def)
  show "cached_effort objs seen s sy' < cached_effort objs seen s sy"
    by (rule cached_effort_step [OF assms(1,2) good assms(4)])
qed

lemma cached_effort_bounds:
  assumes "lagging_client cl objs ok seen sync" "scheme_ready s" "cached_good objs ok seen s sy"
    and "(cached_work cl s objs seen sync ^^ n) sy sy'"
  shows "n + cached_effort objs seen s sy' \<le> cached_effort objs seen s sy \<and> cached_good objs ok seen s sy'"
  using assms(4)
proof (induction n arbitrary: sy')
  case 0
  then show ?case using assms(3) by simp
next
  case (Suc n)
  then obtain sy1 where sy1: "(cached_work cl s objs seen sync ^^ n) sy sy1" "cached_work cl s objs seen sync sy1 sy'" by auto
  with Suc.IH have "n + cached_effort objs seen s sy1 \<le> cached_effort objs seen s sy" "cached_good objs ok seen s sy1"
    by auto
  with cached_good_work [OF assms(1,2) _ sy1(2)] show ?case by fastforce
qed

lemma caches_rest:
  assumes "lagging_client cl objs ok seen sync" "scheme_ready s" "cached_good objs ok seen s sy"
  shows "\<exists>sy'. (cached_work cl s objs seen sync)\<^sup>*\<^sup>* sy sy' \<and> cached_rest cl s objs seen sync sy'"
  using assms(3)
proof (induction "cached_effort objs seen s sy" arbitrary: sy rule: less_induct)
  case less
  show ?case
  proof (cases "cached_rest cl s objs seen sync sy")
    case False
    then obtain sy1 where sy1: "cached_work cl s objs seen sync sy sy1" by (auto simp: cached_rest_def)
    from less.hyps [OF cached_good_work(2,1) [OF assms(1,2) less.prems sy1]]
    show ?thesis using sy1 by (meson converse_rtranclp_into_rtranclp)
  qed blast
qed

text \<open>At rest the caches are what the server is, and only delayed requests are left.\<close>

lemma cached_rest_state:
  assumes "cached_inv objs ok seen s sy" "cached_rest cl s objs seen sync sy"
  shows "seen (os_world sy) = objs (os_world sy)"
    and "t \<in> owner_types \<Longrightarrow> awaited s seen t sy = set (ct_delayed (view sy t))"
proof -
  have idle: "\<not> cached_work cl s objs seen sync sy sy'" for sy' using assms(2) by (auto simp: cached_rest_def)
  have inv: "streams_ok objs seen s sy" using assms(1) by (simp add: cached_inv_def)
  have empty: "cs_stream sy k = []" for k
    using idle cached_work.sync [of sy k] by (cases "cs_stream sy k") blast+
  show "seen (os_world sy) = objs (os_world sy)"
    using streams_okD(1) [OF inv] by (simp add: fun_eq_iff versions_def empty)
  show "awaited s seen t sy = set (ct_delayed (view sy t))" if t: "t \<in> owner_types"
  proof -
    obtain rec where rec: "(t, rec) \<in> set (reconcilers \<lparr>r_client = cl, r_scheme = s\<rparr>)"
      by (rule owner_reconciler [OF t])
    have "unsettled s t sy = set (ct_delayed (view sy t))"
    proof (rule idle_unsettled)
      show "ctl_inv (\<lambda>_. True) (view sy t)" using assms(1) t by (simp add: cached_inv_def)
      show "os_events sy t = {}" using idle t cached_work.deliver [OF t] by blast
      show "\<not> worker_step rec (view sy t) c" for c using idle cached_work.worker [OF rec] by blast
    qed
    then show ?thesis by (simp add: awaited_def upcoming_def empty)
  qed
qed

text \<open>When the caches are up to date, a resynchronisation brings every resource back to work.\<close>

lemma cached_resynced:
  assumes "streams_ok objs seen s sy" "\<And>k. cs_stream sy k = []"
  shows "cached_covered objs seen s (announce (resync_events (seen (os_world sy))) sy)"
    and "deletions_covered objs seen s (announce (resync_events (seen (os_world sy))) sy)"
proof -
  let ?sy = "announce (resync_events (seen (os_world sy))) sy"
  have seen: "seen (os_world sy) k = objs (os_world sy) k" for k
    using streams_okD(1) [OF assms(1), of k] by (simp add: versions_def assms(2))
  show "cached_covered objs seen s ?sy"
    unfolding cached_covered_def
  proof (intro ballI allI impI disjI1)
    fix t nn assume t: "t \<in> owner_types" and "objs (os_world ?sy) (t, nn) \<noteq> None"
    then obtain x where x: "objs (os_world sy) (t, nn) = Some x" by auto
    have "(t, UpdateEvent (meta_of x) (meta_of x)) \<in> resync_events (seen (os_world sy))"
      unfolding resync_events_def by (rule CollectI, rule case_prodI, rule exI [of _ nn]) (simp add: seen x)
    moreover have "nn \<in> set (requests_of s t (t, UpdateEvent (meta_of x) (meta_of x)))"
      using requests_self [OF t] streams_okD(4) [OF assms(1) x] by (simp add: set_requests_of)
    ultimately show "nn \<in> awaited s seen t ?sy" using awaited_announce [OF t] by blast
  qed
  show "deletions_covered objs seen s ?sy"
    by (simp add: deletions_covered_def versions_def assms(2) seen)
qed

text \<open>The states from which the operator is left alone.\<close>

lemma cached_start_good:
  assumes "lagging_client cl objs ok seen sync" "scheme_ready s" "ok w" "seen w = Map.empty" "finite (dom (objs w))"
    and "\<And>k x. objs w k = Some x \<Longrightarrow> valid_object s (fst k) x"
    and "others_valid objs ok seen s foreign" "others_finite objs ok foreign"
    and "(cached_step cl s objs seen sync foreign)\<^sup>*\<^sup>* (initial_cached objs w) sy"
    and "start = sy \<and> others_considerate objs ok seen s foreign \<or>
      start = announce (resync_events (seen (os_world sy))) sy \<and> (\<forall>k. cs_stream sy k = [])"
  shows "cached_good objs ok seen s start"
proof -
  have finite: "cached_finite objs seen sy"
    using assms(9)
  proof induction
    case base
    then show ?case
      using finite_write_streams [of "\<lambda>k. []" Map.empty "objs w"] assms(4,5)
      by (simp add: cached_finite_def) (simp add: initial_cached_def)
  next
    case (step sy1 sy2)
    show ?case
      by (rule cached_step_finite [OF assms(1,2) cached_reachable(1) [OF assms(1-4,6,7) step.hyps(1)]
            assms(7,8) step.hyps(2) step.IH])
  qed
  note reached = cached_reachable [OF assms(1-4,6,7,9)]
  from assms(10) show ?thesis
  proof
    assume "start = sy \<and> others_considerate objs ok seen s foreign"
    with finite reached show ?thesis by (simp add: cached_good_def)
  next
    assume start: "start = announce (resync_events (seen (os_world sy))) sy \<and> (\<forall>k. cs_stream sy k = [])"
    have step: "cached_step cl s objs seen sync foreign sy start"
      using start cached_step.resync [of cl s objs seen sync foreign sy] by simp
    have "streams_ok objs seen s sy" "\<And>k. cs_stream sy k = []"
      using reached(1) start unfolding cached_inv_def by blast+
    note cached_resynced [OF this]
    with start cached_step_inv(1) [OF assms(1,2,7) step reached(1)]
      cached_step_finite [OF assms(1,2) reached(1) assms(7,8) step finite]
    show ?thesis by (simp add: cached_good_def)
  qed
qed

end
