(* ===== verification/Cached_Properties.thy ===== *)
theory Cached_Properties
  imports Cached_Rest
begin

section \<open>What the operator achieves over its caches\<close>

text \<open>
  Two properties of the operator over the client that the manager gives it, and a run of the
  hypotheses: the sample cluster on a fake server behind empty caches, with users who delete.
\<close>

lemma cached_view_step:
  assumes "cached_step cl s objs seen sync foreign sy sy'"
    and "(t, rec) \<in> set (reconcilers \<lparr>r_client = cl, r_scheme = s\<rparr>)"
    and "\<And>e. e \<in> os_events sy t \<Longrightarrow> set (requests_of s t e) \<subseteq> reqs"
  shows "(ctl_step rec (\<lambda>_ _. True) reqs)\<^sup>*\<^sup>* (view sy t) (view sy' t)"
  using assms(1)
proof cases
  case work
  then show ?thesis
  proof cases
    case (deliver t' e)
    then show ?thesis
      using deliver_event_steps [of s "controller_name t" "fst e" "snd e" reqs rec] assms(3) [of e]
      by (cases "t = t'") (simp_all add: requests_of_def)
  next
    case (sync k v vs)
    then show ?thesis using ctl_step_change by simp
  next
    case (worker t' rec' c)
    show ?thesis
    proof (cases "t = t'")
      case True
      with worker assms(2) have "worker_step rec (view sy t) c" by (metis reconcilers_functional)
      with worker True show ?thesis by (auto intro: worker_ctl_step)
    qed (use worker ctl_step_change in simp)
  qed
next
  case (retry t' c)
  then show ?thesis using ctl_step_change retry_ctl_step [OF retry(3)] by (cases "t = t'") auto
next
  case (change w')
  then show ?thesis using ctl_step_change by simp
qed simp

text \<open>
  C32: The three controllers together, over one server and the caches of the manager's client,
  which lag behind it, as long as others are considerate: they delete a child that a resource
  still wants only where a watch sees it (see C26), and they do not create a resource anew as
  long as a cache still has children of its predecessor. Informers take the versions of each
  object one by one, and runs read whatever the caches have. Each controller still behaves as one
  that is alone, so that C27 to C29 hold of it. In every state that is reached under this
  condition each custom resource on the server is looked after: a controller has a request or an
  event for it, or an informer is about to send one, or all its children exist. So once all
  versions are taken and no event or request for a resource is left, the resource is complete,
  however runs, informers, retries and the changes of others interleaved. Without the condition
  it may not be: nobody is told when a config map that is still wanted is deleted.
\<close>

theorem caches_forget_nothing:
  assumes "lagging_client cl objs ok seen sync" "scheme_ready s" "ok w" "seen w = Map.empty"
    and "\<And>k x. objs w k = Some x \<Longrightarrow> valid_object s (fst k) x"
    and "others_valid objs ok seen s foreign" "others_considerate objs ok seen s foreign"
    and "(cached_step cl s objs seen sync foreign)\<^sup>*\<^sup>* (initial_cached objs w) sy"
    and "(t, rec) \<in> set (reconcilers \<lparr>r_client = cl, r_scheme = s\<rparr>)"
  shows "(ctl_step rec (\<lambda>_ _. True) (Collect proper_name))\<^sup>*\<^sup>* (initial_controller w) (view sy t) \<and>
    (\<forall>nn. proper_name nn \<and> objs (os_world sy) (t, nn) \<noteq> None \<longrightarrow>
       nn \<in> awaited s seen t sy \<or> has_children (objs (os_world sy)) t nn)"
proof -
  have t: "t \<in> owner_types" using assms(9) by (auto simp: reconcilers_def owner_types_def)
  have "(ctl_step rec (\<lambda>_ _. True) (Collect proper_name))\<^sup>*\<^sup>* (initial_controller w) (view sy t)"
    using assms(8)
  proof induction
    case base
    then show ?case by simp
  next
    case (step sy1 sy2)
    have "set (requests_of s t e) \<subseteq> Collect proper_name" if "e \<in> os_events sy1 t" for e
      using cached_reachable(1) [OF assms(1-6) step.hyps(1)] t that
      by (auto simp: cached_inv_def awaited_def unsettled_def noticed_def)
    from cached_view_step [OF step.hyps(2) assms(9) this] step.IH show ?case by (meson rtranclp_trans)
  qed
  with t cached_reachable(2) [OF assms(1-6,8,7)] show ?thesis by (simp add: cached_covered_def)
qed

text \<open>The sample cluster on a server, with empty caches, and users that delete resources.\<close>

definition sample_caches :: "fakeClient DelegatingClient" where
  "sample_caches =
     \<lparr>dc_informers = (\<lambda>g. Some Map.empty), dc_started = True, dc_scheme = operator_scheme,
      dc_server = world_with (AtomixClusterO (sample_cluster []))\<rparr>"

definition users_delete_cached ::
  "fakeClient DelegatingClient cached_state \<Rightarrow> fakeClient DelegatingClient \<Rightarrow> bool" where
  "users_delete_cached sy w' \<longleftrightarrow>
     (\<exists>v. users_delete (dc_server (os_world sy)) v \<and> w' = (os_world sy)\<lparr>dc_server := v\<rparr>)"

lemma sample_caches_ok:
  "lag_ok fake_ok sample_caches" "lag_seen sample_caches = Map.empty"
  "split_objs fake_objs sample_caches = fake_objs (world_with (AtomixClusterO (sample_cluster [])))"
proof -
  have informer: "informer_of sample_caches t = Some Map.empty" for t
  proof -
    obtain g where "GVKForObject t operator_scheme = Inr g"
      using kinds_distinctE [OF operator_kinds_distinct] by metis
    then show ?thesis by (simp add: informer_of_def sample_caches_def)
  qed
  show "lag_ok fake_ok sample_caches"
    unfolding lag_ok_def informer by (simp add: sample_caches_def cluster_world operator_kinds_distinct)
  show "lag_seen sample_caches = Map.empty" by (rule ext) (simp add: lag_seen_def informer)
  show "split_objs fake_objs sample_caches = fake_objs (world_with (AtomixClusterO (sample_cluster [])))"
    by (simp add: split_objs_def sample_caches_def)
qed

lemma users_delete_subset:
  assumes "fake_ok w" "users_delete w v"
  shows "fake_ok v" "fake_objs v \<subseteq>\<^sub>m fake_objs w"
proof -
  obtain ob where ob: "proper_name (snd (key_of ob))" "v = fst (fake_Delete w ob)"
    using assms(2) unfolding users_delete_def by blast
  from fake_deletion [OF assms(1) ob(1)] show "fake_ok v" "fake_objs v \<subseteq>\<^sub>m fake_objs w"
    unfolding ob(2) by (simp_all add: map_le_def dom_def)
qed

lemma valid_store_object: "valid_store s m \<Longrightarrow> m k = Some x \<Longrightarrow> valid_object s (fst k) x"
  by (cases k) (simp add: valid_store_def valid_object_def)

lemma users_delete_cached_valid:
  "others_valid (split_objs fake_objs) (lag_ok fake_ok) lag_seen s users_delete_cached"
  unfolding others_valid_def
proof (intro allI impI)
  fix sy w'
  assume ok: "lag_ok fake_ok (os_world sy)" and "users_delete_cached sy w'"
  then obtain v where v: "users_delete (dc_server (os_world sy)) v" "w' = (os_world sy)\<lparr>dc_server := v\<rparr>"
    by (auto simp: users_delete_cached_def)
  have "fake_ok (dc_server (os_world sy))" using ok by (simp add: lag_ok_def)
  note deleted = users_delete_subset [OF this v(1)]
  have informer: "informer_of w' t = informer_of (os_world sy) t" for t
    by (simp add: informer_of_def v(2) split: sum.split)
  have "lag_ok fake_ok w'" using ok deleted(1) unfolding lag_ok_def informer by (simp add: v(2))
  moreover have "lag_seen w' = lag_seen (os_world sy)" by (rule ext) (simp add: lag_seen_def informer)
  moreover have "split_objs fake_objs (os_world sy) k = Some x" if "split_objs fake_objs w' k = Some x" for k x
    using deleted(2) that by (auto simp: split_objs_def v(2) dest: map_leD)
  ultimately show "lag_ok fake_ok w' \<and> lag_seen w' = lag_seen (os_world sy) \<and>
      (\<forall>k x. split_objs fake_objs w' k = Some x \<longrightarrow>
         split_objs fake_objs (os_world sy) k = Some x \<or> valid_object s (fst k) x)" by blast
qed

lemma users_delete_cached_considerate:
  "others_considerate (split_objs fake_objs) (lag_ok fake_ok) lag_seen operator_scheme users_delete_cached"
  unfolding others_considerate_def
proof (intro allI impI)
  fix sy w' t nn k
  assume ok: "lag_ok fake_ok (os_world sy)" and "users_delete_cached sy w'" and t: "t \<in> owner_types" "proper_name nn"
    and stored: "split_objs fake_objs w' (t, nn) \<noteq> None" and k: "k \<in> set (child_keys t nn)" "split_objs fake_objs w' k = None"
  then obtain v where v: "users_delete (dc_server (os_world sy)) v" "w' = (os_world sy)\<lparr>dc_server := v\<rparr>"
    by (auto simp: users_delete_cached_def)
  have server: "fake_ok (dc_server (os_world sy))" using ok by (simp add: lag_ok_def)
  have new: "fake_objs v (t, nn) \<noteq> None" "fake_objs v k = None" using stored k(2) by (simp_all add: split_objs_def v(2))
  then have old: "fake_objs (dc_server (os_world sy)) (t, nn) \<noteq> None"
    using users_delete_subset(2) [OF server v(1)] by (metis domIff map_le_def)
  have "nn \<in> set (requests_of operator_scheme t (fst k, DeleteEvent (meta_of x)))"
    if "fake_objs (dc_server (os_world sy)) k = Some x" for x
    using users_delete_noticed[unfolded deletions_noticed_def, rule_format, OF server v(1) t old new(1) k(1) that new(2)] .
  with old show "if split_objs fake_objs (os_world sy) (t, nn) \<noteq> None
      then \<forall>x. split_objs fake_objs (os_world sy) k = Some x \<longrightarrow>
        nn \<in> set (requests_of operator_scheme t (fst k, DeleteEvent (meta_of x)))
      else last_some (versions lag_seen sy k) = None" by (simp add: split_objs_def)
qed

theorem caches_forget_nothing_witness:
  "sample_name \<in> awaited operator_scheme lag_seen AtomixClusterT
     (initial_cached (split_objs fake_objs) sample_caches)"
proof -
  let ?rec = "cluster_Reconcile \<lparr>r_client = split_client fake_server, r_scheme = operator_scheme\<rparr>"
  have member: "(AtomixClusterT, ?rec) \<in> set (reconcilers \<lparr>r_client = split_client fake_server, r_scheme = operator_scheme\<rparr>)"
    by (simp add: reconcilers_def)
  have valid: "split_objs fake_objs sample_caches k = Some x \<Longrightarrow> valid_object operator_scheme (fst k) x" for k x
    using valid_store_object [OF sample_world_valid] by (simp add: sample_caches_ok(3))
  have "split_objs fake_objs sample_caches (AtomixClusterT, sample_name) \<noteq> None"
    "\<not> has_children (split_objs fake_objs sample_caches) AtomixClusterT sample_name"
    by (simp_all add: sample_caches_ok(3) cluster_world has_children_def child_keys_def)
  with caches_forget_nothing [OF fake_keyed.lag.lagging_client_axioms operator_scheme_ready sample_caches_ok(1,2)
      valid users_delete_cached_valid users_delete_cached_considerate rtranclp.rtrancl_refl member] proper_sample
  show ?thesis unfolding initial_cached_fields(1) by blast
qed

text \<open>
  C39: The operator over its caches comes to rest, in one of two cases: the others have been
  considerate so far (see C32), or the informers resynchronise, once they have taken all versions
  on their way. From any state reached in the first case, or from the resynchronisation in the
  second, when nobody else interferes any more, the informers, the delivery of events and the
  workers stop after at most \<open>cached_effort\<close> steps, in whatever order they come, although every
  object that a run creates comes back through the informers later as a new version. Then the
  caches are what the server is, and every custom resource has all its children, or a run of it
  has failed and its retry is all that is left to do.
\<close>

theorem caches_come_to_rest:
  assumes "lagging_client cl objs ok seen sync" "scheme_ready s" "ok w" "seen w = Map.empty" "finite (dom (objs w))"
    and "\<And>k x. objs w k = Some x \<Longrightarrow> valid_object s (fst k) x"
    and "others_valid objs ok seen s foreign" "others_finite objs ok foreign"
    and "(cached_step cl s objs seen sync foreign)\<^sup>*\<^sup>* (initial_cached objs w) sy"
    and "start = sy \<and> others_considerate objs ok seen s foreign \<or>
      start = announce (resync_events (seen (os_world sy))) sy \<and> (\<forall>k. cs_stream sy k = [])"
  shows "(\<exists>sy'. (cached_work cl s objs seen sync)\<^sup>*\<^sup>* start sy' \<and> cached_rest cl s objs seen sync sy') \<and>
    (\<forall>n sy'. (cached_work cl s objs seen sync ^^ n) start sy' \<longrightarrow>
       n \<le> cached_effort objs seen s start \<and>
       (cached_rest cl s objs seen sync sy' \<longrightarrow>
          seen (os_world sy') = objs (os_world sy') \<and>
          (\<forall>t\<in>owner_types. awaited s seen t sy' = set (ct_delayed (view sy' t)) \<and>
             (\<forall>nn. proper_name nn \<and> objs (os_world sy') (t, nn) \<noteq> None \<longrightarrow>
                has_children (objs (os_world sy')) t nn \<or> nn \<in> set (ct_delayed (view sy' t))))))"
proof -
  note good = cached_start_good [OF assms]
  have "n \<le> cached_effort objs seen s start \<and>
      (cached_rest cl s objs seen sync sy' \<longrightarrow>
         seen (os_world sy') = objs (os_world sy') \<and>
         (\<forall>t\<in>owner_types. awaited s seen t sy' = set (ct_delayed (view sy' t)) \<and>
            (\<forall>nn. proper_name nn \<and> objs (os_world sy') (t, nn) \<noteq> None \<longrightarrow>
               has_children (objs (os_world sy')) t nn \<or> nn \<in> set (ct_delayed (view sy' t)))))"
    if steps: "(cached_work cl s objs seen sync ^^ n) start sy'" for n sy'
  proof -
    note now = cached_effort_bounds [OF assms(1,2) good steps]
    then have inv: "cached_inv objs ok seen s sy'" and cov: "cached_covered objs seen s sy'"
      by (simp_all add: cached_good_def)
    show ?thesis
      using now cached_rest_state [OF inv] cov unfolding cached_covered_def by (metis add_leD1)
  qed
  with caches_rest [OF assms(1,2) good] show ?thesis by blast
qed

text \<open>The sample cluster: whatever the operator does with it, it comes to rest.\<close>

lemma users_delete_cached_finite: "others_finite (split_objs fake_objs) (lag_ok fake_ok) users_delete_cached"
  unfolding others_finite_def
proof (intro allI impI)
  fix sy w'
  assume ok: "lag_ok fake_ok (os_world sy)" and "users_delete_cached sy w'"
    and finite: "finite (dom (split_objs fake_objs (os_world sy)))"
  then obtain v where v: "users_delete (dc_server (os_world sy)) v" "w' = (os_world sy)\<lparr>dc_server := v\<rparr>"
    by (auto simp: users_delete_cached_def)
  have "fake_ok (dc_server (os_world sy))" using ok by (simp add: lag_ok_def)
  from map_le_implies_dom_le [OF users_delete_subset(2) [OF this v(1)]] finite
  show "finite (dom (split_objs fake_objs w'))" by (auto simp: split_objs_def v(2) intro: finite_subset)
qed

theorem caches_come_to_rest_witness:
  "\<exists>sy. (cached_work (split_client fake_server) operator_scheme (split_objs fake_objs) lag_seen update_index)\<^sup>*\<^sup>*
      (initial_cached (split_objs fake_objs) sample_caches) sy \<and>
    lag_seen (os_world sy) = split_objs fake_objs (os_world sy)"
proof -
  let ?sy = "initial_cached (split_objs fake_objs) sample_caches"
  have valid: "split_objs fake_objs sample_caches k = Some x \<Longrightarrow> valid_object operator_scheme (fst k) x" for k x
    using valid_store_object [OF sample_world_valid] by (simp add: sample_caches_ok(3))
  have finite: "finite (dom (split_objs fake_objs sample_caches))"
    using sample_world_valid by (simp add: sample_caches_ok(3) valid_store_def)
  have start: "?sy = ?sy \<and> others_considerate (split_objs fake_objs) (lag_ok fake_ok) lag_seen operator_scheme users_delete_cached \<or>
      ?sy = announce (resync_events (lag_seen (os_world ?sy))) ?sy \<and> (\<forall>k. cs_stream ?sy k = [])"
    using users_delete_cached_considerate by blast
  note rest = caches_come_to_rest [OF fake_keyed.lag.lagging_client_axioms operator_scheme_ready sample_caches_ok(1,2)
      finite valid users_delete_cached_valid users_delete_cached_finite rtranclp.rtrancl_refl start]
  then obtain sy where sy: "(cached_work (split_client fake_server) operator_scheme (split_objs fake_objs) lag_seen update_index)\<^sup>*\<^sup>* ?sy sy"
    "cached_rest (split_client fake_server) operator_scheme (split_objs fake_objs) lag_seen update_index sy" by blast
  then obtain n where "(cached_work (split_client fake_server) operator_scheme (split_objs fake_objs) lag_seen update_index ^^ n) ?sy sy"
    by (meson rtranclp_imp_relpowp)
  with rest sy show ?thesis by blast
qed

end
