(* ===== verification/Go_Heap.thy ===== *)
theory Go_Heap
  imports Prelude "HOL-Library.Sublist" "HOL-Library.Monad_Syntax"
begin

section \<open>Memory with pointers\<close>

text \<open>
  Go objects with pointers, slices and maps, for the generated deep copies. The heap is the list
  of all allocated cells and an address is an index, so allocation appends and what exists
  before keeps its address. The cell type is a parameter; the theories that use it take a
  datatype with one constructor for every type that is pointed to. A locale states what a type
  with references promises: its value only depends on the cells it reaches. Another states what
  a deep copy promises: the same value, in new cells only, with everything else untouched.
\<close>

subsection \<open>Cells and addresses\<close>

type_synonym 'c heap = "'c list"

text \<open>\<open>None\<close> is nil.\<close>

type_synonym pointer = "nat option"

definition new_cell :: "'c \<Rightarrow> 'c heap \<Rightarrow> nat \<times> 'c heap" where
  "new_cell c h = (length h, h @ [c])"

definition load :: "('c \<Rightarrow> 'x option) \<Rightarrow> nat \<Rightarrow> 'c heap \<Rightarrow> 'x option" where
  "load proj a h = (if a < length h then proj (h ! a) else None)"

text \<open>Two heaps agree on a set of addresses, all of them allocated in both.\<close>

definition same_at :: "'c heap \<Rightarrow> 'c heap \<Rightarrow> nat set \<Rightarrow> bool" where
  "same_at h h' A \<longleftrightarrow> (\<forall>a\<in>A. a < length h \<and> a < length h' \<and> h' ! a = h ! a)"

lemma same_at_Un [simp]: "same_at h h' (A \<union> B) \<longleftrightarrow> same_at h h' A \<and> same_at h h' B"
  by (auto simp: same_at_def)

lemma same_at_insert [simp]:
  "same_at h h' (insert a A) \<longleftrightarrow> a < length h \<and> a < length h' \<and> h' ! a = h ! a \<and> same_at h h' A"
  by (auto simp: same_at_def)

lemma same_at_empty [simp]: "same_at h h' {}"
  by (simp add: same_at_def)

lemma same_at_UN [simp]: "same_at h h' (\<Union>x\<in>X. A x) \<longleftrightarrow> (\<forall>x\<in>X. same_at h h' (A x))"
  by (auto simp: same_at_def)

lemma same_at_mono: "same_at h h' B \<Longrightarrow> A \<subseteq> B \<Longrightarrow> same_at h h' A"
  by (auto simp: same_at_def)

lemma same_at_prefix: "prefix h h' \<Longrightarrow> A \<subseteq> {..<length h} \<Longrightarrow> same_at h h' A"
  by (auto simp: same_at_def prefix_def nth_append)

lemma same_at_update: "A \<subseteq> {..<length h} \<Longrightarrow> a \<notin> A \<Longrightarrow> same_at h (h[a := c]) A"
  unfolding same_at_def by (metis length_list_update lessThan_iff nth_list_update_neq subsetD)

lemma load_same: "same_at h h' {a} \<Longrightarrow> load proj a h' = load proj a h"
  by (simp add: load_def)

lemma load_SomeD: "load proj a h = Some x \<Longrightarrow> a < length h \<and> proj (h ! a) = Some x"
  by (simp add: load_def split: if_splits)

lemma prefix_update: "prefix h h' \<Longrightarrow> length h \<le> a \<Longrightarrow> prefix h (h'[a := c])"
  by (auto simp: prefix_def list_update_append)

subsection \<open>Types with references\<close>

text \<open>
  \<open>val\<close> is the value that an item has in a heap, if all that it refers to is there, \<open>reach\<close> the
  addresses it refers to, directly or not, and \<open>kind\<close> the cells that can be among them.
\<close>

locale heap_value =
  fixes val :: "'c heap \<Rightarrow> 'x \<Rightarrow> 'v option"
    and reach :: "'c heap \<Rightarrow> 'x \<Rightarrow> nat set"
    and kind :: "'c \<Rightarrow> bool"
  assumes reach_valid: "val h x = Some v \<Longrightarrow> reach h x \<subseteq> {..<length h}"
    and reach_kind: "val h x = Some v \<Longrightarrow> a \<in> reach h x \<Longrightarrow> kind (h ! a)"
    and val_frame: "val h x = Some v \<Longrightarrow> same_at h h' (reach h x) \<Longrightarrow> val h' x = Some v \<and> reach h' x = reach h x"
begin

text \<open>Allocation changes no value.\<close>

lemma val_prefix:
  assumes "val h x = Some v" "prefix h h'"
  shows "val h' x = Some v \<and> reach h' x = reach h x"
  by (rule val_frame [OF assms(1)]) (rule same_at_prefix [OF assms(2) reach_valid [OF assms(1)]])

text \<open>Nor does a write to a cell that the item does not reach, for instance one of another kind.\<close>

lemma val_update:
  assumes "val h x = Some v" "a \<notin> reach h x"
  shows "val (h[a := c]) x = Some v \<and> reach (h[a := c]) x = reach h x"
  by (rule val_frame [OF assms(1)]) (rule same_at_update [OF reach_valid [OF assms(1)] assms(2)])

lemma val_update_kind:
  assumes "val h x = Some v" "\<not> kind (h ! a)"
  shows "val (h[a := c]) x = Some v \<and> reach (h[a := c]) x = reach h x"
  by (rule val_update [OF assms(1)]) (use reach_kind [OF assms(1)] assms(2) in blast)

end

locale deep_copier = heap_value +
  fixes copy :: "'x \<Rightarrow> 'c heap \<Rightarrow> 'x \<times> 'c heap"
  assumes copy_deep: "val h x = Some v \<Longrightarrow> copy x h = (y, h') \<Longrightarrow>
    prefix h h' \<and> val h' y = Some v \<and> reach h' y \<subseteq> {length h..<length h'}"
begin

text \<open>The original keeps its value while the copy is made, and nothing is shared afterwards.\<close>

lemma copy_separate:
  assumes "val h x = Some v" "copy x h = (y, h')"
  shows "val h' x = Some v" "reach h' x \<inter> reach h' y = {}"
proof -
  have c: "prefix h h'" "reach h' y \<subseteq> {length h..<length h'}" using copy_deep [OF assms] by simp_all
  have old: "reach h x \<subseteq> {..<length h}" by (rule reach_valid [OF assms(1)])
  show "val h' x = Some v" using val_prefix [OF assms(1) c(1)] by (rule conjunct1)
  have "reach h' x = reach h x" using val_prefix [OF assms(1) c(1)] by (rule conjunct2)
  then show "reach h' x \<inter> reach h' y = {}" using c(2) old by fastforce
qed

text \<open>
  So changes to the cells of the copy, and further allocation, do not show in the original, and
  changes to older cells do not show in the copy.
\<close>

lemma original_unaffected:
  assumes "val h x = Some v" "same_at h h' {..<length h}"
  shows "val h' x = Some v"
  using val_frame [OF assms(1) same_at_mono [OF assms(2) reach_valid [OF assms(1)]]] by simp

lemma copy_unaffected:
  assumes "val h x = Some v" "copy x h = (y, h')" "same_at h' h'' {length h..<length h'}"
  shows "val h'' y = Some v"
  using val_frame [OF _ same_at_mono [OF assms(3)]] copy_deep [OF assms(1,2)] by blast

end

subsection \<open>Scalars\<close>

definition scalar_val :: "'c heap \<Rightarrow> 'x \<Rightarrow> 'x option" where
  "scalar_val h x = Some x"

definition scalar_reach :: "'c heap \<Rightarrow> 'x \<Rightarrow> nat set" where
  "scalar_reach h x = {}"

definition scalar_copy :: "'x \<Rightarrow> 'c heap \<Rightarrow> 'x \<times> 'c heap" where
  "scalar_copy x h = (x, h)"

lemma scalar_deep: "deep_copier scalar_val scalar_reach (\<lambda>c. False) scalar_copy"
  by unfold_locales (auto simp: scalar_val_def scalar_reach_def scalar_copy_def)

text \<open>A view of the value.\<close>

lemma view_deep:
  assumes "deep_copier V R K C"
  shows "deep_copier (\<lambda>h x. map_option f (V h x)) R K C"
proof -
  note V = deep_copier.axioms(1) [OF assms]
  show ?thesis
  proof
    fix h x v assume v: "map_option f (V h x) = Some v"
    then obtain u where u: "V h x = Some u" "v = f u" by auto
    show "R h x \<subseteq> {..<length h}" by (rule heap_value.reach_valid [OF V u(1)])
    show "K (h ! a)" if "a \<in> R h x" for a by (rule heap_value.reach_kind [OF V u(1) that])
    show "map_option f (V h' x) = Some v \<and> R h' x = R h x" if "same_at h h' (R h x)" for h'
      using heap_value.val_frame [OF V u(1) that] u(2) by simp
    show "prefix h h' \<and> map_option f (V h' y) = Some v \<and> R h' y \<subseteq> {length h..<length h'}"
      if "C x h = (y, h')" for y h'
      using deep_copier.copy_deep [OF assms u(1) that] u(2) by simp
  qed
qed

text \<open>More kinds may be allowed than occur.\<close>

lemma kind_deep:
  assumes "deep_copier V R K C" "\<And>c. K c \<Longrightarrow> K' c"
  shows "deep_copier V R K' C"
proof (intro deep_copier.intro heap_value.intro deep_copier_axioms.intro)
  note base = deep_copier.axioms(1) [OF assms(1)]
  show "V h x = Some v \<Longrightarrow> R h x \<subseteq> {..<length h}" for h x v
    by (rule heap_value.reach_valid [OF base])
  show "V h x = Some v \<Longrightarrow> a \<in> R h x \<Longrightarrow> K' (h ! a)" for h x v a
    by (rule assms(2), rule heap_value.reach_kind [OF base])
  show "V h x = Some v \<Longrightarrow> same_at h h' (R h x) \<Longrightarrow> V h' x = Some v \<and> R h' x = R h x" for h x v h'
    by (rule heap_value.val_frame [OF base])
  show "V h x = Some v \<Longrightarrow> C x h = (y, h') \<Longrightarrow>
    prefix h h' \<and> V h' y = Some v \<and> R h' y \<subseteq> {length h..<length h'}" for h x v y h'
    by (rule deep_copier.copy_deep [OF assms(1)])
qed

subsection \<open>Two items, one after the other\<close>

definition pair_val :: "('c heap \<Rightarrow> 'x \<Rightarrow> 'v option) \<Rightarrow> ('c heap \<Rightarrow> 'y \<Rightarrow> 'w option) \<Rightarrow> 'c heap \<Rightarrow> 'x \<times> 'y \<Rightarrow> ('v \<times> 'w) option" where
  "pair_val V1 V2 h p = do { v \<leftarrow> V1 h (fst p); w \<leftarrow> V2 h (snd p); Some (v, w) }"

definition pair_reach :: "('c heap \<Rightarrow> 'x \<Rightarrow> nat set) \<Rightarrow> ('c heap \<Rightarrow> 'y \<Rightarrow> nat set) \<Rightarrow> 'c heap \<Rightarrow> 'x \<times> 'y \<Rightarrow> nat set" where
  "pair_reach R1 R2 h p = R1 h (fst p) \<union> R2 h (snd p)"

definition pair_copy :: "('x \<Rightarrow> 'c heap \<Rightarrow> 'x \<times> 'c heap) \<Rightarrow> ('y \<Rightarrow> 'c heap \<Rightarrow> 'y \<times> 'c heap) \<Rightarrow> 'x \<times> 'y \<Rightarrow> 'c heap \<Rightarrow> ('x \<times> 'y) \<times> 'c heap" where
  "pair_copy C1 C2 p h = (let (x, h1) = C1 (fst p) h; (y, h2) = C2 (snd p) h1 in ((x, y), h2))"

lemma pair_val_eq_Some:
  "pair_val V1 V2 h p = Some v \<longleftrightarrow> V1 h (fst p) = Some (fst v) \<and> V2 h (snd p) = Some (snd v)"
  by (cases v) (auto simp: pair_val_def split: bind_splits)

lemma pair_deep:
  assumes "deep_copier V1 R1 K1 C1" "deep_copier V2 R2 K2 C2"
  shows "deep_copier (pair_val V1 V2) (pair_reach R1 R2) (\<lambda>c. K1 c \<or> K2 c) (pair_copy C1 C2)"
proof -
  note V1 = deep_copier.axioms(1) [OF assms(1)] and V2 = deep_copier.axioms(1) [OF assms(2)]
  show ?thesis
  proof
    fix h p v assume "pair_val V1 V2 h p = Some v"
    then have v: "V1 h (fst p) = Some (fst v)" "V2 h (snd p) = Some (snd v)"
      by (simp_all add: pair_val_eq_Some)
    show "pair_reach R1 R2 h p \<subseteq> {..<length h}"
      using heap_value.reach_valid [OF V1 v(1)] heap_value.reach_valid [OF V2 v(2)] by (simp add: pair_reach_def)
    show "K1 (h ! a) \<or> K2 (h ! a)" if "a \<in> pair_reach R1 R2 h p" for a
      using that heap_value.reach_kind [OF V1 v(1)] heap_value.reach_kind [OF V2 v(2)] by (auto simp: pair_reach_def)
    show "pair_val V1 V2 h' p = Some v \<and> pair_reach R1 R2 h' p = pair_reach R1 R2 h p"
      if "same_at h h' (pair_reach R1 R2 h p)" for h'
      using that heap_value.val_frame [OF V1 v(1)] heap_value.val_frame [OF V2 v(2)]
      by (simp add: pair_reach_def pair_val_eq_Some)
    show "prefix h h' \<and> pair_val V1 V2 h' q = Some v \<and> pair_reach R1 R2 h' q \<subseteq> {length h..<length h'}"
      if copy: "pair_copy C1 C2 p h = (q, h')" for q h'
    proof -
      obtain x h1 y where run: "C1 (fst p) h = (x, h1)" "C2 (snd p) h1 = (y, h')" "q = (x, y)"
        using copy by (auto simp: pair_copy_def split: prod.splits)
      note c1 = deep_copier.copy_deep [OF assms(1) v(1) run(1)]
      have "V2 h1 (snd p) = Some (snd v)" using heap_value.val_prefix [OF V2 v(2)] c1 by blast
      note c2 = deep_copier.copy_deep [OF assms(2) this run(2)]
      have "V1 h' x = Some (fst v)" "R1 h' x = R1 h1 x"
        using heap_value.val_prefix [OF V1, of h1 x] c1 c2 by blast+
      moreover have "length h \<le> length h1" "length h1 \<le> length h'"
        using c1 c2 by (auto dest: prefix_length_le)
      moreover have "prefix h h'" using c1 c2 prefix_order.trans by blast
      ultimately show ?thesis
        using c1 c2 run(3) by (fastforce simp: pair_val_eq_Some pair_reach_def)
    qed
  qed
qed

subsection \<open>Structs\<close>

text \<open>
  A struct is copied by value, and then the references among its fields are copied deeply and
  put into the copy; \<open>get\<close> and \<open>put\<close> access these fields and \<open>view\<close> gives the value of the
  struct from that of the references.
\<close>

definition struct_copy :: "('s \<Rightarrow> 'x) \<Rightarrow> ('x \<Rightarrow> 's \<Rightarrow> 's) \<Rightarrow> ('x \<Rightarrow> 'c heap \<Rightarrow> 'x \<times> 'c heap) \<Rightarrow> 's \<Rightarrow> 'c heap \<Rightarrow> 's \<times> 'c heap" where
  "struct_copy get put C s h = (let (x, h') = C (get s) h in (put x s, h'))"

lemma struct_deep:
  assumes "deep_copier V R K C" "\<And>x s. get (put x s) = x" "\<And>x s. view (put x s) = view s"
  shows "deep_copier (\<lambda>h s. map_option (view s) (V h (get s))) (\<lambda>h s. R h (get s)) K (struct_copy get put C)"
proof -
  note V = deep_copier.axioms(1) [OF assms(1)]
  show ?thesis
  proof
    fix h s v assume "map_option (view s) (V h (get s)) = Some v"
    then obtain u where u: "V h (get s) = Some u" "v = view s u" by auto
    show "R h (get s) \<subseteq> {..<length h}" by (rule heap_value.reach_valid [OF V u(1)])
    show "K (h ! a)" if "a \<in> R h (get s)" for a by (rule heap_value.reach_kind [OF V u(1) that])
    show "map_option (view s) (V h' (get s)) = Some v \<and> R h' (get s) = R h (get s)"
      if "same_at h h' (R h (get s))" for h'
      using heap_value.val_frame [OF V u(1) that] u(2) by simp
    show "prefix h h' \<and> map_option (view y) (V h' (get y)) = Some v \<and> R h' (get y) \<subseteq> {length h..<length h'}"
      if copy: "struct_copy get put C s h = (y, h')" for y h'
    proof -
      obtain x where "C (get s) h = (x, h')" "y = put x s"
        using copy by (auto simp: struct_copy_def split: prod.splits)
      with deep_copier.copy_deep [OF assms(1) u(1)] u(2) assms(2,3) show ?thesis by simp
    qed
  qed
qed

text \<open>The same for a method \<open>I\<close> written out, with the parts of its value under names of their own.\<close>

lemma struct_deep_intro:
  assumes refs: "deep_copier V R K C"
    and into: "\<And>s h. I s h = struct_copy get put C s h"
    and val: "\<And>h s. Vs h s = map_option (view s) (V h (get s))"
    and reach: "\<And>h s. Rs h s = R h (get s)"
    and kind: "\<And>c. K c \<Longrightarrow> Ks c"
    and get_put: "\<And>x s. get (put x s) = x" and view_put: "\<And>x s. view (put x s) = view s"
  shows "deep_copier Vs Rs Ks I"
proof -
  have "I = struct_copy get put C" "Vs = (\<lambda>h s. map_option (view s) (V h (get s)))"
    "Rs = (\<lambda>h s. R h (get s))"
    using into val reach by (simp_all add: fun_eq_iff)
  then show ?thesis
    using kind_deep [OF struct_deep [OF refs, of get put view] kind] get_put view_put by simp
qed

subsection \<open>Pointers\<close>

definition ptr_val :: "('c \<Rightarrow> 'x option) \<Rightarrow> ('c heap \<Rightarrow> 'x \<Rightarrow> 'v option) \<Rightarrow> 'c heap \<Rightarrow> pointer \<Rightarrow> 'v option option" where
  "ptr_val proj V h p =
     (case p of
        None \<Rightarrow> Some None
      | Some a \<Rightarrow> do { x \<leftarrow> load proj a h; v \<leftarrow> V h x; Some (Some v) })"

definition ptr_reach :: "('c \<Rightarrow> 'x option) \<Rightarrow> ('c heap \<Rightarrow> 'x \<Rightarrow> nat set) \<Rightarrow> 'c heap \<Rightarrow> pointer \<Rightarrow> nat set" where
  "ptr_reach proj R h p =
     (case p of
        None \<Rightarrow> {}
      | Some a \<Rightarrow> insert a (case load proj a h of None \<Rightarrow> {} | Some x \<Rightarrow> R h x))"

text \<open>
  The code that the generator writes for a pointer, slice or map, and for \<^verbatim>\<open>DeepCopy\<close>: nil stays
  nil, otherwise a new cell is allocated, the contents are copied by value and then deeply. (A
  pointer to no such cell does not occur in Go; it is left alone.)
\<close>

definition ptr_copy ::
  "('x \<Rightarrow> 'c) \<Rightarrow> ('c \<Rightarrow> 'x option) \<Rightarrow> ('x \<Rightarrow> 'c heap \<Rightarrow> 'x \<times> 'c heap) \<Rightarrow> pointer \<Rightarrow> 'c heap \<Rightarrow> pointer \<times> 'c heap" where
  "ptr_copy mk proj C p h =
     (case p of
        None \<Rightarrow> (None, h)
      | Some a \<Rightarrow>
          (case load proj a h of
             None \<Rightarrow> (p, h)
           | Some x \<Rightarrow>
               let (r, h1) = new_cell (mk x) h;
                   (y, h2) = C x h1
               in (Some r, h2[r := mk y])))"

lemma ptr_val_cases:
  assumes "ptr_val proj V h p = Some v"
  obtains (nil) "p = None" "v = None"
  | (ref) a x u where "p = Some a" "load proj a h = Some x" "V h x = Some u" "v = Some u"
  using assms
proof (cases p)
  case (Some a)
  then obtain x u where "load proj a h = Some x" "V h x = Some u" "v = Some u"
    using assms by (auto simp: ptr_val_def bind_eq_Some_conv)
  with Some show thesis by (rule ref)
qed (auto simp: ptr_val_def intro: nil)

lemma ptr_heap_value:
  assumes V: "heap_value V R K"
  shows "heap_value (ptr_val proj V) (ptr_reach proj R) (\<lambda>c. proj c \<noteq> None \<or> K c)"
proof
  fix h p v assume val: "ptr_val proj V h p = Some v"
  show "ptr_reach proj R h p \<subseteq> {..<length h}"
    using val heap_value.reach_valid [OF V]
    by (cases rule: ptr_val_cases) (auto simp: ptr_reach_def dest: load_SomeD)
  show "proj (h ! a) \<noteq> None \<or> K (h ! a)" if "a \<in> ptr_reach proj R h p" for a
    using val that heap_value.reach_kind [OF V]
    by (cases rule: ptr_val_cases) (auto simp: ptr_reach_def dest: load_SomeD)
  show "ptr_val proj V h' p = Some v \<and> ptr_reach proj R h' p = ptr_reach proj R h p"
    if same: "same_at h h' (ptr_reach proj R h p)" for h'
    using val
  proof (cases rule: ptr_val_cases)
    case nil
    then show ?thesis by (simp add: ptr_val_def ptr_reach_def)
  next
    case (ref a x u)
    then have "same_at h h' {a}" "same_at h h' (R h x)" using same by (simp_all add: ptr_reach_def)
    with ref heap_value.val_frame [OF V ref(3)] load_same [of h h' a proj]
    show ?thesis by (simp add: ptr_val_def ptr_reach_def)
  qed
qed

lemma ptr_deep:
  assumes "deep_copier V R K C" "\<And>x. proj (mk x) = Some x"
  shows "deep_copier (ptr_val proj V) (ptr_reach proj R) (\<lambda>c. proj c \<noteq> None \<or> K c) (ptr_copy mk proj C)"
proof (rule deep_copier.intro [OF ptr_heap_value [OF deep_copier.axioms(1) [OF assms(1)]]], unfold_locales)
  note V = deep_copier.axioms(1) [OF assms(1)]
  fix h p v q h' assume val: "ptr_val proj V h p = Some v" and copy: "ptr_copy mk proj C p h = (q, h')"
  from val show "prefix h h' \<and> ptr_val proj V h' q = Some v \<and> ptr_reach proj R h' q \<subseteq> {length h..<length h'}"
  proof (cases rule: ptr_val_cases)
    case nil
    then show ?thesis using copy by (simp add: ptr_val_def ptr_reach_def ptr_copy_def)
  next
    case (ref a x u)
    let ?h1 = "h @ [mk x]"
    obtain y h2 where y: "C x ?h1 = (y, h2)" by fastforce
    then have q: "q = Some (length h)" "h' = h2[length h := mk y]"
      using copy ref(1,2) by (simp_all add: ptr_copy_def new_cell_def Let_def)
    have "V ?h1 x = Some u" using heap_value.val_prefix [OF V ref(3)] by simp
    note c = deep_copier.copy_deep [OF assms(1) this y]
    have len: "length h < length h2" using c by (auto dest: prefix_length_le)
    have "length h \<notin> R h2 y" using c by auto
    with c heap_value.val_update [OF V] q(2)
    have val': "V h' y = Some u" "R h' y = R h2 y" by blast+
    have "load proj (length h) h' = Some y" using len q(2) assms(2) by (simp add: load_def)
    then have "ptr_val proj V h' q = Some v" "ptr_reach proj R h' q = insert (length h) (R h2 y)"
      using q(1) val' ref(4) by (simp_all add: ptr_val_def ptr_reach_def)
    moreover have "prefix h h2" using c prefix_order.trans [of h ?h1 h2] by simp
    then have "prefix h h'" unfolding q(2) by (rule prefix_update) simp
    moreover have "insert (length h) (R h2 y) \<subseteq> {length h..<length h'}" using c len q(2) by fastforce
    ultimately show ?thesis by simp
  qed
qed

subsection \<open>Elements of slices and maps\<close>

fun list_val :: "('c heap \<Rightarrow> 'x \<Rightarrow> 'v option) \<Rightarrow> 'c heap \<Rightarrow> 'x list \<Rightarrow> 'v list option" where
  "list_val V h [] = Some []"
| "list_val V h (x # xs) = do { v \<leftarrow> V h x; vs \<leftarrow> list_val V h xs; Some (v # vs) }"

definition list_reach :: "('c heap \<Rightarrow> 'x \<Rightarrow> nat set) \<Rightarrow> 'c heap \<Rightarrow> 'x list \<Rightarrow> nat set" where
  "list_reach R h xs = (\<Union>x\<in>set xs. R h x)"

fun list_copy :: "('x \<Rightarrow> 'c heap \<Rightarrow> 'x \<times> 'c heap) \<Rightarrow> 'x list \<Rightarrow> 'c heap \<Rightarrow> 'x list \<times> 'c heap" where
  "list_copy C [] h = ([], h)"
| "list_copy C (x # xs) h = (let (y, h1) = C x h; (ys, h2) = list_copy C xs h1 in (y # ys, h2))"

lemma list_reach_simps [simp]:
  "list_reach R h [] = {}" "list_reach R h (x # xs) = R h x \<union> list_reach R h xs"
  by (simp_all add: list_reach_def)

lemma list_val_Cons:
  assumes "list_val V h (x # xs) = Some vs"
  obtains u us where "vs = u # us" "V h x = Some u" "list_val V h xs = Some us"
  using assms by (auto split: bind_splits)

lemma list_heap_value:
  assumes "heap_value V R K"
  shows "heap_value (list_val V) (list_reach R) K"
proof
  fix h xs vs assume "list_val V h xs = Some vs"
  then show "list_reach R h xs \<subseteq> {..<length h}"
    by (induction xs arbitrary: vs) (auto simp del: list_val.simps(2) elim!: list_val_Cons dest: heap_value.reach_valid [OF assms])
next
  fix h xs vs a assume "list_val V h xs = Some vs" "a \<in> list_reach R h xs"
  then show "K (h ! a)"
    by (induction xs arbitrary: vs) (auto simp del: list_val.simps(2) elim!: list_val_Cons dest: heap_value.reach_kind [OF assms])
next
  fix h h' xs vs assume "list_val V h xs = Some vs" "same_at h h' (list_reach R h xs)"
  then show "list_val V h' xs = Some vs \<and> list_reach R h' xs = list_reach R h xs"
  proof (induction xs arbitrary: vs)
    case Nil
    then show ?case by simp
  next
    case (Cons x xs)
    from Cons.prems(1) obtain u us where u: "vs = u # us" "V h x = Some u" "list_val V h xs = Some us"
      by (rule list_val_Cons)
    with Cons.prems(2) Cons.IH [OF u(3)] heap_value.val_frame [OF assms u(2)] show ?case by simp
  qed
qed

lemma list_deep:
  assumes "deep_copier V R K C"
  shows "deep_copier (list_val V) (list_reach R) K (list_copy C)"
proof -
  note V = deep_copier.axioms(1) [OF assms]
  note L = list_heap_value [OF V]
  show ?thesis
  proof (rule deep_copier.intro [OF L], unfold_locales)
    fix h xs vs ys h'
    assume "list_val V h xs = Some vs" "list_copy C xs h = (ys, h')"
    then show "prefix h h' \<and> list_val V h' ys = Some vs \<and> list_reach R h' ys \<subseteq> {length h..<length h'}"
    proof (induction xs arbitrary: vs ys h)
      case Nil
      then show ?case by simp
    next
      case (Cons x xs)
      from Cons.prems(1) obtain u us where u: "vs = u # us" "V h x = Some u" "list_val V h xs = Some us"
        by (rule list_val_Cons)
      obtain y h1 zs where run: "C x h = (y, h1)" "list_copy C xs h1 = (zs, h')" "ys = y # zs"
        using Cons.prems(2) by (auto split: prod.splits)
      note c1 = deep_copier.copy_deep [OF assms u(2) run(1)]
      have "list_val V h1 xs = Some us" using heap_value.val_prefix [OF L u(3)] c1 by blast
      note c2 = Cons.IH [OF this run(2)]
      have "V h' y = Some u" "R h' y = R h1 y"
        using heap_value.val_prefix [OF V, of h1 y] c1 c2 by blast+
      moreover have "length h \<le> length h1" "length h1 \<le> length h'"
        using c1 c2 by (auto dest: prefix_length_le)
      moreover have "prefix h h'" using c1 c2 prefix_order.trans by blast
      ultimately show ?case using c1 c2 run(3) u(1) by fastforce
    qed
  qed
qed

text \<open>The entries of a map: the key is a string, the element may have references.\<close>

lemma entry_deep:
  "deep_copier V R K C \<Longrightarrow>
   deep_copier (pair_val scalar_val V) (pair_reach scalar_reach R) K (pair_copy scalar_copy C)"
  using pair_deep [OF scalar_deep] by simp

end
