(* ===== verification/Heap_Types.thy ===== *)
theory Heap_Types
  imports Go_Heap V1alpha1
begin

section \<open>The custom resources in memory\<close>

text \<open>
  The structs of pkg/apis/agent/v1alpha1 as they lie in memory: a pointer, slice or map field
  holds the address of a cell. Their fields of vendored types (\<^verbatim>\<open>ObjectMeta\<close>, \<^verbatim>\<open>EnvVar\<close>,
  \<^verbatim>\<open>ResourceRequirements\<close>) are those of theory Kube_Types. Slices and maps are cells with the list
  of their elements or entries.
\<close>

subsection \<open>Vendored structs\<close>

record quantity_h =
  qh_value :: int64
  qh_scale :: int32
  qh_dec :: pointer
  qh_str :: string
  qh_format :: quantity_format

record resource_requirements_h =
  rrh_Limits :: pointer
  rrh_Requests :: pointer

record resource_field_selector_h =
  rfsh_ContainerName :: string
  rfsh_Resource :: string
  rfsh_Divisor :: quantity_h

record key_selector_h =
  ksh_Name :: string
  ksh_Key :: string
  ksh_Optional :: pointer

record env_var_source_h =
  evsh_FieldRef :: pointer
  evsh_ResourceFieldRef :: pointer
  evsh_ConfigMapKeyRef :: pointer
  evsh_SecretKeyRef :: pointer

record env_var_h =
  evh_Name :: string
  evh_Value :: string
  evh_ValueFrom :: pointer

record owner_reference_h =
  orh_APIVersion :: string
  orh_Kind :: string
  orh_Name :: string
  orh_UID :: string
  orh_Controller :: pointer
  orh_BlockOwnerDeletion :: pointer

record object_meta_h =
  omh_Name :: string
  omh_Namespace :: string
  omh_UID :: string
  omh_Labels :: pointer
  omh_Annotations :: pointer
  omh_OwnerReferences :: pointer

subsection \<open>The structs of the API\<close>

text \<open>\<^verbatim>\<open>Compaction\<close> and \<^verbatim>\<open>PrimaryBackupPartitionGroup\<close> have no references: their records are used as they are.\<close>

record storage_h =
  sth_Size :: string
  sth_ClassName :: pointer
  sth_SegmentSize :: string
  sth_EntrySize :: string
  sth_Level :: string
  sth_FlushOnCommit :: bool

record persistent_h =
  pph_Storage :: storage_h
  pph_Compaction :: compaction

record raft_h =
  rgh_Persistent :: persistent_h
  rgh_PartitionSize :: int64

record log_h =
  lgh_Persistent :: persistent_h
  lgh_MemberGroupStrategy :: string

record group_spec_h =
  gsh_Cluster :: string
  gsh_Version :: string
  gsh_Size :: int32
  gsh_Partitions :: int64
  gsh_Env :: pointer
  gsh_Resources :: resource_requirements_h
  gsh_Raft :: pointer
  gsh_PrimaryBackup :: pointer
  gsh_Log :: pointer

record cluster_spec_h =
  csh_Version :: string
  csh_Size :: int32
  csh_Env :: pointer
  csh_Resources :: resource_requirements_h
  csh_Storage :: storage_h

record benchmark_spec_h =
  bsh_Cluster :: string
  bsh_Version :: string
  bsh_Workers :: int32
  bsh_Env :: pointer
  bsh_Resources :: resource_requirements_h

text \<open>The three statuses have the same one field.\<close>

record status_h =
  sh_ServiceName :: string

type_synonym group_status_h = status_h
type_synonym cluster_status_h = status_h
type_synonym benchmark_status_h = status_h

record group_h =
  gh_TypeMeta :: type_meta
  gh_ObjectMeta :: object_meta_h
  gh_Spec :: group_spec_h
  gh_Status :: group_status_h

record cluster_h =
  ch_TypeMeta :: type_meta
  ch_ObjectMeta :: object_meta_h
  ch_Spec :: cluster_spec_h
  ch_Status :: cluster_status_h

record benchmark_h =
  bh_TypeMeta :: type_meta
  bh_ObjectMeta :: object_meta_h
  bh_Spec :: benchmark_spec_h
  bh_Status :: benchmark_status_h

text \<open>A list of resources of any of the three kinds.\<close>

record list_h =
  lh_TypeMeta :: type_meta
  lh_ListMeta :: list_meta
  lh_Items :: pointer

type_synonym group_list_h = list_h
type_synonym cluster_list_h = list_h
type_synonym benchmark_list_h = list_h

subsection \<open>Cells\<close>

datatype cell =
    StringCell string
  | BoolCell bool
  | DecCell inf_dec
  | StringMapCell "(string \<times> string) list"
  | ResourceMapCell "(string \<times> quantity_h) list"
  | FieldSelectorCell object_field_selector
  | ResourceSelectorCell resource_field_selector_h
  | KeySelectorCell key_selector_h
  | EnvSourceCell env_var_source_h
  | EnvArrayCell "env_var_h list"
  | OwnerArrayCell "owner_reference_h list"
  | StorageCell storage_h
  | CompactionCell compaction
  | PersistentCell persistent_h
  | RaftCell raft_h
  | PrimaryBackupCell primary_backup_partition_group
  | LogCell log_h
  | GroupSpecCell group_spec_h
  | ClusterSpecCell cluster_spec_h
  | BenchmarkSpecCell benchmark_spec_h
  | GroupStatusCell group_status_h
  | ClusterStatusCell cluster_status_h
  | BenchmarkStatusCell benchmark_status_h
  | GroupCell group_h
  | ClusterCell cluster_h
  | BenchmarkCell benchmark_h
  | GroupArrayCell "group_h list"
  | ClusterArrayCell "cluster_h list"
  | BenchmarkArrayCell "benchmark_h list"
  | GroupListCell group_list_h
  | ClusterListCell cluster_list_h
  | BenchmarkListCell benchmark_list_h

text \<open>What a typed pointer finds in a cell.\<close>

definition as_String :: "cell \<Rightarrow> string option" where
  "as_String c = (case c of StringCell x \<Rightarrow> Some x | _ \<Rightarrow> None)"

definition as_Bool :: "cell \<Rightarrow> bool option" where
  "as_Bool c = (case c of BoolCell x \<Rightarrow> Some x | _ \<Rightarrow> None)"

definition as_Dec :: "cell \<Rightarrow> inf_dec option" where
  "as_Dec c = (case c of DecCell x \<Rightarrow> Some x | _ \<Rightarrow> None)"

definition as_StringMap :: "cell \<Rightarrow> ((string \<times> string) list) option" where
  "as_StringMap c = (case c of StringMapCell x \<Rightarrow> Some x | _ \<Rightarrow> None)"

definition as_ResourceMap :: "cell \<Rightarrow> ((string \<times> quantity_h) list) option" where
  "as_ResourceMap c = (case c of ResourceMapCell x \<Rightarrow> Some x | _ \<Rightarrow> None)"

definition as_FieldSelector :: "cell \<Rightarrow> object_field_selector option" where
  "as_FieldSelector c = (case c of FieldSelectorCell x \<Rightarrow> Some x | _ \<Rightarrow> None)"

definition as_ResourceSelector :: "cell \<Rightarrow> resource_field_selector_h option" where
  "as_ResourceSelector c = (case c of ResourceSelectorCell x \<Rightarrow> Some x | _ \<Rightarrow> None)"

definition as_KeySelector :: "cell \<Rightarrow> key_selector_h option" where
  "as_KeySelector c = (case c of KeySelectorCell x \<Rightarrow> Some x | _ \<Rightarrow> None)"

definition as_EnvSource :: "cell \<Rightarrow> env_var_source_h option" where
  "as_EnvSource c = (case c of EnvSourceCell x \<Rightarrow> Some x | _ \<Rightarrow> None)"

definition as_EnvArray :: "cell \<Rightarrow> (env_var_h list) option" where
  "as_EnvArray c = (case c of EnvArrayCell x \<Rightarrow> Some x | _ \<Rightarrow> None)"

definition as_OwnerArray :: "cell \<Rightarrow> (owner_reference_h list) option" where
  "as_OwnerArray c = (case c of OwnerArrayCell x \<Rightarrow> Some x | _ \<Rightarrow> None)"

definition as_Storage :: "cell \<Rightarrow> storage_h option" where
  "as_Storage c = (case c of StorageCell x \<Rightarrow> Some x | _ \<Rightarrow> None)"

definition as_Compaction :: "cell \<Rightarrow> compaction option" where
  "as_Compaction c = (case c of CompactionCell x \<Rightarrow> Some x | _ \<Rightarrow> None)"

definition as_Persistent :: "cell \<Rightarrow> persistent_h option" where
  "as_Persistent c = (case c of PersistentCell x \<Rightarrow> Some x | _ \<Rightarrow> None)"

definition as_Raft :: "cell \<Rightarrow> raft_h option" where
  "as_Raft c = (case c of RaftCell x \<Rightarrow> Some x | _ \<Rightarrow> None)"

definition as_PrimaryBackup :: "cell \<Rightarrow> primary_backup_partition_group option" where
  "as_PrimaryBackup c = (case c of PrimaryBackupCell x \<Rightarrow> Some x | _ \<Rightarrow> None)"

definition as_Log :: "cell \<Rightarrow> log_h option" where
  "as_Log c = (case c of LogCell x \<Rightarrow> Some x | _ \<Rightarrow> None)"

definition as_GroupSpec :: "cell \<Rightarrow> group_spec_h option" where
  "as_GroupSpec c = (case c of GroupSpecCell x \<Rightarrow> Some x | _ \<Rightarrow> None)"

definition as_ClusterSpec :: "cell \<Rightarrow> cluster_spec_h option" where
  "as_ClusterSpec c = (case c of ClusterSpecCell x \<Rightarrow> Some x | _ \<Rightarrow> None)"

definition as_BenchmarkSpec :: "cell \<Rightarrow> benchmark_spec_h option" where
  "as_BenchmarkSpec c = (case c of BenchmarkSpecCell x \<Rightarrow> Some x | _ \<Rightarrow> None)"

definition as_GroupStatus :: "cell \<Rightarrow> status_h option" where
  "as_GroupStatus c = (case c of GroupStatusCell x \<Rightarrow> Some x | _ \<Rightarrow> None)"

definition as_ClusterStatus :: "cell \<Rightarrow> status_h option" where
  "as_ClusterStatus c = (case c of ClusterStatusCell x \<Rightarrow> Some x | _ \<Rightarrow> None)"

definition as_BenchmarkStatus :: "cell \<Rightarrow> status_h option" where
  "as_BenchmarkStatus c = (case c of BenchmarkStatusCell x \<Rightarrow> Some x | _ \<Rightarrow> None)"

definition as_Group :: "cell \<Rightarrow> group_h option" where
  "as_Group c = (case c of GroupCell x \<Rightarrow> Some x | _ \<Rightarrow> None)"

definition as_Cluster :: "cell \<Rightarrow> cluster_h option" where
  "as_Cluster c = (case c of ClusterCell x \<Rightarrow> Some x | _ \<Rightarrow> None)"

definition as_Benchmark :: "cell \<Rightarrow> benchmark_h option" where
  "as_Benchmark c = (case c of BenchmarkCell x \<Rightarrow> Some x | _ \<Rightarrow> None)"

definition as_GroupArray :: "cell \<Rightarrow> (group_h list) option" where
  "as_GroupArray c = (case c of GroupArrayCell x \<Rightarrow> Some x | _ \<Rightarrow> None)"

definition as_ClusterArray :: "cell \<Rightarrow> (cluster_h list) option" where
  "as_ClusterArray c = (case c of ClusterArrayCell x \<Rightarrow> Some x | _ \<Rightarrow> None)"

definition as_BenchmarkArray :: "cell \<Rightarrow> (benchmark_h list) option" where
  "as_BenchmarkArray c = (case c of BenchmarkArrayCell x \<Rightarrow> Some x | _ \<Rightarrow> None)"

definition as_GroupList :: "cell \<Rightarrow> list_h option" where
  "as_GroupList c = (case c of GroupListCell x \<Rightarrow> Some x | _ \<Rightarrow> None)"

definition as_ClusterList :: "cell \<Rightarrow> list_h option" where
  "as_ClusterList c = (case c of ClusterListCell x \<Rightarrow> Some x | _ \<Rightarrow> None)"

definition as_BenchmarkList :: "cell \<Rightarrow> list_h option" where
  "as_BenchmarkList c = (case c of BenchmarkListCell x \<Rightarrow> Some x | _ \<Rightarrow> None)"

lemmas as_defs =
  as_String_def as_Bool_def as_Dec_def as_StringMap_def as_ResourceMap_def as_FieldSelector_def
  as_ResourceSelector_def as_KeySelector_def as_EnvSource_def as_EnvArray_def as_OwnerArray_def
  as_Storage_def as_Compaction_def as_Persistent_def as_Raft_def as_PrimaryBackup_def as_Log_def
  as_GroupSpec_def as_ClusterSpec_def as_BenchmarkSpec_def as_GroupStatus_def
  as_ClusterStatus_def as_BenchmarkStatus_def as_Group_def as_Cluster_def as_Benchmark_def
  as_GroupArray_def as_ClusterArray_def as_BenchmarkArray_def as_GroupList_def
  as_ClusterList_def as_BenchmarkList_def

text \<open>A pointer to a cell of its own type finds the contents.\<close>

lemma as_own_cell [simp]:
  "as_String (StringCell x0) = Some x0"
  "as_Bool (BoolCell x1) = Some x1"
  "as_Dec (DecCell x2) = Some x2"
  "as_StringMap (StringMapCell x3) = Some x3"
  "as_ResourceMap (ResourceMapCell x4) = Some x4"
  "as_FieldSelector (FieldSelectorCell x5) = Some x5"
  "as_ResourceSelector (ResourceSelectorCell x6) = Some x6"
  "as_KeySelector (KeySelectorCell x7) = Some x7"
  "as_EnvSource (EnvSourceCell x8) = Some x8"
  "as_EnvArray (EnvArrayCell x9) = Some x9"
  "as_OwnerArray (OwnerArrayCell x10) = Some x10"
  "as_Storage (StorageCell x11) = Some x11"
  "as_Compaction (CompactionCell x12) = Some x12"
  "as_Persistent (PersistentCell x13) = Some x13"
  "as_Raft (RaftCell x14) = Some x14"
  "as_PrimaryBackup (PrimaryBackupCell x15) = Some x15"
  "as_Log (LogCell x16) = Some x16"
  "as_GroupSpec (GroupSpecCell x17) = Some x17"
  "as_ClusterSpec (ClusterSpecCell x18) = Some x18"
  "as_BenchmarkSpec (BenchmarkSpecCell x19) = Some x19"
  "as_GroupStatus (GroupStatusCell x20) = Some x20"
  "as_ClusterStatus (ClusterStatusCell x21) = Some x21"
  "as_BenchmarkStatus (BenchmarkStatusCell x22) = Some x22"
  "as_Group (GroupCell x23) = Some x23"
  "as_Cluster (ClusterCell x24) = Some x24"
  "as_Benchmark (BenchmarkCell x25) = Some x25"
  "as_GroupArray (GroupArrayCell x26) = Some x26"
  "as_ClusterArray (ClusterArrayCell x27) = Some x27"
  "as_BenchmarkArray (BenchmarkArrayCell x28) = Some x28"
  "as_GroupList (GroupListCell x29) = Some x29"
  "as_ClusterList (ClusterListCell x30) = Some x30"
  "as_BenchmarkList (BenchmarkListCell x31) = Some x31"
  by (simp_all add: as_defs)

end
