(* ===== verification/Deep_Copy.thy ===== *)
theory Deep_Copy
  imports Heap_Types
begin

section \<open>Deep copies\<close>

text \<open>
  \<^verbatim>\<open>pkg/apis/agent/v1alpha1/zz_generated.deepcopy.go\<close>, and the vendored methods it calls. For every
  struct: \<open>DeepCopyInto\<close>, which gives the value of \<^verbatim>\<open>*out\<close> when all is done; the value of the struct
  in a heap, in terms of the records that the rest of the development works with; the addresses
  it reaches and the kinds of cells these have; and that the method is a deep copy.
\<close>

text \<open>A nil map or slice has no elements.\<close>

definition map_value :: "(string \<times> 'v) list option \<Rightarrow> (string, 'v) fmap" where
  "map_value m = (case m of None \<Rightarrow> fmempty | Some kvs \<Rightarrow> fmap_of_list kvs)"

definition slice_value :: "'v list option \<Rightarrow> 'v list" where
  "slice_value s = (case s of None \<Rightarrow> [] | Some xs \<Rightarrow> xs)"

lemmas deep_defs = struct_copy_def pair_copy_def

subsection \<open>Vendored types\<close>

text \<open>A map from strings to strings: labels and annotations.\<close>

definition string_map_val :: "cell heap \<Rightarrow> pointer \<Rightarrow> (string \<times> string) list option option" where
  "string_map_val = ptr_val as_StringMap (list_val (pair_val scalar_val scalar_val))"

definition string_map_reach :: "cell heap \<Rightarrow> pointer \<Rightarrow> nat set" where
  "string_map_reach = ptr_reach as_StringMap (list_reach (pair_reach scalar_reach scalar_reach))"

definition string_map_copy :: "pointer \<Rightarrow> cell heap \<Rightarrow> pointer \<times> cell heap" where
  "string_map_copy = ptr_copy StringMapCell as_StringMap (list_copy (pair_copy scalar_copy scalar_copy))"

lemma string_map_deep:
  "deep_copier string_map_val string_map_reach (\<lambda>c. as_StringMap c \<noteq> None) string_map_copy"
  unfolding string_map_val_def string_map_reach_def string_map_copy_def
  by (rule kind_deep [OF ptr_deep [OF list_deep [OF entry_deep [OF scalar_deep]], where mk = StringMapCell]]) auto

text \<open>\<^verbatim>\<open>resource.Quantity\<close> refers to its \<^verbatim>\<open>inf.Dec\<close>.\<close>

definition Quantity_DeepCopy :: "quantity_h \<Rightarrow> cell heap \<Rightarrow> quantity_h \<times> cell heap" where
  "Quantity_DeepCopy s h =
     (let (dec, h1) = ptr_copy DecCell as_Dec scalar_copy (qh_dec s) h
      in (s\<lparr>qh_dec := dec\<rparr>, h1))"

definition Quantity_view where
  "Quantity_view s = (\<lambda>dec.
     \<lparr>q_value = qh_value s, q_scale = qh_scale s, q_dec = dec, q_str = qh_str s, q_format = qh_format s\<rparr>)"

definition Quantity_val :: "cell heap \<Rightarrow> quantity_h \<Rightarrow> quantity option" where
  "Quantity_val = (\<lambda>h s. map_option (Quantity_view s)
     (ptr_val as_Dec scalar_val h (qh_dec s)))"

definition Quantity_reach :: "cell heap \<Rightarrow> quantity_h \<Rightarrow> nat set" where
  "Quantity_reach = (\<lambda>h s.
     ptr_reach as_Dec scalar_reach h (qh_dec s))"

definition Quantity_kind :: "cell \<Rightarrow> bool" where
  "Quantity_kind c \<longleftrightarrow> as_Dec c \<noteq> None"

lemma Quantity_deep:
  "deep_copier Quantity_val Quantity_reach Quantity_kind Quantity_DeepCopy"
  by (rule struct_deep_intro [OF ptr_deep [OF scalar_deep, where mk = DecCell],
        where get = "\<lambda>s. qh_dec s"
          and put = "\<lambda>dec s. s\<lparr>qh_dec := dec\<rparr>"
          and view = Quantity_view])
    (auto simp: Quantity_DeepCopy_def Quantity_val_def Quantity_reach_def Quantity_kind_def Quantity_view_def deep_defs
      split: prod.splits)

text \<open>\<^verbatim>\<open>ResourceList\<close> is a map from resource names to quantities.\<close>

definition resource_list_val :: "cell heap \<Rightarrow> pointer \<Rightarrow> (string \<times> quantity) list option option" where
  "resource_list_val = ptr_val as_ResourceMap (list_val (pair_val scalar_val Quantity_val))"

definition resource_list_reach :: "cell heap \<Rightarrow> pointer \<Rightarrow> nat set" where
  "resource_list_reach = ptr_reach as_ResourceMap (list_reach (pair_reach scalar_reach Quantity_reach))"

definition resource_list_copy :: "pointer \<Rightarrow> cell heap \<Rightarrow> pointer \<times> cell heap" where
  "resource_list_copy = ptr_copy ResourceMapCell as_ResourceMap (list_copy (pair_copy scalar_copy Quantity_DeepCopy))"

lemma resource_list_deep:
  "deep_copier resource_list_val resource_list_reach (\<lambda>c. as_ResourceMap c \<noteq> None \<or> Quantity_kind c) resource_list_copy"
  unfolding resource_list_val_def resource_list_reach_def resource_list_copy_def
  by (rule kind_deep [OF ptr_deep [OF list_deep [OF entry_deep [OF Quantity_deep]], where mk = ResourceMapCell]]) auto

definition ResourceRequirements_DeepCopyInto :: "resource_requirements_h \<Rightarrow> cell heap \<Rightarrow> resource_requirements_h \<times> cell heap" where
  "ResourceRequirements_DeepCopyInto s h =
     (let (limits, h1) = resource_list_copy (rrh_Limits s) h;
          (requests, h2) = resource_list_copy (rrh_Requests s) h1
      in (s\<lparr>rrh_Limits := limits, rrh_Requests := requests\<rparr>, h2))"

definition ResourceRequirements_view where
  "ResourceRequirements_view s = (\<lambda>(limits, requests).
     \<lparr>rr_Limits = map_value limits, rr_Requests = map_value requests\<rparr>)"

definition ResourceRequirements_val :: "cell heap \<Rightarrow> resource_requirements_h \<Rightarrow> resource_requirements option" where
  "ResourceRequirements_val = (\<lambda>h s. map_option (ResourceRequirements_view s)
     (pair_val resource_list_val resource_list_val h (rrh_Limits s, rrh_Requests s)))"

definition ResourceRequirements_reach :: "cell heap \<Rightarrow> resource_requirements_h \<Rightarrow> nat set" where
  "ResourceRequirements_reach = (\<lambda>h s.
     pair_reach resource_list_reach resource_list_reach h (rrh_Limits s, rrh_Requests s))"

definition ResourceRequirements_kind :: "cell \<Rightarrow> bool" where
  "ResourceRequirements_kind c \<longleftrightarrow> as_ResourceMap c \<noteq> None \<or>
     Quantity_kind c"

lemma ResourceRequirements_deep:
  "deep_copier ResourceRequirements_val ResourceRequirements_reach ResourceRequirements_kind ResourceRequirements_DeepCopyInto"
  by (rule struct_deep_intro [OF pair_deep [OF resource_list_deep resource_list_deep],
        where get = "\<lambda>s. (rrh_Limits s, rrh_Requests s)"
          and put = "\<lambda>(limits, requests) s. s\<lparr>rrh_Limits := limits, rrh_Requests :=
              requests\<rparr>"
          and view = ResourceRequirements_view])
    (auto simp: ResourceRequirements_DeepCopyInto_def ResourceRequirements_val_def ResourceRequirements_reach_def ResourceRequirements_kind_def ResourceRequirements_view_def deep_defs
      split: prod.splits)

definition ResourceFieldSelector_DeepCopyInto :: "resource_field_selector_h \<Rightarrow> cell heap \<Rightarrow> resource_field_selector_h \<times> cell heap" where
  "ResourceFieldSelector_DeepCopyInto s h =
     (let (divisor, h1) = Quantity_DeepCopy (rfsh_Divisor s) h
      in (s\<lparr>rfsh_Divisor := divisor\<rparr>, h1))"

definition ResourceFieldSelector_view where
  "ResourceFieldSelector_view s = (\<lambda>divisor.
     \<lparr>rfs_ContainerName = rfsh_ContainerName s, rfs_Resource = rfsh_Resource s, rfs_Divisor = divisor\<rparr>)"

definition ResourceFieldSelector_val :: "cell heap \<Rightarrow> resource_field_selector_h \<Rightarrow> resource_field_selector option" where
  "ResourceFieldSelector_val = (\<lambda>h s. map_option (ResourceFieldSelector_view s)
     (Quantity_val h (rfsh_Divisor s)))"

definition ResourceFieldSelector_reach :: "cell heap \<Rightarrow> resource_field_selector_h \<Rightarrow> nat set" where
  "ResourceFieldSelector_reach = (\<lambda>h s.
     Quantity_reach h (rfsh_Divisor s))"

definition ResourceFieldSelector_kind :: "cell \<Rightarrow> bool" where
  "ResourceFieldSelector_kind c \<longleftrightarrow> Quantity_kind c"

lemma ResourceFieldSelector_deep:
  "deep_copier ResourceFieldSelector_val ResourceFieldSelector_reach ResourceFieldSelector_kind ResourceFieldSelector_DeepCopyInto"
  by (rule struct_deep_intro [OF Quantity_deep,
        where get = "\<lambda>s. rfsh_Divisor s"
          and put = "\<lambda>divisor s. s\<lparr>rfsh_Divisor := divisor\<rparr>"
          and view = ResourceFieldSelector_view])
    (auto simp: ResourceFieldSelector_DeepCopyInto_def ResourceFieldSelector_val_def ResourceFieldSelector_reach_def ResourceFieldSelector_kind_def ResourceFieldSelector_view_def deep_defs
      split: prod.splits)

text \<open>\<^verbatim>\<open>ConfigMapKeySelector\<close> and \<^verbatim>\<open>SecretKeySelector\<close>\<close>

definition KeySelector_DeepCopyInto :: "key_selector_h \<Rightarrow> cell heap \<Rightarrow> key_selector_h \<times> cell heap" where
  "KeySelector_DeepCopyInto s h =
     (let (opt, h1) = ptr_copy BoolCell as_Bool scalar_copy (ksh_Optional s) h
      in (s\<lparr>ksh_Optional := opt\<rparr>, h1))"

definition KeySelector_view where
  "KeySelector_view s = (\<lambda>opt.
     \<lparr>ks_Name = ksh_Name s, ks_Key = ksh_Key s, ks_Optional = opt\<rparr>)"

definition KeySelector_val :: "cell heap \<Rightarrow> key_selector_h \<Rightarrow> key_selector option" where
  "KeySelector_val = (\<lambda>h s. map_option (KeySelector_view s)
     (ptr_val as_Bool scalar_val h (ksh_Optional s)))"

definition KeySelector_reach :: "cell heap \<Rightarrow> key_selector_h \<Rightarrow> nat set" where
  "KeySelector_reach = (\<lambda>h s.
     ptr_reach as_Bool scalar_reach h (ksh_Optional s))"

definition KeySelector_kind :: "cell \<Rightarrow> bool" where
  "KeySelector_kind c \<longleftrightarrow> as_Bool c \<noteq> None"

lemma KeySelector_deep:
  "deep_copier KeySelector_val KeySelector_reach KeySelector_kind KeySelector_DeepCopyInto"
  by (rule struct_deep_intro [OF ptr_deep [OF scalar_deep, where mk = BoolCell],
        where get = "\<lambda>s. ksh_Optional s"
          and put = "\<lambda>opt s. s\<lparr>ksh_Optional := opt\<rparr>"
          and view = KeySelector_view])
    (auto simp: KeySelector_DeepCopyInto_def KeySelector_val_def KeySelector_reach_def KeySelector_kind_def KeySelector_view_def deep_defs
      split: prod.splits)

definition EnvVarSource_DeepCopyInto :: "env_var_source_h \<Rightarrow> cell heap \<Rightarrow> env_var_source_h \<times> cell heap" where
  "EnvVarSource_DeepCopyInto s h =
     (let (fld, h1) = ptr_copy FieldSelectorCell as_FieldSelector scalar_copy (evsh_FieldRef s)
            h;
          (res, h2) = ptr_copy ResourceSelectorCell as_ResourceSelector
            ResourceFieldSelector_DeepCopyInto (evsh_ResourceFieldRef s) h1;
          (cfg, h3) = ptr_copy KeySelectorCell as_KeySelector KeySelector_DeepCopyInto
            (evsh_ConfigMapKeyRef s) h2;
          (sec, h4) = ptr_copy KeySelectorCell as_KeySelector KeySelector_DeepCopyInto
            (evsh_SecretKeyRef s) h3
      in (s\<lparr>evsh_FieldRef := fld, evsh_ResourceFieldRef := res, evsh_ConfigMapKeyRef :=
          cfg, evsh_SecretKeyRef := sec\<rparr>, h4))"

definition EnvVarSource_view where
  "EnvVarSource_view s = (\<lambda>(fld, res, cfg, sec).
     \<lparr>evs_FieldRef = fld, evs_ResourceFieldRef = res, evs_ConfigMapKeyRef = cfg, evs_SecretKeyRef = sec\<rparr>)"

definition EnvVarSource_val :: "cell heap \<Rightarrow> env_var_source_h \<Rightarrow> env_var_source option" where
  "EnvVarSource_val = (\<lambda>h s. map_option (EnvVarSource_view s)
     (pair_val (ptr_val as_FieldSelector scalar_val) (pair_val (ptr_val as_ResourceSelector
      ResourceFieldSelector_val) (pair_val (ptr_val as_KeySelector KeySelector_val) (ptr_val
      as_KeySelector KeySelector_val))) h (evsh_FieldRef s, evsh_ResourceFieldRef s,
      evsh_ConfigMapKeyRef s, evsh_SecretKeyRef s)))"

definition EnvVarSource_reach :: "cell heap \<Rightarrow> env_var_source_h \<Rightarrow> nat set" where
  "EnvVarSource_reach = (\<lambda>h s.
     pair_reach (ptr_reach as_FieldSelector scalar_reach) (pair_reach (ptr_reach
      as_ResourceSelector ResourceFieldSelector_reach) (pair_reach (ptr_reach as_KeySelector
      KeySelector_reach) (ptr_reach as_KeySelector KeySelector_reach))) h (evsh_FieldRef s,
      evsh_ResourceFieldRef s, evsh_ConfigMapKeyRef s, evsh_SecretKeyRef s))"

definition EnvVarSource_kind :: "cell \<Rightarrow> bool" where
  "EnvVarSource_kind c \<longleftrightarrow> as_FieldSelector c \<noteq> None \<or>
     as_ResourceSelector c \<noteq> None \<or> ResourceFieldSelector_kind c \<or> as_KeySelector
     c \<noteq> None \<or> KeySelector_kind c"

lemma EnvVarSource_deep:
  "deep_copier EnvVarSource_val EnvVarSource_reach EnvVarSource_kind EnvVarSource_DeepCopyInto"
  by (rule struct_deep_intro [OF pair_deep [OF ptr_deep [OF scalar_deep, where mk =
        FieldSelectorCell] pair_deep [OF ptr_deep [OF ResourceFieldSelector_deep, where mk =
        ResourceSelectorCell] pair_deep [OF ptr_deep [OF KeySelector_deep, where mk =
        KeySelectorCell] ptr_deep [OF KeySelector_deep, where mk = KeySelectorCell]]]],
        where get = "\<lambda>s. (evsh_FieldRef s, evsh_ResourceFieldRef s, evsh_ConfigMapKeyRef s,
              evsh_SecretKeyRef s)"
          and put = "\<lambda>(fld, res, cfg, sec) s. s\<lparr>evsh_FieldRef := fld,
              evsh_ResourceFieldRef := res, evsh_ConfigMapKeyRef := cfg, evsh_SecretKeyRef :=
              sec\<rparr>"
          and view = EnvVarSource_view])
    (auto simp: EnvVarSource_DeepCopyInto_def EnvVarSource_val_def EnvVarSource_reach_def EnvVarSource_kind_def EnvVarSource_view_def deep_defs
      split: prod.splits)

definition EnvVar_DeepCopyInto :: "env_var_h \<Rightarrow> cell heap \<Rightarrow> env_var_h \<times> cell heap" where
  "EnvVar_DeepCopyInto s h =
     (let (src, h1) = ptr_copy EnvSourceCell as_EnvSource EnvVarSource_DeepCopyInto
            (evh_ValueFrom s) h
      in (s\<lparr>evh_ValueFrom := src\<rparr>, h1))"

definition EnvVar_view where
  "EnvVar_view s = (\<lambda>src.
     \<lparr>ev_Name = evh_Name s, ev_Value = evh_Value s, ev_ValueFrom = src\<rparr>)"

definition EnvVar_val :: "cell heap \<Rightarrow> env_var_h \<Rightarrow> env_var option" where
  "EnvVar_val = (\<lambda>h s. map_option (EnvVar_view s)
     (ptr_val as_EnvSource EnvVarSource_val h (evh_ValueFrom s)))"

definition EnvVar_reach :: "cell heap \<Rightarrow> env_var_h \<Rightarrow> nat set" where
  "EnvVar_reach = (\<lambda>h s.
     ptr_reach as_EnvSource EnvVarSource_reach h (evh_ValueFrom s))"

definition EnvVar_kind :: "cell \<Rightarrow> bool" where
  "EnvVar_kind c \<longleftrightarrow> as_EnvSource c \<noteq> None \<or> EnvVarSource_kind c"

lemma EnvVar_deep:
  "deep_copier EnvVar_val EnvVar_reach EnvVar_kind EnvVar_DeepCopyInto"
  by (rule struct_deep_intro [OF ptr_deep [OF EnvVarSource_deep, where mk = EnvSourceCell],
        where get = "\<lambda>s. evh_ValueFrom s"
          and put = "\<lambda>src s. s\<lparr>evh_ValueFrom := src\<rparr>"
          and view = EnvVar_view])
    (auto simp: EnvVar_DeepCopyInto_def EnvVar_val_def EnvVar_reach_def EnvVar_kind_def EnvVar_view_def deep_defs
      split: prod.splits)

definition OwnerReference_DeepCopyInto :: "owner_reference_h \<Rightarrow> cell heap \<Rightarrow> owner_reference_h \<times> cell heap" where
  "OwnerReference_DeepCopyInto s h =
     (let (ctl, h1) = ptr_copy BoolCell as_Bool scalar_copy (orh_Controller s) h;
          (blk, h2) = ptr_copy BoolCell as_Bool scalar_copy (orh_BlockOwnerDeletion s) h1
      in (s\<lparr>orh_Controller := ctl, orh_BlockOwnerDeletion := blk\<rparr>, h2))"

definition OwnerReference_view where
  "OwnerReference_view s = (\<lambda>(ctl, blk).
     \<lparr>or_APIVersion = orh_APIVersion s, or_Kind = orh_Kind s, or_Name = orh_Name s, or_UID = orh_UID s,
      or_Controller = ctl, or_BlockOwnerDeletion = blk\<rparr>)"

definition OwnerReference_val :: "cell heap \<Rightarrow> owner_reference_h \<Rightarrow> owner_reference option" where
  "OwnerReference_val = (\<lambda>h s. map_option (OwnerReference_view s)
     (pair_val (ptr_val as_Bool scalar_val) (ptr_val as_Bool scalar_val) h (orh_Controller s,
      orh_BlockOwnerDeletion s)))"

definition OwnerReference_reach :: "cell heap \<Rightarrow> owner_reference_h \<Rightarrow> nat set" where
  "OwnerReference_reach = (\<lambda>h s.
     pair_reach (ptr_reach as_Bool scalar_reach) (ptr_reach as_Bool scalar_reach) h
      (orh_Controller s, orh_BlockOwnerDeletion s))"

definition OwnerReference_kind :: "cell \<Rightarrow> bool" where
  "OwnerReference_kind c \<longleftrightarrow> as_Bool c \<noteq> None"

lemma OwnerReference_deep:
  "deep_copier OwnerReference_val OwnerReference_reach OwnerReference_kind OwnerReference_DeepCopyInto"
  by (rule struct_deep_intro [OF pair_deep [OF ptr_deep [OF scalar_deep, where mk = BoolCell]
        ptr_deep [OF scalar_deep, where mk = BoolCell]],
        where get = "\<lambda>s. (orh_Controller s, orh_BlockOwnerDeletion s)"
          and put = "\<lambda>(ctl, blk) s. s\<lparr>orh_Controller := ctl, orh_BlockOwnerDeletion :=
              blk\<rparr>"
          and view = OwnerReference_view])
    (auto simp: OwnerReference_DeepCopyInto_def OwnerReference_val_def OwnerReference_reach_def OwnerReference_kind_def OwnerReference_view_def deep_defs
      split: prod.splits)

definition ObjectMeta_DeepCopyInto :: "object_meta_h \<Rightarrow> cell heap \<Rightarrow> object_meta_h \<times> cell heap" where
  "ObjectMeta_DeepCopyInto s h =
     (let (lbls, h1) = string_map_copy (omh_Labels s) h;
          (annots, h2) = string_map_copy (omh_Annotations s) h1;
          (owners, h3) = ptr_copy OwnerArrayCell as_OwnerArray (list_copy
            OwnerReference_DeepCopyInto) (omh_OwnerReferences s) h2
      in (s\<lparr>omh_Labels := lbls, omh_Annotations := annots, omh_OwnerReferences :=
          owners\<rparr>, h3))"

definition ObjectMeta_view where
  "ObjectMeta_view s = (\<lambda>(lbls, annots, owners).
     \<lparr>om_Name = omh_Name s, om_Namespace = omh_Namespace s, om_UID = omh_UID s,
      om_Labels = map_value lbls, om_Annotations = map_value annots, om_OwnerReferences = slice_value owners\<rparr>)"

definition ObjectMeta_val :: "cell heap \<Rightarrow> object_meta_h \<Rightarrow> object_meta option" where
  "ObjectMeta_val = (\<lambda>h s. map_option (ObjectMeta_view s)
     (pair_val string_map_val (pair_val string_map_val (ptr_val as_OwnerArray (list_val
      OwnerReference_val))) h (omh_Labels s, omh_Annotations s, omh_OwnerReferences s)))"

definition ObjectMeta_reach :: "cell heap \<Rightarrow> object_meta_h \<Rightarrow> nat set" where
  "ObjectMeta_reach = (\<lambda>h s.
     pair_reach string_map_reach (pair_reach string_map_reach (ptr_reach as_OwnerArray
      (list_reach OwnerReference_reach))) h (omh_Labels s, omh_Annotations s,
      omh_OwnerReferences s))"

definition ObjectMeta_kind :: "cell \<Rightarrow> bool" where
  "ObjectMeta_kind c \<longleftrightarrow> as_StringMap c \<noteq> None \<or> as_OwnerArray c
     \<noteq> None \<or> OwnerReference_kind c"

lemma ObjectMeta_deep:
  "deep_copier ObjectMeta_val ObjectMeta_reach ObjectMeta_kind ObjectMeta_DeepCopyInto"
  by (rule struct_deep_intro [OF pair_deep [OF string_map_deep pair_deep [OF string_map_deep ptr_deep
        [OF list_deep [OF OwnerReference_deep], where mk = OwnerArrayCell]]],
        where get = "\<lambda>s. (omh_Labels s, omh_Annotations s, omh_OwnerReferences s)"
          and put = "\<lambda>(lbls, annots, owners) s. s\<lparr>omh_Labels := lbls, omh_Annotations :=
              annots, omh_OwnerReferences := owners\<rparr>"
          and view = ObjectMeta_view])
    (auto simp: ObjectMeta_DeepCopyInto_def ObjectMeta_val_def ObjectMeta_reach_def ObjectMeta_kind_def ObjectMeta_view_def deep_defs
      split: prod.splits)

text \<open>\<^verbatim>\<open>[]v1.EnvVar\<close>\<close>

definition env_slice_val :: "cell heap \<Rightarrow> pointer \<Rightarrow> env_var list option option" where
  "env_slice_val = ptr_val as_EnvArray (list_val EnvVar_val)"

definition env_slice_reach :: "cell heap \<Rightarrow> pointer \<Rightarrow> nat set" where
  "env_slice_reach = ptr_reach as_EnvArray (list_reach EnvVar_reach)"

definition env_slice_copy :: "pointer \<Rightarrow> cell heap \<Rightarrow> pointer \<times> cell heap" where
  "env_slice_copy = ptr_copy EnvArrayCell as_EnvArray (list_copy EnvVar_DeepCopyInto)"

lemma env_slice_deep:
  "deep_copier env_slice_val env_slice_reach (\<lambda>c. as_EnvArray c \<noteq> None \<or> EnvVar_kind c) env_slice_copy"
  unfolding env_slice_val_def env_slice_reach_def env_slice_copy_def
  by (rule kind_deep [OF ptr_deep [OF list_deep [OF EnvVar_deep], where mk = EnvArrayCell]]) auto

subsection \<open>Storage and protocols\<close>

definition Storage_DeepCopyInto :: "storage_h \<Rightarrow> cell heap \<Rightarrow> storage_h \<times> cell heap" where
  "Storage_DeepCopyInto s h =
     (let (cls, h1) = ptr_copy StringCell as_String scalar_copy (sth_ClassName s) h
      in (s\<lparr>sth_ClassName := cls\<rparr>, h1))"

definition Storage_view where
  "Storage_view s = (\<lambda>cls.
     \<lparr>st_Size = sth_Size s, st_ClassName = cls, st_SegmentSize = sth_SegmentSize s,
      st_EntrySize = sth_EntrySize s, st_Level = sth_Level s, st_FlushOnCommit = sth_FlushOnCommit s\<rparr>)"

definition Storage_val :: "cell heap \<Rightarrow> storage_h \<Rightarrow> storage option" where
  "Storage_val = (\<lambda>h s. map_option (Storage_view s)
     (ptr_val as_String scalar_val h (sth_ClassName s)))"

definition Storage_reach :: "cell heap \<Rightarrow> storage_h \<Rightarrow> nat set" where
  "Storage_reach = (\<lambda>h s.
     ptr_reach as_String scalar_reach h (sth_ClassName s))"

definition Storage_kind :: "cell \<Rightarrow> bool" where
  "Storage_kind c \<longleftrightarrow> as_String c \<noteq> None"

lemma Storage_deep:
  "deep_copier Storage_val Storage_reach Storage_kind Storage_DeepCopyInto"
  by (rule struct_deep_intro [OF ptr_deep [OF scalar_deep, where mk = StringCell],
        where get = "\<lambda>s. sth_ClassName s"
          and put = "\<lambda>cls s. s\<lparr>sth_ClassName := cls\<rparr>"
          and view = Storage_view])
    (auto simp: Storage_DeepCopyInto_def Storage_val_def Storage_reach_def Storage_kind_def Storage_view_def deep_defs
      split: prod.splits)

definition PersistentPartitionGroup_DeepCopyInto :: "persistent_h \<Rightarrow> cell heap \<Rightarrow> persistent_h \<times> cell heap" where
  "PersistentPartitionGroup_DeepCopyInto s h =
     (let (stor, h1) = Storage_DeepCopyInto (pph_Storage s) h
      in (s\<lparr>pph_Storage := stor\<rparr>, h1))"

definition PersistentPartitionGroup_view where
  "PersistentPartitionGroup_view s = (\<lambda>stor.
     \<lparr>pp_Storage = stor, pp_Compaction = pph_Compaction s\<rparr>)"

definition PersistentPartitionGroup_val :: "cell heap \<Rightarrow> persistent_h \<Rightarrow> persistent_partition_group option" where
  "PersistentPartitionGroup_val = (\<lambda>h s. map_option (PersistentPartitionGroup_view s)
     (Storage_val h (pph_Storage s)))"

definition PersistentPartitionGroup_reach :: "cell heap \<Rightarrow> persistent_h \<Rightarrow> nat set" where
  "PersistentPartitionGroup_reach = (\<lambda>h s.
     Storage_reach h (pph_Storage s))"

definition PersistentPartitionGroup_kind :: "cell \<Rightarrow> bool" where
  "PersistentPartitionGroup_kind c \<longleftrightarrow> Storage_kind c"

lemma PersistentPartitionGroup_deep:
  "deep_copier PersistentPartitionGroup_val PersistentPartitionGroup_reach PersistentPartitionGroup_kind PersistentPartitionGroup_DeepCopyInto"
  by (rule struct_deep_intro [OF Storage_deep,
        where get = "\<lambda>s. pph_Storage s"
          and put = "\<lambda>stor s. s\<lparr>pph_Storage := stor\<rparr>"
          and view = PersistentPartitionGroup_view])
    (auto simp: PersistentPartitionGroup_DeepCopyInto_def PersistentPartitionGroup_val_def PersistentPartitionGroup_reach_def PersistentPartitionGroup_kind_def PersistentPartitionGroup_view_def deep_defs
      split: prod.splits)

definition RaftPartitionGroup_DeepCopyInto :: "raft_h \<Rightarrow> cell heap \<Rightarrow> raft_h \<times> cell heap" where
  "RaftPartitionGroup_DeepCopyInto s h =
     (let (pers, h1) = PersistentPartitionGroup_DeepCopyInto (rgh_Persistent s) h
      in (s\<lparr>rgh_Persistent := pers\<rparr>, h1))"

definition RaftPartitionGroup_view where
  "RaftPartitionGroup_view s = (\<lambda>pers.
     \<lparr>rpg_Persistent = pers, rpg_PartitionSize = rgh_PartitionSize s\<rparr>)"

definition RaftPartitionGroup_val :: "cell heap \<Rightarrow> raft_h \<Rightarrow> raft_partition_group option" where
  "RaftPartitionGroup_val = (\<lambda>h s. map_option (RaftPartitionGroup_view s)
     (PersistentPartitionGroup_val h (rgh_Persistent s)))"

definition RaftPartitionGroup_reach :: "cell heap \<Rightarrow> raft_h \<Rightarrow> nat set" where
  "RaftPartitionGroup_reach = (\<lambda>h s.
     PersistentPartitionGroup_reach h (rgh_Persistent s))"

definition RaftPartitionGroup_kind :: "cell \<Rightarrow> bool" where
  "RaftPartitionGroup_kind c \<longleftrightarrow> PersistentPartitionGroup_kind c"

lemma RaftPartitionGroup_deep:
  "deep_copier RaftPartitionGroup_val RaftPartitionGroup_reach RaftPartitionGroup_kind RaftPartitionGroup_DeepCopyInto"
  by (rule struct_deep_intro [OF PersistentPartitionGroup_deep,
        where get = "\<lambda>s. rgh_Persistent s"
          and put = "\<lambda>pers s. s\<lparr>rgh_Persistent := pers\<rparr>"
          and view = RaftPartitionGroup_view])
    (auto simp: RaftPartitionGroup_DeepCopyInto_def RaftPartitionGroup_val_def RaftPartitionGroup_reach_def RaftPartitionGroup_kind_def RaftPartitionGroup_view_def deep_defs
      split: prod.splits)

definition LogPartitionGroup_DeepCopyInto :: "log_h \<Rightarrow> cell heap \<Rightarrow> log_h \<times> cell heap" where
  "LogPartitionGroup_DeepCopyInto s h =
     (let (pers, h1) = PersistentPartitionGroup_DeepCopyInto (lgh_Persistent s) h
      in (s\<lparr>lgh_Persistent := pers\<rparr>, h1))"

definition LogPartitionGroup_view where
  "LogPartitionGroup_view s = (\<lambda>pers.
     \<lparr>lpg_Persistent = pers, lpg_MemberGroupStrategy = lgh_MemberGroupStrategy s\<rparr>)"

definition LogPartitionGroup_val :: "cell heap \<Rightarrow> log_h \<Rightarrow> log_partition_group option" where
  "LogPartitionGroup_val = (\<lambda>h s. map_option (LogPartitionGroup_view s)
     (PersistentPartitionGroup_val h (lgh_Persistent s)))"

definition LogPartitionGroup_reach :: "cell heap \<Rightarrow> log_h \<Rightarrow> nat set" where
  "LogPartitionGroup_reach = (\<lambda>h s.
     PersistentPartitionGroup_reach h (lgh_Persistent s))"

definition LogPartitionGroup_kind :: "cell \<Rightarrow> bool" where
  "LogPartitionGroup_kind c \<longleftrightarrow> PersistentPartitionGroup_kind c"

lemma LogPartitionGroup_deep:
  "deep_copier LogPartitionGroup_val LogPartitionGroup_reach LogPartitionGroup_kind LogPartitionGroup_DeepCopyInto"
  by (rule struct_deep_intro [OF PersistentPartitionGroup_deep,
        where get = "\<lambda>s. lgh_Persistent s"
          and put = "\<lambda>pers s. s\<lparr>lgh_Persistent := pers\<rparr>"
          and view = LogPartitionGroup_view])
    (auto simp: LogPartitionGroup_DeepCopyInto_def LogPartitionGroup_val_def LogPartitionGroup_reach_def LogPartitionGroup_kind_def LogPartitionGroup_view_def deep_defs
      split: prod.splits)

text \<open>Without references the copy is the assignment.\<close>

definition Compaction_DeepCopyInto :: "compaction \<Rightarrow> cell heap \<Rightarrow> compaction \<times> cell heap" where
  "Compaction_DeepCopyInto s h = (s, h)"

definition PrimaryBackupPartitionGroup_DeepCopyInto ::
  "primary_backup_partition_group \<Rightarrow> cell heap \<Rightarrow> primary_backup_partition_group \<times> cell heap" where
  "PrimaryBackupPartitionGroup_DeepCopyInto s h = (s, h)"

definition ClusterStatus_DeepCopyInto :: "status_h \<Rightarrow> cell heap \<Rightarrow> status_h \<times> cell heap" where
  "ClusterStatus_DeepCopyInto s h = (s, h)"

definition PartitionGroupStatus_DeepCopyInto :: "status_h \<Rightarrow> cell heap \<Rightarrow> status_h \<times> cell heap" where
  "PartitionGroupStatus_DeepCopyInto s h = (s, h)"

definition AtomixBenchmarkStatus_DeepCopyInto :: "status_h \<Rightarrow> cell heap \<Rightarrow> status_h \<times> cell heap" where
  "AtomixBenchmarkStatus_DeepCopyInto s h = (s, h)"

lemma scalar_DeepCopyInto:
  "Compaction_DeepCopyInto = scalar_copy" "PrimaryBackupPartitionGroup_DeepCopyInto = scalar_copy"
  "ClusterStatus_DeepCopyInto = scalar_copy" "PartitionGroupStatus_DeepCopyInto = scalar_copy"
  "AtomixBenchmarkStatus_DeepCopyInto = scalar_copy"
  by (simp_all add: fun_eq_iff scalar_copy_def Compaction_DeepCopyInto_def
      PrimaryBackupPartitionGroup_DeepCopyInto_def ClusterStatus_DeepCopyInto_def
      PartitionGroupStatus_DeepCopyInto_def AtomixBenchmarkStatus_DeepCopyInto_def)

subsection \<open>Specifications\<close>

definition PartitionGroupSpec_DeepCopyInto :: "group_spec_h \<Rightarrow> cell heap \<Rightarrow> group_spec_h \<times> cell heap" where
  "PartitionGroupSpec_DeepCopyInto s h =
     (let (env, h1) = env_slice_copy (gsh_Env s) h;
          (res, h2) = ResourceRequirements_DeepCopyInto (gsh_Resources s) h1;
          (raft, h3) = ptr_copy RaftCell as_Raft RaftPartitionGroup_DeepCopyInto (gsh_Raft s) h2;
          (pb, h4) = ptr_copy PrimaryBackupCell as_PrimaryBackup scalar_copy (gsh_PrimaryBackup
            s) h3;
          (lg, h5) = ptr_copy LogCell as_Log LogPartitionGroup_DeepCopyInto (gsh_Log s) h4
      in (s\<lparr>gsh_Env := env, gsh_Resources := res, gsh_Raft := raft, gsh_PrimaryBackup :=
          pb, gsh_Log := lg\<rparr>, h5))"

definition PartitionGroupSpec_view where
  "PartitionGroupSpec_view s = (\<lambda>(env, res, raft, pb, lg).
     \<lparr>gs_Cluster = gsh_Cluster s, gs_Version = gsh_Version s, gs_Size = gsh_Size s,
      gs_Partitions = gsh_Partitions s, gs_Env = slice_value env, gs_Resources = res,
      gs_Raft = raft, gs_PrimaryBackup = pb, gs_Log = lg\<rparr>)"

definition PartitionGroupSpec_val :: "cell heap \<Rightarrow> group_spec_h \<Rightarrow> partition_group_spec option" where
  "PartitionGroupSpec_val = (\<lambda>h s. map_option (PartitionGroupSpec_view s)
     (pair_val env_slice_val (pair_val ResourceRequirements_val (pair_val (ptr_val as_Raft
      RaftPartitionGroup_val) (pair_val (ptr_val as_PrimaryBackup scalar_val) (ptr_val as_Log
      LogPartitionGroup_val)))) h (gsh_Env s, gsh_Resources s, gsh_Raft s, gsh_PrimaryBackup s,
      gsh_Log s)))"

definition PartitionGroupSpec_reach :: "cell heap \<Rightarrow> group_spec_h \<Rightarrow> nat set" where
  "PartitionGroupSpec_reach = (\<lambda>h s.
     pair_reach env_slice_reach (pair_reach ResourceRequirements_reach (pair_reach (ptr_reach
      as_Raft RaftPartitionGroup_reach) (pair_reach (ptr_reach as_PrimaryBackup scalar_reach)
      (ptr_reach as_Log LogPartitionGroup_reach)))) h (gsh_Env s, gsh_Resources s, gsh_Raft s,
      gsh_PrimaryBackup s, gsh_Log s))"

definition PartitionGroupSpec_kind :: "cell \<Rightarrow> bool" where
  "PartitionGroupSpec_kind c \<longleftrightarrow> as_EnvArray c \<noteq> None \<or> EnvVar_kind
     c \<or> ResourceRequirements_kind c \<or> as_Raft c \<noteq> None \<or>
     RaftPartitionGroup_kind c \<or> as_PrimaryBackup c \<noteq> None \<or> as_Log c \<noteq>
     None \<or> LogPartitionGroup_kind c"

lemma PartitionGroupSpec_deep:
  "deep_copier PartitionGroupSpec_val PartitionGroupSpec_reach PartitionGroupSpec_kind PartitionGroupSpec_DeepCopyInto"
  by (rule struct_deep_intro [OF pair_deep [OF env_slice_deep pair_deep [OF ResourceRequirements_deep
        pair_deep [OF ptr_deep [OF RaftPartitionGroup_deep, where mk = RaftCell] pair_deep [OF
        ptr_deep [OF scalar_deep, where mk = PrimaryBackupCell] ptr_deep [OF
        LogPartitionGroup_deep, where mk = LogCell]]]]],
        where get = "\<lambda>s. (gsh_Env s, gsh_Resources s, gsh_Raft s, gsh_PrimaryBackup s, gsh_Log
              s)"
          and put = "\<lambda>(env, res, raft, pb, lg) s. s\<lparr>gsh_Env := env, gsh_Resources :=
              res, gsh_Raft := raft, gsh_PrimaryBackup := pb, gsh_Log := lg\<rparr>"
          and view = PartitionGroupSpec_view])
    (auto simp: PartitionGroupSpec_DeepCopyInto_def PartitionGroupSpec_val_def PartitionGroupSpec_reach_def PartitionGroupSpec_kind_def PartitionGroupSpec_view_def deep_defs
      split: prod.splits)

definition ClusterSpec_DeepCopyInto :: "cluster_spec_h \<Rightarrow> cell heap \<Rightarrow> cluster_spec_h \<times> cell heap" where
  "ClusterSpec_DeepCopyInto s h =
     (let (env, h1) = env_slice_copy (csh_Env s) h;
          (res, h2) = ResourceRequirements_DeepCopyInto (csh_Resources s) h1;
          (stor, h3) = Storage_DeepCopyInto (csh_Storage s) h2
      in (s\<lparr>csh_Env := env, csh_Resources := res, csh_Storage := stor\<rparr>, h3))"

definition ClusterSpec_view where
  "ClusterSpec_view s = (\<lambda>(env, res, stor).
     \<lparr>cs_Version = csh_Version s, cs_Size = csh_Size s, cs_Env = slice_value env, cs_Resources = res,
      cs_Storage = stor\<rparr>)"

definition ClusterSpec_val :: "cell heap \<Rightarrow> cluster_spec_h \<Rightarrow> cluster_spec option" where
  "ClusterSpec_val = (\<lambda>h s. map_option (ClusterSpec_view s)
     (pair_val env_slice_val (pair_val ResourceRequirements_val Storage_val) h (csh_Env s,
      csh_Resources s, csh_Storage s)))"

definition ClusterSpec_reach :: "cell heap \<Rightarrow> cluster_spec_h \<Rightarrow> nat set" where
  "ClusterSpec_reach = (\<lambda>h s.
     pair_reach env_slice_reach (pair_reach ResourceRequirements_reach Storage_reach) h (csh_Env
      s, csh_Resources s, csh_Storage s))"

definition ClusterSpec_kind :: "cell \<Rightarrow> bool" where
  "ClusterSpec_kind c \<longleftrightarrow> as_EnvArray c \<noteq> None \<or> EnvVar_kind c
     \<or> ResourceRequirements_kind c \<or> Storage_kind c"

lemma ClusterSpec_deep:
  "deep_copier ClusterSpec_val ClusterSpec_reach ClusterSpec_kind ClusterSpec_DeepCopyInto"
  by (rule struct_deep_intro [OF pair_deep [OF env_slice_deep pair_deep [OF ResourceRequirements_deep
        Storage_deep]],
        where get = "\<lambda>s. (csh_Env s, csh_Resources s, csh_Storage s)"
          and put = "\<lambda>(env, res, stor) s. s\<lparr>csh_Env := env, csh_Resources := res,
              csh_Storage := stor\<rparr>"
          and view = ClusterSpec_view])
    (auto simp: ClusterSpec_DeepCopyInto_def ClusterSpec_val_def ClusterSpec_reach_def ClusterSpec_kind_def ClusterSpec_view_def deep_defs
      split: prod.splits)

definition AtomixBenchmarkSpec_DeepCopyInto :: "benchmark_spec_h \<Rightarrow> cell heap \<Rightarrow> benchmark_spec_h \<times> cell heap" where
  "AtomixBenchmarkSpec_DeepCopyInto s h =
     (let (env, h1) = env_slice_copy (bsh_Env s) h;
          (res, h2) = ResourceRequirements_DeepCopyInto (bsh_Resources s) h1
      in (s\<lparr>bsh_Env := env, bsh_Resources := res\<rparr>, h2))"

definition AtomixBenchmarkSpec_view where
  "AtomixBenchmarkSpec_view s = (\<lambda>(env, res).
     \<lparr>bs_Cluster = bsh_Cluster s, bs_Version = bsh_Version s, bs_Workers = bsh_Workers s,
      bs_Env = slice_value env, bs_Resources = res\<rparr>)"

definition AtomixBenchmarkSpec_val :: "cell heap \<Rightarrow> benchmark_spec_h \<Rightarrow> benchmark_spec option" where
  "AtomixBenchmarkSpec_val = (\<lambda>h s. map_option (AtomixBenchmarkSpec_view s)
     (pair_val env_slice_val ResourceRequirements_val h (bsh_Env s, bsh_Resources s)))"

definition AtomixBenchmarkSpec_reach :: "cell heap \<Rightarrow> benchmark_spec_h \<Rightarrow> nat set" where
  "AtomixBenchmarkSpec_reach = (\<lambda>h s.
     pair_reach env_slice_reach ResourceRequirements_reach h (bsh_Env s, bsh_Resources s))"

definition AtomixBenchmarkSpec_kind :: "cell \<Rightarrow> bool" where
  "AtomixBenchmarkSpec_kind c \<longleftrightarrow> as_EnvArray c \<noteq> None \<or>
     EnvVar_kind c \<or> ResourceRequirements_kind c"

lemma AtomixBenchmarkSpec_deep:
  "deep_copier AtomixBenchmarkSpec_val AtomixBenchmarkSpec_reach AtomixBenchmarkSpec_kind AtomixBenchmarkSpec_DeepCopyInto"
  by (rule struct_deep_intro [OF pair_deep [OF env_slice_deep ResourceRequirements_deep],
        where get = "\<lambda>s. (bsh_Env s, bsh_Resources s)"
          and put = "\<lambda>(env, res) s. s\<lparr>bsh_Env := env, bsh_Resources := res\<rparr>"
          and view = AtomixBenchmarkSpec_view])
    (auto simp: AtomixBenchmarkSpec_DeepCopyInto_def AtomixBenchmarkSpec_val_def AtomixBenchmarkSpec_reach_def AtomixBenchmarkSpec_kind_def AtomixBenchmarkSpec_view_def deep_defs
      split: prod.splits)

subsection \<open>Resources and lists of them\<close>

definition PartitionGroup_DeepCopyInto :: "group_h \<Rightarrow> cell heap \<Rightarrow> group_h \<times> cell heap" where
  "PartitionGroup_DeepCopyInto s h =
     (let (meta, h1) = ObjectMeta_DeepCopyInto (gh_ObjectMeta s) h;
          (spec, h2) = PartitionGroupSpec_DeepCopyInto (gh_Spec s) h1
      in (s\<lparr>gh_ObjectMeta := meta, gh_Spec := spec\<rparr>, h2))"

definition PartitionGroup_view where
  "PartitionGroup_view s = (\<lambda>(meta, spec).
     (gh_TypeMeta s, \<lparr>pg_Meta = meta, pg_Spec = spec,
        pg_StatusServiceName = sh_ServiceName (gh_Status s)\<rparr>))"

definition PartitionGroup_val :: "cell heap \<Rightarrow> group_h \<Rightarrow> (type_meta \<times> partition_group) option" where
  "PartitionGroup_val = (\<lambda>h s. map_option (PartitionGroup_view s)
     (pair_val ObjectMeta_val PartitionGroupSpec_val h (gh_ObjectMeta s, gh_Spec s)))"

definition PartitionGroup_reach :: "cell heap \<Rightarrow> group_h \<Rightarrow> nat set" where
  "PartitionGroup_reach = (\<lambda>h s.
     pair_reach ObjectMeta_reach PartitionGroupSpec_reach h (gh_ObjectMeta s, gh_Spec s))"

definition PartitionGroup_kind :: "cell \<Rightarrow> bool" where
  "PartitionGroup_kind c \<longleftrightarrow> ObjectMeta_kind c \<or> PartitionGroupSpec_kind
     c"

lemma PartitionGroup_deep:
  "deep_copier PartitionGroup_val PartitionGroup_reach PartitionGroup_kind PartitionGroup_DeepCopyInto"
  by (rule struct_deep_intro [OF pair_deep [OF ObjectMeta_deep PartitionGroupSpec_deep],
        where get = "\<lambda>s. (gh_ObjectMeta s, gh_Spec s)"
          and put = "\<lambda>(meta, spec) s. s\<lparr>gh_ObjectMeta := meta, gh_Spec := spec\<rparr>"
          and view = PartitionGroup_view])
    (auto simp: PartitionGroup_DeepCopyInto_def PartitionGroup_val_def PartitionGroup_reach_def PartitionGroup_kind_def PartitionGroup_view_def deep_defs
      split: prod.splits)

definition AtomixCluster_DeepCopyInto :: "cluster_h \<Rightarrow> cell heap \<Rightarrow> cluster_h \<times> cell heap" where
  "AtomixCluster_DeepCopyInto s h =
     (let (meta, h1) = ObjectMeta_DeepCopyInto (ch_ObjectMeta s) h;
          (spec, h2) = ClusterSpec_DeepCopyInto (ch_Spec s) h1
      in (s\<lparr>ch_ObjectMeta := meta, ch_Spec := spec\<rparr>, h2))"

definition AtomixCluster_view where
  "AtomixCluster_view s = (\<lambda>(meta, spec).
     (ch_TypeMeta s, \<lparr>ac_Meta = meta, ac_Spec = spec,
        ac_StatusServiceName = sh_ServiceName (ch_Status s)\<rparr>))"

definition AtomixCluster_val :: "cell heap \<Rightarrow> cluster_h \<Rightarrow> (type_meta \<times> atomix_cluster) option" where
  "AtomixCluster_val = (\<lambda>h s. map_option (AtomixCluster_view s)
     (pair_val ObjectMeta_val ClusterSpec_val h (ch_ObjectMeta s, ch_Spec s)))"

definition AtomixCluster_reach :: "cell heap \<Rightarrow> cluster_h \<Rightarrow> nat set" where
  "AtomixCluster_reach = (\<lambda>h s.
     pair_reach ObjectMeta_reach ClusterSpec_reach h (ch_ObjectMeta s, ch_Spec s))"

definition AtomixCluster_kind :: "cell \<Rightarrow> bool" where
  "AtomixCluster_kind c \<longleftrightarrow> ObjectMeta_kind c \<or> ClusterSpec_kind c"

lemma AtomixCluster_deep:
  "deep_copier AtomixCluster_val AtomixCluster_reach AtomixCluster_kind AtomixCluster_DeepCopyInto"
  by (rule struct_deep_intro [OF pair_deep [OF ObjectMeta_deep ClusterSpec_deep],
        where get = "\<lambda>s. (ch_ObjectMeta s, ch_Spec s)"
          and put = "\<lambda>(meta, spec) s. s\<lparr>ch_ObjectMeta := meta, ch_Spec := spec\<rparr>"
          and view = AtomixCluster_view])
    (auto simp: AtomixCluster_DeepCopyInto_def AtomixCluster_val_def AtomixCluster_reach_def AtomixCluster_kind_def AtomixCluster_view_def deep_defs
      split: prod.splits)

definition AtomixBenchmark_DeepCopyInto :: "benchmark_h \<Rightarrow> cell heap \<Rightarrow> benchmark_h \<times> cell heap" where
  "AtomixBenchmark_DeepCopyInto s h =
     (let (meta, h1) = ObjectMeta_DeepCopyInto (bh_ObjectMeta s) h;
          (spec, h2) = AtomixBenchmarkSpec_DeepCopyInto (bh_Spec s) h1
      in (s\<lparr>bh_ObjectMeta := meta, bh_Spec := spec\<rparr>, h2))"

definition AtomixBenchmark_view where
  "AtomixBenchmark_view s = (\<lambda>(meta, spec).
     (bh_TypeMeta s, \<lparr>ab_Meta = meta, ab_Spec = spec,
        ab_StatusServiceName = sh_ServiceName (bh_Status s)\<rparr>))"

definition AtomixBenchmark_val :: "cell heap \<Rightarrow> benchmark_h \<Rightarrow> (type_meta \<times> atomix_benchmark) option" where
  "AtomixBenchmark_val = (\<lambda>h s. map_option (AtomixBenchmark_view s)
     (pair_val ObjectMeta_val AtomixBenchmarkSpec_val h (bh_ObjectMeta s, bh_Spec s)))"

definition AtomixBenchmark_reach :: "cell heap \<Rightarrow> benchmark_h \<Rightarrow> nat set" where
  "AtomixBenchmark_reach = (\<lambda>h s.
     pair_reach ObjectMeta_reach AtomixBenchmarkSpec_reach h (bh_ObjectMeta s, bh_Spec s))"

definition AtomixBenchmark_kind :: "cell \<Rightarrow> bool" where
  "AtomixBenchmark_kind c \<longleftrightarrow> ObjectMeta_kind c \<or> AtomixBenchmarkSpec_kind
     c"

lemma AtomixBenchmark_deep:
  "deep_copier AtomixBenchmark_val AtomixBenchmark_reach AtomixBenchmark_kind AtomixBenchmark_DeepCopyInto"
  by (rule struct_deep_intro [OF pair_deep [OF ObjectMeta_deep AtomixBenchmarkSpec_deep],
        where get = "\<lambda>s. (bh_ObjectMeta s, bh_Spec s)"
          and put = "\<lambda>(meta, spec) s. s\<lparr>bh_ObjectMeta := meta, bh_Spec := spec\<rparr>"
          and view = AtomixBenchmark_view])
    (auto simp: AtomixBenchmark_DeepCopyInto_def AtomixBenchmark_val_def AtomixBenchmark_reach_def AtomixBenchmark_kind_def AtomixBenchmark_view_def deep_defs
      split: prod.splits)

definition PartitionGroupList_DeepCopyInto :: "list_h \<Rightarrow> cell heap \<Rightarrow> list_h \<times> cell heap" where
  "PartitionGroupList_DeepCopyInto s h =
     (let (items, h1) = ptr_copy GroupArrayCell as_GroupArray (list_copy
            PartitionGroup_DeepCopyInto) (lh_Items s) h
      in (s\<lparr>lh_Items := items\<rparr>, h1))"

definition PartitionGroupList_view where
  "PartitionGroupList_view s = (\<lambda>items.
     (lh_TypeMeta s, lh_ListMeta s, slice_value items))"

definition PartitionGroupList_val :: "cell heap \<Rightarrow> list_h \<Rightarrow> (type_meta \<times> list_meta \<times> (type_meta \<times> partition_group) list) option" where
  "PartitionGroupList_val = (\<lambda>h s. map_option (PartitionGroupList_view s)
     (ptr_val as_GroupArray (list_val PartitionGroup_val) h (lh_Items s)))"

definition PartitionGroupList_reach :: "cell heap \<Rightarrow> list_h \<Rightarrow> nat set" where
  "PartitionGroupList_reach = (\<lambda>h s.
     ptr_reach as_GroupArray (list_reach PartitionGroup_reach) h (lh_Items s))"

definition PartitionGroupList_kind :: "cell \<Rightarrow> bool" where
  "PartitionGroupList_kind c \<longleftrightarrow> as_GroupArray c \<noteq> None \<or>
     PartitionGroup_kind c"

lemma PartitionGroupList_deep:
  "deep_copier PartitionGroupList_val PartitionGroupList_reach PartitionGroupList_kind PartitionGroupList_DeepCopyInto"
  by (rule struct_deep_intro [OF ptr_deep [OF list_deep [OF PartitionGroup_deep], where mk =
        GroupArrayCell],
        where get = "\<lambda>s. lh_Items s"
          and put = "\<lambda>items s. s\<lparr>lh_Items := items\<rparr>"
          and view = PartitionGroupList_view])
    (auto simp: PartitionGroupList_DeepCopyInto_def PartitionGroupList_val_def PartitionGroupList_reach_def PartitionGroupList_kind_def PartitionGroupList_view_def deep_defs
      split: prod.splits)

definition AtomixClusterList_DeepCopyInto :: "list_h \<Rightarrow> cell heap \<Rightarrow> list_h \<times> cell heap" where
  "AtomixClusterList_DeepCopyInto s h =
     (let (items, h1) = ptr_copy ClusterArrayCell as_ClusterArray (list_copy
            AtomixCluster_DeepCopyInto) (lh_Items s) h
      in (s\<lparr>lh_Items := items\<rparr>, h1))"

definition AtomixClusterList_view where
  "AtomixClusterList_view s = (\<lambda>items.
     (lh_TypeMeta s, lh_ListMeta s, slice_value items))"

definition AtomixClusterList_val :: "cell heap \<Rightarrow> list_h \<Rightarrow> (type_meta \<times> list_meta \<times> (type_meta \<times> atomix_cluster) list) option" where
  "AtomixClusterList_val = (\<lambda>h s. map_option (AtomixClusterList_view s)
     (ptr_val as_ClusterArray (list_val AtomixCluster_val) h (lh_Items s)))"

definition AtomixClusterList_reach :: "cell heap \<Rightarrow> list_h \<Rightarrow> nat set" where
  "AtomixClusterList_reach = (\<lambda>h s.
     ptr_reach as_ClusterArray (list_reach AtomixCluster_reach) h (lh_Items s))"

definition AtomixClusterList_kind :: "cell \<Rightarrow> bool" where
  "AtomixClusterList_kind c \<longleftrightarrow> as_ClusterArray c \<noteq> None \<or>
     AtomixCluster_kind c"

lemma AtomixClusterList_deep:
  "deep_copier AtomixClusterList_val AtomixClusterList_reach AtomixClusterList_kind AtomixClusterList_DeepCopyInto"
  by (rule struct_deep_intro [OF ptr_deep [OF list_deep [OF AtomixCluster_deep], where mk =
        ClusterArrayCell],
        where get = "\<lambda>s. lh_Items s"
          and put = "\<lambda>items s. s\<lparr>lh_Items := items\<rparr>"
          and view = AtomixClusterList_view])
    (auto simp: AtomixClusterList_DeepCopyInto_def AtomixClusterList_val_def AtomixClusterList_reach_def AtomixClusterList_kind_def AtomixClusterList_view_def deep_defs
      split: prod.splits)

definition AtomixBenchmarkList_DeepCopyInto :: "list_h \<Rightarrow> cell heap \<Rightarrow> list_h \<times> cell heap" where
  "AtomixBenchmarkList_DeepCopyInto s h =
     (let (items, h1) = ptr_copy BenchmarkArrayCell as_BenchmarkArray (list_copy
            AtomixBenchmark_DeepCopyInto) (lh_Items s) h
      in (s\<lparr>lh_Items := items\<rparr>, h1))"

definition AtomixBenchmarkList_view where
  "AtomixBenchmarkList_view s = (\<lambda>items.
     (lh_TypeMeta s, lh_ListMeta s, slice_value items))"

definition AtomixBenchmarkList_val :: "cell heap \<Rightarrow> list_h \<Rightarrow> (type_meta \<times> list_meta \<times> (type_meta \<times> atomix_benchmark) list) option" where
  "AtomixBenchmarkList_val = (\<lambda>h s. map_option (AtomixBenchmarkList_view s)
     (ptr_val as_BenchmarkArray (list_val AtomixBenchmark_val) h (lh_Items s)))"

definition AtomixBenchmarkList_reach :: "cell heap \<Rightarrow> list_h \<Rightarrow> nat set" where
  "AtomixBenchmarkList_reach = (\<lambda>h s.
     ptr_reach as_BenchmarkArray (list_reach AtomixBenchmark_reach) h (lh_Items s))"

definition AtomixBenchmarkList_kind :: "cell \<Rightarrow> bool" where
  "AtomixBenchmarkList_kind c \<longleftrightarrow> as_BenchmarkArray c \<noteq> None \<or>
     AtomixBenchmark_kind c"

lemma AtomixBenchmarkList_deep:
  "deep_copier AtomixBenchmarkList_val AtomixBenchmarkList_reach AtomixBenchmarkList_kind AtomixBenchmarkList_DeepCopyInto"
  by (rule struct_deep_intro [OF ptr_deep [OF list_deep [OF AtomixBenchmark_deep], where mk =
        BenchmarkArrayCell],
        where get = "\<lambda>s. lh_Items s"
          and put = "\<lambda>items s. s\<lparr>lh_Items := items\<rparr>"
          and view = AtomixBenchmarkList_view])
    (auto simp: AtomixBenchmarkList_DeepCopyInto_def AtomixBenchmarkList_val_def AtomixBenchmarkList_reach_def AtomixBenchmarkList_kind_def AtomixBenchmarkList_view_def deep_defs
      split: prod.splits)

subsection \<open>DeepCopy and DeepCopyObject\<close>

text \<open>
  \<^verbatim>\<open>DeepCopy\<close> of every type: nil for nil, otherwise a new cell with a deep copy. \<^verbatim>\<open>DeepCopyObject\<close>
  wraps a copy that is not nil in the interface.
\<close>

definition AtomixBenchmark_DeepCopy :: "pointer \<Rightarrow> cell heap \<Rightarrow> pointer \<times> cell heap" where
  "AtomixBenchmark_DeepCopy = ptr_copy BenchmarkCell as_Benchmark AtomixBenchmark_DeepCopyInto"

definition AtomixBenchmarkList_DeepCopy :: "pointer \<Rightarrow> cell heap \<Rightarrow> pointer \<times> cell heap" where
  "AtomixBenchmarkList_DeepCopy = ptr_copy BenchmarkListCell as_BenchmarkList AtomixBenchmarkList_DeepCopyInto"

definition AtomixBenchmarkSpec_DeepCopy :: "pointer \<Rightarrow> cell heap \<Rightarrow> pointer \<times> cell heap" where
  "AtomixBenchmarkSpec_DeepCopy = ptr_copy BenchmarkSpecCell as_BenchmarkSpec AtomixBenchmarkSpec_DeepCopyInto"

definition AtomixBenchmarkStatus_DeepCopy :: "pointer \<Rightarrow> cell heap \<Rightarrow> pointer \<times> cell heap" where
  "AtomixBenchmarkStatus_DeepCopy = ptr_copy BenchmarkStatusCell as_BenchmarkStatus AtomixBenchmarkStatus_DeepCopyInto"

definition AtomixCluster_DeepCopy :: "pointer \<Rightarrow> cell heap \<Rightarrow> pointer \<times> cell heap" where
  "AtomixCluster_DeepCopy = ptr_copy ClusterCell as_Cluster AtomixCluster_DeepCopyInto"

definition AtomixClusterList_DeepCopy :: "pointer \<Rightarrow> cell heap \<Rightarrow> pointer \<times> cell heap" where
  "AtomixClusterList_DeepCopy = ptr_copy ClusterListCell as_ClusterList AtomixClusterList_DeepCopyInto"

definition ClusterSpec_DeepCopy :: "pointer \<Rightarrow> cell heap \<Rightarrow> pointer \<times> cell heap" where
  "ClusterSpec_DeepCopy = ptr_copy ClusterSpecCell as_ClusterSpec ClusterSpec_DeepCopyInto"

definition ClusterStatus_DeepCopy :: "pointer \<Rightarrow> cell heap \<Rightarrow> pointer \<times> cell heap" where
  "ClusterStatus_DeepCopy = ptr_copy ClusterStatusCell as_ClusterStatus ClusterStatus_DeepCopyInto"

definition Compaction_DeepCopy :: "pointer \<Rightarrow> cell heap \<Rightarrow> pointer \<times> cell heap" where
  "Compaction_DeepCopy = ptr_copy CompactionCell as_Compaction Compaction_DeepCopyInto"

definition LogPartitionGroup_DeepCopy :: "pointer \<Rightarrow> cell heap \<Rightarrow> pointer \<times> cell heap" where
  "LogPartitionGroup_DeepCopy = ptr_copy LogCell as_Log LogPartitionGroup_DeepCopyInto"

definition PartitionGroup_DeepCopy :: "pointer \<Rightarrow> cell heap \<Rightarrow> pointer \<times> cell heap" where
  "PartitionGroup_DeepCopy = ptr_copy GroupCell as_Group PartitionGroup_DeepCopyInto"

definition PartitionGroupList_DeepCopy :: "pointer \<Rightarrow> cell heap \<Rightarrow> pointer \<times> cell heap" where
  "PartitionGroupList_DeepCopy = ptr_copy GroupListCell as_GroupList PartitionGroupList_DeepCopyInto"

definition PartitionGroupSpec_DeepCopy :: "pointer \<Rightarrow> cell heap \<Rightarrow> pointer \<times> cell heap" where
  "PartitionGroupSpec_DeepCopy = ptr_copy GroupSpecCell as_GroupSpec PartitionGroupSpec_DeepCopyInto"

definition PartitionGroupStatus_DeepCopy :: "pointer \<Rightarrow> cell heap \<Rightarrow> pointer \<times> cell heap" where
  "PartitionGroupStatus_DeepCopy = ptr_copy GroupStatusCell as_GroupStatus PartitionGroupStatus_DeepCopyInto"

definition PersistentPartitionGroup_DeepCopy :: "pointer \<Rightarrow> cell heap \<Rightarrow> pointer \<times> cell heap" where
  "PersistentPartitionGroup_DeepCopy = ptr_copy PersistentCell as_Persistent PersistentPartitionGroup_DeepCopyInto"

definition PrimaryBackupPartitionGroup_DeepCopy :: "pointer \<Rightarrow> cell heap \<Rightarrow> pointer \<times> cell heap" where
  "PrimaryBackupPartitionGroup_DeepCopy = ptr_copy PrimaryBackupCell as_PrimaryBackup PrimaryBackupPartitionGroup_DeepCopyInto"

definition RaftPartitionGroup_DeepCopy :: "pointer \<Rightarrow> cell heap \<Rightarrow> pointer \<times> cell heap" where
  "RaftPartitionGroup_DeepCopy = ptr_copy RaftCell as_Raft RaftPartitionGroup_DeepCopyInto"

definition Storage_DeepCopy :: "pointer \<Rightarrow> cell heap \<Rightarrow> pointer \<times> cell heap" where
  "Storage_DeepCopy = ptr_copy StorageCell as_Storage Storage_DeepCopyInto"

definition AtomixBenchmark_DeepCopyObject :: "pointer \<Rightarrow> cell heap \<Rightarrow> pointer \<times> cell heap" where
  "AtomixBenchmark_DeepCopyObject p h =
     (case AtomixBenchmark_DeepCopy p h of
        (None, h') \<Rightarrow> (None, h')
      | (Some c, h') \<Rightarrow> (Some c, h'))"

definition AtomixBenchmarkList_DeepCopyObject :: "pointer \<Rightarrow> cell heap \<Rightarrow> pointer \<times> cell heap" where
  "AtomixBenchmarkList_DeepCopyObject p h =
     (case AtomixBenchmarkList_DeepCopy p h of
        (None, h') \<Rightarrow> (None, h')
      | (Some c, h') \<Rightarrow> (Some c, h'))"

definition AtomixCluster_DeepCopyObject :: "pointer \<Rightarrow> cell heap \<Rightarrow> pointer \<times> cell heap" where
  "AtomixCluster_DeepCopyObject p h =
     (case AtomixCluster_DeepCopy p h of
        (None, h') \<Rightarrow> (None, h')
      | (Some c, h') \<Rightarrow> (Some c, h'))"

definition AtomixClusterList_DeepCopyObject :: "pointer \<Rightarrow> cell heap \<Rightarrow> pointer \<times> cell heap" where
  "AtomixClusterList_DeepCopyObject p h =
     (case AtomixClusterList_DeepCopy p h of
        (None, h') \<Rightarrow> (None, h')
      | (Some c, h') \<Rightarrow> (Some c, h'))"

definition PartitionGroup_DeepCopyObject :: "pointer \<Rightarrow> cell heap \<Rightarrow> pointer \<times> cell heap" where
  "PartitionGroup_DeepCopyObject p h =
     (case PartitionGroup_DeepCopy p h of
        (None, h') \<Rightarrow> (None, h')
      | (Some c, h') \<Rightarrow> (Some c, h'))"

definition PartitionGroupList_DeepCopyObject :: "pointer \<Rightarrow> cell heap \<Rightarrow> pointer \<times> cell heap" where
  "PartitionGroupList_DeepCopyObject p h =
     (case PartitionGroupList_DeepCopy p h of
        (None, h') \<Rightarrow> (None, h')
      | (Some c, h') \<Rightarrow> (Some c, h'))"

end
