(* ===== verification/Heap_Defaults.thy ===== *)
theory Heap_Defaults
  imports Deep_Copy Defaults
begin

section \<open>Defaulting a copy of a cached object\<close>

text \<open>
  What the reconcilers do to memory when they read their object: \<^verbatim>\<open>CacheReader.Get\<close> copies the
  cached object deeply into the caller's variable, and \<^verbatim>\<open>SetDefaults_*\<close> then writes through
  pointers, into the variable and into the protocol section it points to. A locale states what
  such writes promise and proves that the cached original never changes; it is interpreted for
  the three kinds of custom resources.
\<close>

subsection \<open>Writing through a pointer\<close>

definition modify :: "('x \<Rightarrow> 'c) \<Rightarrow> ('c \<Rightarrow> 'x option) \<Rightarrow> ('x \<Rightarrow> 'x) \<Rightarrow> nat \<Rightarrow> 'c heap \<Rightarrow> 'c heap" where
  "modify mk proj f a h = (case load proj a h of None \<Rightarrow> h | Some x \<Rightarrow> h[a := mk (f x)])"

lemma modify_elsewhere [simp]:
  "length (modify mk proj f a h) = length h" "b \<noteq> a \<Longrightarrow> modify mk proj f a h ! b = h ! b"
  by (simp_all add: modify_def split: option.split)

lemma modify_other_kind:
  assumes "heap_value V R K" "V h x = Some v" "\<And>c. proj c \<noteq> None \<Longrightarrow> \<not> K c"
  shows "V (modify mk proj f a h) x = Some v \<and> R (modify mk proj f a h) x = R h x"
proof (cases "load proj a h")
  case (Some y)
  then have "\<not> K (h ! a)" using assms(3) load_SomeD by fastforce
  with Some show ?thesis
    using heap_value.val_update_kind [OF assms(1,2)] by (simp add: modify_def)
qed (simp add: modify_def assms(2))

lemma ptr_val_modify:
  assumes "heap_value V R K" "\<And>c. proj c \<noteq> None \<Longrightarrow> \<not> K c" "\<And>x. proj (mk x) = Some x"
    and f: "\<And>x v. V h x = Some v \<Longrightarrow> V h (f x) = Some (F v)"
    and v: "ptr_val proj V h (Some a) = Some w"
  shows "ptr_val proj V (modify mk proj f a h) (Some a) = Some (map_option F w)"
proof -
  from v obtain x u where x: "load proj a h = Some x" "V h x = Some u" "w = Some u"
    by (cases rule: ptr_val_cases) auto
  have "V (modify mk proj f a h) (f x) = Some (F u)"
    using modify_other_kind [OF assms(1) f [OF x(2)] assms(2), where mk = mk and f = f and a = a] by simp
  moreover have "load proj a (modify mk proj f a h) = Some (f x)"
    using x(1) assms(3) by (auto simp: modify_def load_def split: if_splits)
  ultimately show ?thesis using x(3) by (simp add: ptr_val_def)
qed

subsection \<open>Reading from the cache\<close>

text \<open>
  \<^verbatim>\<open>CacheReader.Get\<close> once the object at address \<open>p\<close> was found, with the caller's
  \<^verbatim>\<open>out := &T{}\<close>: \<open>zero\<close> is \<^verbatim>\<open>T{}\<close>, \<open>C\<close> the \<^verbatim>\<open>DeepCopyInto\<close> of the type and \<open>stamp\<close> is
  \<^verbatim>\<open>SetGroupVersionKind\<close> with the kind of the reader.
\<close>

definition CacheReader_copy ::
  "('x \<Rightarrow> 'c) \<Rightarrow> ('c \<Rightarrow> 'x option) \<Rightarrow> (pointer \<Rightarrow> 'c heap \<Rightarrow> pointer \<times> 'c heap) \<Rightarrow> ('x \<Rightarrow> 'x) \<Rightarrow> 'x \<Rightarrow> nat \<Rightarrow> 'c heap \<Rightarrow> nat \<times> 'c heap" where
  "CacheReader_copy mk proj deep_copy_object stamp zero p h =
     (let (out, h1) = new_cell (mk zero) h;
          (obj, h2) = deep_copy_object (Some p) h1
      in (out,
          case obj of
            None \<Rightarrow> h2
          | Some b \<Rightarrow> (case load proj b h2 of None \<Rightarrow> h2 | Some x \<Rightarrow> h2[out := mk (stamp x)])))"

text \<open>
  \<open>upd\<close> updates an object through its address: it turns its value \<open>v\<close> into \<open>f v\<close> and writes
  to cells of the object only.
\<close>

locale cached_object = deep_copier V R K C
  for V :: "'c heap \<Rightarrow> 'x \<Rightarrow> 'v option" and R K C +
  fixes mk :: "'x \<Rightarrow> 'c" and proj :: "'c \<Rightarrow> 'x option"
    and stamp :: "'x \<Rightarrow> 'x" and stamp_value :: "'v \<Rightarrow> 'v"
    and upd :: "nat \<Rightarrow> 'c heap \<Rightarrow> 'c heap" and f :: "'v \<Rightarrow> 'v"
  assumes proj_mk: "proj (mk x) = Some x"
    and own_kind: "proj c \<noteq> None \<Longrightarrow> \<not> K c"
    and stamp_val: "V h (stamp x) = map_option stamp_value (V h x)"
    and stamp_reach: "R h (stamp x) = R h x"
    and upd_val: "ptr_val proj V h (Some a) = Some (Some v) \<Longrightarrow>
      ptr_val proj V (upd a h) (Some a) = Some (Some (f v))"
    and upd_frame: "ptr_val proj V h (Some a) = Some (Some v) \<Longrightarrow> b \<notin> ptr_reach proj R h (Some a) \<Longrightarrow>
      upd a h ! b = h ! b"
    and upd_length: "length (upd a h) = length h"
begin

lemma pointers: "deep_copier (ptr_val proj V) (ptr_reach proj R) (\<lambda>c. proj c \<noteq> None \<or> K c) (ptr_copy mk proj C)"
  by (rule ptr_deep [OF deep_copier_axioms]) (rule proj_mk)

text \<open>The variable gets the value of the cached object, and its cells are new.\<close>

lemma copy_read:
  assumes cached: "ptr_val proj V h (Some p) = Some (Some v)"
    and get: "CacheReader_copy mk proj (ptr_copy mk proj C) stamp zero p h = (out, h')"
  shows "prefix h h' \<and> ptr_val proj V h' (Some out) = Some (Some (stamp_value v)) \<and>
    ptr_reach proj R h' (Some out) \<subseteq> {length h..<length h'}"
proof -
  note P = pointers and PV = deep_copier.axioms(1) [OF pointers]
  let ?h1 = "h @ [mk zero]"
  obtain obj h2 where copy: "ptr_copy mk proj C (Some p) ?h1 = (obj, h2)" by fastforce
  have "ptr_val proj V ?h1 (Some p) = Some (Some v)" using heap_value.val_prefix [OF PV cached] by simp
  from deep_copier.copy_deep [OF P this copy]
  have c: "prefix ?h1 h2" "ptr_val proj V h2 obj = Some (Some v)"
    "ptr_reach proj R h2 obj \<subseteq> {length ?h1..<length h2}" by simp_all
  from c(2) obtain b x where b: "obj = Some b" "load proj b h2 = Some x" "V h2 x = Some v"
    by (cases rule: ptr_val_cases) auto
  have out: "out = length h" "h' = h2[length h := mk (stamp x)]"
    using get copy b by (auto simp: CacheReader_copy_def new_cell_def)
  have len: "length h < length h2" using c(1) by (auto dest: prefix_length_le)
  have reach: "R h2 x \<subseteq> {Suc (length h)..<length h2}" using c(3) b by (simp add: ptr_reach_def)
  then have "length h \<notin> R h2 x" by auto
  from val_update [OF b(3) this] have x: "V h' x = Some v" "R h' x = R h2 x"
    by (simp_all add: out)
  have load: "load proj out h' = Some (stamp x)" using len by (simp add: load_def out proj_mk)
  have "prefix h h2" using c(1) prefix_order.trans [of h ?h1 h2] by simp
  then have "prefix h h'" unfolding out(2) by (rule prefix_update) simp
  with load x reach len show ?thesis
    by (auto simp: ptr_val_def ptr_reach_def stamp_val stamp_reach out)
qed

text \<open>An update of the variable changes no cell that existed before the object was read.\<close>

lemma read_update_frame:
  assumes cached: "ptr_val proj V h (Some p) = Some (Some v)"
    and get: "CacheReader_copy mk proj (ptr_copy mk proj C) stamp zero p h = (out, h')"
  shows "same_at h (upd out h') {..<length h}"
  unfolding same_at_def
proof
  note c = copy_read [OF cached get]
  fix b assume b: "b \<in> {..<length h}"
  then have "b \<notin> ptr_reach proj R h' (Some out)" using c by fastforce
  then have "upd out h' ! b = h' ! b" using c by (intro upd_frame) auto
  moreover have "b < length h'" "h' ! b = h ! b"
    using c b by (auto simp: prefix_def nth_append)
  ultimately show "b < length h \<and> b < length (upd out h') \<and> upd out h' ! b = h ! b"
    using b by (simp add: upd_length)
qed

text \<open>So the update works on the copy, and the cached object stays as it is.\<close>

lemma read_update:
  assumes cached: "ptr_val proj V h (Some p) = Some (Some v)"
    and get: "CacheReader_copy mk proj (ptr_copy mk proj C) stamp zero p h = (out, h')"
  shows "ptr_val proj V (upd out h') (Some out) = Some (Some (f (stamp_value v)))"
    "ptr_val proj V (upd out h') (Some p) = Some (Some v)"
proof -
  note P = deep_copier.axioms(1) [OF pointers]
  show "ptr_val proj V (upd out h') (Some out) = Some (Some (f (stamp_value v)))"
    using copy_read [OF cached get] by (intro upd_val) simp
  show "ptr_val proj V (upd out h') (Some p) = Some (Some v)"
    using heap_value.val_frame [OF P cached same_at_mono [OF read_update_frame [OF cached get]
          heap_value.reach_valid [OF P cached]]] by simp
qed

end

subsection \<open>Defaults written in place\<close>

text \<open>Sections that lie within a struct: what \<^verbatim>\<open>SetDefaults_*\<close> makes of the struct at its address.\<close>

definition SetDefaults_Storage_mem :: "storage_h \<Rightarrow> storage_h" where
  "SetDefaults_Storage_mem s0 =
     (let s1 = (if sth_Size s0 = [] then s0\<lparr>sth_Size := ''2G''\<rparr> else s0);
          s2 = (if sth_SegmentSize s1 = [] then s1\<lparr>sth_SegmentSize := ''64M''\<rparr> else s1);
          s3 = (if sth_EntrySize s2 = [] then s2\<lparr>sth_EntrySize := ''1K''\<rparr> else s2);
          s4 = (if sth_Level s3 = [] then s3\<lparr>sth_Level := MappedStorage\<rparr> else s3)
      in s4)"

definition SetDefaults_Persistent_mem :: "persistent_h \<Rightarrow> persistent_h" where
  "SetDefaults_Persistent_mem p =
     (let p1 = p\<lparr>pph_Storage := SetDefaults_Storage_mem (pph_Storage p)\<rparr>
      in p1\<lparr>pph_Compaction := SetDefaults_Compaction (pph_Compaction p1)\<rparr>)"

definition SetDefaults_RaftPartitionGroup_mem :: "raft_h \<Rightarrow> raft_h" where
  "SetDefaults_RaftPartitionGroup_mem g0 =
     (let g1 = (if rgh_PartitionSize g0 = 0 then g0\<lparr>rgh_PartitionSize := 3\<rparr> else g0)
      in g1\<lparr>rgh_Persistent := SetDefaults_Persistent_mem (rgh_Persistent g1)\<rparr>)"

definition SetDefaults_LogPartitionGroup_mem :: "log_h \<Rightarrow> log_h" where
  "SetDefaults_LogPartitionGroup_mem g0 =
     (let g1 = (if lgh_MemberGroupStrategy g0 = []
                then g0\<lparr>lgh_MemberGroupStrategy := NodeAwareMemberGroupStrategy\<rparr> else g0)
      in g1\<lparr>lgh_Persistent := SetDefaults_Persistent_mem (lgh_Persistent g1)\<rparr>)"

text \<open>The functions that take the address of a whole object or of a protocol section.\<close>

definition group_spec_fields :: "group_spec_h \<Rightarrow> group_spec_h" where
  "group_spec_fields s0 =
     (let s1 = (if gsh_Version s0 = [] then s0\<lparr>gsh_Version := ''3.1.0''\<rparr> else s0);
          s2 = (if gsh_Size s1 = 0 then s1\<lparr>gsh_Size := 1\<rparr> else s1)
      in (if gsh_Partitions s2 = 0 then s2\<lparr>gsh_Partitions := scast (gsh_Size s2)\<rparr> else s2))"

definition SetDefaults_protocol_mem :: "group_spec_h \<Rightarrow> cell heap \<Rightarrow> cell heap" where
  "SetDefaults_protocol_mem s h =
     (case gsh_Raft s of
        Some r \<Rightarrow> modify RaftCell as_Raft SetDefaults_RaftPartitionGroup_mem r h
      | None \<Rightarrow>
          (case gsh_PrimaryBackup s of
             Some b \<Rightarrow> modify PrimaryBackupCell as_PrimaryBackup SetDefaults_PrimaryBackupPartitionGroup b h
           | None \<Rightarrow>
               (case gsh_Log s of
                  Some l \<Rightarrow> modify LogCell as_Log SetDefaults_LogPartitionGroup_mem l h
                | None \<Rightarrow> h)))"

definition SetDefaults_PartitionGroup_mem :: "nat \<Rightarrow> cell heap \<Rightarrow> cell heap" where
  "SetDefaults_PartitionGroup_mem a h =
     (let h1 = modify GroupCell as_Group (\<lambda>g. g\<lparr>gh_Spec := group_spec_fields (gh_Spec g)\<rparr>) a h
      in case load as_Group a h1 of
           None \<Rightarrow> h1
         | Some g \<Rightarrow> SetDefaults_protocol_mem (gh_Spec g) h1)"

definition SetDefaults_ClusterSpec_mem :: "cluster_spec_h \<Rightarrow> cluster_spec_h" where
  "SetDefaults_ClusterSpec_mem s0 =
     (let s1 = (if csh_Version s0 = [] then s0\<lparr>csh_Version := ''3.1.0''\<rparr> else s0);
          s2 = (if csh_Size s1 = 0 then s1\<lparr>csh_Size := 1\<rparr> else s1)
      in s2\<lparr>csh_Storage := SetDefaults_Storage_mem (csh_Storage s2)\<rparr>)"

definition SetDefaults_Cluster_mem :: "nat \<Rightarrow> cell heap \<Rightarrow> cell heap" where
  "SetDefaults_Cluster_mem =
     modify ClusterCell as_Cluster (\<lambda>c. c\<lparr>ch_Spec := SetDefaults_ClusterSpec_mem (ch_Spec c)\<rparr>)"

definition SetDefaults_BenchmarkSpec_mem :: "benchmark_spec_h \<Rightarrow> benchmark_spec_h" where
  "SetDefaults_BenchmarkSpec_mem s0 =
     (let s1 = (if bsh_Version s0 = [] then s0\<lparr>bsh_Version := ''3.1.0''\<rparr> else s0)
      in if bsh_Workers s1 = 0 then s1\<lparr>bsh_Workers := 1\<rparr> else s1)"

definition SetDefaults_Benchmark_mem :: "nat \<Rightarrow> cell heap \<Rightarrow> cell heap" where
  "SetDefaults_Benchmark_mem =
     modify BenchmarkCell as_Benchmark (\<lambda>b. b\<lparr>bh_Spec := SetDefaults_BenchmarkSpec_mem (bh_Spec b)\<rparr>)"

subsection \<open>They compute the defaults of theory Defaults\<close>

lemma Storage_mem:
  "Storage_val h (SetDefaults_Storage_mem s) = map_option SetDefaults_Storage (Storage_val h s)"
  by (simp add: Storage_val_def Storage_view_def SetDefaults_Storage_mem_def SetDefaults_Storage_def
      Let_def option.map_comp comp_def)

lemma Persistent_mem:
  "PersistentPartitionGroup_val h (SetDefaults_Persistent_mem s) =
   map_option SetDefaults_Persistent (PersistentPartitionGroup_val h s)"
  by (simp add: PersistentPartitionGroup_val_def PersistentPartitionGroup_view_def
      SetDefaults_Persistent_mem_def SetDefaults_Persistent_def Storage_mem Let_def
      option.map_comp comp_def)

lemma Raft_mem:
  "RaftPartitionGroup_val h (SetDefaults_RaftPartitionGroup_mem s) =
   map_option SetDefaults_RaftPartitionGroup (RaftPartitionGroup_val h s)"
  by (simp add: RaftPartitionGroup_val_def RaftPartitionGroup_view_def
      SetDefaults_RaftPartitionGroup_mem_def SetDefaults_RaftPartitionGroup_def Persistent_mem Let_def
      option.map_comp comp_def)

lemma Log_mem:
  "LogPartitionGroup_val h (SetDefaults_LogPartitionGroup_mem s) =
   map_option SetDefaults_LogPartitionGroup (LogPartitionGroup_val h s)"
  by (simp add: LogPartitionGroup_val_def LogPartitionGroup_view_def
      SetDefaults_LogPartitionGroup_mem_def SetDefaults_LogPartitionGroup_def Persistent_mem Let_def
      option.map_comp comp_def)

lemma ClusterSpec_mem:
  "ClusterSpec_val h (SetDefaults_ClusterSpec_mem s) =
   map_option SetDefaults_ClusterSpec (ClusterSpec_val h s)"
  by (cases "Storage_val h (csh_Storage s)")
    (simp_all add: ClusterSpec_val_def ClusterSpec_view_def pair_val_def
      SetDefaults_ClusterSpec_mem_def SetDefaults_ClusterSpec_def Storage_mem Let_def
      map_option_bind comp_def cong: option.case_cong)

lemma BenchmarkSpec_mem:
  "AtomixBenchmarkSpec_val h (SetDefaults_BenchmarkSpec_mem s) =
   map_option SetDefaults_BenchmarkSpec (AtomixBenchmarkSpec_val h s)"
  by (simp add: AtomixBenchmarkSpec_val_def AtomixBenchmarkSpec_view_def pair_val_def
      SetDefaults_BenchmarkSpec_mem_def SetDefaults_BenchmarkSpec_def Let_def
      map_option_bind comp_def cong: option.case_cong)

lemmas kind_defs =
  Quantity_kind_def ResourceRequirements_kind_def ResourceFieldSelector_kind_def KeySelector_kind_def
  EnvVarSource_kind_def EnvVar_kind_def OwnerReference_kind_def ObjectMeta_kind_def Storage_kind_def
  PersistentPartitionGroup_kind_def RaftPartitionGroup_kind_def LogPartitionGroup_kind_def
  PartitionGroupSpec_kind_def ClusterSpec_kind_def AtomixBenchmarkSpec_kind_def PartitionGroup_kind_def
  AtomixCluster_kind_def AtomixBenchmark_kind_def

text \<open>A protocol section does not lie in a cell of another field of the specification.\<close>

definition spec_parts where
  "spec_parts h s env res raft pb lg \<longleftrightarrow>
     env_slice_val h (gsh_Env s) = Some env \<and> ResourceRequirements_val h (gsh_Resources s) = Some res \<and>
     ptr_val as_Raft RaftPartitionGroup_val h (gsh_Raft s) = Some raft \<and>
     ptr_val as_PrimaryBackup scalar_val h (gsh_PrimaryBackup s) = Some pb \<and>
     ptr_val as_Log LogPartitionGroup_val h (gsh_Log s) = Some lg"

lemma group_spec_parts:
  "PartitionGroupSpec_val h s = Some v \<longleftrightarrow>
   (\<exists>env res raft pb lg. spec_parts h s env res raft pb lg \<and> v = PartitionGroupSpec_view s (env, res, raft, pb, lg))"
  by (auto simp: PartitionGroupSpec_val_def pair_val_eq_Some spec_parts_def)

lemma section_elsewhere:
  assumes "\<And>c. proj c \<noteq> None \<Longrightarrow> \<not> K c" "deep_copier V R K C" "V h x = Some v"
  shows "V (modify mk proj f a h) x = Some v"
  using modify_other_kind [OF deep_copier.axioms(1) [OF assms(2)] assms(3,1), where mk = mk and f = f] by simp

lemma section_kinds:
  "as_Raft c \<noteq> None \<or> as_PrimaryBackup c \<noteq> None \<or> as_Log c \<noteq> None \<or> as_Group c \<noteq> None \<Longrightarrow>
   \<not> (as_EnvArray c \<noteq> None \<or> EnvVar_kind c) \<and> \<not> ResourceRequirements_kind c \<and>
   \<not> ObjectMeta_kind c \<and> \<not> RaftPartitionGroup_kind c \<and> \<not> LogPartitionGroup_kind c"
  by (cases c) (simp_all add: kind_defs as_defs)

lemma section_pointers:
  "as_Raft c \<noteq> None \<Longrightarrow> \<not> (as_PrimaryBackup c \<noteq> None \<or> False)"
  "as_Raft c \<noteq> None \<Longrightarrow> \<not> (as_Log c \<noteq> None \<or> LogPartitionGroup_kind c)"
  "as_PrimaryBackup c \<noteq> None \<Longrightarrow> \<not> (as_Raft c \<noteq> None \<or> RaftPartitionGroup_kind c)"
  "as_PrimaryBackup c \<noteq> None \<Longrightarrow> \<not> (as_Log c \<noteq> None \<or> LogPartitionGroup_kind c)"
  "as_Log c \<noteq> None \<Longrightarrow> \<not> (as_Raft c \<noteq> None \<or> RaftPartitionGroup_kind c)"
  "as_Log c \<noteq> None \<Longrightarrow> \<not> (as_PrimaryBackup c \<noteq> None \<or> False)"
  by (cases c; simp add: kind_defs as_defs)+

lemma group_spec_fields_view:
  "gsh_Raft (group_spec_fields s) = gsh_Raft s" "gsh_PrimaryBackup (group_spec_fields s) = gsh_PrimaryBackup s"
  "gsh_Log (group_spec_fields s) = gsh_Log s"
  "spec_parts h (group_spec_fields s) env res raft pb lg = spec_parts h s env res raft pb lg"
  "PartitionGroupSpec_reach h (group_spec_fields s) = PartitionGroupSpec_reach h s"
  by (simp_all add: group_spec_fields_def spec_parts_def PartitionGroupSpec_reach_def Let_def)

lemma section_pointers_deep:
  "deep_copier (ptr_val as_Raft RaftPartitionGroup_val) (ptr_reach as_Raft RaftPartitionGroup_reach)
     (\<lambda>c. as_Raft c \<noteq> None \<or> RaftPartitionGroup_kind c) (ptr_copy RaftCell as_Raft RaftPartitionGroup_DeepCopyInto)"
  "deep_copier (ptr_val as_PrimaryBackup scalar_val) (ptr_reach as_PrimaryBackup scalar_reach)
     (\<lambda>c. as_PrimaryBackup c \<noteq> None \<or> False) (ptr_copy PrimaryBackupCell as_PrimaryBackup scalar_copy)"
  "deep_copier (ptr_val as_Log LogPartitionGroup_val) (ptr_reach as_Log LogPartitionGroup_reach)
     (\<lambda>c. as_Log c \<noteq> None \<or> LogPartitionGroup_kind c) (ptr_copy LogCell as_Log LogPartitionGroup_DeepCopyInto)"
  by (rule ptr_deep; simp add: RaftPartitionGroup_deep scalar_deep LogPartitionGroup_deep)+

lemma section_rest:
  assumes "\<And>c. proj c \<noteq> None \<Longrightarrow> as_Raft c \<noteq> None \<or> as_PrimaryBackup c \<noteq> None \<or> as_Log c \<noteq> None \<or> as_Group c \<noteq> None"
  shows "env_slice_val h e = Some env \<Longrightarrow> env_slice_val (modify mk proj f a h) e = Some env"
    "ResourceRequirements_val h r = Some res \<Longrightarrow> ResourceRequirements_val (modify mk proj f a h) r = Some res"
    "ObjectMeta_val h m = Some meta \<Longrightarrow> ObjectMeta_val (modify mk proj f a h) m = Some meta"
  by (rule section_elsewhere [OF _ env_slice_deep] section_elsewhere [OF _ ResourceRequirements_deep]
        section_elsewhere [OF _ ObjectMeta_deep]; use section_kinds [OF assms] in blast)+

text \<open>The defaults of a specification with each protocol, by its parts.\<close>

lemma group_spec_view_defaults:
  "PartitionGroupSpec_view (group_spec_fields s) (env, res, map_option SetDefaults_RaftPartitionGroup (Some x), pb, lg) =
   SetDefaults_PartitionGroupSpec (PartitionGroupSpec_view s (env, res, Some x, pb, lg))"
  "PartitionGroupSpec_view (group_spec_fields s) (env, res, None, map_option SetDefaults_PrimaryBackupPartitionGroup (Some y), lg) =
   SetDefaults_PartitionGroupSpec (PartitionGroupSpec_view s (env, res, None, Some y, lg))"
  "PartitionGroupSpec_view (group_spec_fields s) (env, res, None, None, map_option SetDefaults_LogPartitionGroup lg) =
   SetDefaults_PartitionGroupSpec (PartitionGroupSpec_view s (env, res, None, None, lg))"
  by (simp_all add: PartitionGroupSpec_view_def group_spec_fields_def SetDefaults_PartitionGroupSpec_def Let_def
      split: option.split)

lemma ptr_val_shape:
  "ptr_val proj V h None = Some w \<Longrightarrow> w = None"
  "ptr_val proj V h (Some a) = Some w \<Longrightarrow> \<exists>x. w = Some x"
  by (auto simp: ptr_val_def bind_eq_Some_conv)

text \<open>Writing the chosen section leaves the others as they are.\<close>

lemma spec_parts_raft:
  assumes p: "spec_parts h s env res raft pb lg" and r: "gsh_Raft s = Some r"
  shows "spec_parts (modify RaftCell as_Raft SetDefaults_RaftPartitionGroup_mem r h) s env res
    (map_option SetDefaults_RaftPartitionGroup raft) pb lg" (is "spec_parts ?h _ _ _ _ _ _")
proof -
  note p = p [unfolded spec_parts_def, THEN conjunct1] p [unfolded spec_parts_def, THEN conjunct2]
  have "ptr_val as_Raft RaftPartitionGroup_val ?h (Some r) = Some (map_option SetDefaults_RaftPartitionGroup raft)"
    by (rule ptr_val_modify [OF deep_copier.axioms(1) [OF RaftPartitionGroup_deep]])
      (use p r section_kinds in \<open>simp_all add: Raft_mem\<close>)
  then show ?thesis
    using p r by (auto simp: spec_parts_def intro: section_rest(1,2)
        section_elsewhere [OF section_pointers(1) section_pointers_deep(2)]
        section_elsewhere [OF section_pointers(2) section_pointers_deep(3)])
qed

lemma spec_parts_backup:
  assumes p: "spec_parts h s env res raft pb lg" and b: "gsh_PrimaryBackup s = Some b"
  shows "spec_parts (modify PrimaryBackupCell as_PrimaryBackup SetDefaults_PrimaryBackupPartitionGroup b h) s env res
    raft (map_option SetDefaults_PrimaryBackupPartitionGroup pb) lg" (is "spec_parts ?h _ _ _ _ _ _")
proof -
  note p = p [unfolded spec_parts_def, THEN conjunct1] p [unfolded spec_parts_def, THEN conjunct2]
  have "ptr_val as_PrimaryBackup scalar_val ?h (Some b) = Some (map_option SetDefaults_PrimaryBackupPartitionGroup pb)"
    by (rule ptr_val_modify [OF deep_copier.axioms(1) [OF scalar_deep]])
      (use p b in \<open>simp_all add: scalar_val_def\<close>)
  then show ?thesis
    using p b by (auto simp: spec_parts_def intro: section_rest(1,2)
        section_elsewhere [OF section_pointers(3) section_pointers_deep(1)]
        section_elsewhere [OF section_pointers(4) section_pointers_deep(3)])
qed

lemma spec_parts_log:
  assumes p: "spec_parts h s env res raft pb lg" and l: "gsh_Log s = Some l"
  shows "spec_parts (modify LogCell as_Log SetDefaults_LogPartitionGroup_mem l h) s env res
    raft pb (map_option SetDefaults_LogPartitionGroup lg)" (is "spec_parts ?h _ _ _ _ _ _")
proof -
  note p = p [unfolded spec_parts_def, THEN conjunct1] p [unfolded spec_parts_def, THEN conjunct2]
  have "ptr_val as_Log LogPartitionGroup_val ?h (Some l) = Some (map_option SetDefaults_LogPartitionGroup lg)"
    by (rule ptr_val_modify [OF deep_copier.axioms(1) [OF LogPartitionGroup_deep]])
      (use p l section_kinds in \<open>simp_all add: Log_mem\<close>)
  then show ?thesis
    using p l by (auto simp: spec_parts_def intro: section_rest(1,2)
        section_elsewhere [OF section_pointers(5) section_pointers_deep(1)]
        section_elsewhere [OF section_pointers(6) section_pointers_deep(2)])
qed

lemma group_spec_mem:
  assumes "PartitionGroupSpec_val h s = Some v"
  shows "PartitionGroupSpec_val (SetDefaults_protocol_mem (group_spec_fields s) h) (group_spec_fields s) =
    Some (SetDefaults_PartitionGroupSpec v)"
proof -
  from assms obtain env res raft pb lg where p: "spec_parts h s env res raft pb lg"
    and v: "v = PartitionGroupSpec_view s (env, res, raft, pb, lg)"
    unfolding group_spec_parts by blast
  have shape: "raft = None \<longleftrightarrow> gsh_Raft s = None" "pb = None \<longleftrightarrow> gsh_PrimaryBackup s = None"
    using p ptr_val_shape unfolding spec_parts_def by (metis option.exhaust option.distinct(1))+
  note defs = SetDefaults_protocol_mem_def group_spec_fields_view group_spec_parts v
  consider (raft) r where "gsh_Raft s = Some r" | (backup) b where "gsh_Raft s = None" "gsh_PrimaryBackup s = Some b"
    | (log) l where "gsh_Raft s = None" "gsh_PrimaryBackup s = None" "gsh_Log s = Some l"
    | (none) "gsh_Raft s = None" "gsh_PrimaryBackup s = None" "gsh_Log s = None"
    by (cases "gsh_Raft s"; cases "gsh_PrimaryBackup s"; cases "gsh_Log s") auto
  then show ?thesis
  proof cases
    case raft
    with shape obtain x where "raft = Some x" by auto
    with spec_parts_raft [OF p raft] show ?thesis
      using group_spec_view_defaults(1) [symmetric] by (fastforce simp: defs raft)
  next
    case backup
    with shape obtain x where "raft = None" "pb = Some x" by auto
    with spec_parts_backup [OF p backup(2)] show ?thesis
      using group_spec_view_defaults(2) [symmetric] by (fastforce simp: defs backup)
  next
    case log
    with shape have "raft = None" "pb = None" by simp_all
    with spec_parts_log [OF p log(3)] show ?thesis
      using group_spec_view_defaults(3) [symmetric] by (fastforce simp: defs log)
  next
    case none
    with shape have "raft = None" "pb = None" by simp_all
    moreover have "lg = None" using p none ptr_val_shape(1) unfolding spec_parts_def by metis
    ultimately show ?thesis
      using p group_spec_view_defaults(3) [of s env res None, symmetric] by (fastforce simp: defs none)
  qed
qed

lemma SetDefaults_protocol_mem_elsewhere:
  "length (SetDefaults_protocol_mem s h) = length h"
  "b \<notin> PartitionGroupSpec_reach h s \<Longrightarrow> SetDefaults_protocol_mem s h ! b = h ! b"
  by (auto simp: SetDefaults_protocol_mem_def PartitionGroupSpec_reach_def pair_reach_def ptr_reach_def
      split: option.split)

lemma SetDefaults_protocol_mem_meta:
  "ObjectMeta_val h m = Some meta \<Longrightarrow> ObjectMeta_val (SetDefaults_protocol_mem s h) m = Some meta"
  unfolding SetDefaults_protocol_mem_def by (auto intro!: section_rest(3) split: option.split)

lemma modify_load_other:
  assumes "load proj' b h = Some x" "\<And>c. proj' c \<noteq> None \<Longrightarrow> proj c = None"
  shows "load proj' b (modify mk proj f a h) = Some x"
  using assms(1) assms(2) [of "h ! b"] by (cases "a = b") (auto simp: modify_def load_def split: option.split if_splits)

lemma SetDefaults_protocol_mem_group:
  "load as_Group a h = Some g \<Longrightarrow> load as_Group a (SetDefaults_protocol_mem s h) = Some g"
  unfolding SetDefaults_protocol_mem_def
  by (auto intro!: modify_load_other simp: as_defs split: option.split cell.splits)

lemma own_cells:
  "as_Group c \<noteq> None \<Longrightarrow> \<not> PartitionGroupSpec_kind c"
  "as_Group c \<noteq> None \<Longrightarrow> \<not> PartitionGroup_kind c"
  "as_Cluster c \<noteq> None \<Longrightarrow> \<not> AtomixCluster_kind c"
  "as_Benchmark c \<noteq> None \<Longrightarrow> \<not> AtomixBenchmark_kind c"
  by (cases c; simp add: kind_defs as_defs)+

lemma PartitionGroup_mem:
  assumes "ptr_val as_Group PartitionGroup_val h (Some a) = Some (Some v)"
  shows "ptr_val as_Group PartitionGroup_val (SetDefaults_PartitionGroup_mem a h) (Some a) =
    Some (Some (apsnd SetDefaults_PartitionGroup v))"
proof -
  let ?f = "\<lambda>g. g\<lparr>gh_Spec := group_spec_fields (gh_Spec g)\<rparr>"
  let ?h1 = "modify GroupCell as_Group ?f a h"
  from assms obtain g where g: "load as_Group a h = Some g" "PartitionGroup_val h g = Some v"
    by (cases rule: ptr_val_cases) auto
  from g(2) obtain meta spec where val: "ObjectMeta_val h (gh_ObjectMeta g) = Some meta"
      "PartitionGroupSpec_val h (gh_Spec g) = Some spec" and v: "v = PartitionGroup_view g (meta, spec)"
    by (auto simp: PartitionGroup_val_def pair_val_eq_Some)
  let ?s = "group_spec_fields (gh_Spec g)"
  have load: "load as_Group a ?h1 = Some (?f g)"
    using g(1) by (auto simp: modify_def load_def split: if_splits)
  let ?h2 = "SetDefaults_protocol_mem ?s ?h1"
  have h2: "SetDefaults_PartitionGroup_mem a h = ?h2"
    using load by (simp add: SetDefaults_PartitionGroup_mem_def)
  have "PartitionGroupSpec_val ?h1 (gh_Spec g) = Some spec"
    by (rule section_elsewhere [OF own_cells(1) PartitionGroupSpec_deep val(2)])
  then have "PartitionGroupSpec_val ?h2 ?s = Some (SetDefaults_PartitionGroupSpec spec)"
    by (rule group_spec_mem)
  moreover have "ObjectMeta_val ?h1 (gh_ObjectMeta g) = Some meta"
    by (rule section_rest(3) [OF _ val(1)]) simp
  then have "ObjectMeta_val ?h2 (gh_ObjectMeta g) = Some meta"
    by (rule SetDefaults_protocol_mem_meta)
  ultimately have "PartitionGroup_val ?h2 (?f g) = Some (apsnd SetDefaults_PartitionGroup v)"
    by (simp add: PartitionGroup_val_def pair_val_def PartitionGroup_view_def v SetDefaults_PartitionGroup_def)
  then show ?thesis
    using SetDefaults_protocol_mem_group [OF load, of ?s] by (simp add: h2 ptr_val_def)
qed

lemma PartitionGroup_mem_frame:
  assumes "ptr_val as_Group PartitionGroup_val h (Some a) = Some (Some v)"
    and "b \<notin> ptr_reach as_Group PartitionGroup_reach h (Some a)"
  shows "SetDefaults_PartitionGroup_mem a h ! b = h ! b"
proof -
  from assms(1) obtain g where g: "load as_Group a h = Some g" "PartitionGroup_val h g = Some v"
    by (cases rule: ptr_val_cases) auto
  let ?h1 = "modify GroupCell as_Group (\<lambda>g. g\<lparr>gh_Spec := group_spec_fields (gh_Spec g)\<rparr>) a h"
  obtain spec where spec: "PartitionGroupSpec_val h (gh_Spec g) = Some spec"
    using g(2) by (auto simp: PartitionGroup_val_def pair_val_eq_Some)
  have "PartitionGroupSpec_reach ?h1 (gh_Spec g) = PartitionGroupSpec_reach h (gh_Spec g)"
    by (rule modify_other_kind [THEN conjunct2, OF deep_copier.axioms(1) [OF PartitionGroupSpec_deep] spec own_cells(1)])
  moreover have "load as_Group a ?h1 = Some (g\<lparr>gh_Spec := group_spec_fields (gh_Spec g)\<rparr>)"
    using g(1) by (auto simp: modify_def load_def split: if_splits)
  ultimately show ?thesis
    using assms(2) g(1) SetDefaults_protocol_mem_elsewhere(2) [of b ?h1 "group_spec_fields (gh_Spec g)"]
    by (simp add: SetDefaults_PartitionGroup_mem_def ptr_reach_def PartitionGroup_reach_def pair_reach_def
        group_spec_fields_view)
qed

lemma PartitionGroup_mem_length: "length (SetDefaults_PartitionGroup_mem a h) = length h"
  by (simp add: SetDefaults_PartitionGroup_mem_def Let_def SetDefaults_protocol_mem_elsewhere(1)
      split: option.split)

lemma AtomixCluster_mem:
  "AtomixCluster_val h (c\<lparr>ch_Spec := SetDefaults_ClusterSpec_mem (ch_Spec c)\<rparr>) =
   map_option (apsnd SetDefaults_Cluster) (AtomixCluster_val h c)"
  by (cases "ClusterSpec_val h (ch_Spec c)")
    (simp_all add: AtomixCluster_val_def AtomixCluster_view_def pair_val_def ClusterSpec_mem
      SetDefaults_Cluster_def map_option_bind comp_def cong: option.case_cong)

lemma AtomixBenchmark_mem:
  "AtomixBenchmark_val h (b\<lparr>bh_Spec := SetDefaults_BenchmarkSpec_mem (bh_Spec b)\<rparr>) =
   map_option (apsnd SetDefaults_Benchmark) (AtomixBenchmark_val h b)"
  by (cases "AtomixBenchmarkSpec_val h (bh_Spec b)")
    (simp_all add: AtomixBenchmark_val_def AtomixBenchmark_view_def pair_val_def BenchmarkSpec_mem
      SetDefaults_Benchmark_def map_option_bind comp_def cong: option.case_cong)

subsection \<open>The three kinds of custom resources\<close>

text \<open>The reader stamps the kind and API version \<open>tm\<close> on what it returns.\<close>

interpretation copied_group: cached_object PartitionGroup_val PartitionGroup_reach PartitionGroup_kind
  PartitionGroup_DeepCopyInto GroupCell as_Group "\<lambda>g. g\<lparr>gh_TypeMeta := tm\<rparr>" "apfst (\<lambda>_. tm)"
  SetDefaults_PartitionGroup_mem "apsnd SetDefaults_PartitionGroup" for tm
proof (rule cached_object.intro [OF PartitionGroup_deep], unfold_locales)
  fix h x
  show "PartitionGroup_val h (x\<lparr>gh_TypeMeta := tm\<rparr>) = map_option (apfst (\<lambda>_. tm)) (PartitionGroup_val h x)"
    by (simp add: PartitionGroup_val_def PartitionGroup_view_def option.map_comp comp_def case_prod_unfold)
  show "PartitionGroup_reach h (x\<lparr>gh_TypeMeta := tm\<rparr>) = PartitionGroup_reach h x"
    by (simp add: PartitionGroup_reach_def)
qed (simp_all add: own_cells PartitionGroup_mem PartitionGroup_mem_frame PartitionGroup_mem_length)

interpretation copied_cluster: cached_object AtomixCluster_val AtomixCluster_reach AtomixCluster_kind
  AtomixCluster_DeepCopyInto ClusterCell as_Cluster "\<lambda>c. c\<lparr>ch_TypeMeta := tm\<rparr>" "apfst (\<lambda>_. tm)"
  SetDefaults_Cluster_mem "apsnd SetDefaults_Cluster" for tm
proof (rule cached_object.intro [OF AtomixCluster_deep], unfold_locales)
  fix h x a v
  show "AtomixCluster_val h (x\<lparr>ch_TypeMeta := tm\<rparr>) = map_option (apfst (\<lambda>_. tm)) (AtomixCluster_val h x)"
    by (simp add: AtomixCluster_val_def AtomixCluster_view_def option.map_comp comp_def case_prod_unfold)
  show "AtomixCluster_reach h (x\<lparr>ch_TypeMeta := tm\<rparr>) = AtomixCluster_reach h x"
    by (simp add: AtomixCluster_reach_def)
  show "ptr_val as_Cluster AtomixCluster_val (SetDefaults_Cluster_mem a h) (Some a) = Some (Some (apsnd SetDefaults_Cluster v))"
    if "ptr_val as_Cluster AtomixCluster_val h (Some a) = Some (Some v)"
    unfolding SetDefaults_Cluster_mem_def
    using ptr_val_modify [OF deep_copier.axioms(1) [OF AtomixCluster_deep] own_cells(3) _ _ that,
        where mk = ClusterCell and F = "apsnd SetDefaults_Cluster"]
    by (simp add: AtomixCluster_mem)
qed (auto simp: own_cells SetDefaults_Cluster_mem_def ptr_reach_def)

interpretation copied_benchmark: cached_object AtomixBenchmark_val AtomixBenchmark_reach AtomixBenchmark_kind
  AtomixBenchmark_DeepCopyInto BenchmarkCell as_Benchmark "\<lambda>b. b\<lparr>bh_TypeMeta := tm\<rparr>" "apfst (\<lambda>_. tm)"
  SetDefaults_Benchmark_mem "apsnd SetDefaults_Benchmark" for tm
proof (rule cached_object.intro [OF AtomixBenchmark_deep], unfold_locales)
  fix h x a v
  show "AtomixBenchmark_val h (x\<lparr>bh_TypeMeta := tm\<rparr>) = map_option (apfst (\<lambda>_. tm)) (AtomixBenchmark_val h x)"
    by (simp add: AtomixBenchmark_val_def AtomixBenchmark_view_def option.map_comp comp_def case_prod_unfold)
  show "AtomixBenchmark_reach h (x\<lparr>bh_TypeMeta := tm\<rparr>) = AtomixBenchmark_reach h x"
    by (simp add: AtomixBenchmark_reach_def)
  show "ptr_val as_Benchmark AtomixBenchmark_val (SetDefaults_Benchmark_mem a h) (Some a) = Some (Some (apsnd SetDefaults_Benchmark v))"
    if "ptr_val as_Benchmark AtomixBenchmark_val h (Some a) = Some (Some v)"
    unfolding SetDefaults_Benchmark_mem_def
    using ptr_val_modify [OF deep_copier.axioms(1) [OF AtomixBenchmark_deep] own_cells(4) _ _ that,
        where mk = BenchmarkCell and F = "apsnd SetDefaults_Benchmark"]
    by (simp add: AtomixBenchmark_mem)
qed (auto simp: own_cells SetDefaults_Benchmark_mem_def ptr_reach_def)

end
