(* ===== verification/Copy_Properties.thy ===== *)
theory Copy_Properties
  imports Heap_Defaults
begin

section \<open>Properties of the deep copies\<close>

text \<open>
  The contract of \<^verbatim>\<open>DeepCopyObject\<close> for the six object types, and what it is there for: what a
  reconciler does to the object it has read never shows in the cache.
\<close>

subsection \<open>The methods are deep copies\<close>

definition copies_deeply ::
  "(cell heap \<Rightarrow> pointer \<Rightarrow> 'v option) \<Rightarrow> (cell heap \<Rightarrow> pointer \<Rightarrow> nat set) \<Rightarrow> (pointer \<Rightarrow> cell heap \<Rightarrow> pointer \<times> cell heap) \<Rightarrow> bool" where
  "copies_deeply V R C \<longleftrightarrow>
     (\<forall>h p v q h'. V h p = Some v \<longrightarrow> C p h = (q, h') \<longrightarrow>
        V h' q = Some v \<and> V h' p = Some v \<and> R h' p \<inter> R h' q = {} \<and> prefix h h')"

lemma copies_deeplyI: "deep_copier V R K C \<Longrightarrow> copies_deeply V R C"
  unfolding copies_deeply_def
  using deep_copier.copy_deep [of V R K C] deep_copier.copy_separate [of V R K C] by metis

lemma copies_deeply_pointer:
  "deep_copier V R K C \<Longrightarrow> (\<And>x. proj (mk x) = Some x) \<Longrightarrow>
   copies_deeply (ptr_val proj V) (ptr_reach proj R) (ptr_copy mk proj C)"
  by (rule copies_deeplyI) (rule ptr_deep)

lemma DeepCopyObject_eq:
  "AtomixCluster_DeepCopyObject = AtomixCluster_DeepCopy"
  "AtomixClusterList_DeepCopyObject = AtomixClusterList_DeepCopy"
  "PartitionGroup_DeepCopyObject = PartitionGroup_DeepCopy"
  "PartitionGroupList_DeepCopyObject = PartitionGroupList_DeepCopy"
  "AtomixBenchmark_DeepCopyObject = AtomixBenchmark_DeepCopy"
  "AtomixBenchmarkList_DeepCopyObject = AtomixBenchmarkList_DeepCopy"
  by (auto simp: fun_eq_iff AtomixCluster_DeepCopyObject_def AtomixClusterList_DeepCopyObject_def
      PartitionGroup_DeepCopyObject_def PartitionGroupList_DeepCopyObject_def
      AtomixBenchmark_DeepCopyObject_def AtomixBenchmarkList_DeepCopyObject_def
      split: prod.split option.split)

lemmas DeepCopy_defs =
  AtomixCluster_DeepCopy_def AtomixClusterList_DeepCopy_def PartitionGroup_DeepCopy_def
  PartitionGroupList_DeepCopy_def AtomixBenchmark_DeepCopy_def AtomixBenchmarkList_DeepCopy_def

text \<open>The types that are not objects.\<close>

lemma section_copies:
  "copies_deeply (ptr_val as_ClusterSpec ClusterSpec_val) (ptr_reach as_ClusterSpec ClusterSpec_reach) ClusterSpec_DeepCopy"
  "copies_deeply (ptr_val as_GroupSpec PartitionGroupSpec_val) (ptr_reach as_GroupSpec PartitionGroupSpec_reach) PartitionGroupSpec_DeepCopy"
  "copies_deeply (ptr_val as_BenchmarkSpec AtomixBenchmarkSpec_val) (ptr_reach as_BenchmarkSpec AtomixBenchmarkSpec_reach) AtomixBenchmarkSpec_DeepCopy"
  "copies_deeply (ptr_val as_Raft RaftPartitionGroup_val) (ptr_reach as_Raft RaftPartitionGroup_reach) RaftPartitionGroup_DeepCopy"
  "copies_deeply (ptr_val as_Log LogPartitionGroup_val) (ptr_reach as_Log LogPartitionGroup_reach) LogPartitionGroup_DeepCopy"
  "copies_deeply (ptr_val as_Persistent PersistentPartitionGroup_val) (ptr_reach as_Persistent PersistentPartitionGroup_reach) PersistentPartitionGroup_DeepCopy"
  "copies_deeply (ptr_val as_Storage Storage_val) (ptr_reach as_Storage Storage_reach) Storage_DeepCopy"
  "copies_deeply (ptr_val as_PrimaryBackup scalar_val) (ptr_reach as_PrimaryBackup scalar_reach) PrimaryBackupPartitionGroup_DeepCopy"
  "copies_deeply (ptr_val as_Compaction scalar_val) (ptr_reach as_Compaction scalar_reach) Compaction_DeepCopy"
  "copies_deeply (ptr_val as_ClusterStatus scalar_val) (ptr_reach as_ClusterStatus scalar_reach) ClusterStatus_DeepCopy"
  "copies_deeply (ptr_val as_GroupStatus scalar_val) (ptr_reach as_GroupStatus scalar_reach) PartitionGroupStatus_DeepCopy"
  "copies_deeply (ptr_val as_BenchmarkStatus scalar_val) (ptr_reach as_BenchmarkStatus scalar_reach) AtomixBenchmarkStatus_DeepCopy"
  unfolding ClusterSpec_DeepCopy_def PartitionGroupSpec_DeepCopy_def AtomixBenchmarkSpec_DeepCopy_def
    RaftPartitionGroup_DeepCopy_def LogPartitionGroup_DeepCopy_def PersistentPartitionGroup_DeepCopy_def
    Storage_DeepCopy_def PrimaryBackupPartitionGroup_DeepCopy_def Compaction_DeepCopy_def
    ClusterStatus_DeepCopy_def PartitionGroupStatus_DeepCopy_def AtomixBenchmarkStatus_DeepCopy_def
    scalar_DeepCopyInto
  by (rule copies_deeply_pointer, rule ClusterSpec_deep PartitionGroupSpec_deep AtomixBenchmarkSpec_deep
      RaftPartitionGroup_deep LogPartitionGroup_deep PersistentPartitionGroup_deep Storage_deep scalar_deep, simp)+

text \<open>
  C40: \<^verbatim>\<open>DeepCopyObject\<close> of each of the six object types returns an object (or nil) of the same
  value, does not change the original, and the two have no memory in common.
\<close>

theorem DeepCopyObject_deep:
  "copies_deeply (ptr_val as_Cluster AtomixCluster_val) (ptr_reach as_Cluster AtomixCluster_reach) AtomixCluster_DeepCopyObject \<and>
   copies_deeply (ptr_val as_Group PartitionGroup_val) (ptr_reach as_Group PartitionGroup_reach) PartitionGroup_DeepCopyObject \<and>
   copies_deeply (ptr_val as_Benchmark AtomixBenchmark_val) (ptr_reach as_Benchmark AtomixBenchmark_reach) AtomixBenchmark_DeepCopyObject \<and>
   copies_deeply (ptr_val as_ClusterList AtomixClusterList_val) (ptr_reach as_ClusterList AtomixClusterList_reach) AtomixClusterList_DeepCopyObject \<and>
   copies_deeply (ptr_val as_GroupList PartitionGroupList_val) (ptr_reach as_GroupList PartitionGroupList_reach) PartitionGroupList_DeepCopyObject \<and>
   copies_deeply (ptr_val as_BenchmarkList AtomixBenchmarkList_val) (ptr_reach as_BenchmarkList AtomixBenchmarkList_reach) AtomixBenchmarkList_DeepCopyObject"
  unfolding DeepCopyObject_eq DeepCopy_defs
  by (intro conjI; rule copies_deeply_pointer, rule AtomixCluster_deep PartitionGroup_deep
      AtomixBenchmark_deep AtomixClusterList_deep PartitionGroupList_deep AtomixBenchmarkList_deep, simp)

subsection \<open>Reading and defaulting\<close>

text \<open>
  The beginning of each \<^verbatim>\<open>Reconcile\<close> once the cached object was found at \<open>p\<close>: \<open>tm\<close> is what the
  reader stamps on it, \<open>zero\<close> what the variable holds before.
\<close>

definition read_cluster :: "type_meta \<Rightarrow> cluster_h \<Rightarrow> nat \<Rightarrow> cell heap \<Rightarrow> nat \<times> cell heap" where
  "read_cluster tm zero p h =
     (let (cluster, h1) = CacheReader_copy ClusterCell as_Cluster AtomixCluster_DeepCopyObject
            (\<lambda>c. c\<lparr>ch_TypeMeta := tm\<rparr>) zero p h
      in (cluster, SetDefaults_Cluster_mem cluster h1))"

definition read_group :: "type_meta \<Rightarrow> group_h \<Rightarrow> nat \<Rightarrow> cell heap \<Rightarrow> nat \<times> cell heap" where
  "read_group tm zero p h =
     (let (grp, h1) = CacheReader_copy GroupCell as_Group PartitionGroup_DeepCopyObject
            (\<lambda>g. g\<lparr>gh_TypeMeta := tm\<rparr>) zero p h
      in (grp, SetDefaults_PartitionGroup_mem grp h1))"

definition read_benchmark :: "type_meta \<Rightarrow> benchmark_h \<Rightarrow> nat \<Rightarrow> cell heap \<Rightarrow> nat \<times> cell heap" where
  "read_benchmark tm zero p h =
     (let (bench, h1) = CacheReader_copy BenchmarkCell as_Benchmark AtomixBenchmark_DeepCopyObject
            (\<lambda>b. b\<lparr>bh_TypeMeta := tm\<rparr>) zero p h
      in (bench, SetDefaults_Benchmark_mem bench h1))"

text \<open>Every kind of item keeps its value when nothing old is written.\<close>

lemma kept: "deep_copier V R K C \<Longrightarrow> same_at h h' {..<length h} \<Longrightarrow> V h x = Some v \<Longrightarrow> V h' x = Some v"
  by (rule deep_copier.original_unaffected)

lemma read_cluster:
  assumes "ptr_val as_Cluster AtomixCluster_val h (Some p) = Some (Some (tm0, c))" "read_cluster tm zero p h = (out, h')"
  shows "ptr_val as_Cluster AtomixCluster_val h' (Some out) = Some (Some (tm, SetDefaults_Cluster c))"
    "same_at h h' {..<length h}"
  using assms copied_cluster.read_update(1) [OF assms(1)] copied_cluster.read_update_frame [OF assms(1)]
  by (auto simp: read_cluster_def DeepCopyObject_eq DeepCopy_defs split: prod.splits)

lemma read_group:
  assumes "ptr_val as_Group PartitionGroup_val h (Some p) = Some (Some (tm0, g))" "read_group tm zero p h = (out, h')"
  shows "ptr_val as_Group PartitionGroup_val h' (Some out) = Some (Some (tm, SetDefaults_PartitionGroup g))"
    "same_at h h' {..<length h}"
  using assms copied_group.read_update(1) [OF assms(1)] copied_group.read_update_frame [OF assms(1)]
  by (auto simp: read_group_def DeepCopyObject_eq DeepCopy_defs split: prod.splits)

lemma read_benchmark:
  assumes "ptr_val as_Benchmark AtomixBenchmark_val h (Some p) = Some (Some (tm0, b))" "read_benchmark tm zero p h = (out, h')"
  shows "ptr_val as_Benchmark AtomixBenchmark_val h' (Some out) = Some (Some (tm, SetDefaults_Benchmark b))"
    "same_at h h' {..<length h}"
  using assms copied_benchmark.read_update(1) [OF assms(1)] copied_benchmark.read_update_frame [OF assms(1)]
  by (auto simp: read_benchmark_def DeepCopyObject_eq DeepCopy_defs split: prod.splits)

lemmas object_pointers = copied_cluster.pointers copied_group.pointers copied_benchmark.pointers

text \<open>
  C14: The three reconcilers read their objects from one cache and fill in the defaults, each
  writing through pointers. Afterwards every variable holds the object with the defaults of its
  kind, whatever the other reconcilers do, and the cached objects are as they were.
\<close>

theorem cached_objects_kept:
  assumes "ptr_val as_Cluster AtomixCluster_val h (Some pc) = Some (Some (tc, c))"
    and "ptr_val as_Group PartitionGroup_val h (Some pg) = Some (Some (tg, g))"
    and "ptr_val as_Benchmark AtomixBenchmark_val h (Some pb) = Some (Some (tb, b))"
    and "read_cluster tm zc pc h = (oc, h1)" "read_group tm' zg pg h1 = (og, h2)" "read_benchmark tm'' zb pb h2 = (ob, h3)"
  shows "ptr_val as_Cluster AtomixCluster_val h3 (Some oc) = Some (Some (tm, SetDefaults_Cluster c)) \<and>
    ptr_val as_Group PartitionGroup_val h3 (Some og) = Some (Some (tm', SetDefaults_PartitionGroup g)) \<and>
    ptr_val as_Benchmark AtomixBenchmark_val h3 (Some ob) = Some (Some (tm'', SetDefaults_Benchmark b)) \<and>
    ptr_val as_Cluster AtomixCluster_val h3 (Some pc) = Some (Some (tc, c)) \<and>
    ptr_val as_Group PartitionGroup_val h3 (Some pg) = Some (Some (tg, g)) \<and>
    ptr_val as_Benchmark AtomixBenchmark_val h3 (Some pb) = Some (Some (tb, b))"
proof -
  note keep = object_pointers [THEN kept]
  note c = read_cluster [OF assms(1,4)]
  note k1 = keep(1) [OF c(2) assms(1)] keep(2) [OF c(2) assms(2)] keep(3) [OF c(2) assms(3)]
  note g = read_group [OF k1(2) assms(5)]
  note k2 = keep(1) [OF g(2) k1(1)] keep(2) [OF g(2) k1(2)] keep(3) [OF g(2) k1(3)] keep(1) [OF g(2) c(1)]
  note b = read_benchmark [OF k2(3) assms(6)]
  from b(1) keep(1) [OF b(2) k2(1)] keep(2) [OF b(2) k2(2)] keep(3) [OF b(2) k2(3)]
    keep(1) [OF b(2) k2(4)] keep(2) [OF b(2) g(1)]
  show ?thesis by simp
qed

text \<open>
  A cache with a cluster with labels, a Raft group with a storage class and an environment
  variable from a config map, and a benchmark with a resource limit.
\<close>

definition sample_meta_h :: "string \<Rightarrow> pointer \<Rightarrow> object_meta_h" where
  "sample_meta_h n lbls = \<lparr>omh_Name = n, omh_Namespace = ''default'', omh_UID = n, omh_Labels = lbls,
     omh_Annotations = None, omh_OwnerReferences = None\<rparr>"

definition sample_storage_h :: "pointer \<Rightarrow> storage_h" where
  "sample_storage_h class = \<lparr>sth_Size = [], sth_ClassName = class, sth_SegmentSize = [], sth_EntrySize = [],
     sth_Level = [], sth_FlushOnCommit = True\<rparr>"

definition no_resources_h :: resource_requirements_h where
  "no_resources_h = \<lparr>rrh_Limits = None, rrh_Requests = None\<rparr>"

definition sample_group_h :: group_h where
  "sample_group_h = \<lparr>gh_TypeMeta = \<lparr>tm_Kind = [], tm_APIVersion = []\<rparr>, gh_ObjectMeta = sample_meta_h ''raft'' None,
     gh_Spec = \<lparr>gsh_Cluster = ''example'', gsh_Version = [], gsh_Size = 3, gsh_Partitions = 0, gsh_Env = Some 2,
       gsh_Resources = no_resources_h, gsh_Raft = Some 1, gsh_PrimaryBackup = None, gsh_Log = None\<rparr>,
     gh_Status = \<lparr>sh_ServiceName = []\<rparr>\<rparr>"

definition sample_cluster_h :: cluster_h where
  "sample_cluster_h = \<lparr>ch_TypeMeta = \<lparr>tm_Kind = [], tm_APIVersion = []\<rparr>, ch_ObjectMeta = sample_meta_h ''example'' (Some 6),
     ch_Spec = \<lparr>csh_Version = [], csh_Size = 0, csh_Env = None, csh_Resources = no_resources_h,
       csh_Storage = sample_storage_h None\<rparr>,
     ch_Status = \<lparr>sh_ServiceName = []\<rparr>\<rparr>"

definition sample_benchmark_h :: benchmark_h where
  "sample_benchmark_h = \<lparr>bh_TypeMeta = \<lparr>tm_Kind = [], tm_APIVersion = []\<rparr>, bh_ObjectMeta = sample_meta_h ''bench'' None,
     bh_Spec = \<lparr>bsh_Cluster = ''example'', bsh_Version = [], bsh_Workers = 0, bsh_Env = None,
       bsh_Resources = \<lparr>rrh_Limits = Some 7, rrh_Requests = None\<rparr>\<rparr>,
     bh_Status = \<lparr>sh_ServiceName = []\<rparr>\<rparr>"

definition sample_heap :: "cell heap" where
  "sample_heap =
     [StringCell ''fast'',
      RaftCell \<lparr>rgh_Persistent = \<lparr>pph_Storage = sample_storage_h (Some 0), pph_Compaction =
        \<lparr>co_Dynamic = True, co_FreeDiskBuffer = 0, co_FreeMemoryBuffer = 0\<rparr>\<rparr>, rgh_PartitionSize = 0\<rparr>,
      EnvArrayCell [\<lparr>evh_Name = ''MODE'', evh_Value = [], evh_ValueFrom = Some 3\<rparr>],
      EnvSourceCell \<lparr>evsh_FieldRef = None, evsh_ResourceFieldRef = None, evsh_ConfigMapKeyRef = Some 4,
        evsh_SecretKeyRef = None\<rparr>,
      KeySelectorCell \<lparr>ksh_Name = ''settings'', ksh_Key = ''mode'', ksh_Optional = Some 5\<rparr>,
      BoolCell True,
      StringMapCell [(''team'', ''storage'')],
      ResourceMapCell [(''cpu'', \<lparr>qh_value = 1, qh_scale = 0, qh_dec = None, qh_str = [], qh_format = DecimalSI\<rparr>)],
      GroupCell sample_group_h, ClusterCell sample_cluster_h, BenchmarkCell sample_benchmark_h]"

lemmas sample_heap_defs =
  sample_meta_h_def sample_storage_h_def no_resources_h_def sample_group_h_def sample_cluster_h_def
  sample_benchmark_h_def sample_heap_def

lemmas val_defs =
  AtomixCluster_val_def AtomixBenchmark_val_def PartitionGroup_val_def ClusterSpec_val_def
  AtomixBenchmarkSpec_val_def PartitionGroupSpec_val_def ObjectMeta_val_def env_slice_val_def
  resource_list_val_def ResourceRequirements_val_def string_map_val_def Quantity_val_def EnvVar_val_def
  EnvVarSource_val_def KeySelector_val_def Storage_val_def PersistentPartitionGroup_val_def
  RaftPartitionGroup_val_def ptr_val_def pair_val_def scalar_val_def load_def as_defs

lemma sample_heap_values:
  "\<exists>c. ptr_val as_Cluster AtomixCluster_val sample_heap (Some 9) = Some (Some c)"
  "\<exists>g. ptr_val as_Group PartitionGroup_val sample_heap (Some 8) = Some (Some g)"
  "\<exists>b. ptr_val as_Benchmark AtomixBenchmark_val sample_heap (Some 10) = Some (Some b)"
  by (simp_all add: val_defs sample_heap_defs)

lemma cached_objects_kept_witness:
  "\<exists>oc og ob h3 tc c tg g tb b.
     (oc, og, ob, h3) =
       (let (oc, h1) = read_cluster (ch_TypeMeta sample_cluster_h) sample_cluster_h 9 sample_heap;
            (og, h2) = read_group (gh_TypeMeta sample_group_h) sample_group_h 8 h1;
            (ob, h3) = read_benchmark (bh_TypeMeta sample_benchmark_h) sample_benchmark_h 10 h2
        in (oc, og, ob, h3)) \<and>
     ptr_val as_Cluster AtomixCluster_val sample_heap (Some 9) = Some (Some (tc, c)) \<and>
     ptr_val as_Group PartitionGroup_val sample_heap (Some 8) = Some (Some (tg, g)) \<and>
     ptr_val as_Benchmark AtomixBenchmark_val sample_heap (Some 10) = Some (Some (tb, b)) \<and>
     ptr_val as_Group PartitionGroup_val h3 (Some og) =
       Some (Some (gh_TypeMeta sample_group_h, SetDefaults_PartitionGroup g)) \<and>
     ptr_val as_Group PartitionGroup_val h3 (Some 8) = Some (Some (tg, g))"
proof -
  from sample_heap_values obtain tc c tg g tb b where
    v: "ptr_val as_Cluster AtomixCluster_val sample_heap (Some 9) = Some (Some (tc, c))"
      "ptr_val as_Group PartitionGroup_val sample_heap (Some 8) = Some (Some (tg, g))"
      "ptr_val as_Benchmark AtomixBenchmark_val sample_heap (Some 10) = Some (Some (tb, b))"
    by fastforce
  obtain oc h1 og h2 ob h3 where
    r: "read_cluster (ch_TypeMeta sample_cluster_h) sample_cluster_h 9 sample_heap = (oc, h1)"
      "read_group (gh_TypeMeta sample_group_h) sample_group_h 8 h1 = (og, h2)"
      "read_benchmark (bh_TypeMeta sample_benchmark_h) sample_benchmark_h 10 h2 = (ob, h3)"
    by fastforce
  from cached_objects_kept [OF v r] v r show ?thesis by auto
qed

end
