(* ===== verification/Json_Decode.thy ===== *)
theory Json_Decode
  imports Kube_Types
begin

section \<open>Reading JSON into structs\<close>

text \<open>
  The part of json-iterator that decodes the custom resources, as the serializer of the API
  machinery configures it (case sensitive, unknown fields are skipped). It works on a parsed
  document: syntax errors are not modelled, and neither are the messages of errors. A decoder
  updates the value that a pointer refers to, so that it gets the old value and returns the new
  one. Keys of an object that occur twice are decoded one after the other into the same place,
  as in the source, except that elements of a slice always start from the zero value.
\<close>

unbundle bit_operations_syntax

datatype json =
    JNull
  | JBool bool
  | JNumber string \<comment> \<open>the literal\<close>
  | JString string
  | JArray "json list"
  | JObject "(string \<times> json) list"

type_synonym 's decoder = "json \<Rightarrow> 's \<Rightarrow> go_error + 's"

definition decode_error :: go_error where
  "decode_error = ErrorString ''json''"

subsection \<open>Scalars\<close>

text \<open>\<^verbatim>\<open>ReadString\<close> gives the empty string for null; the other codecs skip it.\<close>

definition stringCodec :: "string decoder" where
  "stringCodec j s =
     (case j of JString t \<Rightarrow> Inr t | JNull \<Rightarrow> Inr [] | _ \<Rightarrow> Inl decode_error)"

definition boolCodec :: "bool decoder" where
  "boolCodec j b = (case j of JBool c \<Rightarrow> Inr c | JNull \<Rightarrow> Inr b | _ \<Rightarrow> Inl decode_error)"

text \<open>
  \<^verbatim>\<open>readUint32\<close> and \<^verbatim>\<open>readUint64\<close>, at any width: beyond \<open>safe_to_multiply10\<close> a value that gets smaller
  is an overflow. The literal ends with the digits, or else the byte after them is an error.
\<close>

definition safe_to_multiply10 :: "'a::len word" where
  "safe_to_multiply10 = (- 1) div 10 - 1"

fun read_digits :: "'a::len word \<Rightarrow> string \<Rightarrow> go_error + 'a word" where
  "read_digits v [] = Inr v"
| "read_digits v (c # cs) =
     (if is_digit c then
        let v2 = push_bit 3 v + push_bit 1 v + of_nat (digit_val c)
        in if safe_to_multiply10 < v \<and> v2 < v then Inl decode_error else read_digits v2 cs
      else Inl decode_error)"

definition readUint :: "string \<Rightarrow> go_error + 'a::len word" where
  "readUint s =
     (case s of
        [] \<Rightarrow> Inl decode_error
      | c # cs \<Rightarrow>
          if \<not> is_digit c then Inl decode_error
          else if digit_val c = 0 then (if cs = [] then Inr 0 else Inl decode_error)
          else read_digits (of_nat (digit_val c)) cs)"

text \<open>\<^verbatim>\<open>ReadInt32\<close> and \<^verbatim>\<open>ReadInt64\<close>\<close>

definition max_int :: "'a::len word" where
  "max_int = 2 ^ (LENGTH('a) - 1) - 1"

definition readInt :: "string \<Rightarrow> go_error + 'a::len word" where
  "readInt s =
     (if s \<noteq> [] \<and> hd s = CHR ''-'' then
        (case readUint (tl s) of
           Inl e \<Rightarrow> Inl e
         | Inr v \<Rightarrow> if max_int + 1 < v then Inl decode_error else Inr (- v))
      else
        (case readUint s of
           Inl e \<Rightarrow> Inl e
         | Inr v \<Rightarrow> if max_int < v then Inl decode_error else Inr v))"

definition intCodec :: "'a::len word decoder" where
  "intCodec j n = (case j of JNull \<Rightarrow> Inr n | JNumber l \<Rightarrow> readInt l | _ \<Rightarrow> Inl decode_error)"

text \<open>The conversion of a literal to a \<^verbatim>\<open>float32\<close> is a parameter.\<close>

definition float32Codec :: "(string \<Rightarrow> go_error + 32 word) \<Rightarrow> 32 word decoder" where
  "float32Codec f32 j x = (case j of JNull \<Rightarrow> Inr x | JNumber l \<Rightarrow> f32 l | _ \<Rightarrow> Inl decode_error)"

subsection \<open>Pointers, slices and maps\<close>

definition OptionalDecoder :: "'x \<Rightarrow> 'x decoder \<Rightarrow> 'x option decoder" where
  "OptionalDecoder zero d j p =
     (if j = JNull then Inr None
      else (case d j (case p of None \<Rightarrow> zero | Some x \<Rightarrow> x) of Inl e \<Rightarrow> Inl e | Inr y \<Rightarrow> Inr (Some y)))"

fun decode_elems :: "'x \<Rightarrow> 'x decoder \<Rightarrow> json list \<Rightarrow> go_error + 'x list" where
  "decode_elems zero d [] = Inr []"
| "decode_elems zero d (j # js) =
     (case d j zero of
        Inl e \<Rightarrow> Inl e
      | Inr x \<Rightarrow> (case decode_elems zero d js of Inl e \<Rightarrow> Inl e | Inr xs \<Rightarrow> Inr (x # xs)))"

definition sliceDecoder :: "'x \<Rightarrow> 'x decoder \<Rightarrow> 'x list decoder" where
  "sliceDecoder zero d j xs =
     (case j of JNull \<Rightarrow> Inr [] | JArray js \<Rightarrow> decode_elems zero d js | _ \<Rightarrow> Inl decode_error)"

fun decode_entries :: "'x \<Rightarrow> 'x decoder \<Rightarrow> (string \<times> json) list \<Rightarrow> (string, 'x) fmap \<Rightarrow> go_error + (string, 'x) fmap" where
  "decode_entries zero d [] m = Inr m"
| "decode_entries zero d ((k, j) # kvs) m =
     (case d j zero of Inl e \<Rightarrow> Inl e | Inr x \<Rightarrow> decode_entries zero d kvs (fmupd k x m))"

definition mapDecoder :: "'x \<Rightarrow> 'x decoder \<Rightarrow> (string, 'x) fmap decoder" where
  "mapDecoder zero d j m =
     (case j of JNull \<Rightarrow> Inr fmempty | JObject kvs \<Rightarrow> decode_entries zero d kvs m | _ \<Rightarrow> Inl decode_error)"

text \<open>
  \<^verbatim>\<open>Quantity.UnmarshalJSON\<close> gets the bytes of the value, with the escapes that the server writes
  for control characters, quotes, backslashes and markup; a quantity has none of these. White
  space beyond ASCII is not modelled.
\<close>

definition trim_space :: "string \<Rightarrow> string" where
  "trim_space s = (let blank = (\<lambda>c. c = CHR '' '') in rev (dropWhile blank (rev (dropWhile blank s))))"

definition is_escaped :: "char \<Rightarrow> bool" where
  "is_escaped c \<longleftrightarrow> (of_char c :: nat) < 32 \<or> c = CHR 0x22 \<or> c = CHR 0x5C \<or> c \<in> set ''<>&''"

definition unmarshal_quantity :: "string \<Rightarrow> go_error + quantity" where
  "unmarshal_quantity s =
     (case ParseQuantity (trim_space s) of Inl e \<Rightarrow> Inl decode_error | Inr q \<Rightarrow> Inr q)"

definition quantityDecoder :: "quantity decoder" where
  "quantityDecoder j q =
     (case j of
        JNull \<Rightarrow> Inr (q\<lparr>q_dec := None, q_value := 0, q_scale := 0\<rparr>)
      | JString s \<Rightarrow> if list_ex is_escaped s then Inl decode_error else unmarshal_quantity s
      | JNumber l \<Rightarrow> unmarshal_quantity l
      | _ \<Rightarrow> Inl decode_error)"

subsection \<open>Structs\<close>

text \<open>
  A field of a struct: its name, its tags (key and value), whether it is embedded, the bindings
  of its type if that is a struct, and the decoder of its type; the last two already work on the
  struct that the field is in.
\<close>

type_synonym 's binding = "string \<times> 's decoder"

datatype 's field = Field string "(string \<times> string) list" bool "'s binding list" "'s decoder"

definition json_tag :: "string \<Rightarrow> (string \<times> string) list" where
  "json_tag v = [(''json'', v)]"

definition at_field :: "('s \<Rightarrow> 'x) \<Rightarrow> (('x \<Rightarrow> 'x) \<Rightarrow> 's \<Rightarrow> 's) \<Rightarrow> 'x decoder \<Rightarrow> 's decoder" where
  "at_field get upd d j s = (case d j (get s) of Inl e \<Rightarrow> Inl e | Inr x \<Rightarrow> Inr (upd (\<lambda>_. x) s))"

definition embedded :: "('s \<Rightarrow> 'x) \<Rightarrow> (('x \<Rightarrow> 'x) \<Rightarrow> 's \<Rightarrow> 's) \<Rightarrow> 'x binding list \<Rightarrow> 's binding list" where
  "embedded get upd bs = map (\<lambda>(n, d). (n, at_field get upd d)) bs"

definition is_lower :: "char \<Rightarrow> bool" where
  "is_lower c \<longleftrightarrow> 97 \<le> (of_char c :: nat) \<and> (of_char c :: nat) \<le> 122"

definition calcFieldNames :: "string \<Rightarrow> string \<Rightarrow> string \<Rightarrow> string list" where
  "calcFieldNames originalFieldName tagProvidedFieldName wholeTag =
     (if wholeTag = ''-'' then []
      else if is_lower (hd originalFieldName) then []
      else if tagProvidedFieldName = [] then [originalFieldName]
      else [tagProvidedFieldName])"

definition describe_field :: "'s field \<Rightarrow> 's binding list" where
  "describe_field f =
     (case f of Field name tags anonymous sub d \<Rightarrow>
        let tag = (case map_of tags ''json'' of None \<Rightarrow> [] | Some t \<Rightarrow> t);
            part = hd (split_on CHR '','' tag)
        in if tag = ''-'' then []
           else if anonymous \<and> sub \<noteq> [] \<and> (tag = [] \<or> part = []) then sub
           else map (\<lambda>n. (n, d)) (calcFieldNames name part tag))"

definition describeStruct :: "'s field list \<Rightarrow> 's binding list" where
  "describeStruct fs = concat (map describe_field fs)"

text \<open>
  Structs with up to ten fields find a key by its hash, unless two fields share one or one is
  zero; larger structs by the key itself.
\<close>

definition calcHash :: "string \<Rightarrow> int64" where
  "calcHash s = foldl (\<lambda>h c. (h XOR of_char c) * 0x1000193) 0x811C9DC5 s"

definition hashed :: "'s binding list \<Rightarrow> bool" where
  "hashed bs \<longleftrightarrow> length bs \<le> 10 \<and> distinct (0 # map (calcHash \<circ> fst) bs)"

definition find_decoder :: "'s binding list \<Rightarrow> string \<Rightarrow> 's decoder option" where
  "find_decoder bs k =
     (if hashed bs then map_of (map (\<lambda>(n, d). (calcHash n, d)) bs) (calcHash k) else map_of bs k)"

fun decode_fields :: "'s binding list \<Rightarrow> (string \<times> json) list \<Rightarrow> 's \<Rightarrow> go_error + 's" where
  "decode_fields bs [] s = Inr s"
| "decode_fields bs ((k, j) # kvs) s =
     (case find_decoder bs k of
        None \<Rightarrow> decode_fields bs kvs s
      | Some d \<Rightarrow> (case d j s of Inl e \<Rightarrow> Inl e | Inr s' \<Rightarrow> decode_fields bs kvs s'))"

definition structDecoder :: "'s field list \<Rightarrow> 's decoder" where
  "structDecoder fs j s =
     (case j of
        JNull \<Rightarrow> Inr s
      | JObject kvs \<Rightarrow> decode_fields (describeStruct fs) kvs s
      | _ \<Rightarrow> Inl decode_error)"

end
