(* ===== verification/Json_Encode.thy ===== *)
theory Json_Encode
  imports Json_Decode "HOL-Library.List_Lexorder" "HOL-Library.Char_ord"
begin

section \<open>Writing structs as JSON\<close>

text \<open>
  \<^verbatim>\<open>json.Marshal\<close> of the standard library, as far as the custom resources use it, up to the
  document: quoting and layout are not modelled, and strings are taken to be UTF-8. The fields of
  a struct and their tags are those that the decoders read.
\<close>

type_synonym 's encoder = "'s \<Rightarrow> go_error + json"

text \<open>A field of the output: its name, \<^verbatim>\<open>omitempty\<close>, \<^verbatim>\<open>isEmptyValue\<close> and the encoder.\<close>

type_synonym 's out_field = "string \<times> bool \<times> ('s \<Rightarrow> bool) \<times> 's encoder"

text \<open>What is known of a type: \<^verbatim>\<open>isEmptyValue\<close>, the encoder, and its fields if it is a struct.\<close>

datatype 's enc = Enc (en_empty: "'s \<Rightarrow> bool") (en_encode: "'s encoder") (en_fields: "'s out_field list option")

subsection \<open>Values\<close>

definition stringEncoder :: "string enc" where
  "stringEncoder = Enc (\<lambda>s. s = []) (\<lambda>s. Inr (JString s)) None"

definition boolEncoder :: "bool enc" where
  "boolEncoder = Enc (\<lambda>b. \<not> b) (\<lambda>b. Inr (JBool b)) None"

definition intEncoder :: "'a::len word enc" where
  "intEncoder = Enc (\<lambda>n. n = 0) (\<lambda>n. Inr (JNumber (show_int (sint n)))) None"

text \<open>The text of a \<^verbatim>\<open>float32\<close> is a parameter; there is none for infinities. Both zeros are empty.\<close>

definition float32Encoder :: "(32 word \<Rightarrow> go_error + string) \<Rightarrow> 32 word enc" where
  "float32Encoder text_of = Enc (\<lambda>x. x AND 0x7FFFFFFF = 0) (\<lambda>x. map_sum id JNumber (text_of x)) None"

definition ptrEncoder :: "'x enc \<Rightarrow> 'x option enc" where
  "ptrEncoder e =
     Enc (\<lambda>p. p = None) (\<lambda>p. case p of None \<Rightarrow> Inr JNull | Some x \<Rightarrow> en_encode e x) None"

fun encode_elems :: "'x encoder \<Rightarrow> 'x list \<Rightarrow> go_error + json list" where
  "encode_elems e [] = Inr []"
| "encode_elems e (x # xs) =
     (case e x of
        Inl err \<Rightarrow> Inl err
      | Inr j \<Rightarrow> (case encode_elems e xs of Inl err \<Rightarrow> Inl err | Inr js \<Rightarrow> Inr (j # js)))"

text \<open>Slices and maps that are \<^verbatim>\<open>nil\<close> are not told from empty ones; the fields omit both.\<close>

definition sliceEncoder :: "'x enc \<Rightarrow> 'x list enc" where
  "sliceEncoder e = Enc (\<lambda>xs. xs = []) (\<lambda>xs. map_sum id JArray (encode_elems (en_encode e) xs)) None"

fun encode_entries :: "'x encoder \<Rightarrow> (string \<times> 'x) list \<Rightarrow> go_error + (string \<times> json) list" where
  "encode_entries e [] = Inr []"
| "encode_entries e ((k, x) # kxs) =
     (case e x of
        Inl err \<Rightarrow> Inl err
      | Inr j \<Rightarrow> (case encode_entries e kxs of Inl err \<Rightarrow> Inl err | Inr kjs \<Rightarrow> Inr ((k, j) # kjs)))"

definition sorted_entries :: "(string, 'x) fmap \<Rightarrow> (string \<times> 'x) list" where
  "sorted_entries m = map (\<lambda>k. (k, the (fmlookup m k))) (sorted_list_of_fset (fmdom m))"

definition mapEncoder :: "'x enc \<Rightarrow> (string, 'x) fmap enc" where
  "mapEncoder e =
     Enc (\<lambda>m. m = fmempty) (\<lambda>m. map_sum id JObject (encode_entries (en_encode e) (sorted_entries m))) None"

text \<open>
  \<^verbatim>\<open>Quantity.MarshalJSON\<close>: the text that was read, if it is still known, or else the one of
  \<^verbatim>\<open>CanonicalizeBytes\<close>, which is a parameter.
\<close>

definition quantityEncoder :: "(quantity \<Rightarrow> string) \<Rightarrow> quantity enc" where
  "quantityEncoder canonical =
     Enc (\<lambda>q. False) (\<lambda>q. Inr (JString (if 0 < length (q_str q) then q_str q else canonical q))) None"

subsection \<open>Structs\<close>

definition isValidTag :: "string \<Rightarrow> bool" where
  "isValidTag s \<longleftrightarrow> s \<noteq> [] \<and>
     list_all (\<lambda>c. c \<in> set ''!#$%&()*+-./:<=>?@[]^_{|}~ '' \<or> is_digit c \<or> is_lower c \<or>
       65 \<le> (of_char c :: nat) \<and> (of_char c :: nat) \<le> 90) s"

definition out_field :: "string \<Rightarrow> bool \<Rightarrow> 's enc \<Rightarrow> 's out_field" where
  "out_field name omit e = (name, omit, en_empty e, en_encode e)"

text \<open>
  The loop of \<^verbatim>\<open>typeFields\<close> for a field. Where two fields have one name, \<^verbatim>\<open>typeFields\<close> picks one
  of them; this does not happen here.
\<close>

definition type_field :: "'s field \<Rightarrow> 's enc \<Rightarrow> 's out_field list" where
  "type_field f e =
     (case f of Field name tags anonymous sub d \<Rightarrow>
        let tag = (case map_of tags ''json'' of None \<Rightarrow> [] | Some t \<Rightarrow> t);
            parts = split_on CHR '','' tag;
            tag_name = (if isValidTag (hd parts) then hd parts else []);
            omit = (''omitempty'' \<in> set (tl parts))
        in if is_lower (hd name) \<or> tag = ''-'' then []
           else if tag_name \<noteq> [] \<or> \<not> anonymous \<or> en_fields e = None then
             [out_field (if tag_name = [] then name else tag_name) omit e]
           else the (en_fields e))"

definition typeFields :: "'s field list \<Rightarrow> 's enc list \<Rightarrow> 's out_field list" where
  "typeFields fs es = concat (map2 type_field fs es)"

fun encode_fields :: "'s out_field list \<Rightarrow> 's \<Rightarrow> go_error + (string \<times> json) list" where
  "encode_fields [] s = Inr []"
| "encode_fields ((n, omit, emp, e) # bs) s =
     (if omit \<and> emp s then encode_fields bs s
      else (case e s of
              Inl err \<Rightarrow> Inl err
            | Inr j \<Rightarrow> (case encode_fields bs s of Inl err \<Rightarrow> Inl err | Inr kvs \<Rightarrow> Inr ((n, j) # kvs))))"

definition structEncoder :: "'s field list \<Rightarrow> 's enc list \<Rightarrow> 's enc" where
  "structEncoder fs es =
     Enc (\<lambda>s. False) (\<lambda>s. map_sum id JObject (encode_fields (typeFields fs es) s)) (Some (typeFields fs es))"

text \<open>A part of a struct as a field of it\<close>

definition at_out :: "('s \<Rightarrow> 'x) \<Rightarrow> 'x out_field \<Rightarrow> 's out_field" where
  "at_out get b = (case b of (n, omit, emp, e) \<Rightarrow> (n, omit, \<lambda>s. emp (get s), \<lambda>s. e (get s)))"

definition at_enc :: "('s \<Rightarrow> 'x) \<Rightarrow> 'x enc \<Rightarrow> 's enc" where
  "at_enc get e = Enc (\<lambda>s. en_empty e (get s)) (\<lambda>s. en_encode e (get s)) (map_option (map (at_out get)) (en_fields e))"

subsection \<open>Integers are read back\<close>

text \<open>Reading what is printed, at any width from the least number to the greatest.\<close>

definition digits_value :: "nat \<Rightarrow> string \<Rightarrow> nat" where
  "digits_value a s = foldl (\<lambda>a c. 10 * a + digit_val c) a s"

lemma digits_value_simps [simp]:
  "digits_value a [] = a" "digits_value a (c # s) = digits_value (10 * a + digit_val c) s"
  by (simp_all add: digits_value_def)

lemma digits_value_mono: "a \<le> digits_value a s"
proof (induction s arbitrary: a)
  case (Cons c s)
  show ?case using Cons [of "10 * a + digit_val c"] by simp
qed simp

lemma read_digits_exact:
  assumes "list_all is_digit s" "digits_value a s < 2 ^ LENGTH('a::len)"
  shows "read_digits (of_nat a :: 'a word) s = Inr (of_nat (digits_value a s))"
  using assms
proof (induction s arbitrary: a)
  case (Cons c s)
  let ?b = "10 * a + digit_val c"
  have step: "push_bit 3 (of_nat a) + push_bit 1 (of_nat a) + of_nat (digit_val c) = (of_nat ?b :: 'a word)"
    by (simp add: push_bit_eq_mult algebra_simps)
  have "?b < 2 ^ LENGTH('a)" using Cons.prems(2) digits_value_mono [of ?b s] by simp
  then have "unat (of_nat ?b :: 'a word) = ?b" "unat (of_nat a :: 'a word) = a"
    by (simp_all only: unat_of_nat) (simp_all add: take_bit_nat_eq_self)
  then have "\<not> (of_nat ?b :: 'a word) < of_nat a" unfolding word_less_nat_alt by linarith
  moreover have "read_digits (of_nat ?b :: 'a word) s = Inr (of_nat (digits_value ?b s))"
    using Cons.prems by (intro Cons.IH) simp_all
  ultimately show ?case
    using Cons.prems(1) by (simp only: read_digits.simps step Let_def digits_value_simps list.pred_inject) simp
qed simp

lemma digits_value_dec: "int (digits_value a s) = int a * 10 ^ length s + dec_value s"
proof (induction s rule: rev_induct)
  case (snoc c s)
  have "digits_value a (s @ [c]) = 10 * digits_value a s + digit_val c" by (simp add: digits_value_def)
  with snoc show ?case by (simp add: algebra_simps)
qed (simp add: dec_value_def)

lemma show_nat_first: "n > 0 \<Longrightarrow> digit_val (hd (show_nat n)) > 0"
proof (induction n rule: show_nat.induct)
  case (1 n)
  show ?case
  proof (cases "n < 10")
    case True
    with "1.prems" show ?thesis by (subst show_nat.simps) simp
  next
    case False
    then have "hd (show_nat n) = hd (show_nat (n div 10))"
      by (subst show_nat.simps) (simp add: hd_append)
    with "1.IH" False show ?thesis by simp
  qed
qed

lemma readUint_show:
  assumes "n < 2 ^ LENGTH('a::len)"
  shows "readUint (show_nat n) = (Inr (of_nat n) :: go_error + 'a word)"
proof (cases "n = 0")
  case True
  then show ?thesis by (subst show_nat.simps) (simp add: readUint_def)
next
  case False
  obtain c cs where s: "show_nat n = c # cs" using show_nat_nonempty by (cases "show_nat n") auto
  have digits: "is_digit c" "list_all is_digit cs"
    using show_nat_digits [of _ n] by (auto simp: s list_all_iff)
  have "int (digits_value (digit_val c) cs) = int n"
    using digits_value_dec [of 0 "c # cs"] dec_value_show_nat [of n] by (simp add: s)
  then have "read_digits (of_nat (digit_val c) :: 'a word) cs = Inr (of_nat n)"
    using read_digits_exact [OF digits(2), of "digit_val c", where 'a = 'a] assms by simp
  moreover have "digit_val c \<noteq> 0" using show_nat_first [of n] False by (simp add: s)
  ultimately show ?thesis using digits(1) by (simp add: readUint_def s)
qed

text \<open>An integer of the width of the field is read as it was printed.\<close>

lemma readInt_show: "readInt (show_int (sint (x :: 'a::len word))) = Inr x"
proof -
  let ?N = "2 ^ (LENGTH('a) - 1) :: nat"
  have two: "2 * ?N = 2 ^ LENGTH('a)" by (simp flip: power_Suc)
  have N: "0 < ?N" "?N < 2 ^ LENGTH('a)" using two by (simp_all del: zero_less_power)
  have bound: "unat (of_nat n :: 'a word) = n" if "n \<le> ?N" for n
    unfolding unat_of_nat by (rule mod_less) (use that N(2) in linarith)
  have max: "max_int = (of_nat (?N - 1) :: 'a word)" "max_int + 1 = (of_nat ?N :: 'a word)"
    using N(1) by (simp_all add: max_int_def of_nat_diff)
  have range: "- int ?N \<le> sint x" "sint x < int ?N" using sint_ge [of x] sint_lt [of x] by simp_all
  show ?thesis
  proof (cases "0 \<le> sint x")
    case True
    define n where "n = nat (sint x)"
    have n: "sint x = int n" "n < ?N" using True range(2) by (simp_all add: n_def)
    have x: "of_nat n = x" using arg_cong [OF n(1), of "of_int :: int \<Rightarrow> 'a word"] by simp
    have "\<not> max_int < (of_nat n :: 'a word)"
      unfolding max word_less_nat_alt using bound [of n] bound [of "?N - 1"] n(2) by simp
    moreover have "hd (show_nat n) \<noteq> CHR ''-''"
      using show_nat_digits [of "hd (show_nat n)" n] minus_not_digit by (metis hd_in_set show_nat_nonempty)
    ultimately show ?thesis
      using readUint_show [of n, where 'a = 'a] n N(2) by (simp add: readInt_def show_int_def x)
  next
    case False
    define n where "n = nat (- sint x)"
    have n: "sint x = - int n" "n \<le> ?N" using False range(1) by (simp_all add: n_def)
    have x: "- of_nat n = x" using arg_cong [OF n(1), of "of_int :: int \<Rightarrow> 'a word"] by simp
    have "\<not> max_int + 1 < (of_nat n :: 'a word)"
      unfolding max word_less_nat_alt using bound [of n] bound [of ?N] n(2) by simp
    then show ?thesis
      using readUint_show [of n, where 'a = 'a] n False N(2) by (simp add: readInt_def show_int_def x)
  qed
qed

subsection \<open>Copies\<close>

text \<open>
  The contract of an encoder and a decoder for one type: a value that is written and read into a
  new variable is the same again, and only the zero value is empty, so that nothing is lost with
  \<^verbatim>\<open>omitempty\<close>. The predicate says for which values this holds.
\<close>

locale json_copy =
  fixes e :: "'x enc" and d :: "'x decoder" and zero :: 'x and good :: "'x \<Rightarrow> bool"
  assumes copied: "good x \<Longrightarrow> \<exists>j. en_encode e x = Inr j \<and> d j zero = Inr x"
    and empty_zero: "good x \<Longrightarrow> en_empty e x \<Longrightarrow> x = zero"
begin

lemma copied_elems: "list_all good xs \<Longrightarrow> \<exists>js. encode_elems (en_encode e) xs = Inr js \<and> decode_elems zero d js = Inr xs"
proof (induction xs)
  case (Cons x xs)
  then obtain js j where "encode_elems (en_encode e) xs = Inr js" "decode_elems zero d js = Inr xs"
    "en_encode e x = Inr j" "d j zero = Inr x"
    using copied [of x] by auto
  then show ?case by auto
qed simp

lemma copied_entries:
  "list_all (\<lambda>(k, x). good x) kxs \<Longrightarrow>
   \<exists>kjs. encode_entries (en_encode e) kxs = Inr kjs \<and>
     decode_entries zero d kjs m = Inr (foldl (\<lambda>m (k, x). fmupd k x m) m kxs)"
proof (induction kxs arbitrary: m)
  case (Cons kx kxs)
  obtain k x where kx: "kx = (k, x)" by fastforce
  obtain j where "en_encode e x = Inr j" "d j zero = Inr x" using copied [of x] Cons.prems kx by auto
  moreover obtain kjs where "encode_entries (en_encode e) kxs = Inr kjs"
    "decode_entries zero d kjs (fmupd k x m) = Inr (foldl (\<lambda>m (k, x). fmupd k x m) (fmupd k x m) kxs)"
    using Cons.IH [of "fmupd k x m"] Cons.prems by auto
  ultimately show ?case by (auto simp: kx)
qed simp

end
lemma entries_lookup:
  "fmlookup (foldl (\<lambda>m (k, x). fmupd k x m) m0 (map (\<lambda>k. (k, the (fmlookup m k))) ks)) k =
    (if k \<in> set ks then Some (the (fmlookup m k)) else fmlookup m0 k)"
  by (induction ks arbitrary: m0) auto

lemma entries_restore: "foldl (\<lambda>m (k, x). fmupd k x m) fmempty (sorted_entries m) = m"
  by (rule fmap_ext) (auto simp: sorted_entries_def entries_lookup fmlookup_dom_iff dest: fmdom_notI)

text \<open>The types of the language\<close>

interpretation string_copy: json_copy stringEncoder stringCodec "[]" "\<lambda>_. True"
  by unfold_locales (simp_all add: stringEncoder_def stringCodec_def)

interpretation bool_copy: json_copy boolEncoder boolCodec False "\<lambda>_. True"
  by unfold_locales (simp_all add: boolEncoder_def boolCodec_def)

interpretation int_copy: json_copy intEncoder intCodec 0 "\<lambda>_. True"
  by unfold_locales (simp_all add: intEncoder_def intCodec_def readInt_show)

text \<open>The text of a number has to stand for it; negative zero would be lost.\<close>

definition float_text :: "(32 word \<Rightarrow> go_error + string) \<Rightarrow> (string \<Rightarrow> go_error + 32 word) \<Rightarrow> 32 word \<Rightarrow> bool" where
  "float_text text_of f32 x \<longleftrightarrow>
     (case text_of x of Inl err \<Rightarrow> False | Inr l \<Rightarrow> f32 l = Inr x) \<and> x \<noteq> 0x80000000"

lemma float_empty: "x AND 0x7FFFFFFF = 0 \<Longrightarrow> x = 0 \<or> x = (0x80000000 :: 32 word)"
proof -
  assume "x AND 0x7FFFFFFF = 0"
  moreover have "(0x7FFFFFFF :: 32 word) = mask 31" by (simp add: mask_eq_exp_minus_1)
  ultimately have "take_bit 31 x = 0" by (simp add: take_bit_eq_mask)
  then have "take_bit 31 (unat x) = 0" by (metis unsigned_take_bit_eq unat_0)
  then have "unat x mod 2 ^ 31 = 0" by (simp add: take_bit_eq_mod)
  moreover have "unat x < 2 ^ 32" using unsigned_less [of x] by simp
  ultimately have "unat x = unat (0 :: 32 word) \<or> unat x = unat (0x80000000 :: 32 word)" by auto
  then show ?thesis by (metis unsigned_word_eqI)
qed

interpretation float_copy: json_copy "float32Encoder text_of" "float32Codec f32" 0 "float_text text_of f32" for text_of f32
  by unfold_locales
    (auto simp: float32Encoder_def float32Codec_def float_text_def dest: float_empty split: sum.splits)

text \<open>A quantity keeps the text it was read from.\<close>

definition cached_text :: "quantity \<Rightarrow> bool" where
  "cached_text q \<longleftrightarrow> q_str q \<noteq> [] \<and> \<not> list_ex is_escaped (q_str q) \<and> unmarshal_quantity (q_str q) = Inr q"

interpretation quantity_copy: json_copy "quantityEncoder canonical" quantityDecoder zero cached_text for canonical zero
  by unfold_locales (simp_all add: quantityEncoder_def quantityDecoder_def cached_text_def)

subsection \<open>Pointers, slices, maps and structs are copied\<close>

lemma ptr_copy:
  assumes "json_copy e d zero good" "\<And>x. en_encode e x \<noteq> Inr JNull"
  shows "json_copy (ptrEncoder e) (OptionalDecoder zero d) None (pred_option good)"
proof
  fix p assume "pred_option good p"
  then show "\<exists>j. en_encode (ptrEncoder e) p = Inr j \<and> OptionalDecoder zero d j None = Inr p"
    using json_copy.copied [OF assms(1)] assms(2)
    by (cases p) (fastforce simp: ptrEncoder_def OptionalDecoder_def)+
qed (simp add: ptrEncoder_def)

lemma slice_copy:
  assumes "json_copy e d zero good"
  shows "json_copy (sliceEncoder e) (sliceDecoder zero d) [] (list_all good)"
  using json_copy.copied_elems [OF assms]
  by unfold_locales (fastforce simp: sliceEncoder_def sliceDecoder_def)+

lemma map_copy:
  assumes "json_copy e d zero good"
  shows "json_copy (mapEncoder e) (mapDecoder zero d) fmempty (fmpred (\<lambda>_. good))"
proof
  fix m :: "(string, 'a) fmap" assume "fmpred (\<lambda>_. good) m"
  then have "list_all (\<lambda>(k, x). good x) (sorted_entries m)"
    by (auto simp: list_all_iff sorted_entries_def fmlookup_dom_iff fmpred_iff)
  then show "\<exists>j. en_encode (mapEncoder e) m = Inr j \<and> mapDecoder zero d j fmempty = Inr m"
    using json_copy.copied_entries [OF assms, of _ fmempty]
    by (fastforce simp: mapEncoder_def mapDecoder_def entries_restore)
qed (simp add: mapEncoder_def)

text \<open>
  A field of a struct is copied from \<open>x\<close> into a variable that has the value \<open>s\<close> and then
  the value \<open>s'\<close>.
\<close>

definition field_copied :: "'s out_field \<Rightarrow> 's decoder \<Rightarrow> 's \<Rightarrow> 's \<Rightarrow> 's \<Rightarrow> bool" where
  "field_copied b d x s s' \<longleftrightarrow>
     (case b of (n, omit, emp, e) \<Rightarrow>
        if omit \<and> emp x then s' = s else \<exists>j. e x = Inr j \<and> d j s = Inr s')"

inductive fields_copied :: "'s binding list \<Rightarrow> 's \<Rightarrow> 's out_field list \<Rightarrow> 's \<Rightarrow> 's \<Rightarrow> bool"
  for all :: "'s binding list" and x :: 's where
  fields_done: "s = s' \<Longrightarrow> fields_copied all x [] s s'"
| fields_next: "map_of all (fst b) = Some d \<Longrightarrow> field_copied b d x s s1 \<Longrightarrow> fields_copied all x bs s1 s' \<Longrightarrow>
    fields_copied all x (b # bs) s s'"

lemma find_decoder_member:
  assumes "distinct (map fst bs)" "(n, d) \<in> set bs"
  shows "find_decoder bs n = Some d"
proof (cases "hashed bs")
  case True
  then have "distinct (map fst (map (\<lambda>(n, d). (calcHash n, d)) bs))"
    by (simp add: hashed_def comp_def case_prod_unfold)
  moreover have "(calcHash n, d) \<in> set (map (\<lambda>(n, d). (calcHash n, d)) bs)" using assms(2) by force
  ultimately show ?thesis using True by (simp add: find_decoder_def del: map_map set_map)
qed (use assms in \<open>simp add: find_decoder_def\<close>)

lemma fields_copiedD:
  assumes "fields_copied all x bs s s'" "distinct (map fst all)"
  shows "\<exists>kvs. encode_fields bs x = Inr kvs \<and> decode_fields all kvs s = Inr s'"
  using assms(1)
proof induction
  case (fields_next b d s s1 bs s')
  obtain n omit emp e where b: "b = (n, omit, emp, e)" by (cases b)
  have "find_decoder all n = Some d" using find_decoder_member [OF assms(2)] map_of_SomeD [OF fields_next.hyps(1)] by (simp add: b)
  with fields_next show ?case by (auto simp: b field_copied_def split: if_splits)
qed simp

lemma struct_copy:
  assumes "distinct (map fst (describeStruct fs))"
    and "\<And>x. good x \<Longrightarrow> fields_copied (describeStruct fs) x (typeFields fs' es) zero x"
  shows "json_copy (structEncoder fs' es) (structDecoder fs) zero good"
  using fields_copiedD [OF assms(2) assms(1)]
  by unfold_locales (fastforce simp: structEncoder_def structDecoder_def)+

lemma struct_not_null [simp]: "en_encode (structEncoder fs es) x \<noteq> Inr JNull"
  by (cases "encode_fields (typeFields fs es) x") (simp_all add: structEncoder_def)

lemma field_copied_base:
  assumes "json_copy e d zero good" "good x" "s = zero"
  shows "field_copied (out_field n omit e) d x s x"
  using json_copy.copied [OF assms(1,2)] json_copy.empty_zero [OF assms(1,2)] assms(3)
  by (auto simp: field_copied_def out_field_def)

lemma field_copied_part:
  assumes "upd (\<lambda>_. get s) s = s" "field_copied b d (get x) (get s) y"
  shows "field_copied (at_out get b) (at_field get upd d) x s (upd (\<lambda>_. y) s)"
  using assms by (auto simp: field_copied_def at_out_def at_field_def split: prod.splits if_splits)

lemma out_field_at: "out_field n omit (at_enc get e) = at_out get (out_field n omit e)"
  by (simp add: out_field_def at_enc_def at_out_def)

lemma out_names [simp]: "fst (out_field n omit e) = n" "fst (at_out get b) = fst b"
  by (simp_all add: out_field_def at_out_def split: prod.splits)

lemma en_fields_simps [simp]:
  "en_fields (at_enc get e) = map_option (map (at_out get)) (en_fields e)"
  "en_fields (structEncoder fs es) = Some (typeFields fs es)"
  by (simp_all add: at_enc_def structEncoder_def)

named_theorems copies

lemmas [copies] =
  string_copy.json_copy_axioms bool_copy.json_copy_axioms int_copy.json_copy_axioms float_copy.json_copy_axioms
  quantity_copy.json_copy_axioms ptr_copy slice_copy map_copy
  fields_next fields_done field_copied_part field_copied_base

lemma scalar_not_null [simp]: "en_encode stringEncoder s \<noteq> Inr JNull" "en_encode boolEncoder b \<noteq> Inr JNull"
  by (simp_all add: stringEncoder_def boolEncoder_def)

lemmas copy_eval =
  typeFields_def type_field_def isValidTag_def Let_def is_lower_def is_digit_def
  describeStruct_def describe_field_def calcFieldNames_def json_tag_def embedded_def out_field_at

end
