(* ===== verification/Manifests.thy ===== *)
theory Manifests
  imports Json_Decode V1alpha1
begin

section \<open>Reading manifests\<close>

text \<open>
  The fields of the structs of pkg/apis/agent/v1alpha1 with the tags that the source gives them,
  in its order, and of the vendored structs among their fields. \<^verbatim>\<open>ObjectMeta\<close> has more fields than
  the model, so its decoder is a parameter (\<open>md\<close>), as is the conversion of numbers to
  \<^verbatim>\<open>float32\<close> (\<open>f32\<close>).
\<close>

subsection \<open>Zero values\<close>

definition zero_storage :: storage where
  "zero_storage = \<lparr>st_Size = [], st_ClassName = None, st_SegmentSize = [], st_EntrySize = [], st_Level = [],
     st_FlushOnCommit = False\<rparr>"

definition zero_persistent :: persistent_partition_group where
  "zero_persistent = \<lparr>pp_Storage = zero_storage,
     pp_Compaction = \<lparr>co_Dynamic = False, co_FreeDiskBuffer = 0, co_FreeMemoryBuffer = 0\<rparr>\<rparr>"

definition zero_raft :: raft_partition_group where
  "zero_raft = \<lparr>rpg_Persistent = zero_persistent, rpg_PartitionSize = 0\<rparr>"

definition zero_primary_backup :: primary_backup_partition_group where
  "zero_primary_backup = \<lparr>pbg_MemberGroupStrategy = []\<rparr>"

definition zero_log :: log_partition_group where
  "zero_log = \<lparr>lpg_Persistent = zero_persistent, lpg_MemberGroupStrategy = []\<rparr>"

definition zero_quantity :: quantity where
  "zero_quantity = \<lparr>q_value = 0, q_scale = 0, q_dec = None, q_str = [], q_format = DecimalSI\<rparr>"

definition zero_env_source :: env_var_source where
  "zero_env_source = \<lparr>evs_FieldRef = None, evs_ResourceFieldRef = None, evs_ConfigMapKeyRef = None, evs_SecretKeyRef = None\<rparr>"

definition zero_env_var :: env_var where
  "zero_env_var = \<lparr>ev_Name = [], ev_Value = [], ev_ValueFrom = None\<rparr>"

definition zero_meta :: object_meta where
  "zero_meta = \<lparr>om_Name = [], om_Namespace = [], om_UID = [], om_Labels = fmempty, om_Annotations = fmempty,
     om_OwnerReferences = []\<rparr>"

definition zero_group :: partition_group where
  "zero_group = \<lparr>pg_Meta = zero_meta,
     pg_Spec = \<lparr>gs_Cluster = [], gs_Version = [], gs_Size = 0, gs_Partitions = 0, gs_Env = [], gs_Resources = no_resources,
       gs_Raft = None, gs_PrimaryBackup = None, gs_Log = None\<rparr>,
     pg_StatusServiceName = []\<rparr>"

definition zero_cluster :: atomix_cluster where
  "zero_cluster = \<lparr>ac_Meta = zero_meta,
     ac_Spec = \<lparr>cs_Version = [], cs_Size = 0, cs_Env = [], cs_Resources = no_resources, cs_Storage = zero_storage\<rparr>,
     ac_StatusServiceName = []\<rparr>"

definition zero_benchmark :: atomix_benchmark where
  "zero_benchmark = \<lparr>ab_Meta = zero_meta,
     ab_Spec = \<lparr>bs_Cluster = [], bs_Version = [], bs_Workers = 0, bs_Env = [], bs_Resources = no_resources\<rparr>,
     ab_StatusServiceName = []\<rparr>"

subsection \<open>Vendored structs\<close>

abbreviation plain_field :: "string \<Rightarrow> string \<Rightarrow> 's decoder \<Rightarrow> 's field" where
  "plain_field name tag d \<equiv> Field name (json_tag tag) False [] d"

definition FieldSelector_fields :: "object_field_selector field list" where
  "FieldSelector_fields =
     [plain_field ''APIVersion'' ''apiVersion,omitempty'' (at_field ofs_APIVersion ofs_APIVersion_update stringCodec),
      plain_field ''FieldPath'' ''fieldPath'' (at_field ofs_FieldPath ofs_FieldPath_update stringCodec)]"

definition ResourceFieldSelector_fields :: "resource_field_selector field list" where
  "ResourceFieldSelector_fields =
     [plain_field ''ContainerName'' ''containerName,omitempty'' (at_field rfs_ContainerName rfs_ContainerName_update stringCodec),
      plain_field ''Resource'' ''resource'' (at_field rfs_Resource rfs_Resource_update stringCodec),
      plain_field ''Divisor'' ''divisor,omitempty'' (at_field rfs_Divisor rfs_Divisor_update quantityDecoder)]"

text \<open>\<^verbatim>\<open>LocalObjectReference\<close> is embedded; its one field is the name.\<close>

definition KeySelector_fields :: "key_selector field list" where
  "KeySelector_fields =
     (let reference = at_field ks_Name ks_Name_update stringCodec
      in [Field ''LocalObjectReference'' (json_tag '',inline'') True
            (describeStruct [plain_field ''Name'' ''name,omitempty'' reference])
            (structDecoder [plain_field ''Name'' ''name,omitempty'' reference]),
          plain_field ''Key'' ''key'' (at_field ks_Key ks_Key_update stringCodec),
          plain_field ''Optional'' ''optional,omitempty'' (at_field ks_Optional ks_Optional_update (OptionalDecoder False boolCodec))])"

definition EnvVarSource_fields :: "env_var_source field list" where
  "EnvVarSource_fields =
     [plain_field ''FieldRef'' ''fieldRef,omitempty'' (at_field evs_FieldRef evs_FieldRef_update
        (OptionalDecoder \<lparr>ofs_APIVersion = [], ofs_FieldPath = []\<rparr> (structDecoder FieldSelector_fields))),
      plain_field ''ResourceFieldRef'' ''resourceFieldRef,omitempty'' (at_field evs_ResourceFieldRef evs_ResourceFieldRef_update
        (OptionalDecoder \<lparr>rfs_ContainerName = [], rfs_Resource = [], rfs_Divisor = zero_quantity\<rparr>
          (structDecoder ResourceFieldSelector_fields))),
      plain_field ''ConfigMapKeyRef'' ''configMapKeyRef,omitempty'' (at_field evs_ConfigMapKeyRef evs_ConfigMapKeyRef_update
        (OptionalDecoder \<lparr>ks_Name = [], ks_Key = [], ks_Optional = None\<rparr> (structDecoder KeySelector_fields))),
      plain_field ''SecretKeyRef'' ''secretKeyRef,omitempty'' (at_field evs_SecretKeyRef evs_SecretKeyRef_update
        (OptionalDecoder \<lparr>ks_Name = [], ks_Key = [], ks_Optional = None\<rparr> (structDecoder KeySelector_fields)))]"

definition EnvVar_fields :: "env_var field list" where
  "EnvVar_fields =
     [plain_field ''Name'' ''name'' (at_field ev_Name ev_Name_update stringCodec),
      plain_field ''Value'' ''value,omitempty'' (at_field ev_Value ev_Value_update stringCodec),
      plain_field ''ValueFrom'' ''valueFrom,omitempty'' (at_field ev_ValueFrom ev_ValueFrom_update
        (OptionalDecoder zero_env_source (structDecoder EnvVarSource_fields)))]"

definition envDecoder :: "env_var list decoder" where
  "envDecoder = sliceDecoder zero_env_var (structDecoder EnvVar_fields)"

definition ResourceRequirements_fields :: "resource_requirements field list" where
  "ResourceRequirements_fields =
     [plain_field ''Limits'' ''limits,omitempty'' (at_field rr_Limits rr_Limits_update (mapDecoder zero_quantity quantityDecoder)),
      plain_field ''Requests'' ''requests,omitempty'' (at_field rr_Requests rr_Requests_update (mapDecoder zero_quantity quantityDecoder))]"

definition TypeMeta_fields :: "type_meta field list" where
  "TypeMeta_fields =
     [plain_field ''Kind'' ''kind,omitempty'' (at_field tm_Kind tm_Kind_update stringCodec),
      plain_field ''APIVersion'' ''apiVersion,omitempty'' (at_field tm_APIVersion tm_APIVersion_update stringCodec)]"

subsection \<open>The protocols of a partition group\<close>

definition Storage_fields :: "storage field list" where
  "Storage_fields =
     [plain_field ''Size'' ''size,omitempty'' (at_field st_Size st_Size_update stringCodec),
      plain_field ''ClassName'' ''className,omitempty'' (at_field st_ClassName st_ClassName_update (OptionalDecoder [] stringCodec)),
      plain_field ''SegmentSize'' ''segmentSize,omitempty'' (at_field st_SegmentSize st_SegmentSize_update stringCodec),
      plain_field ''EntrySize'' ''entrySize,omitempty'' (at_field st_EntrySize st_EntrySize_update stringCodec),
      plain_field ''Level'' ''level,omitempty'' (at_field st_Level st_Level_update stringCodec),
      plain_field ''FlushOnCommit'' ''flushOnCommit,omitempty'' (at_field st_FlushOnCommit st_FlushOnCommit_update boolCodec)]"

definition Compaction_fields :: "(string \<Rightarrow> go_error + float32) \<Rightarrow> compaction field list" where
  "Compaction_fields f32 =
     [plain_field ''Dynamic'' ''dynamic,omitempty'' (at_field co_Dynamic co_Dynamic_update boolCodec),
      plain_field ''FreeDiskBuffer'' ''freeDiskBuffer,omitempty'' (at_field co_FreeDiskBuffer co_FreeDiskBuffer_update (float32Codec f32)),
      plain_field ''FreeMemoryBuffer'' ''freeMemoryBuffer,omitempty'' (at_field co_FreeMemoryBuffer co_FreeMemoryBuffer_update (float32Codec f32))]"

definition PersistentPartitionGroup_fields :: "(string \<Rightarrow> go_error + float32) \<Rightarrow> persistent_partition_group field list" where
  "PersistentPartitionGroup_fields f32 =
     [plain_field ''Storage'' ''storage,omitempty'' (at_field pp_Storage pp_Storage_update (structDecoder Storage_fields)),
      plain_field ''Compaction'' ''compaction,omitempty'' (at_field pp_Compaction pp_Compaction_update (structDecoder (Compaction_fields f32)))]"

definition RaftPartitionGroup_fields :: "(string \<Rightarrow> go_error + float32) \<Rightarrow> raft_partition_group field list" where
  "RaftPartitionGroup_fields f32 =
     [Field ''PersistentPartitionGroup'' (json_tag '',inline'') True
        (embedded rpg_Persistent rpg_Persistent_update (describeStruct (PersistentPartitionGroup_fields f32)))
        (at_field rpg_Persistent rpg_Persistent_update (structDecoder (PersistentPartitionGroup_fields f32))),
      plain_field ''PartitionSize'' ''partitionSize,omitempty'' (at_field rpg_PartitionSize rpg_PartitionSize_update intCodec)]"

definition PrimaryBackupPartitionGroup_fields :: "primary_backup_partition_group field list" where
  "PrimaryBackupPartitionGroup_fields =
     [plain_field ''MemberGroupStrategy'' ''memberGroupStrategy,omitempty''
        (at_field pbg_MemberGroupStrategy pbg_MemberGroupStrategy_update stringCodec)]"

definition LogPartitionGroup_fields :: "(string \<Rightarrow> go_error + float32) \<Rightarrow> log_partition_group field list" where
  "LogPartitionGroup_fields f32 =
     [Field ''PersistentPartitionGroup'' (json_tag '',inline'') True
        (embedded lpg_Persistent lpg_Persistent_update (describeStruct (PersistentPartitionGroup_fields f32)))
        (at_field lpg_Persistent lpg_Persistent_update (structDecoder (PersistentPartitionGroup_fields f32))),
      plain_field ''MemberGroupStrategy'' ''memberGroupStrategy,omitempty''
        (at_field lpg_MemberGroupStrategy lpg_MemberGroupStrategy_update stringCodec)]"

subsection \<open>Specifications\<close>

text \<open>The tag of the last field has a colon where the others have a comma.\<close>

definition PartitionGroupSpec_fields :: "(string \<Rightarrow> go_error + float32) \<Rightarrow> partition_group_spec field list" where
  "PartitionGroupSpec_fields f32 =
     [plain_field ''Cluster'' ''cluster,omitempty'' (at_field gs_Cluster gs_Cluster_update stringCodec),
      plain_field ''Version'' ''version,omitempty'' (at_field gs_Version gs_Version_update stringCodec),
      plain_field ''Size'' ''size,omitempty'' (at_field gs_Size gs_Size_update intCodec),
      plain_field ''Partitions'' ''partitions,omitempty'' (at_field gs_Partitions gs_Partitions_update intCodec),
      plain_field ''Env'' ''env,omitempty'' (at_field gs_Env gs_Env_update envDecoder),
      plain_field ''Resources'' ''resources,omitempty'' (at_field gs_Resources gs_Resources_update (structDecoder ResourceRequirements_fields)),
      plain_field ''Raft'' ''raft,omitempty'' (at_field gs_Raft gs_Raft_update
        (OptionalDecoder zero_raft (structDecoder (RaftPartitionGroup_fields f32)))),
      plain_field ''PrimaryBackup'' ''primaryBackup,omitempty'' (at_field gs_PrimaryBackup gs_PrimaryBackup_update
        (OptionalDecoder zero_primary_backup (structDecoder PrimaryBackupPartitionGroup_fields))),
      plain_field ''Log'' ''log:omitempty'' (at_field gs_Log gs_Log_update
        (OptionalDecoder zero_log (structDecoder (LogPartitionGroup_fields f32))))]"

definition ClusterSpec_fields :: "cluster_spec field list" where
  "ClusterSpec_fields =
     [plain_field ''Version'' ''version,omitempty'' (at_field cs_Version cs_Version_update stringCodec),
      plain_field ''Size'' ''size,omitempty'' (at_field cs_Size cs_Size_update intCodec),
      plain_field ''Env'' ''env,omitempty'' (at_field cs_Env cs_Env_update envDecoder),
      plain_field ''Resources'' ''resources,omitempty'' (at_field cs_Resources cs_Resources_update (structDecoder ResourceRequirements_fields)),
      plain_field ''Storage'' ''storage,omitempty'' (at_field cs_Storage cs_Storage_update (structDecoder Storage_fields))]"

definition AtomixBenchmarkSpec_fields :: "benchmark_spec field list" where
  "AtomixBenchmarkSpec_fields =
     [plain_field ''Cluster'' ''cluster,omitempty'' (at_field bs_Cluster bs_Cluster_update stringCodec),
      plain_field ''Version'' ''version,omitempty'' (at_field bs_Version bs_Version_update stringCodec),
      plain_field ''Workers'' ''workers,omitempty'' (at_field bs_Workers bs_Workers_update intCodec),
      plain_field ''Env'' ''env,omitempty'' (at_field bs_Env bs_Env_update envDecoder),
      plain_field ''Resources'' ''resources,omitempty'' (at_field bs_Resources bs_Resources_update (structDecoder ResourceRequirements_fields))]"

text \<open>The three statuses: a struct with the name of the service.\<close>

definition Status_fields :: "string field list" where
  "Status_fields = [plain_field ''ServiceName'' ''serviceName,omitempty'' stringCodec]"

subsection \<open>Resources\<close>

text \<open>
  The three resources have the same four fields: \<open>meta\<close>, \<open>spec\<close> and \<open>service\<close> are where the
  records have them. \<^verbatim>\<open>TypeMeta\<close> is kept beside the record.
\<close>

definition Resource_fields ::
  "object_meta decoder \<Rightarrow> 'p field list \<Rightarrow> ('s \<Rightarrow> object_meta) \<Rightarrow> ((object_meta \<Rightarrow> object_meta) \<Rightarrow> 's \<Rightarrow> 's) \<Rightarrow>
   ('s \<Rightarrow> 'p) \<Rightarrow> (('p \<Rightarrow> 'p) \<Rightarrow> 's \<Rightarrow> 's) \<Rightarrow> ('s \<Rightarrow> string) \<Rightarrow> ((string \<Rightarrow> string) \<Rightarrow> 's \<Rightarrow> 's) \<Rightarrow>
   (type_meta \<times> 's) field list" where
  "Resource_fields md spec_fields meta upd_meta spec upd_spec service upd_service =
     [Field ''TypeMeta'' (json_tag '',inline'') True
        (embedded fst apfst (describeStruct TypeMeta_fields)) (at_field fst apfst (structDecoder TypeMeta_fields)),
      Field ''ObjectMeta'' (json_tag ''metadata,omitempty'') True [] (at_field snd apsnd (at_field meta upd_meta md)),
      plain_field ''Spec'' ''spec,omitempty'' (at_field snd apsnd (at_field spec upd_spec (structDecoder spec_fields))),
      plain_field ''Status'' ''status,omitempty'' (at_field snd apsnd (at_field service upd_service (structDecoder Status_fields)))]"

definition zero_type_meta :: type_meta where
  "zero_type_meta = \<lparr>tm_Kind = [], tm_APIVersion = []\<rparr>"

definition decode_PartitionGroup ::
  "object_meta decoder \<Rightarrow> (string \<Rightarrow> go_error + float32) \<Rightarrow> json \<Rightarrow> go_error + type_meta \<times> partition_group" where
  "decode_PartitionGroup md f32 j =
     structDecoder (Resource_fields md (PartitionGroupSpec_fields f32) pg_Meta pg_Meta_update pg_Spec pg_Spec_update
       pg_StatusServiceName pg_StatusServiceName_update) j (zero_type_meta, zero_group)"

definition decode_AtomixCluster :: "object_meta decoder \<Rightarrow> json \<Rightarrow> go_error + type_meta \<times> atomix_cluster" where
  "decode_AtomixCluster md j =
     structDecoder (Resource_fields md ClusterSpec_fields ac_Meta ac_Meta_update ac_Spec ac_Spec_update
       ac_StatusServiceName ac_StatusServiceName_update) j (zero_type_meta, zero_cluster)"

definition decode_AtomixBenchmark :: "object_meta decoder \<Rightarrow> json \<Rightarrow> go_error + type_meta \<times> atomix_benchmark" where
  "decode_AtomixBenchmark md j =
     structDecoder (Resource_fields md AtomixBenchmarkSpec_fields ab_Meta ab_Meta_update ab_Spec ab_Spec_update
       ab_StatusServiceName ab_StatusServiceName_update) j (zero_type_meta, zero_benchmark)"

end
