(* ===== verification/Manifest_Encode.thy ===== *)
theory Manifest_Encode
  imports Json_Encode Manifests
begin

section \<open>Writing custom resources as JSON\<close>

text \<open>
  The encoders of the fields in \<open>Manifests\<close>, in the same order. The metadata (\<open>me\<close>), the text of
  \<^verbatim>\<open>float32\<close> numbers (\<open>ft\<close>) and of quantities without a cached text (\<open>canonical\<close>) are parameters.
\<close>

subsection \<open>Vendored structs\<close>

definition FieldSelector_encoder :: "object_field_selector enc" where
  "FieldSelector_encoder =
     structEncoder FieldSelector_fields [at_enc ofs_APIVersion stringEncoder, at_enc ofs_FieldPath stringEncoder]"

definition ResourceFieldSelector_encoder :: "(quantity \<Rightarrow> string) \<Rightarrow> resource_field_selector enc" where
  "ResourceFieldSelector_encoder canonical =
     structEncoder ResourceFieldSelector_fields
       [at_enc rfs_ContainerName stringEncoder, at_enc rfs_Resource stringEncoder,
        at_enc rfs_Divisor (quantityEncoder canonical)]"

definition KeySelector_encoder :: "key_selector enc" where
  "KeySelector_encoder =
     structEncoder KeySelector_fields
       [structEncoder
          [plain_field ''Name'' ''name,omitempty'' (at_field ks_Name ks_Name_update stringCodec)]
          [at_enc ks_Name stringEncoder],
        at_enc ks_Key stringEncoder, at_enc ks_Optional (ptrEncoder boolEncoder)]"

definition EnvVarSource_encoder :: "(quantity \<Rightarrow> string) \<Rightarrow> env_var_source enc" where
  "EnvVarSource_encoder canonical =
     structEncoder EnvVarSource_fields
       [at_enc evs_FieldRef (ptrEncoder FieldSelector_encoder),
        at_enc evs_ResourceFieldRef (ptrEncoder (ResourceFieldSelector_encoder canonical)),
        at_enc evs_ConfigMapKeyRef (ptrEncoder KeySelector_encoder),
        at_enc evs_SecretKeyRef (ptrEncoder KeySelector_encoder)]"

definition EnvVar_encoder :: "(quantity \<Rightarrow> string) \<Rightarrow> env_var enc" where
  "EnvVar_encoder canonical =
     structEncoder EnvVar_fields
       [at_enc ev_Name stringEncoder, at_enc ev_Value stringEncoder,
        at_enc ev_ValueFrom (ptrEncoder (EnvVarSource_encoder canonical))]"

definition ResourceRequirements_encoder :: "(quantity \<Rightarrow> string) \<Rightarrow> resource_requirements enc" where
  "ResourceRequirements_encoder canonical =
     structEncoder ResourceRequirements_fields
       [at_enc rr_Limits (mapEncoder (quantityEncoder canonical)),
        at_enc rr_Requests (mapEncoder (quantityEncoder canonical))]"

definition TypeMeta_encoder :: "type_meta enc" where
  "TypeMeta_encoder =
     structEncoder TypeMeta_fields [at_enc tm_Kind stringEncoder, at_enc tm_APIVersion stringEncoder]"

subsection \<open>The custom resources\<close>

definition Storage_encoder :: "storage enc" where
  "Storage_encoder =
     structEncoder Storage_fields
       [at_enc st_Size stringEncoder, at_enc st_ClassName (ptrEncoder stringEncoder), at_enc st_SegmentSize stringEncoder,
        at_enc st_EntrySize stringEncoder, at_enc st_Level stringEncoder, at_enc st_FlushOnCommit boolEncoder]"

text \<open>The decoder of numbers is only there for the tags.\<close>

abbreviation no_numbers :: "string \<Rightarrow> go_error + float32" where
  "no_numbers l \<equiv> Inl decode_error"

type_synonym float_printer = "float32 \<Rightarrow> go_error + string"

definition Compaction_encoder :: "float_printer \<Rightarrow> compaction enc" where
  "Compaction_encoder ft =
     structEncoder (Compaction_fields no_numbers)
       [at_enc co_Dynamic boolEncoder, at_enc co_FreeDiskBuffer (float32Encoder ft),
        at_enc co_FreeMemoryBuffer (float32Encoder ft)]"

definition PersistentPartitionGroup_encoder :: "float_printer \<Rightarrow> persistent_partition_group enc" where
  "PersistentPartitionGroup_encoder ft =
     structEncoder (PersistentPartitionGroup_fields no_numbers)
       [at_enc pp_Storage Storage_encoder, at_enc pp_Compaction (Compaction_encoder ft)]"

definition RaftPartitionGroup_encoder :: "float_printer \<Rightarrow> raft_partition_group enc" where
  "RaftPartitionGroup_encoder ft =
     structEncoder (RaftPartitionGroup_fields no_numbers)
       [at_enc rpg_Persistent (PersistentPartitionGroup_encoder ft), at_enc rpg_PartitionSize intEncoder]"

definition PrimaryBackupPartitionGroup_encoder :: "primary_backup_partition_group enc" where
  "PrimaryBackupPartitionGroup_encoder =
     structEncoder PrimaryBackupPartitionGroup_fields [at_enc pbg_MemberGroupStrategy stringEncoder]"

definition LogPartitionGroup_encoder :: "float_printer \<Rightarrow> log_partition_group enc" where
  "LogPartitionGroup_encoder ft =
     structEncoder (LogPartitionGroup_fields no_numbers)
       [at_enc lpg_Persistent (PersistentPartitionGroup_encoder ft), at_enc lpg_MemberGroupStrategy stringEncoder]"

definition PartitionGroupSpec_encoder :: "float_printer \<Rightarrow> (quantity \<Rightarrow> string) \<Rightarrow> partition_group_spec enc" where
  "PartitionGroupSpec_encoder ft canonical =
     structEncoder (PartitionGroupSpec_fields no_numbers)
       [at_enc gs_Cluster stringEncoder, at_enc gs_Version stringEncoder, at_enc gs_Size intEncoder,
        at_enc gs_Partitions intEncoder, at_enc gs_Env (sliceEncoder (EnvVar_encoder canonical)),
        at_enc gs_Resources (ResourceRequirements_encoder canonical),
        at_enc gs_Raft (ptrEncoder (RaftPartitionGroup_encoder ft)),
        at_enc gs_PrimaryBackup (ptrEncoder PrimaryBackupPartitionGroup_encoder),
        at_enc gs_Log (ptrEncoder (LogPartitionGroup_encoder ft))]"

definition ClusterSpec_encoder :: "(quantity \<Rightarrow> string) \<Rightarrow> cluster_spec enc" where
  "ClusterSpec_encoder canonical =
     structEncoder ClusterSpec_fields
       [at_enc cs_Version stringEncoder, at_enc cs_Size intEncoder,
        at_enc cs_Env (sliceEncoder (EnvVar_encoder canonical)),
        at_enc cs_Resources (ResourceRequirements_encoder canonical), at_enc cs_Storage Storage_encoder]"

definition AtomixBenchmarkSpec_encoder :: "(quantity \<Rightarrow> string) \<Rightarrow> benchmark_spec enc" where
  "AtomixBenchmarkSpec_encoder canonical =
     structEncoder AtomixBenchmarkSpec_fields
       [at_enc bs_Cluster stringEncoder, at_enc bs_Version stringEncoder, at_enc bs_Workers intEncoder,
        at_enc bs_Env (sliceEncoder (EnvVar_encoder canonical)),
        at_enc bs_Resources (ResourceRequirements_encoder canonical)]"

definition Status_encoder :: "string enc" where
  "Status_encoder = structEncoder Status_fields [stringEncoder]"

definition Resource_encoder ::
  "object_meta encoder \<Rightarrow> 'p enc \<Rightarrow> ('s \<Rightarrow> object_meta) \<Rightarrow> ('s \<Rightarrow> 'p) \<Rightarrow> ('s \<Rightarrow> string) \<Rightarrow> (type_meta \<times> 's) field list \<Rightarrow>
   (type_meta \<times> 's) enc" where
  "Resource_encoder me spec_encoder meta spec service table =
     structEncoder table
       [at_enc fst TypeMeta_encoder, at_enc snd (at_enc meta (Enc (\<lambda>m. False) me None)),
        at_enc snd (at_enc spec spec_encoder), at_enc snd (at_enc service Status_encoder)]"

text \<open>\<^verbatim>\<open>json.Marshal\<close> of a custom resource\<close>

abbreviation no_metadata :: "object_meta decoder" where
  "no_metadata j m \<equiv> Inl decode_error"

definition encode_PartitionGroup ::
  "object_meta encoder \<Rightarrow> float_printer \<Rightarrow> (quantity \<Rightarrow> string) \<Rightarrow> (type_meta \<times> partition_group) encoder" where
  "encode_PartitionGroup me ft canonical =
     en_encode (Resource_encoder me (PartitionGroupSpec_encoder ft canonical) pg_Meta pg_Spec pg_StatusServiceName
       (Resource_fields no_metadata (PartitionGroupSpec_fields no_numbers) pg_Meta pg_Meta_update pg_Spec pg_Spec_update
          pg_StatusServiceName pg_StatusServiceName_update))"

definition encode_AtomixCluster ::
  "object_meta encoder \<Rightarrow> (quantity \<Rightarrow> string) \<Rightarrow> (type_meta \<times> atomix_cluster) encoder" where
  "encode_AtomixCluster me canonical =
     en_encode (Resource_encoder me (ClusterSpec_encoder canonical) ac_Meta ac_Spec ac_StatusServiceName
       (Resource_fields no_metadata ClusterSpec_fields ac_Meta ac_Meta_update ac_Spec ac_Spec_update
          ac_StatusServiceName ac_StatusServiceName_update))"

definition encode_AtomixBenchmark ::
  "object_meta encoder \<Rightarrow> (quantity \<Rightarrow> string) \<Rightarrow> (type_meta \<times> atomix_benchmark) encoder" where
  "encode_AtomixBenchmark me canonical =
     en_encode (Resource_encoder me (AtomixBenchmarkSpec_encoder canonical) ab_Meta ab_Spec ab_StatusServiceName
       (Resource_fields no_metadata AtomixBenchmarkSpec_fields ab_Meta ab_Meta_update ab_Spec ab_Spec_update
          ab_StatusServiceName ab_StatusServiceName_update))"

subsection \<open>Copies\<close>

lemma encoders_not_null [simp]:
  "en_encode FieldSelector_encoder x1 \<noteq> Inr JNull" "en_encode (ResourceFieldSelector_encoder canonical) x2 \<noteq> Inr JNull"
  "en_encode KeySelector_encoder x3 \<noteq> Inr JNull" "en_encode (EnvVarSource_encoder canonical) x4 \<noteq> Inr JNull"
  "en_encode (RaftPartitionGroup_encoder ft) x5 \<noteq> Inr JNull" "en_encode PrimaryBackupPartitionGroup_encoder x6 \<noteq> Inr JNull"
  "en_encode (LogPartitionGroup_encoder ft) x7 \<noteq> Inr JNull"
  by (simp_all add: FieldSelector_encoder_def ResourceFieldSelector_encoder_def KeySelector_encoder_def EnvVarSource_encoder_def
      RaftPartitionGroup_encoder_def PrimaryBackupPartitionGroup_encoder_def LogPartitionGroup_encoder_def)

lemma FieldSelector_copy [copies]:
  "json_copy FieldSelector_encoder (structDecoder FieldSelector_fields) \<lparr>ofs_APIVersion = [], ofs_FieldPath = []\<rparr> (\<lambda>_. True)"
  unfolding FieldSelector_encoder_def
  by (rule struct_copy; simp add: copy_eval FieldSelector_fields_def)
    (rule copies | simp)+

definition field_selector_cached :: "resource_field_selector \<Rightarrow> bool" where
  "field_selector_cached r = cached_text (rfs_Divisor r)"

lemma ResourceFieldSelector_copy [copies]:
  "json_copy (ResourceFieldSelector_encoder canonical) (structDecoder ResourceFieldSelector_fields)
     \<lparr>rfs_ContainerName = [], rfs_Resource = [], rfs_Divisor = zero_quantity\<rparr> field_selector_cached"
  unfolding ResourceFieldSelector_encoder_def
  by (rule struct_copy; simp add: copy_eval ResourceFieldSelector_fields_def)
    (rule copies | simp add: field_selector_cached_def)+

lemma KeySelector_copy [copies]:
  "json_copy KeySelector_encoder (structDecoder KeySelector_fields) \<lparr>ks_Name = [], ks_Key = [], ks_Optional = None\<rparr> (\<lambda>_. True)"
  unfolding KeySelector_encoder_def
  by (rule struct_copy; simp add: copy_eval KeySelector_fields_def)
    (rule copies | simp add: option.pred_True)+

definition source_cached :: "env_var_source \<Rightarrow> bool" where
  "source_cached s = pred_option field_selector_cached (evs_ResourceFieldRef s)"

lemma EnvVarSource_copy [copies]:
  "json_copy (EnvVarSource_encoder canonical) (structDecoder EnvVarSource_fields) zero_env_source source_cached"
  unfolding EnvVarSource_encoder_def
  by (rule struct_copy; simp add: copy_eval EnvVarSource_fields_def zero_env_source_def source_cached_def)
    (rule copies | simp add: option.pred_True)+
lemma EnvVar_copy [copies]:
  "json_copy (EnvVar_encoder canonical) (structDecoder EnvVar_fields) zero_env_var
     (\<lambda>v. pred_option source_cached (ev_ValueFrom v))"
  unfolding EnvVar_encoder_def
  by (rule struct_copy; simp add: copy_eval EnvVar_fields_def zero_env_var_def)
    (rule copies | simp)+

definition env_cached :: "env_var list \<Rightarrow> bool" where
  "env_cached vs = list_all (\<lambda>v. pred_option source_cached (ev_ValueFrom v)) vs"

lemma env_copy [copies]:
  "json_copy (sliceEncoder (EnvVar_encoder canonical)) envDecoder [] env_cached"
  unfolding envDecoder_def env_cached_def by (rule copies)+

definition resources_cached :: "resource_requirements \<Rightarrow> bool" where
  "resources_cached r \<longleftrightarrow> fmpred (\<lambda>k. cached_text) (rr_Limits r) \<and> fmpred (\<lambda>k. cached_text) (rr_Requests r)"

lemma ResourceRequirements_copy [copies]:
  "json_copy (ResourceRequirements_encoder canonical) (structDecoder ResourceRequirements_fields) no_resources resources_cached"
  unfolding ResourceRequirements_encoder_def
  by (rule struct_copy; simp add: copy_eval ResourceRequirements_fields_def no_resources_def resources_cached_def)
    (rule copies | simp)+

lemma Storage_copy [copies]:
  "json_copy Storage_encoder (structDecoder Storage_fields) zero_storage (\<lambda>s. True)"
  unfolding Storage_encoder_def
  by (rule struct_copy; simp add: copy_eval Storage_fields_def zero_storage_def)
    (rule copies | simp add: option.pred_True)+

definition compaction_text :: "float_printer \<Rightarrow> (string \<Rightarrow> go_error + float32) \<Rightarrow> compaction \<Rightarrow> bool" where
  "compaction_text ft f32 c \<longleftrightarrow> float_text ft f32 (co_FreeDiskBuffer c) \<and> float_text ft f32 (co_FreeMemoryBuffer c)"

lemma Compaction_copy [copies]:
  "json_copy (Compaction_encoder ft) (structDecoder (Compaction_fields f32))
     \<lparr>co_Dynamic = False, co_FreeDiskBuffer = 0, co_FreeMemoryBuffer = 0\<rparr> (compaction_text ft f32)"
  unfolding Compaction_encoder_def
  by (rule struct_copy; simp add: copy_eval Compaction_fields_def compaction_text_def)
    (rule copies | simp)+

lemma PersistentPartitionGroup_copy [copies]:
  "json_copy (PersistentPartitionGroup_encoder ft) (structDecoder (PersistentPartitionGroup_fields f32)) zero_persistent
     (\<lambda>p. compaction_text ft f32 (pp_Compaction p))"
  unfolding PersistentPartitionGroup_encoder_def
  by (rule struct_copy; simp add: copy_eval PersistentPartitionGroup_fields_def zero_persistent_def)
    (rule copies | simp)+

lemma RaftPartitionGroup_copy [copies]:
  "json_copy (RaftPartitionGroup_encoder ft) (structDecoder (RaftPartitionGroup_fields f32)) zero_raft
     (\<lambda>r. compaction_text ft f32 (pp_Compaction (rpg_Persistent r)))"
  unfolding RaftPartitionGroup_encoder_def PersistentPartitionGroup_encoder_def
  by (rule struct_copy; simp add: copy_eval RaftPartitionGroup_fields_def PersistentPartitionGroup_fields_def zero_raft_def zero_persistent_def)
    (rule copies | simp)+

lemma PrimaryBackupPartitionGroup_copy [copies]:
  "json_copy PrimaryBackupPartitionGroup_encoder (structDecoder PrimaryBackupPartitionGroup_fields) zero_primary_backup (\<lambda>b. True)"
  unfolding PrimaryBackupPartitionGroup_encoder_def
  by (rule struct_copy; simp add: copy_eval PrimaryBackupPartitionGroup_fields_def zero_primary_backup_def)
    (rule copies | simp)+

lemma LogPartitionGroup_copy [copies]:
  "json_copy (LogPartitionGroup_encoder ft) (structDecoder (LogPartitionGroup_fields f32)) zero_log
     (\<lambda>l. compaction_text ft f32 (pp_Compaction (lpg_Persistent l)))"
  unfolding LogPartitionGroup_encoder_def PersistentPartitionGroup_encoder_def
  by (rule struct_copy; simp add: copy_eval LogPartitionGroup_fields_def PersistentPartitionGroup_fields_def zero_log_def zero_persistent_def)
    (rule copies | simp)+

definition group_spec_copied :: "float_printer \<Rightarrow> (string \<Rightarrow> go_error + float32) \<Rightarrow> partition_group_spec \<Rightarrow> bool" where
  "group_spec_copied ft f32 s \<longleftrightarrow>
     env_cached (gs_Env s) \<and> resources_cached (gs_Resources s) \<and>
     pred_option (\<lambda>r. compaction_text ft f32 (pp_Compaction (rpg_Persistent r))) (gs_Raft s) \<and>
     pred_option (\<lambda>l. compaction_text ft f32 (pp_Compaction (lpg_Persistent l))) (gs_Log s)"

lemma PartitionGroupSpec_copy [copies]:
  "json_copy (PartitionGroupSpec_encoder ft canonical) (structDecoder (PartitionGroupSpec_fields f32)) (pg_Spec zero_group)
     (group_spec_copied ft f32)"
  unfolding PartitionGroupSpec_encoder_def
  by (rule struct_copy; simp add: copy_eval PartitionGroupSpec_fields_def zero_group_def group_spec_copied_def)
    (rule copies | simp add: option.pred_True)+

lemma ClusterSpec_copy [copies]:
  "json_copy (ClusterSpec_encoder canonical) (structDecoder ClusterSpec_fields) (ac_Spec zero_cluster)
     (\<lambda>s. env_cached (cs_Env s) \<and> resources_cached (cs_Resources s))"
  unfolding ClusterSpec_encoder_def
  by (rule struct_copy; simp add: copy_eval ClusterSpec_fields_def zero_cluster_def)
    (rule copies | simp)+

lemma AtomixBenchmarkSpec_copy [copies]:
  "json_copy (AtomixBenchmarkSpec_encoder canonical) (structDecoder AtomixBenchmarkSpec_fields) (ab_Spec zero_benchmark)
     (\<lambda>s. env_cached (bs_Env s) \<and> resources_cached (bs_Resources s))"
  unfolding AtomixBenchmarkSpec_encoder_def
  by (rule struct_copy; simp add: copy_eval AtomixBenchmarkSpec_fields_def zero_benchmark_def)
    (rule copies | simp)+

lemma Status_copy [copies]: "json_copy Status_encoder (structDecoder Status_fields) [] (\<lambda>s. True)"
  unfolding Status_encoder_def
  by (rule struct_copy; simp add: copy_eval Status_fields_def)
    (rule copies | simp)+

lemma TypeMeta_copy [copies]:
  "json_copy TypeMeta_encoder (structDecoder TypeMeta_fields) zero_type_meta (\<lambda>t. True)"
  unfolding TypeMeta_encoder_def
  by (rule struct_copy; simp add: copy_eval TypeMeta_fields_def zero_type_meta_def)
    (rule copies | simp)+

text \<open>Metadata that is read as it was written\<close>

definition meta_copied :: "object_meta encoder \<Rightarrow> object_meta decoder \<Rightarrow> object_meta \<Rightarrow> bool" where
  "meta_copied me md m \<longleftrightarrow> (case me m of Inl err \<Rightarrow> False | Inr j \<Rightarrow> md j zero_meta = Inr m)"

interpretation meta_copy: json_copy "Enc (\<lambda>m. False) me None" md zero_meta "meta_copied me md" for me md
  by unfold_locales (auto simp: meta_copied_def split: sum.splits)

lemmas [copies] = meta_copy.json_copy_axioms

lemmas resource_eval = copy_eval Resource_encoder_def Resource_fields_def TypeMeta_encoder_def TypeMeta_fields_def

lemma zero_resources [simp]:
  "pg_Meta zero_group = zero_meta" "pg_StatusServiceName zero_group = []"
  "ac_Meta zero_cluster = zero_meta" "ac_StatusServiceName zero_cluster = []"
  "ab_Meta zero_benchmark = zero_meta" "ab_StatusServiceName zero_benchmark = []"
  by (simp_all add: zero_group_def zero_cluster_def zero_benchmark_def)

lemma PartitionGroup_copy:
  "json_copy (Resource_encoder me (PartitionGroupSpec_encoder ft canonical) pg_Meta pg_Spec pg_StatusServiceName
       (Resource_fields no_metadata (PartitionGroupSpec_fields no_numbers) pg_Meta pg_Meta_update pg_Spec pg_Spec_update
          pg_StatusServiceName pg_StatusServiceName_update))
     (structDecoder (Resource_fields md (PartitionGroupSpec_fields f32) pg_Meta pg_Meta_update pg_Spec pg_Spec_update
       pg_StatusServiceName pg_StatusServiceName_update))
     (zero_type_meta, zero_group) (\<lambda>(t, g). meta_copied me md (pg_Meta g) \<and> group_spec_copied ft f32 (pg_Spec g))"
  unfolding Resource_encoder_def TypeMeta_encoder_def
  by (rule struct_copy; clarsimp simp add: resource_eval zero_type_meta_def)
    (rule copies | simp)+

lemma AtomixCluster_copy:
  "json_copy (Resource_encoder me (ClusterSpec_encoder canonical) ac_Meta ac_Spec ac_StatusServiceName
       (Resource_fields no_metadata ClusterSpec_fields ac_Meta ac_Meta_update ac_Spec ac_Spec_update
          ac_StatusServiceName ac_StatusServiceName_update))
     (structDecoder (Resource_fields md ClusterSpec_fields ac_Meta ac_Meta_update ac_Spec ac_Spec_update
       ac_StatusServiceName ac_StatusServiceName_update))
     (zero_type_meta, zero_cluster)
     (\<lambda>(t, c). meta_copied me md (ac_Meta c) \<and> env_cached (cs_Env (ac_Spec c)) \<and> resources_cached (cs_Resources (ac_Spec c)))"
  unfolding Resource_encoder_def TypeMeta_encoder_def
  by (rule struct_copy; clarsimp simp add: resource_eval zero_type_meta_def)
    (rule copies | simp)+

lemma AtomixBenchmark_copy:
  "json_copy (Resource_encoder me (AtomixBenchmarkSpec_encoder canonical) ab_Meta ab_Spec ab_StatusServiceName
       (Resource_fields no_metadata AtomixBenchmarkSpec_fields ab_Meta ab_Meta_update ab_Spec ab_Spec_update
          ab_StatusServiceName ab_StatusServiceName_update))
     (structDecoder (Resource_fields md AtomixBenchmarkSpec_fields ab_Meta ab_Meta_update ab_Spec ab_Spec_update
       ab_StatusServiceName ab_StatusServiceName_update))
     (zero_type_meta, zero_benchmark)
     (\<lambda>(t, b). meta_copied me md (ab_Meta b) \<and> env_cached (bs_Env (ab_Spec b)) \<and> resources_cached (bs_Resources (ab_Spec b)))"
  unfolding Resource_encoder_def TypeMeta_encoder_def
  by (rule struct_copy; clarsimp simp add: resource_eval zero_type_meta_def)
    (rule copies | simp)+

end
