(* ===== verification/Manifest_Properties.thy ===== *)
theory Manifest_Properties
  imports Manifest_Encode Reconcile_Properties
begin

section \<open>Properties of the manifests\<close>

text \<open>
  What the operator makes of the manifests in deploy/crds, why a group with a \<^verbatim>\<open>log\<close> section
  never works, and why that does not show where objects are copied by way of JSON.
\<close>

subsection \<open>Sections that are read\<close>

lemmas describe_defs =
  describeStruct_def describe_field_def json_tag_def calcFieldNames_def is_lower_def

text \<open>Whether a specification has an entry that is read into one of the three protocol fields.\<close>

definition names_protocol :: "json \<Rightarrow> bool" where
  "names_protocol j =
     (case j of
        JObject kvs \<Rightarrow> list_ex (\<lambda>(k, _). calcHash k \<in> set (map calcHash [''raft'', ''primaryBackup'', ''log:omitempty''])) kvs
      | _ \<Rightarrow> False)"

definition manifest_names_protocol :: "json \<Rightarrow> bool" where
  "manifest_names_protocol j =
     (case j of
        JObject kvs \<Rightarrow> list_ex (\<lambda>(k, spec). calcHash k = calcHash ''spec'' \<and> names_protocol spec) kvs
      | _ \<Rightarrow> False)"

lemma hashed_names:
  assumes "map fst bs = ns" "length ns \<le> 10" "distinct (0 # map calcHash ns)"
  shows "hashed bs"
proof -
  have "map (calcHash \<circ> fst) bs = map calcHash ns" unfolding assms(1) [symmetric] by simp
  moreover have "length bs = length ns" unfolding assms(1) [symmetric] by simp
  ultimately show ?thesis using assms(2,3) by (simp add: hashed_def)
qed

text \<open>A hashed struct finds nothing for a key whose hash is none of its own.\<close>

lemma find_decoder_other:
  assumes "map fst bs = ns" "hashed bs" "calcHash k \<notin> set (map calcHash ns)"
  shows "find_decoder bs k = None"
proof -
  let ?t = "map (\<lambda>(n, d). (calcHash n, d)) bs"
  have "map fst ?t = map calcHash ns"
    unfolding assms(1) [symmetric] by (simp add: case_prod_unfold)
  then have "calcHash k \<notin> fst ` set ?t" using assms(3) by (metis list.set_map)
  then have "map_of ?t (calcHash k) = None" unfolding map_of_eq_None_iff .
  with assms(2) show ?thesis by (simp only: find_decoder_def if_True)
qed

lemma spec_names:
  "map fst (describeStruct (PartitionGroupSpec_fields f32)) =
   [''cluster'', ''version'', ''size'', ''partitions'', ''env'', ''resources'', ''raft'', ''primaryBackup'', ''log:omitempty'']"
  by (simp add: PartitionGroupSpec_fields_def describe_defs Let_def)

lemma spec_hashed: "hashed (describeStruct (PartitionGroupSpec_fields f32))"
  by (rule hashed_names [OF spec_names], simp) code_simp

lemma log_not_read: "find_decoder (describeStruct (PartitionGroupSpec_fields f32)) ''log'' = None"
  by (rule find_decoder_other [OF spec_names spec_hashed]) code_simp

text \<open>Decoding an entry that does not touch a part of the struct, and a whole object of them.\<close>

definition leaves :: "('s \<Rightarrow> 'x) \<Rightarrow> 's decoder \<Rightarrow> json \<Rightarrow> bool" where
  "leaves f d j \<longleftrightarrow> (\<forall>s s'. d j s = Inr s' \<longrightarrow> f s' = f s)"

lemma leaves_at_field: "(\<And>x s. f (upd (\<lambda>_. x) s) = f s) \<Longrightarrow> leaves f (at_field get upd d) j"
  by (auto simp: leaves_def at_field_def split: sum.splits)

lemma decode_fields_leaves:
  assumes "\<And>k j d. (k, j) \<in> set kvs \<Longrightarrow> find_decoder bs k = Some d \<Longrightarrow> leaves f d j"
    and "decode_fields bs kvs s = Inr s'"
  shows "f s' = f s"
  using assms
proof (induction kvs arbitrary: s)
  case (Cons kj kvs)
  obtain k j where kj: "kj = (k, j)" by fastforce
  have IH: "f s' = f t" if "decode_fields bs kvs t = Inr s'" for t
    by (rule Cons.IH [OF Cons.prems(1) that]) auto
  show ?case
  proof (cases "find_decoder bs k")
    case None
    with Cons.prems(2) kj show ?thesis by (intro IH) simp
  next
    case (Some d)
    then obtain s1 where "d j s = Inr s1" "decode_fields bs kvs s1 = Inr s'"
      using Cons.prems(2) by (auto simp: kj split: sum.splits)
    moreover have "leaves f d j" by (rule Cons.prems(1)) (use Some kj in simp_all)
    ultimately show ?thesis using IH [of s1] by (simp add: leaves_def)
  qed
qed simp

definition protocols :: "partition_group_spec \<Rightarrow> raft_partition_group option \<times> primary_backup_partition_group option \<times> log_partition_group option" where
  "protocols s = (gs_Raft s, gs_PrimaryBackup s, gs_Log s)"

lemma spec_decoder_leaves:
  assumes "find_decoder (describeStruct (PartitionGroupSpec_fields f32)) k = Some d"
    and "calcHash k \<notin> set (map calcHash [''raft'', ''primaryBackup'', ''log:omitempty''])"
  shows "leaves protocols d j"
  using assms
  by (auto simp: find_decoder_def spec_hashed PartitionGroupSpec_fields_def describe_defs protocols_def
      intro!: leaves_at_field split: if_splits)

lemma spec_without_protocol:
  assumes "structDecoder (PartitionGroupSpec_fields f32) j s = Inr s'" "\<not> names_protocol j"
  shows "protocols s' = protocols s"
proof (cases j)
  case (JObject kvs)
  have "leaves protocols d x"
    if "(k, x) \<in> set kvs" "find_decoder (describeStruct (PartitionGroupSpec_fields f32)) k = Some d" for k x d
    by (rule spec_decoder_leaves [OF that(2)]) (use assms(2) that(1) JObject in \<open>auto simp: names_protocol_def list_ex_iff\<close>)
  with assms(1) show ?thesis by (auto simp: structDecoder_def JObject intro: decode_fields_leaves)
qed (use assms(1) in \<open>auto simp: structDecoder_def\<close>)

text \<open>At the top, only the entry with the specification is read into the specification.\<close>

abbreviation group_fields :: "object_meta decoder \<Rightarrow> (string \<Rightarrow> go_error + float32) \<Rightarrow> (type_meta \<times> partition_group) field list" where
  "group_fields md f32 \<equiv> Resource_fields md (PartitionGroupSpec_fields f32) pg_Meta pg_Meta_update
     pg_Spec pg_Spec_update pg_StatusServiceName pg_StatusServiceName_update"

lemma resource_names:
  "map fst (describeStruct (Resource_fields md fs meta upd_meta spec upd_spec service upd_service)) =
   [''kind'', ''apiVersion'', ''metadata'', ''spec'', ''status'']"
  by (simp add: Resource_fields_def TypeMeta_fields_def embedded_def describe_defs Let_def)

lemma resource_hashes: "distinct (0 # map calcHash [''kind'', ''apiVersion'', ''metadata'', ''spec'', ''status''])"
  by code_simp

lemma resource_hashed: "hashed (describeStruct (Resource_fields md fs meta upd_meta spec upd_spec service upd_service))"
  by (rule hashed_names [OF resource_names _ resource_hashes]) simp

lemma find_group_decoder:
  "find_decoder (describeStruct (group_fields md f32)) k = Some d \<Longrightarrow>
   (calcHash k = calcHash ''spec'' \<and>
     d = at_field snd apsnd (at_field pg_Spec pg_Spec_update (structDecoder (PartitionGroupSpec_fields f32)))) \<or>
   (calcHash k \<noteq> calcHash ''spec'' \<and> leaves (pg_Spec \<circ> snd) d j)"
  using resource_hashes
  by (auto simp: find_decoder_def resource_hashed Resource_fields_def TypeMeta_fields_def embedded_def
      describe_defs Let_def leaves_def at_field_def split: if_splits sum.splits)

lemma group_without_protocol:
  assumes "decode_PartitionGroup md f32 j = Inr (tm, g)" "\<not> manifest_names_protocol j"
  shows "protocols (pg_Spec g) = (None, None, None)"
proof -
  have top: "leaves (protocols \<circ> pg_Spec \<circ> snd) d x"
    if "find_decoder (describeStruct (group_fields md f32)) k = Some d" "calcHash k = calcHash ''spec'' \<longrightarrow> \<not> names_protocol x" for k d x
    using find_group_decoder [OF that(1), of x] that(2) spec_without_protocol [of f32 x]
    by (auto simp: leaves_def at_field_def split: sum.splits)
  note start = assms(1) [unfolded decode_PartitionGroup_def]
  show ?thesis
  proof (cases j)
    case (JObject kvs)
    have "(protocols \<circ> pg_Spec \<circ> snd) (tm, g) = (protocols \<circ> pg_Spec \<circ> snd) (zero_type_meta, zero_group)"
    proof (rule decode_fields_leaves [where f = "protocols \<circ> pg_Spec \<circ> snd"])
      show "decode_fields (describeStruct (group_fields md f32)) kvs (zero_type_meta, zero_group) = Inr (tm, g)"
        using start by (simp add: structDecoder_def JObject)
      fix k x d assume "(k, x) \<in> set kvs" and d: "find_decoder (describeStruct (group_fields md f32)) k = Some d"
      then have "calcHash k = calcHash ''spec'' \<longrightarrow> \<not> names_protocol x"
        using assms(2) by (auto simp: manifest_names_protocol_def JObject list_ex_iff)
      with d show "leaves (protocols \<circ> pg_Spec \<circ> snd) d x" by (rule top)
    qed
    then show ?thesis by (simp add: protocols_def zero_group_def)
  qed (use start in \<open>auto simp: structDecoder_def protocols_def zero_group_def\<close>)
qed

subsection \<open>The manifests of the repository\<close>

text \<open>
  The files of deploy/crds as JSON, with the metadata completed by the server. The decoder of
  \<^verbatim>\<open>ObjectMeta\<close> for them reads the name, the namespace and the UID.
\<close>

definition manifest_meta_fields :: "object_meta field list" where
  "manifest_meta_fields =
     [plain_field ''Name'' ''name,omitempty'' (at_field om_Name om_Name_update stringCodec),
      plain_field ''Namespace'' ''namespace,omitempty'' (at_field om_Namespace om_Namespace_update stringCodec),
      plain_field ''UID'' ''uid,omitempty'' (at_field om_UID om_UID_update stringCodec)]"

abbreviation manifest_md :: "object_meta decoder" where
  "manifest_md \<equiv> structDecoder manifest_meta_fields"

definition no_float :: "string \<Rightarrow> go_error + float32" where
  "no_float l = Inl decode_error"

definition manifest :: "string \<Rightarrow> string \<Rightarrow> (string \<times> json) list \<Rightarrow> json" where
  "manifest kind name spec = JObject
     [(''apiVersion'', JString ''agent.atomix.io/v1alpha1''), (''kind'', JString kind),
      (''metadata'', JObject [(''name'', JString name), (''namespace'', JString ''default''), (''uid'', JString ''42'')]),
      (''spec'', JObject spec)]"

definition fast_disks :: json where
  "fast_disks = JObject [(''storage'', JObject [(''className'', JString ''fast-disks'')])]"

definition group_manifest :: "string \<Rightarrow> string \<Rightarrow> (string \<times> json) list \<Rightarrow> json" where
  "group_manifest name partitions protocol = manifest ''PartitionGroup'' name
     ([(''cluster'', JString ''example-atomixcluster''), (''version'', JString ''latest''),
       (''size'', JNumber ''3''), (''partitions'', JNumber partitions)] @ protocol)"

definition log_manifest :: json where
  "log_manifest = group_manifest ''log-group'' ''3'' [(''log'', fast_disks)]"

definition raft_manifest :: json where
  "raft_manifest = group_manifest ''raft-group'' ''3'' [(''raft'', fast_disks)]"

definition benchmark_manifest :: json where
  "benchmark_manifest = manifest ''AtomixBenchmark'' ''example-benchmark''
     [(''cluster'', JString ''example-atomixcluster''), (''version'', JString ''latest''), (''workers'', JNumber ''3''),
      (''env'', JArray [JObject [(''name'', JString ''JAVA_OPTS''), (''value'', JString ''-Xmx1G'')]]),
      (''resources'', JObject [(''requests'', JObject [(''memory'', JString ''1Gi'')])])]"

definition manifest_group :: "string \<Rightarrow> raft_partition_group option \<Rightarrow> type_meta \<times> partition_group" where
  "manifest_group name raft =
     (\<lparr>tm_Kind = ''PartitionGroup'', tm_APIVersion = ''agent.atomix.io/v1alpha1''\<rparr>,
      \<lparr>pg_Meta = zero_meta\<lparr>om_Name := name, om_Namespace := ''default'', om_UID := ''42''\<rparr>,
       pg_Spec = \<lparr>gs_Cluster = ''example-atomixcluster'', gs_Version = ''latest'', gs_Size = 3, gs_Partitions = 3,
         gs_Env = [], gs_Resources = no_resources, gs_Raft = raft, gs_PrimaryBackup = None, gs_Log = None\<rparr>,
       pg_StatusServiceName = []\<rparr>)"

text \<open>A key that is the name of a field finds that field.\<close>

lemma find_decoder_name:
  assumes "hashed bs" "k \<in> fst ` set bs"
  shows "find_decoder bs k = map_of bs k"
proof -
  obtain d where d: "map_of bs k = Some d" using assms(2) by (cases "map_of bs k") (auto simp: map_of_eq_None_iff)
  let ?t = "map (\<lambda>(n, d). (calcHash n, d)) bs"
  have keys: "map fst ?t = map (calcHash \<circ> fst) bs" by (simp add: case_prod_unfold)
  have "distinct (map fst ?t)" unfolding keys using assms(1) by (simp add: hashed_def)
  moreover have "(calcHash k, d) \<in> set ?t" using map_of_SomeD [OF d] by force
  ultimately have "map_of ?t (calcHash k) = Some d" by (rule map_of_is_SomeI)
  with assms(1) d show ?thesis by (simp add: find_decoder_def)
qed

lemma manifest_hashed:
  "hashed (describeStruct manifest_meta_fields)"
  "hashed (describeStruct (RaftPartitionGroup_fields f32))"
  "hashed (describeStruct Storage_fields)"
proof -
  have "map fst (describeStruct manifest_meta_fields) = [''name'', ''namespace'', ''uid'']"
    by (simp add: manifest_meta_fields_def describe_defs Let_def)
  then show "hashed (describeStruct manifest_meta_fields)" by (rule hashed_names) code_simp+
  have "map fst (describeStruct (RaftPartitionGroup_fields f32)) = [''storage'', ''compaction'', ''partitionSize'']"
    by (simp add: RaftPartitionGroup_fields_def PersistentPartitionGroup_fields_def embedded_def describe_defs Let_def)
  then show "hashed (describeStruct (RaftPartitionGroup_fields f32))" by (rule hashed_names) code_simp+
  have "map fst (describeStruct Storage_fields) =
      [''size'', ''className'', ''segmentSize'', ''entrySize'', ''level'', ''flushOnCommit'']"
    by (simp add: Storage_fields_def describe_defs Let_def)
  then show "hashed (describeStruct Storage_fields)" by (rule hashed_names) code_simp+
qed

lemma group_finds:
  "find_decoder (describeStruct (group_fields md f32)) ''kind'' = Some (at_field fst apfst (at_field tm_Kind tm_Kind_update stringCodec))"
  "find_decoder (describeStruct (group_fields md f32)) ''apiVersion'' =
     Some (at_field fst apfst (at_field tm_APIVersion tm_APIVersion_update stringCodec))"
  "find_decoder (describeStruct (group_fields md f32)) ''metadata'' = Some (at_field snd apsnd (at_field pg_Meta pg_Meta_update md))"
  "find_decoder (describeStruct (group_fields md f32)) ''spec'' =
     Some (at_field snd apsnd (at_field pg_Spec pg_Spec_update (structDecoder (PartitionGroupSpec_fields f32))))"
  by (rule trans [OF find_decoder_name [OF resource_hashed]];
      simp add: Resource_fields_def TypeMeta_fields_def embedded_def describe_defs Let_def)+

lemma meta_finds:
  "find_decoder (describeStruct manifest_meta_fields) ''name'' = Some (at_field om_Name om_Name_update stringCodec)"
  "find_decoder (describeStruct manifest_meta_fields) ''namespace'' = Some (at_field om_Namespace om_Namespace_update stringCodec)"
  "find_decoder (describeStruct manifest_meta_fields) ''uid'' = Some (at_field om_UID om_UID_update stringCodec)"
  by (rule trans [OF find_decoder_name [OF manifest_hashed(1)]]; simp add: manifest_meta_fields_def describe_defs Let_def)+

lemma spec_finds:
  "find_decoder (describeStruct (PartitionGroupSpec_fields f32)) ''cluster'' = Some (at_field gs_Cluster gs_Cluster_update stringCodec)"
  "find_decoder (describeStruct (PartitionGroupSpec_fields f32)) ''version'' = Some (at_field gs_Version gs_Version_update stringCodec)"
  "find_decoder (describeStruct (PartitionGroupSpec_fields f32)) ''size'' = Some (at_field gs_Size gs_Size_update intCodec)"
  "find_decoder (describeStruct (PartitionGroupSpec_fields f32)) ''partitions'' = Some (at_field gs_Partitions gs_Partitions_update intCodec)"
  "find_decoder (describeStruct (PartitionGroupSpec_fields f32)) ''raft'' = Some (at_field gs_Raft gs_Raft_update
     (OptionalDecoder zero_raft (structDecoder (RaftPartitionGroup_fields f32))))"
  by (rule trans [OF find_decoder_name [OF spec_hashed]]; simp add: PartitionGroupSpec_fields_def describe_defs Let_def)+

lemma section_finds:
  "find_decoder (describeStruct (RaftPartitionGroup_fields f32)) ''storage'' =
     Some (at_field rpg_Persistent rpg_Persistent_update (at_field pp_Storage pp_Storage_update (structDecoder Storage_fields)))"
  "find_decoder (describeStruct Storage_fields) ''className'' =
     Some (at_field st_ClassName st_ClassName_update (OptionalDecoder [] stringCodec))"
  by (rule trans [OF find_decoder_name [OF manifest_hashed(2)]] trans [OF find_decoder_name [OF manifest_hashed(3)]];
      simp add: RaftPartitionGroup_fields_def PersistentPartitionGroup_fields_def Storage_fields_def embedded_def
        describe_defs Let_def)+

lemmas decode_eval =
  decode_PartitionGroup_def structDecoder_def group_finds meta_finds spec_finds section_finds log_not_read
  at_field_def stringCodec_def intCodec_def readInt_def readUint_def is_digit_def digit_val_def max_int_def
  OptionalDecoder_def log_manifest_def raft_manifest_def group_manifest_def manifest_def manifest_group_def
  fast_disks_def

lemma log_manifest_read:
  "decode_PartitionGroup manifest_md f32 log_manifest = Inr (manifest_group ''log-group'' None)"
  by (simp add: decode_eval zero_type_meta_def zero_group_def)

text \<open>The Raft group gets its section, with the storage class.\<close>

lemma raft_manifest_read:
  "decode_PartitionGroup manifest_md f32 raft_manifest =
    Inr (manifest_group ''raft-group'' (Some (zero_raft\<lparr>rpg_Persistent :=
      zero_persistent\<lparr>pp_Storage := zero_storage\<lparr>st_ClassName := Some ''fast-disks''\<rparr>\<rparr>\<rparr>)))"
  by (simp add: decode_eval zero_type_meta_def zero_group_def zero_raft_def zero_persistent_def zero_storage_def)

text \<open>
  The cluster of the README: its \<^verbatim>\<open>managementGroup\<close> and \<^verbatim>\<open>partitionGroups\<close> are not fields of the
  specification, so that size, storage and groups are lost.
\<close>

abbreviation cluster_fields :: "object_meta decoder \<Rightarrow> (type_meta \<times> atomix_cluster) field list" where
  "cluster_fields md \<equiv> Resource_fields md ClusterSpec_fields ac_Meta ac_Meta_update
     ac_Spec ac_Spec_update ac_StatusServiceName ac_StatusServiceName_update"

definition readme_manifest :: json where
  "readme_manifest = manifest ''AtomixCluster'' ''example-atomixcluster''
     [(''version'', JString ''3.1.0''),
      (''managementGroup'', JObject [(''size'', JNumber ''1''), (''storage'', JObject [(''className'', JString ''fast-disks'')])]),
      (''partitionGroups'', JArray [JObject
        [(''name'', JString ''raft''), (''size'', JNumber ''3''), (''partitions'', JNumber ''3''), (''raft'', fast_disks)]])]"

lemma cluster_names:
  "map fst (describeStruct ClusterSpec_fields) = [''version'', ''size'', ''env'', ''resources'', ''storage'']"
  by (simp add: ClusterSpec_fields_def describe_defs Let_def)

lemma cluster_hashed: "hashed (describeStruct ClusterSpec_fields)"
  by (rule hashed_names [OF cluster_names]) code_simp+

lemma cluster_finds:
  "find_decoder (describeStruct (cluster_fields md)) ''kind'' = Some (at_field fst apfst (at_field tm_Kind tm_Kind_update stringCodec))"
  "find_decoder (describeStruct (cluster_fields md)) ''apiVersion'' =
     Some (at_field fst apfst (at_field tm_APIVersion tm_APIVersion_update stringCodec))"
  "find_decoder (describeStruct (cluster_fields md)) ''metadata'' = Some (at_field snd apsnd (at_field ac_Meta ac_Meta_update md))"
  "find_decoder (describeStruct (cluster_fields md)) ''spec'' =
     Some (at_field snd apsnd (at_field ac_Spec ac_Spec_update (structDecoder ClusterSpec_fields)))"
  "find_decoder (describeStruct ClusterSpec_fields) ''version'' = Some (at_field cs_Version cs_Version_update stringCodec)"
  by (rule trans [OF find_decoder_name [OF resource_hashed]] trans [OF find_decoder_name [OF cluster_hashed]];
      simp add: Resource_fields_def TypeMeta_fields_def ClusterSpec_fields_def embedded_def describe_defs Let_def)+

lemma groups_not_read:
  "find_decoder (describeStruct ClusterSpec_fields) ''managementGroup'' = None"
  "find_decoder (describeStruct ClusterSpec_fields) ''partitionGroups'' = None"
  by (rule find_decoder_other [OF cluster_names cluster_hashed]; code_simp)+

lemma readme_manifest_read:
  "decode_AtomixCluster manifest_md readme_manifest =
    Inr (\<lparr>tm_Kind = ''AtomixCluster'', tm_APIVersion = ''agent.atomix.io/v1alpha1''\<rparr>,
      zero_cluster\<lparr>ac_Meta := zero_meta\<lparr>om_Name := ''example-atomixcluster'', om_Namespace := ''default'', om_UID := ''42''\<rparr>,
        ac_Spec := (ac_Spec zero_cluster)\<lparr>cs_Version := ''3.1.0''\<rparr>\<rparr>)"
  by (simp add: decode_AtomixCluster_def readme_manifest_def cluster_finds groups_not_read decode_eval
      zero_type_meta_def zero_cluster_def)

text \<open>The primary-backup group, the cluster and the benchmark of deploy/crds are read as they are meant.\<close>

definition primary_backup_manifest :: json where
  "primary_backup_manifest = group_manifest ''primary-backup-group'' ''7'' [(''primaryBackup'', JObject [])]"

definition cluster_manifest :: json where
  "cluster_manifest = manifest ''AtomixCluster'' ''example-atomixcluster''
     [(''version'', JString ''latest''), (''size'', JNumber ''1''), (''storage'', JObject [(''className'', JString ''fast-disks'')])]"

lemma primary_backup_manifest_read:
  "map_sum id (GetPartitionGroupType \<circ> snd) (decode_PartitionGroup manifest_md f32 primary_backup_manifest) =
    Inr (Inr PrimaryBackupType)"
proof -
  have "find_decoder (describeStruct (PartitionGroupSpec_fields f32)) ''primaryBackup'' = Some (at_field gs_PrimaryBackup
      gs_PrimaryBackup_update (OptionalDecoder zero_primary_backup (structDecoder PrimaryBackupPartitionGroup_fields)))"
    by (rule trans [OF find_decoder_name [OF spec_hashed]]; simp add: PartitionGroupSpec_fields_def describe_defs Let_def)
  then show ?thesis
    by (simp add: primary_backup_manifest_def decode_eval zero_group_def GetPartitionGroupType_def)
qed

lemma cluster_spec_finds:
  "find_decoder (describeStruct ClusterSpec_fields) ''size'' = Some (at_field cs_Size cs_Size_update intCodec)"
  "find_decoder (describeStruct ClusterSpec_fields) ''storage'' =
     Some (at_field cs_Storage cs_Storage_update (structDecoder Storage_fields))"
  by (rule trans [OF find_decoder_name [OF cluster_hashed]]; simp add: ClusterSpec_fields_def describe_defs Let_def)+

lemma cluster_manifest_read:
  "map_sum id (ac_Spec \<circ> snd) (decode_AtomixCluster manifest_md cluster_manifest) =
    Inr ((ac_Spec zero_cluster)\<lparr>cs_Version := ''latest'', cs_Size := 1,
      cs_Storage := zero_storage\<lparr>st_ClassName := Some ''fast-disks''\<rparr>\<rparr>)"
  by (simp add: decode_AtomixCluster_def cluster_manifest_def cluster_finds cluster_spec_finds decode_eval
      zero_cluster_def zero_storage_def)

definition quantity_1Gi :: quantity where
  "quantity_1Gi = \<lparr>q_value = 1073741824, q_scale = 0, q_dec = None, q_str = ''1Gi'', q_format = BinarySI\<rparr>"

abbreviation benchmark_fields :: "object_meta decoder \<Rightarrow> (type_meta \<times> atomix_benchmark) field list" where
  "benchmark_fields md \<equiv> Resource_fields md AtomixBenchmarkSpec_fields ab_Meta ab_Meta_update
     ab_Spec ab_Spec_update ab_StatusServiceName ab_StatusServiceName_update"

lemma benchmark_hashed: "hashed (describeStruct AtomixBenchmarkSpec_fields)"
proof -
  have "map fst (describeStruct AtomixBenchmarkSpec_fields) = [''cluster'', ''version'', ''workers'', ''env'', ''resources'']"
    by (simp add: AtomixBenchmarkSpec_fields_def describe_defs Let_def)
  then show ?thesis by (rule hashed_names) code_simp+
qed

lemma benchmark_finds:
  "find_decoder (describeStruct (benchmark_fields md)) ''kind'' = Some (at_field fst apfst (at_field tm_Kind tm_Kind_update stringCodec))"
  "find_decoder (describeStruct (benchmark_fields md)) ''apiVersion'' =
     Some (at_field fst apfst (at_field tm_APIVersion tm_APIVersion_update stringCodec))"
  "find_decoder (describeStruct (benchmark_fields md)) ''metadata'' = Some (at_field snd apsnd (at_field ab_Meta ab_Meta_update md))"
  "find_decoder (describeStruct (benchmark_fields md)) ''spec'' =
     Some (at_field snd apsnd (at_field ab_Spec ab_Spec_update (structDecoder AtomixBenchmarkSpec_fields)))"
  "find_decoder (describeStruct AtomixBenchmarkSpec_fields) ''cluster'' = Some (at_field bs_Cluster bs_Cluster_update stringCodec)"
  "find_decoder (describeStruct AtomixBenchmarkSpec_fields) ''version'' = Some (at_field bs_Version bs_Version_update stringCodec)"
  "find_decoder (describeStruct AtomixBenchmarkSpec_fields) ''workers'' = Some (at_field bs_Workers bs_Workers_update intCodec)"
  "find_decoder (describeStruct AtomixBenchmarkSpec_fields) ''env'' = Some (at_field bs_Env bs_Env_update envDecoder)"
  "find_decoder (describeStruct AtomixBenchmarkSpec_fields) ''resources'' =
     Some (at_field bs_Resources bs_Resources_update (structDecoder ResourceRequirements_fields))"
  by (rule trans [OF find_decoder_name [OF resource_hashed]] trans [OF find_decoder_name [OF benchmark_hashed]];
      simp add: Resource_fields_def TypeMeta_fields_def AtomixBenchmarkSpec_fields_def embedded_def describe_defs Let_def)+

lemma benchmark_sections_read:
  "envDecoder (JArray [JObject [(''name'', JString ''JAVA_OPTS''), (''value'', JString ''-Xmx1G'')]]) [] =
     Inr [zero_env_var\<lparr>ev_Name := ''JAVA_OPTS'', ev_Value := ''-Xmx1G''\<rparr>]"
  "structDecoder ResourceRequirements_fields (JObject [(''requests'', JObject [(''memory'', JString ''1Gi'')])]) no_resources =
     Inr (no_resources\<lparr>rr_Requests := fmupd ''memory'' quantity_1Gi fmempty\<rparr>)"
  by code_simp+

lemma benchmark_manifest_read:
  "map_sum id (ab_Spec \<circ> snd) (decode_AtomixBenchmark manifest_md benchmark_manifest) =
    Inr \<lparr>bs_Cluster = ''example-atomixcluster'', bs_Version = ''latest'', bs_Workers = 3,
      bs_Env = [zero_env_var\<lparr>ev_Name := ''JAVA_OPTS'', ev_Value := ''-Xmx1G''\<rparr>],
      bs_Resources = no_resources\<lparr>rr_Requests := fmupd ''memory'' quantity_1Gi fmempty\<rparr>\<rparr>"
proof -
  have top: "structDecoder fs (JObject kvs) s = decode_fields (describeStruct fs) kvs s" for fs :: "'s field list" and kvs s
    by (simp add: structDecoder_def)
  show ?thesis
    unfolding decode_AtomixBenchmark_def benchmark_manifest_def manifest_def top
    by (simp add: benchmark_finds at_field_def stringCodec_def top [of AtomixBenchmarkSpec_fields] top [of manifest_meta_fields]
        meta_finds intCodec_def readInt_def readUint_def is_digit_def digit_val_def max_int_def
        benchmark_sections_read zero_benchmark_def)
qed

subsection \<open>A log group never works\<close>

text \<open>
  C38: A manifest whose specification has no entry \<^verbatim>\<open>raft\<close>, \<^verbatim>\<open>primaryBackup\<close> or
  \<^verbatim>\<open>log:omitempty\<close>, whatever it has under \<^verbatim>\<open>log\<close> and any other key, is read as a group without a
  protocol: the key \<^verbatim>\<open>log\<close> is skipped. Every run on it creates the init config map if that is
  missing and ends with the error of \<^verbatim>\<open>GetPartitionGroupType\<close>. The log group in deploy/crds is
  such a manifest.
\<close>

theorem log_group_never_works:
  assumes "decode_PartitionGroup md f32 j = Inr (tm, g)" "\<not> manifest_names_protocol j"
    and "reliable_client cl objs ok" "ok w" "proper_name nn" "scheme_ready s"
    and "objs w (PartitionGroupT, nn) = Some (PartitionGroupO g)"
    and "objs w (ConfigMapT, NamespacedName (om_Namespace (pg_Meta g)) (GetPartitionGroupSystemConfigMapName g)) = None"
  shows "find_decoder (describeStruct (PartitionGroupSpec_fields f32)) ''log'' = None \<and>
    GetPartitionGroupType g = Inl unknown_partition_group_type \<and>
    (\<exists>w' w''. group_Reconcile \<lparr>r_client = cl, r_scheme = s\<rparr> nn w =
        (w', zero_result, Some unknown_partition_group_type) \<and>
      abs_store (objs w') =
        owned_store group_gvk (pg_Meta g)
          [ConfigMapO (NewPartitionGroupInitConfigMap (SetDefaults_PartitionGroup g))] ++ abs_store (objs w) \<and>
      group_Reconcile \<lparr>r_client = cl, r_scheme = s\<rparr> nn w' =
        (w'', zero_result, Some unknown_partition_group_type) \<and>
      abs_store (objs w'') = abs_store (objs w'))"
proof -
  have none: "gs_Raft (pg_Spec g) = None" "gs_PrimaryBackup (pg_Spec g) = None" "gs_Log (pg_Spec g) = None"
    using group_without_protocol [OF assms(1,2)] by (simp_all add: protocols_def)
  then have "GetPartitionGroupType g = Inl unknown_partition_group_type" by (simp add: GetPartitionGroupType_def)
  with log_not_read untyped_group_runs [OF assms(3-7) none assms(8)] show ?thesis by blast
qed

theorem log_group_never_works_witness:
  "\<exists>g w' w''. decode_PartitionGroup manifest_md no_float log_manifest = Inr g \<and>
    group_Reconcile \<lparr>r_client = fake_client, r_scheme = operator_scheme\<rparr>
      (NamespacedName ''default'' ''log-group'') (world_with (PartitionGroupO (snd g))) =
        (w', zero_result, Some unknown_partition_group_type) \<and>
    group_Reconcile \<lparr>r_client = fake_client, r_scheme = operator_scheme\<rparr>
      (NamespacedName ''default'' ''log-group'') w' = (w'', zero_result, Some unknown_partition_group_type)"
proof -
  let ?nn = "NamespacedName ''default'' ''log-group''"
  obtain tm g where g: "manifest_group ''log-group'' None = (tm, g)" by fastforce
  have key: "key_of (PartitionGroupO g) = (PartitionGroupT, ?nn)"
    using g by (auto simp: key_of_def manifest_group_def meta_name_def)
  have proper: "proper_name ?nn" by (simp add: proper_name_def NamespacedName_def)
  have world: "fake_ok (world_with (PartitionGroupO g))"
    "fake_objs (world_with (PartitionGroupO g)) = [(PartitionGroupT, ?nn) \<mapsto> PartitionGroupO g]"
    using world_with_facts [of "PartitionGroupO g"] by (simp_all add: key proper)
  have read: "decode_PartitionGroup manifest_md no_float log_manifest = Inr (tm, g)"
    by (simp add: log_manifest_read g)
  have unnamed: "\<not> manifest_names_protocol log_manifest" by code_simp
  have stored: "fake_objs (world_with (PartitionGroupO g)) (PartitionGroupT, ?nn) = Some (PartitionGroupO g)"
    "fake_objs (world_with (PartitionGroupO g)) (ConfigMapT, NamespacedName (om_Namespace (pg_Meta g))
      (GetPartitionGroupSystemConfigMapName g)) = None"
    by (simp_all add: world)
  show ?thesis
    using log_group_never_works [where objs = fake_objs and w = "world_with (PartitionGroupO g)", OF read unnamed fake.reliable_client_axioms world(1) proper
        operator_scheme_ready stored] read by (metis snd_conv)
qed

subsection \<open>Copies by way of JSON\<close>

text \<open>
  C31: A custom resource that is written as JSON and read again, as in \<^verbatim>\<open>Get\<close> of the fake client,
  is the same object, for all three kinds, on three conditions: its metadata is read as it was
  written (\<open>meta_copied\<close>, the codec of \<^verbatim>\<open>ObjectMeta\<close> is a parameter); each quantity has the text it
  came from and parses from it (\<open>cached_text\<close>, which a quantity made from a number lacks); and each
  floating point number of a group's Raft or log section is read as it was written
  (\<open>compaction_text\<close>, which excludes the negative zero: it is omitted like every zero, and read
  as the positive one). Then every field of the specification and the status comes back: the tags
  of the fields are distinct, a field is omitted only when it is zero, and integers of all sizes
  are read as they were written. This includes groups of the log protocol, whose field has the
  same odd key in both directions: a test that puts an object into the fake client does not
  notice that manifests are not read.
\<close>

theorem json_copy_exact:
  shows "(meta_copied me md (pg_Meta g) \<longrightarrow> group_spec_copied ft f32 (pg_Spec g) \<longrightarrow>
      (\<exists>j. encode_PartitionGroup me ft canonical (tm, g) = Inr j \<and> decode_PartitionGroup md f32 j = Inr (tm, g))) \<and>
    (meta_copied me md (ac_Meta c) \<longrightarrow> env_cached (cs_Env (ac_Spec c)) \<longrightarrow> resources_cached (cs_Resources (ac_Spec c)) \<longrightarrow>
      (\<exists>j. encode_AtomixCluster me canonical (tm, c) = Inr j \<and> decode_AtomixCluster md j = Inr (tm, c))) \<and>
    (meta_copied me md (ab_Meta b) \<longrightarrow> env_cached (bs_Env (ab_Spec b)) \<longrightarrow> resources_cached (bs_Resources (ab_Spec b)) \<longrightarrow>
      (\<exists>j. encode_AtomixBenchmark me canonical (tm, b) = Inr j \<and> decode_AtomixBenchmark md j = Inr (tm, b)))"
  using json_copy.copied [OF PartitionGroup_copy, of me md ft f32 "(tm, g)" canonical]
    json_copy.copied [OF AtomixCluster_copy, of me md "(tm, c)" canonical]
    json_copy.copied [OF AtomixBenchmark_copy, of me md "(tm, b)" canonical]
  by (simp add: encode_PartitionGroup_def encode_AtomixCluster_def encode_AtomixBenchmark_def
      decode_PartitionGroup_def decode_AtomixCluster_def decode_AtomixBenchmark_def)

text \<open>A log group with a storage class; numbers are written as the bits of a \<^verbatim>\<open>float32\<close>.\<close>

definition bits_text :: float_printer where
  "bits_text x = Inr (show_nat (unat x))"

definition manifest_me :: "object_meta encoder" where
  "manifest_me = en_encode (structEncoder manifest_meta_fields
     [at_enc om_Name stringEncoder, at_enc om_Namespace stringEncoder, at_enc om_UID stringEncoder])"

definition log_group :: partition_group where
  "log_group = zero_group\<lparr>pg_Meta := zero_meta\<lparr>om_Name := ''log-group'', om_Namespace := ''default''\<rparr>,
     pg_Spec := (pg_Spec zero_group)\<lparr>gs_Size := 3, gs_Log := Some zero_log\<rparr>\<rparr>"

theorem json_copy_exact_witness:
  "\<exists>j. encode_PartitionGroup manifest_me bits_text (\<lambda>q. []) (zero_type_meta, log_group) = Inr j \<and>
    decode_PartitionGroup manifest_md readUint j = Inr (zero_type_meta, log_group) \<and>
    GetPartitionGroupType log_group = Inr LogType"
proof -
  have "meta_copied manifest_me manifest_md (pg_Meta log_group)" by code_simp
  moreover have "float_text bits_text readUint 0" by code_simp
  then have "group_spec_copied bits_text readUint (pg_Spec log_group)"
    by (simp add: group_spec_copied_def env_cached_def resources_cached_def no_resources_def compaction_text_def
        log_group_def zero_group_def zero_log_def zero_persistent_def)
  moreover have "GetPartitionGroupType log_group = Inr LogType" by code_simp
  ultimately show ?thesis
    using json_copy_exact [of manifest_me manifest_md log_group bits_text readUint, THEN conjunct1] by blast
qed

end
