(* ===== verification/Regexp.thy ===== *)
theory Regexp
  imports Prelude
begin

section \<open>Regular expressions\<close>

text \<open>
  The part of Go's \<^verbatim>\<open>regexp\<close> that the validation of names uses: character classes,
  concatenation, \<^verbatim>\<open>?\<close>, \<^verbatim>\<open>*\<close> and \<^verbatim>\<open>+\<close>, always between \<^verbatim>\<open>^\<close> and \<^verbatim>\<open>$\<close>. An expression denotes a
  language; \<open>matches\<close> decides membership by derivatives.
\<close>

datatype rexp =
    Nothing
  | Empty
  | Class "char \<Rightarrow> bool"
  | Seq rexp rexp
  | Alt rexp rexp
  | Star rexp

definition Opt :: "rexp \<Rightarrow> rexp" where
  "Opt r = Alt Empty r"

definition Plus :: "rexp \<Rightarrow> rexp" where
  "Plus r = Seq r (Star r)"

definition Lit :: "char \<Rightarrow> rexp" where
  "Lit c = Class (\<lambda>d. d = c)"

subsection \<open>Languages\<close>

inductive_set iterated :: "string set \<Rightarrow> string set" for L :: "string set" where
  iterated_Nil: "[] \<in> iterated L"
| iterated_append: "u \<in> L \<Longrightarrow> v \<in> iterated L \<Longrightarrow> u @ v \<in> iterated L"

fun lang :: "rexp \<Rightarrow> string set" where
  "lang Nothing = {}"
| "lang Empty = {[]}"
| "lang (Class P) = {[c] |c. P c}"
| "lang (Seq r s) = {u @ v |u v. u \<in> lang r \<and> v \<in> lang s}"
| "lang (Alt r s) = lang r \<union> lang s"
| "lang (Star r) = iterated (lang r)"

subsection \<open>Matching\<close>

fun nullable :: "rexp \<Rightarrow> bool" where
  "nullable Nothing = False"
| "nullable Empty = True"
| "nullable (Class P) = False"
| "nullable (Seq r s) = (nullable r \<and> nullable s)"
| "nullable (Alt r s) = (nullable r \<or> nullable s)"
| "nullable (Star r) = True"

fun deriv :: "char \<Rightarrow> rexp \<Rightarrow> rexp" where
  "deriv c Nothing = Nothing"
| "deriv c Empty = Nothing"
| "deriv c (Class P) = (if P c then Empty else Nothing)"
| "deriv c (Seq r s) =
     (if nullable r then Alt (Seq (deriv c r) s) (deriv c s) else Seq (deriv c r) s)"
| "deriv c (Alt r s) = Alt (deriv c r) (deriv c s)"
| "deriv c (Star r) = Seq (deriv c r) (Star r)"

fun matches :: "rexp \<Rightarrow> string \<Rightarrow> bool" where
  "matches r [] = nullable r"
| "matches r (c # cs) = matches (deriv c r) cs"

lemma nullable_lang: "nullable r \<longleftrightarrow> [] \<in> lang r"
  by (induction r) (auto intro: iterated_Nil)

lemma iterated_Cons:
  "c # w \<in> iterated L \<longleftrightarrow> (\<exists>u v. w = u @ v \<and> c # u \<in> L \<and> v \<in> iterated L)"
proof
  assume "c # w \<in> iterated L"
  then show "\<exists>u v. w = u @ v \<and> c # u \<in> L \<and> v \<in> iterated L"
  proof (induction "c # w" arbitrary: w rule: iterated.induct)
    case (iterated_append u v)
    then show ?case by (cases u) auto
  qed
next
  assume "\<exists>u v. w = u @ v \<and> c # u \<in> L \<and> v \<in> iterated L"
  then obtain u v where "w = u @ v" "c # u \<in> L" "v \<in> iterated L" by blast
  then show "c # w \<in> iterated L" using iterated_append [of "c # u" L v] by simp
qed

lemma deriv_lang: "w \<in> lang (deriv c r) \<longleftrightarrow> c # w \<in> lang r"
proof (induction r arbitrary: w)
  case (Seq r s)
  have "c # w \<in> lang (Seq r s) \<longleftrightarrow>
    (\<exists>u v. w = u @ v \<and> c # u \<in> lang r \<and> v \<in> lang s) \<or> ([] \<in> lang r \<and> c # w \<in> lang s)"
    by (auto simp: Cons_eq_append_conv)
  then show ?case by (auto simp: Seq nullable_lang)
next
  case (Star r)
  then show ?case by (auto simp: iterated_Cons)
qed auto

theorem matches_lang: "matches r s \<longleftrightarrow> s \<in> lang r"
  by (induction s arbitrary: r) (simp_all add: nullable_lang deriv_lang)

subsection \<open>The shapes that occur\<close>

lemma lang_Opt [simp]: "lang (Opt r) = insert [] (lang r)"
  by (simp add: Opt_def)

lemma lang_Lit [simp]: "lang (Lit c) = {[c]}"
  by (simp add: Lit_def)

lemma lang_Star_Class: "s \<in> lang (Star (Class P)) \<longleftrightarrow> list_all P s"
proof
  show "s \<in> lang (Star (Class P)) \<Longrightarrow> list_all P s"
    unfolding lang.simps by (induction rule: iterated.induct) auto
  show "list_all P s \<Longrightarrow> s \<in> lang (Star (Class P))"
  proof (induction s)
    case Nil
    show ?case by (simp add: iterated_Nil)
  next
    case (Cons c s)
    then show ?case using iterated_append [of "[c]" "lang (Class P)" s] by simp
  qed
qed

lemma lang_Class_Seq: "c # s \<in> lang (Seq (Class P) r) \<longleftrightarrow> P c \<and> s \<in> lang r"
proof -
  have "c # s = u @ v \<and> u \<in> lang (Class P) \<longleftrightarrow> u = [c] \<and> v = s \<and> P c" for u v
    by (cases u) auto
  then show ?thesis by auto
qed

lemma lang_Seq_Class: "s @ [d] \<in> lang (Seq r (Class P)) \<longleftrightarrow> s \<in> lang r \<and> P d"
  by auto

text \<open>One character, and then possibly any number of characters and a last one.\<close>

lemma lang_framed:
  "c # s \<in> lang (Seq (Class P) (Opt (Seq (Star (Class Q)) (Class R)))) \<longleftrightarrow>
   P c \<and> (s = [] \<or> list_all Q (butlast s) \<and> R (last s))"
proof (cases s rule: rev_cases)
  case Nil
  then show ?thesis by (simp only: lang_Class_Seq lang_Opt) simp
next
  case (snoc t d)
  then show ?thesis
    by (simp only: lang_Class_Seq lang_Opt insert_iff lang_Seq_Class lang_Star_Class) simp
qed

lemma lang_framed_Nil: "[] \<notin> lang (Seq (Class P) r)"
  by simp

lemma lang_ended:
  assumes "s \<noteq> []" "P (hd s)" "list_all Q (butlast (tl s))" "P (last s)"
  shows "s \<in> lang (Seq (Opt (Seq (Class P) (Star (Class Q)))) (Class P))"
proof -
  obtain t d where s: "s = t @ [d]" using assms(1) by (cases s rule: rev_cases) auto
  show ?thesis
  proof (cases t)
    case Nil
    with s assms(4) show ?thesis by (simp only: lang_Seq_Class lang_Opt) simp
  next
    case (Cons c u)
    with s assms show ?thesis
      by (simp only: lang_Seq_Class lang_Opt insert_iff lang_Class_Seq lang_Star_Class) simp
  qed
qed

end
