(* ===== verification/Validation.thy ===== *)
theory Validation
  imports Regexp Ownership
begin

section \<open>Validation of names, labels and metadata\<close>

text \<open>
  The validators of \<^verbatim>\<open>k8s.io/apimachinery\<close> (\<^verbatim>\<open>pkg/util/validation\<close>, \<^verbatim>\<open>pkg/api/validation\<close> and
  \<^verbatim>\<open>pkg/apis/meta/v1/validation\<close>), which an API server applies to what it is asked to store. They
  return lists of errors; a validator is represented by whether its list is empty. The fields
  of the metadata that the operator never sets have no errors and are left out.
\<close>

subsection \<open>Character classes\<close>

definition between :: "nat \<Rightarrow> nat \<Rightarrow> char \<Rightarrow> bool" where
  "between lo hi c \<longleftrightarrow> lo \<le> of_char c \<and> of_char c \<le> hi"

definition is_lower_letter :: "char \<Rightarrow> bool" where
  "is_lower_letter = between 97 122"

definition is_upper_letter :: "char \<Rightarrow> bool" where
  "is_upper_letter = between 65 90"

definition dns_char :: "char \<Rightarrow> bool" where
  "dns_char c \<longleftrightarrow> is_lower_letter c \<or> is_digit c"

definition dns_or_dash :: "char \<Rightarrow> bool" where
  "dns_or_dash c \<longleftrightarrow> c = CHR ''-'' \<or> dns_char c"

definition qname_char :: "char \<Rightarrow> bool" where
  "qname_char c \<longleftrightarrow> is_upper_letter c \<or> is_lower_letter c \<or> is_digit c"

definition qname_ext_char :: "char \<Rightarrow> bool" where
  "qname_ext_char c \<longleftrightarrow> c \<in> set ''-_.'' \<or> qname_char c"

subsection \<open>The expressions\<close>

definition dns1123LabelFmt :: rexp where
  "dns1123LabelFmt = Seq (Class dns_char) (Opt (Seq (Star (Class dns_or_dash)) (Class dns_char)))"

definition dns1123SubdomainFmt :: rexp where
  "dns1123SubdomainFmt = Seq dns1123LabelFmt (Star (Seq (Lit (CHR ''.'')) dns1123LabelFmt))"

definition dns1035LabelFmt :: rexp where
  "dns1035LabelFmt = Seq (Class is_lower_letter) (Opt (Seq (Star (Class dns_or_dash)) (Class dns_char)))"

definition qualifiedNameFmt :: rexp where
  "qualifiedNameFmt = Seq (Opt (Seq (Class qname_char) (Star (Class qname_ext_char)))) (Class qname_char)"

definition labelValueFmt :: rexp where
  "labelValueFmt = Opt qualifiedNameFmt"

definition configMapKeyFmt :: rexp where
  "configMapKeyFmt = Plus (Class qname_ext_char)"

subsection \<open>Names and labels\<close>

definition IsDNS1123Label :: "string \<Rightarrow> bool" where
  "IsDNS1123Label s \<longleftrightarrow> length s \<le> 63 \<and> matches dns1123LabelFmt s"

definition IsDNS1123Subdomain :: "string \<Rightarrow> bool" where
  "IsDNS1123Subdomain s \<longleftrightarrow> length s \<le> 253 \<and> matches dns1123SubdomainFmt s"

definition IsDNS1035Label :: "string \<Rightarrow> bool" where
  "IsDNS1035Label s \<longleftrightarrow> length s \<le> 63 \<and> matches dns1035LabelFmt s"

definition IsValidLabelValue :: "string \<Rightarrow> bool" where
  "IsValidLabelValue s \<longleftrightarrow> length s \<le> 63 \<and> matches labelValueFmt s"

definition qualified_part :: "string \<Rightarrow> bool" where
  "qualified_part name \<longleftrightarrow> name \<noteq> [] \<and> length name \<le> 63 \<and> matches qualifiedNameFmt name"

definition IsQualifiedName :: "string \<Rightarrow> bool" where
  "IsQualifiedName s \<longleftrightarrow>
     (case split_on (CHR ''/'') s of
        [name] \<Rightarrow> qualified_part name
      | [pre, name] \<Rightarrow> pre \<noteq> [] \<and> IsDNS1123Subdomain pre \<and> qualified_part name
      | _ \<Rightarrow> False)"

definition hasChDirPrefix :: "string \<Rightarrow> bool" where
  "hasChDirPrefix s \<longleftrightarrow> s = ''.'' \<or> s = ''..'' \<or> take 2 s = ''..''"

definition IsConfigMapKey :: "string \<Rightarrow> bool" where
  "IsConfigMapKey s \<longleftrightarrow> length s \<le> 253 \<and> matches configMapKeyFmt s \<and> \<not> hasChDirPrefix s"

text \<open>The functions of type \<^verbatim>\<open>ValidateNameFunc\<close>, for a full name.\<close>

definition NameIsDNSSubdomain :: "string \<Rightarrow> bool" where
  "NameIsDNSSubdomain n = IsDNS1123Subdomain n"

definition NameIsDNSLabel :: "string \<Rightarrow> bool" where
  "NameIsDNSLabel n = IsDNS1123Label n"

definition NameIsDNS1035Label :: "string \<Rightarrow> bool" where
  "NameIsDNS1035Label n = IsDNS1035Label n"

subsection \<open>Metadata\<close>

definition ValidateLabels :: "labels \<Rightarrow> bool" where
  "ValidateLabels l \<longleftrightarrow> fmpred (\<lambda>k v. IsQualifiedName k \<and> IsValidLabelValue v) l"

definition ValidateLabelSelectorRequirement :: "label_selector_requirement \<Rightarrow> bool" where
  "ValidateLabelSelectorRequirement sr \<longleftrightarrow>
     (if lsr_Operator sr = ''In'' \<or> lsr_Operator sr = ''NotIn'' then lsr_Values sr \<noteq> []
      else if lsr_Operator sr = ''Exists'' \<or> lsr_Operator sr = ''DoesNotExist'' then lsr_Values sr = []
      else False) \<and> IsQualifiedName (lsr_Key sr)"

definition ValidateLabelSelector :: "label_selector option \<Rightarrow> bool" where
  "ValidateLabelSelector ps \<longleftrightarrow>
     (case ps of
        None \<Rightarrow> True
      | Some s \<Rightarrow> ValidateLabels (ls_MatchLabels s) \<and>
          list_all ValidateLabelSelectorRequirement (ls_MatchExpressions s))"

definition annotations_size :: "labels \<Rightarrow> nat" where
  "annotations_size a = (\<Sum>k\<in>fmdom' a. length k + length (the (fmlookup a k)))"

definition ValidateAnnotations :: "labels \<Rightarrow> bool" where
  "ValidateAnnotations a \<longleftrightarrow>
     fmpred (\<lambda>k v. IsQualifiedName (ToLower k)) a \<and> annotations_size a \<le> 262144"

definition FromAPIVersionAndKind :: "string \<Rightarrow> string \<Rightarrow> gvk" where
  "FromAPIVersionAndKind apiVersion knd =
     (case ParseGroupVersion apiVersion of
        Inl e \<Rightarrow> \<lparr>gvk_Group = [], gvk_Version = [], gvk_Kind = knd\<rparr>
      | Inr gv \<Rightarrow> \<lparr>gvk_Group = fst gv, gvk_Version = snd gv, gvk_Kind = knd\<rparr>)"

definition BannedOwners :: "gvk list" where
  "BannedOwners = [\<lparr>gvk_Group = [], gvk_Version = ''v1'', gvk_Kind = ''Event''\<rparr>]"

definition validateOwnerReference :: "owner_reference \<Rightarrow> bool" where
  "validateOwnerReference r \<longleftrightarrow>
     (let g = FromAPIVersionAndKind (or_APIVersion r) (or_Kind r)
      in gvk_Version g \<noteq> [] \<and> gvk_Kind g \<noteq> [] \<and> or_Name r \<noteq> [] \<and> or_UID r \<noteq> [] \<and> g \<notin> set BannedOwners)"

text \<open>The loop keeps the name of the controller it has seen.\<close>

fun validate_owner_refs :: "string \<Rightarrow> owner_reference list \<Rightarrow> bool" where
  "validate_owner_refs controllerName [] = True"
| "validate_owner_refs controllerName (r # rs) =
     (validateOwnerReference r \<and>
      (if or_Controller r = Some True then
         controllerName = [] \<and> validate_owner_refs (or_Name r) rs
       else validate_owner_refs controllerName rs))"

definition ValidateOwnerReferences :: "owner_reference list \<Rightarrow> bool" where
  "ValidateOwnerReferences rs = validate_owner_refs [] rs"

text \<open>For objects that live in a namespace, which all of the operator's do.\<close>

definition ValidateObjectMeta :: "(string \<Rightarrow> bool) \<Rightarrow> object_meta \<Rightarrow> bool" where
  "ValidateObjectMeta nameFn m \<longleftrightarrow>
     om_Name m \<noteq> [] \<and> nameFn (om_Name m) \<and>
     om_Namespace m \<noteq> [] \<and> NameIsDNSLabel (om_Namespace m) \<and>
     ValidateLabels (om_Labels m) \<and> ValidateAnnotations (om_Annotations m) \<and>
     ValidateOwnerReferences (om_OwnerReferences m)"

subsection \<open>Facts about the expressions\<close>

lemma between_dns:
  "is_lower_letter c \<Longrightarrow> dns_char c" "dns_char c \<Longrightarrow> dns_or_dash c" "dns_char c \<Longrightarrow> qname_char c"
  "dns_or_dash c \<Longrightarrow> qname_ext_char c"
  by (auto simp: dns_char_def dns_or_dash_def qname_char_def qname_ext_char_def)

lemma dns_or_dash_no_dot: "dns_or_dash c \<Longrightarrow> c \<noteq> CHR ''.''"
  by (auto simp: dns_or_dash_def dns_char_def is_lower_letter_def between_def is_digit_def)

lemma matches_framed:
  "matches (Seq (Class P) (Opt (Seq (Star (Class Q)) (Class R)))) s \<longleftrightarrow>
   s \<noteq> [] \<and> P (hd s) \<and> (tl s = [] \<or> list_all Q (butlast (tl s)) \<and> R (last s))"
proof (cases s)
  case Nil
  then show ?thesis by simp
next
  case (Cons c t)
  then show ?thesis unfolding matches_lang by (simp only: lang_framed) auto
qed

lemmas matches_1123 = matches_framed [of dns_char dns_or_dash dns_char, folded dns1123LabelFmt_def]
lemmas matches_1035 = matches_framed [of is_lower_letter dns_or_dash dns_char, folded dns1035LabelFmt_def]

lemma list_all_ends:
  assumes "s \<noteq> []" "P (hd s)" "tl s = [] \<or> list_all P (butlast (tl s)) \<and> P (last s)"
  shows "list_all P s"
proof (cases s)
  case Nil
  with assms(1) show ?thesis by simp
next
  case (Cons c t)
  show ?thesis
  proof (cases t rule: rev_cases)
    case Nil
    with Cons assms(2) show ?thesis by simp
  next
    case (snoc u d)
    with Cons assms show ?thesis by simp
  qed
qed

lemma dns_labels_chars:
  "matches dns1123LabelFmt s \<Longrightarrow> list_all dns_or_dash s"
  "matches dns1035LabelFmt s \<Longrightarrow> list_all dns_or_dash s"
  unfolding matches_1123 matches_1035 by (auto intro!: list_all_ends intro: between_dns)

text \<open>Names stay valid when a dash and a suffix are added.\<close>

lemma framed_extend:
  assumes "s \<noteq> []" "P (hd s)" "list_all Q s" "Q x" "list_all Q suffix" "suffix \<noteq> []" "R (last suffix)"
  shows "matches (Seq (Class P) (Opt (Seq (Star (Class Q)) (Class R)))) (s @ x # suffix)"
proof -
  obtain c t where s: "s = c # t" using assms(1) by (cases s) auto
  obtain u d where v: "suffix = u @ [d]" using assms(6) by (cases suffix rule: rev_cases) auto
  show ?thesis unfolding matches_framed using assms s v by (simp add: butlast_append)
qed

lemma matches_extend:
  assumes "list_all dns_or_dash suffix" "suffix \<noteq> []" "dns_char (last suffix)"
  shows "matches dns1035LabelFmt s \<Longrightarrow> matches dns1035LabelFmt (s @ CHR ''-'' # suffix)"
    and "matches dns1123LabelFmt s \<Longrightarrow> matches dns1123LabelFmt (s @ CHR ''-'' # suffix)"
proof -
  note extend = framed_extend [where Q = dns_or_dash and R = dns_char and x = "CHR ''-''" and suffix = suffix,
      OF _ _ _ _ assms]
  have dash: "dns_or_dash (CHR ''-'')" by (simp add: dns_or_dash_def)
  show "matches dns1035LabelFmt (s @ CHR ''-'' # suffix)" if "matches dns1035LabelFmt s"
    using extend [of s is_lower_letter] dash that matches_1035 [of s] dns_labels_chars(2) [of s]
    by (simp add: dns1035LabelFmt_def)
  show "matches dns1123LabelFmt (s @ CHR ''-'' # suffix)" if "matches dns1123LabelFmt s"
    using extend [of s dns_char] dash that matches_1123 [of s] dns_labels_chars(1) [of s]
    by (simp add: dns1123LabelFmt_def)
qed

lemma matches_1035_1123: "matches dns1035LabelFmt s \<Longrightarrow> matches dns1123LabelFmt s"
  unfolding matches_1123 matches_1035 by (auto intro: between_dns)

lemma label_is_subdomain: "matches dns1123LabelFmt s \<Longrightarrow> matches dns1123SubdomainFmt s"
  unfolding matches_lang dns1123SubdomainFmt_def by (auto intro: iterated_Nil)

text \<open>A subdomain without dots is a label.\<close>

lemma subdomain_is_label:
  assumes "matches dns1123SubdomainFmt s" "CHR ''.'' \<notin> set s"
  shows "matches dns1123LabelFmt s"
proof -
  obtain u v where s: "s = u @ v" and u: "u \<in> lang dns1123LabelFmt"
    and v: "v \<in> iterated (lang (Seq (Lit (CHR ''.'')) dns1123LabelFmt))"
    using assms(1) unfolding matches_lang dns1123SubdomainFmt_def by (auto simp del: lang_Lit)
  have "v = []" using v assms(2) s by (cases rule: iterated.cases) auto
  with s u show ?thesis by (simp add: matches_lang)
qed

lemma dns_label_value:
  assumes "matches dns1123LabelFmt s"
  shows "matches labelValueFmt s"
proof -
  have s: "s \<noteq> []" "dns_char (hd s)" "tl s = [] \<or> list_all dns_or_dash (butlast (tl s)) \<and> dns_char (last s)"
    using assms unfolding matches_1123 by blast+
  have "list_all qname_ext_char (butlast (tl s))"
    using s(3) between_dns(4) by (auto simp: list_all_iff)
  moreover have "qname_char (last s)"
    using s between_dns(3) by (cases s) (auto split: if_splits)
  ultimately show ?thesis
    using lang_ended [of s qname_char qname_ext_char] s between_dns(3)
    by (simp only: matches_lang labelValueFmt_def qualifiedNameFmt_def lang_Opt) blast
qed

end
