(* ===== verification/Valid_Children.thy ===== *)
theory Valid_Children
  imports Validation Reconcile_Properties
begin

section \<open>Which owners get children that the API server accepts\<close>

text \<open>
  The names of the children are made from the name of the owner, without a check. Which kind of
  name an API server wants for which kind of object is a parameter (\<open>nameFn\<close>) with the
  documented rules as a hypothesis: a service needs a DNS-1035 label, the other children a
  DNS subdomain, as do the custom resources themselves. The rules on the other fields
  are those of the comments in \<^verbatim>\<open>k8s.io/api/core/v1/types.go\<close>: the names of a service's ports are
  distinct DNS labels, the keys of a config map are alphanumeric with dashes, dots and
  underscores.
\<close>

subsection \<open>Valid objects\<close>

definition name_rules :: "(go_type \<Rightarrow> string \<Rightarrow> bool) \<Rightarrow> bool" where
  "name_rules nameFn \<longleftrightarrow>
     nameFn ServiceT = NameIsDNS1035Label \<and>
     list_all (\<lambda>t. nameFn t = NameIsDNSSubdomain) [ConfigMapT, StatefulSetT, PodT, PodDisruptionBudgetT]"

fun valid_parts :: "kobj \<Rightarrow> bool" where
  "valid_parts (ServiceO s) \<longleftrightarrow>
     distinct (map sp_Name (svc_Ports s)) \<and> list_all IsDNS1123Label (map sp_Name (svc_Ports s)) \<and>
     ValidateLabels (svc_Selector s)"
| "valid_parts (ConfigMapO c) \<longleftrightarrow> fmpred (\<lambda>k v. IsConfigMapKey k) (cm_Data c)"
| "valid_parts (StatefulSetO s) \<longleftrightarrow>
     ValidateLabels (sts_TemplateLabels s) \<and> ValidateLabelSelector (sts_Selector s)"
| "valid_parts (PodDisruptionBudgetO p) \<longleftrightarrow> ValidateLabelSelector (pdb_Selector p)"
| "valid_parts _ \<longleftrightarrow> True"

definition valid_object :: "(go_type \<Rightarrow> string \<Rightarrow> bool) \<Rightarrow> kobj \<Rightarrow> bool" where
  "valid_object nameFn ob \<longleftrightarrow> ValidateObjectMeta (nameFn (type_of ob)) (meta_of ob) \<and> valid_parts ob"

text \<open>What holds of a custom resource that the server has stored.\<close>

definition valid_owner :: "object_meta \<Rightarrow> bool" where
  "valid_owner m \<longleftrightarrow> ValidateObjectMeta NameIsDNSSubdomain m \<and> om_UID m \<noteq> []"

subsection \<open>Constants are valid\<close>

lemma fmpred_of_list_iff:
  "distinct (map fst xs) \<Longrightarrow> fmpred P (fmap_of_list xs) \<longleftrightarrow> list_all (\<lambda>(k, v). P k v) xs"
  by (auto simp: fmpred_iff fmlookup_of_list list_all_iff)

lemma valid_keys:
  "IsQualifiedName AppKey" "IsQualifiedName ClusterKey" "IsQualifiedName TypeKey" "IsQualifiedName GroupKey"
  by code_simp+

lemma valid_values:
  "IsValidLabelValue AtomixApp" "IsValidLabelValue ManagementType" "IsValidLabelValue GroupType"
  "IsValidLabelValue BenchWorkerType" "IsValidLabelValue BenchCoordinatorType"
  by code_simp+

lemma valid_config_keys: "IsConfigMapKey ''create_config.sh''" "IsConfigMapKey ''atomix.conf''"
  by code_simp+

lemma valid_port_names: "IsDNS1123Label ''node''"
  by code_simp

lemma valid_annotations: "ValidateAnnotations fmempty" "ValidateAnnotations tolerate_unready_annotations"
proof -
  have "IsQualifiedName (ToLower ''service.alpha.kubernetes.io/tolerate-unready-endpoints'')"
    by code_simp
  then show "ValidateAnnotations fmempty" "ValidateAnnotations tolerate_unready_annotations"
    by (simp_all add: ValidateAnnotations_def annotations_size_def tolerate_unready_annotations_def
        fmpred_of_list_iff del: fmap_of_list_simps) (simp add: fmap_of_list_simps)
qed

lemma valid_reference:
  assumes "t \<in> {AtomixClusterT, PartitionGroupT, AtomixBenchmarkT}"
  shows "validateOwnerReference (NewControllerRef m (agent_gvk t)) \<longleftrightarrow> om_Name m \<noteq> [] \<and> om_UID m \<noteq> []"
proof -
  have "FromAPIVersionAndKind (gv_string ''agent.atomix.io'' ''v1alpha1'') k =
      \<lparr>gvk_Group = ''agent.atomix.io'', gvk_Version = ''v1alpha1'', gvk_Kind = k\<rparr>" for k
    by (simp add: FromAPIVersionAndKind_def ParseGroupVersion_gv_string)
  with assms show ?thesis
    by (auto simp: validateOwnerReference_def NewControllerRef_def agent_gvk_def BannedOwners_def)
qed

text \<open>An owned child is valid if its name, labels and parts are.\<close>

lemma valid_owned:
  assumes "valid_owner owner" "t \<in> {AtomixClusterT, PartitionGroupT, AtomixBenchmarkT}"
    and "om_Name (meta_of ob) \<noteq> []" "om_Namespace (meta_of ob) = om_Namespace owner"
    and "om_Annotations (meta_of ob) \<in> {fmempty, tolerate_unready_annotations}"
  shows "valid_object nameFn (owned_by (agent_gvk t) owner ob) \<longleftrightarrow>
    nameFn (type_of ob) (om_Name (meta_of ob)) \<and> ValidateLabels (om_Labels (meta_of ob)) \<and> valid_parts ob"
proof -
  have "valid_parts (map_meta f ob) = valid_parts ob" for f by (cases ob) simp_all
  moreover have "ValidateAnnotations (om_Annotations (meta_of ob))"
    using assms(5) valid_annotations by auto
  moreover have "ValidateOwnerReferences [NewControllerRef owner (agent_gvk t)]"
    using assms(1) valid_reference [OF assms(2), of owner]
    by (simp add: ValidateOwnerReferences_def valid_owner_def ValidateObjectMeta_def)
  ultimately show ?thesis
    using assms(1,3,4)
    by (simp add: valid_object_def owned_by_def ValidateObjectMeta_def valid_owner_def)
qed

definition child_valid :: "(go_type \<Rightarrow> string \<Rightarrow> bool) \<Rightarrow> kobj \<Rightarrow> bool" where
  "child_valid nameFn ob \<longleftrightarrow>
     nameFn (type_of ob) (om_Name (meta_of ob)) \<and> ValidateLabels (om_Labels (meta_of ob)) \<and> valid_parts ob"

definition plain_child :: "object_meta \<Rightarrow> kobj \<Rightarrow> bool" where
  "plain_child owner ob \<longleftrightarrow>
     om_Name (meta_of ob) \<noteq> [] \<and> om_Namespace (meta_of ob) = om_Namespace owner \<and>
     om_Annotations (meta_of ob) \<in> {fmempty, tolerate_unready_annotations}"

lemma valid_owned_list:
  assumes "valid_owner owner" "t \<in> {AtomixClusterT, PartitionGroupT, AtomixBenchmarkT}"
    and "list_all (plain_child owner) obs"
  shows "list_all (valid_object nameFn) (map (owned_by (agent_gvk t) owner) obs) \<longleftrightarrow>
    list_all (child_valid nameFn) obs"
  using assms(3) valid_owned [OF assms(1,2), where nameFn = nameFn]
  by (auto simp: list_all_iff plain_child_def child_valid_def)

subsection \<open>Labels\<close>

lemma valid_labels:
  "ValidateLabels fmempty"
  "ValidateLabels (newManagementLabels c) \<longleftrightarrow> IsValidLabelValue (om_Name (ac_Meta c))"
  "ValidateLabels (fmap_of_list [(AppKey, AtomixApp), (ClusterKey, om_Name (ac_Meta c))]) \<longleftrightarrow>
     IsValidLabelValue (om_Name (ac_Meta c))"
  "ValidateLabels (newPartitionGroupLabels g) \<longleftrightarrow>
     IsValidLabelValue (gs_Cluster (pg_Spec g)) \<and> IsValidLabelValue (om_Name (pg_Meta g))"
  "ValidateLabels (newBenchmarkControllerLabels b) \<longleftrightarrow> IsValidLabelValue (bs_Cluster (ab_Spec b))"
  "ValidateLabels (newBenchmarkWorkerLabels b) \<longleftrightarrow> IsValidLabelValue (bs_Cluster (ab_Spec b))"
proof -
  have keys: "distinct [AppKey, ClusterKey, TypeKey, GroupKey]" by code_simp
  show "ValidateLabels fmempty"
    "ValidateLabels (newManagementLabels c) \<longleftrightarrow> IsValidLabelValue (om_Name (ac_Meta c))"
    "ValidateLabels (fmap_of_list [(AppKey, AtomixApp), (ClusterKey, om_Name (ac_Meta c))]) \<longleftrightarrow>
       IsValidLabelValue (om_Name (ac_Meta c))"
    "ValidateLabels (newPartitionGroupLabels g) \<longleftrightarrow>
       IsValidLabelValue (gs_Cluster (pg_Spec g)) \<and> IsValidLabelValue (om_Name (pg_Meta g))"
    "ValidateLabels (newBenchmarkControllerLabels b) \<longleftrightarrow> IsValidLabelValue (bs_Cluster (ab_Spec b))"
    "ValidateLabels (newBenchmarkWorkerLabels b) \<longleftrightarrow> IsValidLabelValue (bs_Cluster (ab_Spec b))"
    using keys valid_keys valid_values
    by (simp_all add: ValidateLabels_def newManagementLabels_def newPartitionGroupLabels_def
        newBenchmarkControllerLabels_def newBenchmarkWorkerLabels_def fmpred_of_list_iff
        del: fmap_of_list_simps)
qed

lemma label_of_name: "IsDNS1035Label n \<Longrightarrow> IsValidLabelValue n"
  by (simp add: IsDNS1035Label_def IsValidLabelValue_def matches_1035_1123 dns_label_value)

subsection \<open>Names with suffixes\<close>

lemma valid_ownerD: "valid_owner m \<Longrightarrow> om_Name m \<noteq> [] \<and> IsDNS1123Subdomain (om_Name m)"
  by (simp add: valid_owner_def ValidateObjectMeta_def NameIsDNSSubdomain_def)

definition plain_suffix :: "string \<Rightarrow> bool" where
  "plain_suffix s \<longleftrightarrow> s \<noteq> [] \<and> length s \<le> 7 \<and> list_all dns_or_dash s \<and> dns_char (last s)"

lemma plain_suffixes:
  "plain_suffix InitSuffix" "plain_suffix ConfigSuffix" "plain_suffix DisruptionBudgetSuffix"
  "plain_suffix ServiceSuffix" "plain_suffix ''node''" "plain_suffix ''api''"
  by code_simp+

lemma suffixed_label:
  assumes "matches dns1035LabelFmt n" "plain_suffix s"
  shows "IsDNS1123Label (n @ CHR ''-'' # s) \<longleftrightarrow> length n + length s \<le> 62"
    and "IsDNS1035Label (n @ CHR ''-'' # s) \<longleftrightarrow> length n + length s \<le> 62"
    and "length n \<le> 63 \<Longrightarrow> IsDNS1123Subdomain (n @ CHR ''-'' # s)"
  using assms matches_extend [of s n] matches_1035_1123 [of n] label_is_subdomain [of "n @ CHR ''-'' # s"]
  by (auto simp: plain_suffix_def IsDNS1123Label_def IsDNS1035Label_def IsDNS1123Subdomain_def)

lemma name_of_suffixed:
  assumes "IsDNS1035Label (n @ CHR ''-'' # s)" "IsDNS1123Subdomain n"
  shows "matches dns1035LabelFmt n" "length n + length s \<le> 62"
proof -
  have ext: "matches dns1035LabelFmt (n @ CHR ''-'' # s)" using assms(1) by (simp add: IsDNS1035Label_def)
  have "list_all dns_or_dash n" using dns_labels_chars(2) [OF ext] by simp
  then have "CHR ''.'' \<notin> set n" using dns_or_dash_no_dot by (auto simp: list_all_iff)
  then have "matches dns1123LabelFmt n"
    using assms(2) by (simp add: subdomain_is_label IsDNS1123Subdomain_def)
  then show "matches dns1035LabelFmt n"
    using ext unfolding matches_1123 matches_1035 by simp
  show "length n + length s \<le> 62" using assms(1) by (simp add: IsDNS1035Label_def)
qed

lemma label_name: "IsDNS1035Label n \<Longrightarrow> matches dns1035LabelFmt n \<and> length n \<le> 63 \<and> IsDNS1123Subdomain n"
  by (simp add: IsDNS1035Label_def IsDNS1123Subdomain_def matches_1035_1123 label_is_subdomain)

lemma name_rulesD:
  assumes "name_rules nameFn"
  shows "nameFn ServiceT = IsDNS1035Label" "nameFn ConfigMapT = IsDNS1123Subdomain"
    "nameFn StatefulSetT = IsDNS1123Subdomain" "nameFn PodT = IsDNS1123Subdomain"
    "nameFn PodDisruptionBudgetT = IsDNS1123Subdomain"
  using assms by (simp_all add: name_rules_def NameIsDNSSubdomain_def NameIsDNS1035Label_def fun_eq_iff)

subsection \<open>The children of the three owners\<close>

lemma cluster_children_valid:
  assumes "name_rules nameFn" "valid_owner (ac_Meta c)" "NewManagementStatefulSet c = Inr x"
  shows "list_all (valid_object nameFn) (map (owned_by cluster_gvk (ac_Meta c)) (cluster_children c x)) \<longleftrightarrow>
    IsDNS1035Label (om_Name (ac_Meta c)) \<and> length (om_Name (ac_Meta c)) \<le> 58" (is "?L \<longleftrightarrow> _")
proof -
  let ?n = "om_Name (ac_Meta c)"
  note owner = valid_ownerD [OF assms(2)]
  have parts: "sts_TemplateLabels x = newManagementLabels c" "sts_Selector x = Some (match_labels (newManagementLabels c))"
    "sts_Meta x = new_meta ?n (om_Namespace (ac_Meta c)) (newManagementLabels c)"
    using assms(3) by (auto simp: NewManagementStatefulSet_def name_defs split: sum.splits)
  note defs = cluster_children_def cluster_configs_def cluster_object_defs new_meta_def name_defs Let_def parts
  have "list_all (plain_child (ac_Meta c)) (cluster_children c x)"
    using owner by (simp add: defs plain_child_def)
  then have "?L \<longleftrightarrow> list_all (child_valid nameFn) (cluster_children c x)"
    by (simp add: valid_owned_list [OF assms(2)] del: list.pred_map)
  also have "\<dots> \<longleftrightarrow> IsDNS1123Subdomain (?n @ CHR ''-'' # InitSuffix) \<and> IsDNS1123Subdomain (?n @ CHR ''-'' # ConfigSuffix) \<and>
      IsDNS1123Subdomain (?n @ CHR ''-'' # DisruptionBudgetSuffix) \<and> IsDNS1123Label (?n @ CHR ''-'' # ''node'') \<and>
      IsValidLabelValue ?n \<and> IsDNS1123Subdomain ?n \<and> IsDNS1035Label ?n"
    using valid_config_keys
    by (auto simp: defs child_valid_def name_rulesD [OF assms(1)] valid_labels fmpred_of_list_iff
        ValidateLabelSelector_def match_labels_def simp del: fmap_of_list_simps)
  also have "\<dots> \<longleftrightarrow> IsDNS1035Label ?n \<and> length ?n \<le> 58"
    using label_name [of ?n] label_of_name [of ?n] suffixed_label [of ?n] plain_suffixes by auto
  finally show ?thesis .
qed

lemma group_children_valid:
  assumes "name_rules nameFn" "valid_owner (pg_Meta g)"
    "NewPartitionGroupConfigMap g = Inr (Some cm)" "NewPartitionGroupStatefulSet g = Inr (Some x)"
  shows "list_all (valid_object nameFn) (map (owned_by group_gvk (pg_Meta g)) (group_children g cm x)) \<longleftrightarrow>
    IsDNS1035Label (om_Name (pg_Meta g)) \<and> IsValidLabelValue (gs_Cluster (pg_Spec g))" (is "?L \<longleftrightarrow> _")
proof -
  let ?n = "om_Name (pg_Meta g)"
  note owner = valid_ownerD [OF assms(2)]
  obtain conf where data: "cm_Data cm = fmap_of_list [(''atomix.conf'', conf)]"
    using assms(3) by (cases g rule: GetPartitionGroupType_cases)
      (auto simp: NewPartitionGroupConfigMap_def newRaftPartitionGroupConfigMap_def
        newPrimaryBackupPartitionGroupConfigMap_def newLogPartitionGroupConfigMap_def)
  note defs = group_children_def group_object_defs new_meta_def name_defs Let_def data
    NewPartitionGroupConfigMap_meta [OF assms(3)] NewPartitionGroupStatefulSet_SomeE(1,4,5) [OF assms(4)]
  have "list_all (plain_child (pg_Meta g)) (group_children g cm x)"
    using owner by (simp add: defs plain_child_def)
  then have "?L \<longleftrightarrow> list_all (child_valid nameFn) (group_children g cm x)"
    by (simp add: valid_owned_list [OF assms(2)] del: list.pred_map)
  also have "\<dots> \<longleftrightarrow> IsDNS1123Subdomain (?n @ CHR ''-'' # InitSuffix) \<and> IsDNS1123Subdomain (?n @ CHR ''-'' # ConfigSuffix) \<and>
      IsDNS1123Subdomain (?n @ CHR ''-'' # DisruptionBudgetSuffix) \<and>
      IsValidLabelValue ?n \<and> IsDNS1123Subdomain ?n \<and> IsDNS1035Label ?n \<and> IsValidLabelValue (gs_Cluster (pg_Spec g))"
    using valid_config_keys valid_port_names
    by (auto simp: defs child_valid_def name_rulesD [OF assms(1)] valid_labels fmpred_of_list_iff
        ValidateLabelSelector_def match_labels_def simp del: fmap_of_list_simps)
  also have "\<dots> \<longleftrightarrow> IsDNS1035Label ?n \<and> IsValidLabelValue (gs_Cluster (pg_Spec g))"
    using label_name [of ?n] label_of_name [of ?n] suffixed_label [of ?n] plain_suffixes by auto
  finally show ?thesis .
qed

lemma benchmark_children_valid:
  assumes "name_rules nameFn" "valid_owner (ab_Meta b)"
  shows "list_all (valid_object nameFn) (map (owned_by benchmark_gvk (ab_Meta b)) (benchmark_children b)) \<longleftrightarrow>
    IsDNS1035Label (om_Name (ab_Meta b)) \<and> length (om_Name (ab_Meta b)) \<le> 55 \<and>
    IsValidLabelValue (bs_Cluster (ab_Spec b))" (is "?L \<longleftrightarrow> _")
proof -
  let ?n = "om_Name (ab_Meta b)"
  note owner = valid_ownerD [OF assms(2)]
  note defs = benchmark_children_def benchmark_object_defs new_meta_def name_defs Let_def
  have "list_all (plain_child (ab_Meta b)) (benchmark_children b)"
    using owner by (simp add: defs plain_child_def)
  then have "?L \<longleftrightarrow> list_all (child_valid nameFn) (benchmark_children b)"
    by (simp add: valid_owned_list [OF assms(2)] del: list.pred_map)
  also have "\<dots> \<longleftrightarrow> IsDNS1123Subdomain (?n @ CHR ''-'' # InitSuffix) \<and> IsDNS1123Subdomain (?n @ CHR ''-'' # ConfigSuffix) \<and>
      IsDNS1035Label (?n @ CHR ''-'' # ServiceSuffix) \<and> IsDNS1123Label (?n @ CHR ''-'' # ''node'') \<and>
      IsDNS1123Label (?n @ CHR ''-'' # ''api'') \<and> IsDNS1123Subdomain ?n \<and> IsValidLabelValue (bs_Cluster (ab_Spec b))"
    using valid_config_keys
    by (auto simp: defs child_valid_def name_rulesD [OF assms(1)] valid_labels fmpred_of_list_iff
        ValidateLabelSelector_def match_labels_def simp del: fmap_of_list_simps)
  also have "\<dots> \<longleftrightarrow> IsDNS1035Label ?n \<and> length ?n \<le> 55 \<and> IsValidLabelValue (bs_Cluster (ab_Spec b))"
  proof -
    have "length ServiceSuffix = 7" by (simp add: ServiceSuffix_def)
    moreover have "IsDNS1035Label ?n \<longleftrightarrow> length ?n \<le> 63 \<and> matches dns1035LabelFmt ?n"
      by (rule IsDNS1035Label_def)
    ultimately show ?thesis
      using label_name [of ?n] suffixed_label [of ?n] plain_suffixes name_of_suffixed [of ?n ServiceSuffix] owner
      by auto
  qed
  finally show ?thesis .
qed

subsection \<open>A server that validates\<close>

text \<open>
  A client in front of a server that refuses to store invalid objects. It keeps the promises of
  a sound client, and what is stored under a key that was free is valid.
\<close>

definition invalid_object :: go_error where
  "invalid_object = ErrorString ''invalid''"

definition validating :: "(go_type \<Rightarrow> string \<Rightarrow> bool) \<Rightarrow> 'w client \<Rightarrow> 'w client" where
  "validating nameFn cl =
     \<lparr>cl_Get = cl_Get cl,
      cl_Create = (\<lambda>w ob. if valid_object nameFn ob then cl_Create cl w ob else (w, Some invalid_object))\<rparr>"

definition valid_under :: "(go_type \<Rightarrow> string \<Rightarrow> bool) \<Rightarrow> obj_key \<Rightarrow> store \<Rightarrow> bool" where
  "valid_under nameFn k m \<longleftrightarrow> (\<forall>ob. m k = Some ob \<longrightarrow> valid_object nameFn ob)"

lemma valid_parts_map_meta [simp]: "valid_parts (map_meta f ob) = valid_parts ob"
  by (cases ob) simp_all

lemma valid_object_with_uid [simp]: "valid_object nameFn (with_uid u ob) \<longleftrightarrow> valid_object nameFn ob"
  by (simp add: valid_object_def with_uid_def ValidateObjectMeta_def)

context sound_client
begin

lemma validating_sound:
  "sound_client (validating nameFn cl) objs (\<lambda>w. ok w \<and> valid_under nameFn k (objs w))"
proof (intro sound_client.intro api_client.intro sound_client_axioms.intro)
  let ?cl = "validating nameFn cl" and ?ok = "\<lambda>w. ok w \<and> valid_under nameFn k (objs w)"
  show "?ok w' \<and> objs w' = objs w" if "?ok w" "cl_Get ?cl w t nn = (w', r)" for w t nn w' r
    using that get_frame [of w t nn w' r] by (simp add: validating_def)
  show "key_of ob = (t, nn)" if "?ok w" "proper_name nn" "cl_Get ?cl w t nn = (w', Inr ob)" for w t nn w' ob
    using that get_key [of w nn t w' ob] by (simp add: validating_def)
  show effect: "(objs w' = objs w \<and> e \<noteq> None) \<or>
      (objs w (key_of ob) = None \<and> (\<exists>u. objs w' = (objs w)(key_of ob \<mapsto> with_uid u ob)))"
    if "?ok w" "proper_name (snd (key_of ob))" "cl_Create ?cl w ob = (w', e)" for w ob w' e
    using that create_effect [of w ob w' e] by (auto simp: validating_def split: if_splits)
  show "?ok w'" if "?ok w" "proper_name (snd (key_of ob))" "cl_Create ?cl w ob = (w', e)" for w ob w' e
  proof -
    have "ok w'" using that create_ok [of w ob w' e] by (auto simp: validating_def split: if_splits)
    moreover have "valid_object nameFn ob \<or> w' = w" using that(3) by (auto simp: validating_def split: if_splits)
    ultimately show ?thesis
      using that(1) effect [OF that] by (auto simp: valid_under_def split: if_splits)
  qed
  show "objs w (t, nn) \<noteq> None" if "?ok w" "proper_name nn" "cl_Get ?cl w t nn = (w', Inr ob)" for w t nn w' ob
    using that get_sound [of w nn t w' ob] by (simp add: validating_def)
qed

end

text \<open>A run never succeeds if one of the missing objects of its plan is invalid.\<close>

context sound_reconciler
begin

lemma invalid_child_fails:
  assumes "\<And>w. ok w \<Longrightarrow> valid_under nameFn k (objs w)"
    and "ok w" "proper_name nn" "cl_Get cl w t nn = (w1, Inr ob)" "reconcile nn w = (w', res, e)"
    and "k \<in> plan_keys (plan_of ob)" "objs w k = None"
    and "\<And>ob'. (k, ob') \<in> plan_objects (plan_of ob) \<Longrightarrow> \<not> valid_object nameFn ob'"
  shows "e \<noteq> None \<and> objs w' k = None"
proof -
  note safe = reconcile_safe [OF assms(2-5)]
  have "objs w' k = None"
  proof (rule ccontr)
    assume "objs w' k \<noteq> None"
    then obtain x where x: "objs w' k = Some x" by blast
    obtain ob' u where "(k, ob') \<in> plan_objects (plan_of ob)" "x = with_uid u ob'"
      using grows_by_new [OF safe(2) assms(7) x] by blast
    with assms(8) have "\<not> valid_object nameFn x" by simp
    with assms(1) [OF safe(1)] x show False by (auto simp: valid_under_def)
  qed
  with reconcile_complete [OF assms(2-4) _ assms(6)] assms(5) show ?thesis by (cases e) auto
qed

end

subsection \<open>Owners with a bad name\<close>

lemma ill_named_cluster:
  assumes "name_rules nameFn" "scheme_ready s" "valid_owner (ac_Meta c)"
    "((ServiceT, meta_name (ac_Meta c)), ob) \<in> plan_objects (cluster_items s c)" "valid_object nameFn ob"
  shows "IsDNS1035Label (om_Name (ac_Meta c)) \<and> length (om_Name (ac_Meta c)) \<le> 58"
proof -
  let ?n = "om_Name (ac_Meta c)"
  note owner = valid_ownerD [OF assms(3)]
  have "ob = owned_by cluster_gvk (ac_Meta c) (ServiceO (NewManagementService c))"
    using assms(4) scheme_readyD(1) [OF assms(2)]
    by (auto simp: cluster_items_def Let_def plan_objects_def cluster_fresh SetControllerReference_fresh split: sum.splits)
  then have "child_valid nameFn (ServiceO (NewManagementService c))"
    using valid_owned_list [OF assms(3), of AtomixClusterT "[ServiceO (NewManagementService c)]" nameFn] assms(5) owner
    by (simp add: plain_child_def NewManagementService_def new_meta_def name_defs)
  then have "IsDNS1035Label ?n" "IsDNS1123Label (?n @ CHR ''-'' # ''node'')"
    by (simp_all add: child_valid_def name_rulesD [OF assms(1)] NewManagementService_def new_meta_def name_defs)
  then show ?thesis
    using label_name [of ?n] suffixed_label(1) [of ?n "''node''"] plain_suffixes by auto
qed

lemma ill_named_group:
  assumes "name_rules nameFn" "scheme_ready s" "valid_owner (pg_Meta g)"
    "((ServiceT, meta_name (pg_Meta g)), ob) \<in> plan_objects (group_items s g)" "valid_object nameFn ob"
  shows "IsDNS1035Label (om_Name (pg_Meta g)) \<and> IsValidLabelValue (gs_Cluster (pg_Spec g))"
proof -
  note owner = valid_ownerD [OF assms(3)]
  have "ob = owned_by group_gvk (pg_Meta g) (ServiceO (NewPartitionGroupService g))"
    using assms(4) scheme_readyD(2) [OF assms(2)]
    by (auto simp: group_items_def Let_def plan_objects_def group_fresh SetControllerReference_fresh split: sum.splits)
  then have "child_valid nameFn (ServiceO (NewPartitionGroupService g))"
    using valid_owned_list [OF assms(3), of PartitionGroupT "[ServiceO (NewPartitionGroupService g)]" nameFn] assms(5) owner
    by (simp add: plain_child_def NewPartitionGroupService_def new_meta_def name_defs)
  then show ?thesis
    by (simp add: child_valid_def name_rulesD [OF assms(1)] NewPartitionGroupService_def new_meta_def name_defs
        valid_labels)
qed

lemma ill_named_benchmark:
  assumes "name_rules nameFn" "scheme_ready s" "valid_owner (ab_Meta b)"
    "((ServiceT, NamespacedName (om_Namespace (ab_Meta b)) (GetBenchmarkControllerServiceName b)), ob)
       \<in> plan_objects (benchmark_items s b)" "valid_object nameFn ob"
  shows "IsDNS1035Label (om_Name (ab_Meta b)) \<and> length (om_Name (ab_Meta b)) \<le> 55 \<and>
    IsValidLabelValue (bs_Cluster (ab_Spec b))"
proof -
  let ?n = "om_Name (ab_Meta b)"
  note owner = valid_ownerD [OF assms(3)]
  obtain svc where svc: "svc \<in> {NewBenchmarkControllerService b, NewBenchmarkWorkerService b}"
    "ob = owned_by benchmark_gvk (ab_Meta b) (ServiceO svc)"
    using assms(4) by (auto simp: benchmark_items_built [OF assms(2)] plan_objects_owned benchmark_children_def benchmark_keys)
  have "plain_child (ab_Meta b) (ServiceO svc)"
    using svc(1) by (auto simp: plain_child_def NewBenchmarkControllerService_def NewBenchmarkWorkerService_def
        new_meta_def name_defs)
  then have "child_valid nameFn (ServiceO svc)"
    using valid_owned_list [OF assms(3), of AtomixBenchmarkT "[ServiceO svc]" nameFn] assms(5) svc(2) by simp
  then have "IsDNS1035Label (?n @ CHR ''-'' # ServiceSuffix)" and lbl: "IsValidLabelValue (bs_Cluster (ab_Spec b))"
    using svc(1) by (auto simp: child_valid_def name_rulesD [OF assms(1)] NewBenchmarkControllerService_def
        NewBenchmarkWorkerService_def new_meta_def name_defs valid_labels)
  from name_of_suffixed [OF this(1)] owner have "matches dns1035LabelFmt ?n" "length ?n + length ServiceSuffix \<le> 62"
    by simp_all
  then have "IsDNS1035Label ?n \<and> length ?n \<le> 55" by (simp add: IsDNS1035Label_def ServiceSuffix_def)
  with lbl show ?thesis by simp
qed

text \<open>
  A run over a server that validates, for an owner without a service: it cannot succeed if the
  names do not fit.
\<close>

lemma validated_run_fails:
  assumes rec: "\<And>cl ok. sound_client cl objs ok \<Longrightarrow> sound_reconciler cl objs ok t mk plan_of (rec cl)"
    and "sound_client cl objs ok" "ok w" "proper_name nn" "cl_Get cl w t nn = (w1, Inr ob)"
    and "objs w k = None" "k \<in> plan_keys (plan_of ob)"
    and "\<And>ob'. (k, ob') \<in> plan_objects (plan_of ob) \<Longrightarrow> \<not> valid_object nameFn ob'"
    and "rec (validating nameFn cl) nn w = (w', res, e)"
  shows "e \<noteq> None \<and> objs w' k = None"
proof -
  note checked = rec [OF sound_client.validating_sound [OF assms(2), of nameFn k]]
  have "cl_Get (validating nameFn cl) w t nn = (w1, Inr ob)" using assms(5) by (simp add: validating_def)
  with sound_reconciler.invalid_child_fails [OF checked, of nameFn k w nn w1 ob w' res e] assms(3,4,6-9)
  show ?thesis by (simp add: valid_under_def)
qed

lemma validated_cluster_fails:
  assumes "sound_client cl objs ok" "ok w" "proper_name nn" "scheme_ready s" "name_rules nameFn"
    and "cl_Get cl w AtomixClusterT nn = (w1, Inr (AtomixClusterO c))" "valid_owner (ac_Meta c)"
    and "\<not> (IsDNS1035Label (nn_Name nn) \<and> length (nn_Name nn) \<le> 58)" "objs w (ServiceT, nn) = None"
    and "cluster_Reconcile \<lparr>r_client = validating nameFn cl, r_scheme = s\<rparr> nn w = (w', res, e)"
  shows "e \<noteq> None \<and> objs w' (ServiceT, nn) = None"
proof (rule validated_run_fails [where rec = "\<lambda>cl. cluster_Reconcile \<lparr>r_client = cl, r_scheme = s\<rparr>" and
      plan_of = "cluster_plan s" and nameFn = nameFn, OF cluster_sound assms(1-3,6,9) _ _ assms(10)])
  have nn: "nn = NamespacedName (om_Namespace (ac_Meta c)) (om_Name (ac_Meta c))"
    using api_client.get_key [OF sound_client.axioms(1) [OF assms(1)] assms(2,3,6)]
    by (simp add: key_of_def meta_name_def)
  then show "(ServiceT, nn) \<in> plan_keys (cluster_plan s (AtomixClusterO c))"
    by (simp add: cluster_items_def Let_def name_defs suffix_defs)
  show "\<not> valid_object nameFn ob'" if "((ServiceT, nn), ob') \<in> plan_objects (cluster_plan s (AtomixClusterO c))" for ob'
    using ill_named_cluster [OF assms(5,4), of "SetDefaults_Cluster c" ob'] that assms(7,8) nn
    by (auto simp: meta_name_def name_defs suffix_defs)
qed

lemma validated_group_fails:
  assumes "sound_client cl objs ok" "ok w" "proper_name nn" "scheme_ready s" "name_rules nameFn"
    and "cl_Get cl w PartitionGroupT nn = (w1, Inr (PartitionGroupO g))" "valid_owner (pg_Meta g)"
    and "\<not> (IsDNS1035Label (nn_Name nn) \<and> IsValidLabelValue (gs_Cluster (pg_Spec g)))" "objs w (ServiceT, nn) = None"
    and "group_Reconcile \<lparr>r_client = validating nameFn cl, r_scheme = s\<rparr> nn w = (w', res, e)"
  shows "e \<noteq> None \<and> objs w' (ServiceT, nn) = None"
proof (rule validated_run_fails [where rec = "\<lambda>cl. group_Reconcile \<lparr>r_client = cl, r_scheme = s\<rparr>" and
      plan_of = "group_plan s" and nameFn = nameFn, OF group_sound assms(1-3,6,9) _ _ assms(10)])
  have nn: "nn = NamespacedName (om_Namespace (pg_Meta g)) (om_Name (pg_Meta g))"
    using api_client.get_key [OF sound_client.axioms(1) [OF assms(1)] assms(2,3,6)]
    by (simp add: key_of_def meta_name_def)
  then show "(ServiceT, nn) \<in> plan_keys (group_plan s (PartitionGroupO g))"
    by (simp add: group_items_def Let_def name_defs suffix_defs)
  show "\<not> valid_object nameFn ob'" if "((ServiceT, nn), ob') \<in> plan_objects (group_plan s (PartitionGroupO g))" for ob'
    using ill_named_group [OF assms(5,4), of "SetDefaults_PartitionGroup g" ob'] that assms(7,8) nn
    by (auto simp: meta_name_def name_defs suffix_defs)
qed

lemma validated_benchmark_fails:
  assumes "sound_client cl objs ok" "ok w" "proper_name nn" "scheme_ready s" "name_rules nameFn"
    and "cl_Get cl w AtomixBenchmarkT nn = (w1, Inr (AtomixBenchmarkO b))" "valid_owner (ab_Meta b)"
    and "\<not> (IsDNS1035Label (nn_Name nn) \<and> length (nn_Name nn) \<le> 55 \<and> IsValidLabelValue (bs_Cluster (ab_Spec b)))" "objs w (ServiceT, NamespacedName (nn_Namespace nn) (nn_Name nn @ ''-service'')) = None"
    and "benchmark_Reconcile \<lparr>r_client = validating nameFn cl, r_scheme = s\<rparr> nn w = (w', res, e)"
  shows "e \<noteq> None \<and> objs w' (ServiceT, NamespacedName (nn_Namespace nn) (nn_Name nn @ ''-service'')) = None"
proof (rule validated_run_fails [where rec = "\<lambda>cl. benchmark_Reconcile \<lparr>r_client = cl, r_scheme = s\<rparr>" and
      plan_of = "benchmark_plan s" and nameFn = nameFn, OF benchmark_sound assms(1-3,6,9) _ _ assms(10)])
  have nn: "nn = NamespacedName (om_Namespace (ab_Meta b)) (om_Name (ab_Meta b))"
    using api_client.get_key [OF sound_client.axioms(1) [OF assms(1)] assms(2,3,6)]
    by (simp add: key_of_def meta_name_def)
  then show "(ServiceT, NamespacedName (nn_Namespace nn) (nn_Name nn @ ''-service'')) \<in> plan_keys (benchmark_plan s (AtomixBenchmarkO b))"
    by (simp add: benchmark_items_def Let_def name_defs suffix_defs)
  show "\<not> valid_object nameFn ob'" if "((ServiceT, NamespacedName (nn_Namespace nn) (nn_Name nn @ ''-service'')), ob') \<in> plan_objects (benchmark_plan s (AtomixBenchmarkO b))" for ob'
    using ill_named_benchmark [OF assms(5,4), of "SetDefaults_Benchmark b" ob'] that assms(7,8) nn
    by (auto simp: meta_name_def name_defs suffix_defs)
qed

subsection \<open>The properties\<close>

text \<open>
  C7: All children of a custom resource are valid objects exactly when its name is a DNS-1035
  label short enough for the names that are derived from it: 58 characters for a cluster, whose
  name becomes part of a port's name, 63 for a group and 55 for a benchmark. Groups and
  benchmarks also need a cluster name that can be the value of a label. Kubernetes accepts more
  names for the custom resources themselves: up to 253 characters, with dots, or starting with
  a digit.
\<close>

theorem children_valid:
  assumes "name_rules nameFn"
  shows "(valid_owner (ac_Meta c) \<longrightarrow> NewManagementStatefulSet c = Inr cset \<longrightarrow>
      (list_all (valid_object nameFn) (map (owned_by cluster_gvk (ac_Meta c)) (cluster_children c cset)) \<longleftrightarrow>
       IsDNS1035Label (om_Name (ac_Meta c)) \<and> length (om_Name (ac_Meta c)) \<le> 58)) \<and>
    (valid_owner (pg_Meta g) \<longrightarrow> NewPartitionGroupConfigMap g = Inr (Some cm) \<longrightarrow>
      NewPartitionGroupStatefulSet g = Inr (Some gset) \<longrightarrow>
      (list_all (valid_object nameFn) (map (owned_by group_gvk (pg_Meta g)) (group_children g cm gset)) \<longleftrightarrow>
       IsDNS1035Label (om_Name (pg_Meta g)) \<and> IsValidLabelValue (gs_Cluster (pg_Spec g)))) \<and>
    (valid_owner (ab_Meta b) \<longrightarrow>
      (list_all (valid_object nameFn) (map (owned_by benchmark_gvk (ab_Meta b)) (benchmark_children b)) \<longleftrightarrow>
       IsDNS1035Label (om_Name (ab_Meta b)) \<and> length (om_Name (ab_Meta b)) \<le> 55 \<and>
       IsValidLabelValue (bs_Cluster (ab_Spec b))))"
  using cluster_children_valid [OF assms, of c cset] group_children_valid [OF assms, of g cm gset]
    benchmark_children_valid [OF assms, of b] by blast

text \<open>The rules as a function, and samples with a name that fits and one that does not.\<close>

definition documented_names :: "go_type \<Rightarrow> string \<Rightarrow> bool" where
  "documented_names t = (if t = ServiceT then NameIsDNS1035Label else NameIsDNSSubdomain)"

lemma documented_names_rules: "name_rules documented_names"
  by (simp add: name_rules_def documented_names_def)

lemma valid_sample_meta: "valid_owner sample_meta"
proof -
  have "NameIsDNSSubdomain (om_Name sample_meta)" "NameIsDNSLabel (om_Namespace sample_meta)" by code_simp+
  then show ?thesis
    using valid_annotations(1) valid_labels(1)
    by (simp add: valid_owner_def ValidateObjectMeta_def sample_meta_def new_meta_def ValidateOwnerReferences_def)
qed

theorem children_valid_witness:
  "list_all (valid_object documented_names)
    (map (owned_by benchmark_gvk (ab_Meta sample_benchmark)) (benchmark_children sample_benchmark))"
proof -
  have "IsDNS1035Label (om_Name (ab_Meta sample_benchmark)) \<and> length (om_Name (ab_Meta sample_benchmark)) \<le> 55 \<and>
      IsValidLabelValue (bs_Cluster (ab_Spec sample_benchmark))" by code_simp
  moreover have "valid_owner (ab_Meta sample_benchmark)" using valid_sample_meta by simp
  ultimately show ?thesis
    using children_valid [OF documented_names_rules, THEN conjunct2, THEN conjunct2, of sample_benchmark] by blast
qed

text \<open>
  C8: With a server that validates, a custom resource whose name (or cluster name) does not fit
  never becomes ready: each run that finds no service ends with an error and leaves none, so the
  next run does the same.
\<close>

theorem ill_named_never_ready:
  assumes "sound_client cl objs ok" "ok w" "proper_name nn" "scheme_ready s" "name_rules nameFn"
  shows "(cl_Get cl w AtomixClusterT nn = (w1, Inr (AtomixClusterO c)) \<longrightarrow> valid_owner (ac_Meta c) \<longrightarrow>
      \<not> (IsDNS1035Label (nn_Name nn) \<and> length (nn_Name nn) \<le> 58) \<longrightarrow> objs w (ServiceT, nn) = None \<longrightarrow>
      cluster_Reconcile \<lparr>r_client = validating nameFn cl, r_scheme = s\<rparr> nn w = (w', res, e) \<longrightarrow>
      e \<noteq> None \<and> objs w' (ServiceT, nn) = None) \<and>
    (cl_Get cl w PartitionGroupT nn = (w1, Inr (PartitionGroupO g)) \<longrightarrow> valid_owner (pg_Meta g) \<longrightarrow>
      \<not> (IsDNS1035Label (nn_Name nn) \<and> IsValidLabelValue (gs_Cluster (pg_Spec g))) \<longrightarrow> objs w (ServiceT, nn) = None \<longrightarrow>
      group_Reconcile \<lparr>r_client = validating nameFn cl, r_scheme = s\<rparr> nn w = (w', res, e) \<longrightarrow>
      e \<noteq> None \<and> objs w' (ServiceT, nn) = None) \<and>
    (cl_Get cl w AtomixBenchmarkT nn = (w1, Inr (AtomixBenchmarkO b)) \<longrightarrow> valid_owner (ab_Meta b) \<longrightarrow>
      \<not> (IsDNS1035Label (nn_Name nn) \<and> length (nn_Name nn) \<le> 55 \<and> IsValidLabelValue (bs_Cluster (ab_Spec b))) \<longrightarrow>
      objs w (ServiceT, NamespacedName (nn_Namespace nn) (nn_Name nn @ ''-service'')) = None \<longrightarrow>
      benchmark_Reconcile \<lparr>r_client = validating nameFn cl, r_scheme = s\<rparr> nn w = (w', res, e) \<longrightarrow>
      e \<noteq> None \<and> objs w' (ServiceT, NamespacedName (nn_Namespace nn) (nn_Name nn @ ''-service'')) = None)"
  using validated_cluster_fails [OF assms, of w1 c w' res e] validated_group_fails [OF assms, of w1 g w' res e]
    validated_benchmark_fails [OF assms, of w1 b w' res e] by blast

text \<open>A cluster with a dot in its name, which Kubernetes accepts.\<close>

definition dotted_cluster :: atomix_cluster where
  "dotted_cluster = (sample_cluster [])\<lparr>ac_Meta := sample_meta\<lparr>om_Name := ''my.atomix''\<rparr>\<rparr>"

theorem ill_named_never_ready_witness:
  "\<exists>w' res e. cluster_Reconcile \<lparr>r_client = validating documented_names fake_client, r_scheme = operator_scheme\<rparr>
      (NamespacedName ''default'' ''my.atomix'') (world_with (AtomixClusterO dotted_cluster)) = (w', res, Some e)"
proof -
  let ?w = "world_with (AtomixClusterO dotted_cluster)" and ?nn = "NamespacedName ''default'' ''my.atomix''"
  have meta: "ac_Meta dotted_cluster = sample_meta\<lparr>om_Name := ''my.atomix''\<rparr>" by (simp add: dotted_cluster_def)
  have key: "key_of (AtomixClusterO dotted_cluster) = (AtomixClusterT, ?nn)"
    by (simp add: key_of_def meta meta_name_def sample_meta_def new_meta_def)
  have proper: "proper_name ?nn" by (simp add: proper_name_def)
  have "valid_owner sample_meta" "NameIsDNSSubdomain ''my.atomix''" "\<not> IsDNS1035Label ''my.atomix''"
    by (rule valid_sample_meta, code_simp+)
  then have owner: "valid_owner (ac_Meta dotted_cluster)" and bad: "\<not> IsDNS1035Label (nn_Name ?nn)"
    by (simp_all add: meta valid_owner_def ValidateObjectMeta_def)
  note world = world_with_facts [of "AtomixClusterO dotted_cluster", unfolded key snd_conv, OF proper]
  obtain w1 where get: "cl_Get fake_client ?w AtomixClusterT ?nn = (w1, Inr (AtomixClusterO dotted_cluster))"
    using fake.get_present [OF world(1) proper, of AtomixClusterT] world(2) by auto
  obtain w' res e where run: "cluster_Reconcile
      \<lparr>r_client = validating documented_names fake_client, r_scheme = operator_scheme\<rparr> ?nn ?w = (w', res, e)"
    by (metis prod_cases3)
  have "fake_objs ?w (ServiceT, ?nn) = None" using world(2) by simp
  then have "e \<noteq> None"
    using ill_named_never_ready [OF fake.sound_client_axioms world(1) proper operator_scheme_ready documented_names_rules,
        THEN conjunct1, rule_format, OF get owner _ _ run] bad by blast
  with run show ?thesis by blast
qed

end
