(* ===== verification/Rate_Limiter.thy ===== *)
theory Rate_Limiter
  imports Prelude
begin

section \<open>Rate limiters\<close>

text \<open>
  \<^verbatim>\<open>client-go/util/workqueue/default_rate_limiters.go\<close>: how long a request that has to be tried
  again waits. The limiter of the controllers is the maximum of an exponential one per request and of a
  token bucket for all requests. The bucket (\<^verbatim>\<open>golang.org/x/time/rate\<close>) calculates with the clock
  in floating point; it is a parameter, from which nothing is expected.
\<close>

subsection \<open>The interface\<close>

text \<open>Durations in nanoseconds\<close>

definition Millisecond :: int where "Millisecond = 1000000"
definition Second :: int where "Second = 1000000000"

record ('a, 's) limiter =
  li_When :: "'a \<Rightarrow> 's \<Rightarrow> 's \<times> int"
  li_Forget :: "'a \<Rightarrow> 's \<Rightarrow> 's"
  li_NumRequeues :: "'a \<Rightarrow> 's \<Rightarrow> nat"

text \<open>
  What a queue with retries relies on: the limiter counts the retries of each request, and waits
  at least twice as long each time, up to a limit, until it is told to forget the request.
\<close>

definition backoff :: "int \<Rightarrow> int \<Rightarrow> nat \<Rightarrow> int" where
  "backoff base lim n = min (base * 2 ^ n) lim"

locale retry_limiter =
  fixes l :: "('a, 's) limiter"
    and base lim :: int
    and inv :: "'s \<Rightarrow> bool"
  assumes positive: "0 < base" "0 < lim"
    and when_inv: "inv s \<Longrightarrow> li_When l x s = (s', d) \<Longrightarrow> inv s'"
    and when_delay: "inv s \<Longrightarrow> li_When l x s = (s', d) \<Longrightarrow> backoff base lim (li_NumRequeues l x s) \<le> d"
    and when_count: "inv s \<Longrightarrow> li_When l x s = (s', d) \<Longrightarrow>
      li_NumRequeues l y s' = (if y = x then Suc (li_NumRequeues l x s) else li_NumRequeues l y s)"
    and forget_inv: "inv s \<Longrightarrow> inv (li_Forget l x s)"
    and forget_count: "inv s \<Longrightarrow>
      li_NumRequeues l y (li_Forget l x s) = (if y = x then 0 else li_NumRequeues l y s)"
begin

lemma when_positive:
  assumes "inv s" "li_When l x s = (s', d)"
  shows "0 < d"
  using when_delay [OF assms] positive
  by (smt (verit) backoff_def zero_less_mult_iff zero_less_power)

end

subsection \<open>Exponential delays\<close>

text \<open>
  The count of failures is a natural number: a Go \<^verbatim>\<open>int\<close> would overflow after \<open>2\<^sup>6\<^sup>3\<close> failures. The
  product in floating point is exact as long as it is not larger than \<^verbatim>\<open>math.MaxInt64\<close>, which as a
  floating point number is \<open>2\<^sup>6\<^sup>3\<close>, since the base delay has far less than 53 bits.
\<close>

record 'a exp_limiter =
  el_failures :: "'a \<rightharpoonup> nat"
  el_baseDelay :: int
  el_maxDelay :: int

definition NewItemExponentialFailureRateLimiter :: "int \<Rightarrow> int \<Rightarrow> 'a exp_limiter" where
  "NewItemExponentialFailureRateLimiter base lim =
     \<lparr>el_failures = Map.empty, el_baseDelay = base, el_maxDelay = lim\<rparr>"

definition failures_of :: "'a exp_limiter \<Rightarrow> 'a \<Rightarrow> nat" where
  "failures_of r item = (case el_failures r item of None \<Rightarrow> 0 | Some n \<Rightarrow> n)"

definition exp_When :: "'a \<Rightarrow> 'a exp_limiter \<Rightarrow> 'a exp_limiter \<times> int" where
  "exp_When item r =
     (let exp = failures_of r item;
          r1 = r\<lparr>el_failures := (el_failures r)(item \<mapsto> failures_of r item + 1)\<rparr>;
          delay = el_baseDelay r1 * 2 ^ exp
      in if 2 ^ 63 < delay then (r1, el_maxDelay r1)
         else let calculated = delay
           in if el_maxDelay r1 < calculated then (r1, el_maxDelay r1) else (r1, calculated))"

definition exp_NumRequeues :: "'a \<Rightarrow> 'a exp_limiter \<Rightarrow> nat" where
  "exp_NumRequeues item r = failures_of r item"

definition exp_Forget :: "'a \<Rightarrow> 'a exp_limiter \<Rightarrow> 'a exp_limiter" where
  "exp_Forget item r = r\<lparr>el_failures := (el_failures r)(item := None)\<rparr>"

definition ItemExponentialFailureRateLimiter :: "('a, 'a exp_limiter) limiter" where
  "ItemExponentialFailureRateLimiter =
     \<lparr>li_When = exp_When, li_Forget = exp_Forget, li_NumRequeues = exp_NumRequeues\<rparr>"

lemma exp_When_eq:
  assumes "el_baseDelay r = base" "el_maxDelay r = lim" "lim \<le> 2 ^ 63"
  shows "exp_When item r =
    (r\<lparr>el_failures := (el_failures r)(item \<mapsto> Suc (failures_of r item))\<rparr>, backoff base lim (failures_of r item))"
  using assms by (auto simp: exp_When_def Let_def backoff_def)

lemma exp_retry_limiter:
  assumes "0 < base" "0 < lim" "lim \<le> 2 ^ 63"
  shows "retry_limiter (ItemExponentialFailureRateLimiter :: ('a, 'a exp_limiter) limiter) base lim
    (\<lambda>r. el_baseDelay r = base \<and> el_maxDelay r = lim)"
  using assms
  by unfold_locales (auto simp: ItemExponentialFailureRateLimiter_def exp_When_eq exp_NumRequeues_def
      exp_Forget_def failures_of_def)

interpretation exponential: retry_limiter ItemExponentialFailureRateLimiter "5 * Millisecond" "1000 * Second"
  "\<lambda>r. el_baseDelay r = 5 * Millisecond \<and> el_maxDelay r = 1000 * Second"
  by (rule exp_retry_limiter) (simp_all add: Millisecond_def Second_def)

subsection \<open>The token bucket\<close>

definition BucketRateLimiter :: "('b \<Rightarrow> 'b \<times> int) \<Rightarrow> ('a, 'b) limiter" where
  "BucketRateLimiter reserve =
     \<lparr>li_When = (\<lambda>item. reserve), li_Forget = (\<lambda>item b. b), li_NumRequeues = (\<lambda>item b. 0)\<rparr>"

subsection \<open>The maximum of several limiters\<close>

text \<open>The limiters of the list work on one state, of which each has its part.\<close>

definition on_fst :: "('a, 's) limiter \<Rightarrow> ('a, 's \<times> 't) limiter" where
  "on_fst l =
     \<lparr>li_When = (\<lambda>x (s, t). case li_When l x s of (s', d) \<Rightarrow> ((s', t), d)),
      li_Forget = (\<lambda>x (s, t). (li_Forget l x s, t)), li_NumRequeues = (\<lambda>x (s, t). li_NumRequeues l x s)\<rparr>"

definition on_snd :: "('a, 't) limiter \<Rightarrow> ('a, 's \<times> 't) limiter" where
  "on_snd l =
     \<lparr>li_When = (\<lambda>x (s, t). case li_When l x t of (t', d) \<Rightarrow> ((s, t'), d)),
      li_Forget = (\<lambda>x (s, t). (s, li_Forget l x t)), li_NumRequeues = (\<lambda>x (s, t). li_NumRequeues l x t)\<rparr>"

fun max_When :: "('a, 's) limiter list \<Rightarrow> 'a \<Rightarrow> int \<Rightarrow> 's \<Rightarrow> 's \<times> int" where
  "max_When [] item ret s = (s, ret)"
| "max_When (l # ls) item ret s =
     (case li_When l item s of (s', cur) \<Rightarrow> max_When ls item (if ret < cur then cur else ret) s')"

fun max_NumRequeues :: "('a, 's) limiter list \<Rightarrow> 'a \<Rightarrow> nat \<Rightarrow> 's \<Rightarrow> nat" where
  "max_NumRequeues [] item ret s = ret"
| "max_NumRequeues (l # ls) item ret s =
     (let cur = li_NumRequeues l item s in max_NumRequeues ls item (if ret < cur then cur else ret) s)"

fun max_Forget :: "('a, 's) limiter list \<Rightarrow> 'a \<Rightarrow> 's \<Rightarrow> 's" where
  "max_Forget [] item s = s"
| "max_Forget (l # ls) item s = max_Forget ls item (li_Forget l item s)"

definition NewMaxOfRateLimiter :: "('a, 's) limiter list \<Rightarrow> ('a, 's) limiter" where
  "NewMaxOfRateLimiter ls =
     \<lparr>li_When = (\<lambda>item. max_When ls item 0), li_Forget = max_Forget ls,
      li_NumRequeues = (\<lambda>item. max_NumRequeues ls item 0)\<rparr>"

text \<open>The limiter of the controllers, and the state it starts in.\<close>

definition DefaultControllerRateLimiter :: "('b \<Rightarrow> 'b \<times> int) \<Rightarrow> ('a, 'a exp_limiter \<times> 'b) limiter" where
  "DefaultControllerRateLimiter reserve =
     NewMaxOfRateLimiter [on_fst ItemExponentialFailureRateLimiter, on_snd (BucketRateLimiter reserve)]"

definition default_limiter_state :: "'b \<Rightarrow> 'a exp_limiter \<times> 'b" where
  "default_limiter_state b = (NewItemExponentialFailureRateLimiter (5 * Millisecond) (1000 * Second), b)"

definition default_limiter_ok :: "'a exp_limiter \<times> 'b \<Rightarrow> bool" where
  "default_limiter_ok s \<longleftrightarrow> el_baseDelay (fst s) = 5 * Millisecond \<and> el_maxDelay (fst s) = 1000 * Second"

lemmas default_limiter_defs =
  DefaultControllerRateLimiter_def NewMaxOfRateLimiter_def on_fst_def on_snd_def BucketRateLimiter_def
  ItemExponentialFailureRateLimiter_def

lemma default_When:
  assumes "default_limiter_ok s" "reserve (snd s) = (b', cur)"
  shows "li_When (DefaultControllerRateLimiter reserve) item s =
    (let n = failures_of (fst s) item
     in (((fst s)\<lparr>el_failures := (el_failures (fst s))(item \<mapsto> Suc n)\<rparr>, b'),
         max cur (backoff (5 * Millisecond) (1000 * Second) n)))"
proof -
  have "0 < backoff (5 * Millisecond) (1000 * Second) n" for n
    by (simp add: backoff_def Millisecond_def Second_def)
  moreover have "exp_When item (fst s) =
      ((fst s)\<lparr>el_failures := (el_failures (fst s))(item \<mapsto> Suc (failures_of (fst s) item))\<rparr>,
       backoff (5 * Millisecond) (1000 * Second) (failures_of (fst s) item))"
    using assms(1) by (intro exp_When_eq) (auto simp: default_limiter_ok_def Second_def)
  ultimately show ?thesis
    using assms(2) by (simp add: default_limiter_defs Let_def max_def split_beta)
qed

lemma default_counts [simp]:
  "li_NumRequeues (DefaultControllerRateLimiter reserve) item s = failures_of (fst s) item"
  "li_Forget (DefaultControllerRateLimiter reserve) item s = (exp_Forget item (fst s), snd s)"
proof -
  show "li_NumRequeues (DefaultControllerRateLimiter reserve) item s = failures_of (fst s) item"
    by (simp add: default_limiter_defs exp_NumRequeues_def split_beta Let_def)
  show "li_Forget (DefaultControllerRateLimiter reserve) item s = (exp_Forget item (fst s), snd s)"
    by (simp add: default_limiter_defs split_beta)
qed

lemma default_limiter_state_ok [simp]:
  "default_limiter_ok (default_limiter_state b)" "failures_of (fst (default_limiter_state b)) x = 0"
  by (simp_all add: default_limiter_ok_def default_limiter_state_def NewItemExponentialFailureRateLimiter_def
      failures_of_def)

interpretation controller_limiter: retry_limiter "DefaultControllerRateLimiter reserve" "5 * Millisecond" "1000 * Second"
  default_limiter_ok for reserve :: "'b \<Rightarrow> 'b \<times> int"
proof unfold_locales
  show "0 < 5 * Millisecond" "0 < 1000 * Second" by (simp_all add: Millisecond_def Second_def)
  fix s s' :: "'a exp_limiter \<times> 'b" and x y :: 'a and d
  assume ok: "default_limiter_ok s"
  obtain b' cur where b: "reserve (snd s) = (b', cur)" by fastforce
  show "default_limiter_ok (li_Forget (DefaultControllerRateLimiter reserve) x s)"
    using ok by (simp add: default_limiter_ok_def exp_Forget_def)
  show "li_NumRequeues (DefaultControllerRateLimiter reserve) y (li_Forget (DefaultControllerRateLimiter reserve) x s) =
      (if y = x then 0 else li_NumRequeues (DefaultControllerRateLimiter reserve) y s)"
    by (simp add: exp_Forget_def failures_of_def)
  assume "li_When (DefaultControllerRateLimiter reserve) x s = (s', d)"
  note eq = this [unfolded default_When [where reserve = reserve and s = s, OF ok b] Let_def]
  show "default_limiter_ok s'" using ok eq by (auto simp: default_limiter_ok_def)
  show "backoff (5 * Millisecond) (1000 * Second) (li_NumRequeues (DefaultControllerRateLimiter reserve) x s) \<le> d"
    using eq by auto
  show "li_NumRequeues (DefaultControllerRateLimiter reserve) y s' =
      (if y = x then Suc (li_NumRequeues (DefaultControllerRateLimiter reserve) x s)
       else li_NumRequeues (DefaultControllerRateLimiter reserve) y s)"
    using eq by (auto simp: failures_of_def)
qed

end
