(* ===== verification/Delaying_Queue.thy ===== *)
theory Delaying_Queue
  imports Controller Rate_Limiter "HOL-Library.Multiset"
begin

section \<open>Delayed requests and the clock\<close>

text \<open>
  \<^verbatim>\<open>delaying_queue.go\<close> and \<^verbatim>\<open>rate_limitting_queue.go\<close> of the work queue, and the controller on
  top of them with time: a request that is to be tried again goes through a channel to the waiting
  loop, which keeps it until the clock says that it is ready. The controller of \<open>Controller\<close>,
  whose delayed requests fall due at any time, is the abstraction of this one.
\<close>

subsection \<open>The queue\<close>

record 'a wait_for =
  wf_data :: 'a
  wf_readyAt :: int

record 'a delaying_queue =
  dq_queue :: "'a work_queue"
  dq_channel :: "'a wait_for list" \<comment> \<open>\<^verbatim>\<open>waitingForAddCh\<close>\<close>
  dq_waiting :: "'a wait_for list" \<comment> \<open>the heap of the loop; which entry is first is left open\<close>
  dq_now :: int

definition dq_New :: "'a delaying_queue" where
  "dq_New = \<lparr>dq_queue = wq_New, dq_channel = [], dq_waiting = [], dq_now = 0\<rparr>"

definition channel_capacity :: nat where
  "channel_capacity = 1000"

definition AddAfter :: "'a \<Rightarrow> int \<Rightarrow> 'a delaying_queue \<Rightarrow> 'a delaying_queue" where
  "AddAfter item duration q =
     (if wq_shuttingDown (dq_queue q) then q
      else if duration \<le> 0 then q\<lparr>dq_queue := wq_Add item (dq_queue q)\<rparr>
      else q\<lparr>dq_channel := dq_channel q @ [\<lparr>wf_data = item, wf_readyAt = dq_now q + duration\<rparr>]\<rparr>)"

text \<open>An item that is already waiting only moves to an earlier time.\<close>

fun insert_entry :: "'a wait_for \<Rightarrow> 'a wait_for list \<Rightarrow> 'a wait_for list" where
  "insert_entry entry [] = [entry]"
| "insert_entry entry (e # es) =
     (if wf_data e = wf_data entry then
        (if wf_readyAt entry < wf_readyAt e then e\<lparr>wf_readyAt := wf_readyAt entry\<rparr> else e) # es
      else e # insert_entry entry es)"

text \<open>The loop receives an entry.\<close>

definition receive_entry :: "'a wait_for \<Rightarrow> 'a delaying_queue \<Rightarrow> 'a delaying_queue" where
  "receive_entry e q =
     (if dq_now q < wf_readyAt e then q\<lparr>dq_waiting := insert_entry e (dq_waiting q)\<rparr>
      else q\<lparr>dq_queue := wq_Add (wf_data e) (dq_queue q)\<rparr>)"

text \<open>The entry that the loop adds to the queue: one of those that are ready first.\<close>

definition ready_entry :: "'a delaying_queue \<Rightarrow> 'a wait_for \<Rightarrow> bool" where
  "ready_entry q e \<longleftrightarrow>
     e \<in> set (dq_waiting q) \<and> list_all (\<lambda>x. wf_readyAt e \<le> wf_readyAt x) (dq_waiting q) \<and>
     wf_readyAt e \<le> dq_now q"

definition add_ready :: "'a wait_for \<Rightarrow> 'a delaying_queue \<Rightarrow> 'a delaying_queue" where
  "add_ready e q =
     q\<lparr>dq_waiting := remove1 e (dq_waiting q), dq_queue := wq_Add (wf_data e) (dq_queue q)\<rparr>"

text \<open>As long as something is ready, the loop has something to add.\<close>

lemma ready_entry_exists:
  assumes "x \<in> set (dq_waiting q)" "wf_readyAt x \<le> dq_now q"
  shows "\<exists>e. ready_entry q e"
proof -
  obtain e where "e \<in> set (dq_waiting q)" "\<forall>x\<in>set (dq_waiting q). wf_readyAt e \<le> wf_readyAt x"
    using arg_min_if_finite [of "set (dq_waiting q)" wf_readyAt] assms(1)
    by (metis List.finite_set empty_iff linorder_not_le)
  with assms show ?thesis by (fastforce simp: ready_entry_def list_all_iff)
qed

lemma insert_entry_data:
  "wf_data ` set (insert_entry e es) = insert (wf_data e) (wf_data ` set es)"
  by (induction es) auto

lemma insert_entry_distinct: "distinct (map wf_data es) \<Longrightarrow> distinct (map wf_data (insert_entry e es))"
proof (induction es)
  case (Cons x es)
  with insert_entry_data [of e es] show ?case by (auto simp: image_iff)
qed simp

lemma insert_entry_mset:
  "image_mset wf_data (mset (insert_entry e es)) =
    (if wf_data e \<in> wf_data ` set es then image_mset wf_data (mset es)
     else add_mset (wf_data e) (image_mset wf_data (mset es)))"
  by (induction es) auto

subsection \<open>The rate-limited queue\<close>

record ('a, 's) rate_queue =
  rq_delaying :: "'a delaying_queue"
  rq_limiter :: 's

definition AddRateLimited :: "('a, 's) limiter \<Rightarrow> 'a \<Rightarrow> ('a, 's) rate_queue \<Rightarrow> ('a, 's) rate_queue" where
  "AddRateLimited l item q =
     (case li_When l item (rq_limiter q) of
        (s, d) \<Rightarrow> q\<lparr>rq_limiter := s, rq_delaying := AddAfter item d (rq_delaying q)\<rparr>)"

definition rq_AddAfter :: "'a \<Rightarrow> int \<Rightarrow> ('a, 's) rate_queue \<Rightarrow> ('a, 's) rate_queue" where
  "rq_AddAfter item d q = q\<lparr>rq_delaying := AddAfter item d (rq_delaying q)\<rparr>"

definition rq_Forget :: "('a, 's) limiter \<Rightarrow> 'a \<Rightarrow> ('a, 's) rate_queue \<Rightarrow> ('a, 's) rate_queue" where
  "rq_Forget l item q = q\<lparr>rq_limiter := li_Forget l item (rq_limiter q)\<rparr>"

definition rq_Done :: "'a \<Rightarrow> ('a, 's) rate_queue \<Rightarrow> ('a, 's) rate_queue" where
  "rq_Done item q =
     q\<lparr>rq_delaying := (rq_delaying q)\<lparr>dq_queue := wq_Done item (dq_queue (rq_delaying q))\<rparr>\<rparr>"

subsection \<open>The controller with time\<close>

record ('w, 's) timed_controller =
  tc_world :: 'w
  tc_queue :: "(namespaced_name, 's) rate_queue"
  tc_current :: "namespaced_name option"

text \<open>\<^verbatim>\<open>processNextWorkItem\<close> after \<^verbatim>\<open>Get\<close>; \<^verbatim>\<open>Done\<close> is deferred.\<close>

definition timed_finish ::
  "(namespaced_name, 's) limiter \<Rightarrow> 'w reconcile_method \<Rightarrow> namespaced_name \<Rightarrow>
   ('w, 's) timed_controller \<Rightarrow> ('w, 's) timed_controller \<times> bool" where
  "timed_finish l rec req c =
     (case rec req (tc_world c) of
        (w', res, err) \<Rightarrow>
          let q = tc_queue c;
              (q1, b) =
                (if err \<noteq> None then (AddRateLimited l req q, False)
                 else if 0 < res_RequeueAfter res then (rq_AddAfter req (res_RequeueAfter res) q, True)
                 else if res_Requeue res then (AddRateLimited l req q, True)
                 else (rq_Forget l req q, True))
          in (c\<lparr>tc_world := w', tc_queue := rq_Done req q1, tc_current := None\<rparr>, b))"

definition on_delaying :: "(namespaced_name delaying_queue \<Rightarrow> namespaced_name delaying_queue) \<Rightarrow>
   ('w, 's) timed_controller \<Rightarrow> ('w, 's) timed_controller" where
  "on_delaying f c = c\<lparr>tc_queue := (tc_queue c)\<lparr>rq_delaying := f (rq_delaying (tc_queue c))\<rparr>\<rparr>"

abbreviation tc_delaying :: "('w, 's) timed_controller \<Rightarrow> namespaced_name delaying_queue" where
  "tc_delaying c \<equiv> rq_delaying (tc_queue c)"

abbreviation tc_work :: "('w, 's) timed_controller \<Rightarrow> namespaced_name work_queue" where
  "tc_work c \<equiv> dq_queue (tc_delaying c)"

text \<open>
  A run cannot end as long as its retry does not fit into the channel: the send blocks.
\<close>

inductive timed_step ::
  "(namespaced_name, 's) limiter \<Rightarrow> 'w reconcile_method \<Rightarrow> ('w \<Rightarrow> 'w \<Rightarrow> bool) \<Rightarrow> namespaced_name set \<Rightarrow>
   ('w, 's) timed_controller \<Rightarrow> ('w, 's) timed_controller \<Rightarrow> bool"
  for l :: "(namespaced_name, 's) limiter" and rec :: "'w reconcile_method"
    and env :: "'w \<Rightarrow> 'w \<Rightarrow> bool" and reqs :: "namespaced_name set" where
  arrive: "r \<in> reqs \<Longrightarrow>
    timed_step l rec env reqs c (on_delaying (\<lambda>q. q\<lparr>dq_queue := wq_Add r (dq_queue q)\<rparr>) c)"
| tick: "0 \<le> d \<Longrightarrow> timed_step l rec env reqs c (on_delaying (\<lambda>q. q\<lparr>dq_now := dq_now q + d\<rparr>) c)"
| receive: "dq_channel (tc_delaying c) = e # es \<Longrightarrow>
    timed_step l rec env reqs c (on_delaying (\<lambda>q. receive_entry e (q\<lparr>dq_channel := es\<rparr>)) c)"
| ready: "ready_entry (tc_delaying c) e \<Longrightarrow>
    timed_step l rec env reqs c (on_delaying (add_ready e) c)"
| take: "tc_current c = None \<Longrightarrow> wq_Get (tc_work c) = Some (q, Some r) \<Longrightarrow>
    timed_step l rec env reqs c ((on_delaying (\<lambda>d. d\<lparr>dq_queue := q\<rparr>) c)\<lparr>tc_current := Some r\<rparr>)"
| finish: "tc_current c = Some r \<Longrightarrow> c' = fst (timed_finish l rec r c) \<Longrightarrow>
    length (dq_channel (tc_delaying c')) \<le> channel_capacity \<Longrightarrow> timed_step l rec env reqs c c'"
| change: "env (tc_world c) w' \<Longrightarrow> timed_step l rec env reqs c (c\<lparr>tc_world := w'\<rparr>)"

inductive_cases timed_stepE: "timed_step l rec env reqs c c'"

definition initial_timed :: "'w \<Rightarrow> 's \<Rightarrow> ('w, 's) timed_controller" where
  "initial_timed w s =
     \<lparr>tc_world = w, tc_queue = \<lparr>rq_delaying = dq_New, rq_limiter = s\<rparr>, tc_current = None\<rparr>"

subsection \<open>Refinement of the controller without time\<close>

text \<open>What is in the channel or waiting is delayed.\<close>

definition delayed_items :: "'a delaying_queue \<Rightarrow> 'a multiset" where
  "delayed_items q = mset (map wf_data (dq_channel q)) + mset (map wf_data (dq_waiting q))"

definition refines :: "('w, 's) timed_controller \<Rightarrow> 'w controller \<Rightarrow> bool" where
  "refines c a \<longleftrightarrow>
     ct_world a = tc_world c \<and> ct_queue a = tc_work c \<and> ct_current a = tc_current c \<and>
     mset (ct_delayed a) = delayed_items (tc_delaying c)"

text \<open>
  The invariant: the queue runs and has one worker, an item waits once, and the limiter only
  counts failures of requests that are still to be dealt with.
\<close>

definition timed_outstanding :: "('w, 's) timed_controller \<Rightarrow> namespaced_name set" where
  "timed_outstanding c =
     wq_dirty (tc_work c) \<union> set_mset (delayed_items (tc_delaying c)) \<union> set_option (tc_current c)"

definition timed_inv :: "(namespaced_name, 's) limiter \<Rightarrow> ('s \<Rightarrow> bool) \<Rightarrow> ('w, 's) timed_controller \<Rightarrow> bool" where
  "timed_inv l ok c \<longleftrightarrow>
     ok (rq_limiter (tc_queue c)) \<and> \<not> wq_shuttingDown (tc_work c) \<and>
     distinct (map wf_data (dq_waiting (tc_delaying c))) \<and>
     (\<forall>r. li_NumRequeues l r (rq_limiter (tc_queue c)) \<noteq> 0 \<longrightarrow> r \<in> timed_outstanding c)"

lemma mset_split: "mset xs = add_mset x M \<Longrightarrow> \<exists>ys zs. xs = ys @ x # zs \<and> mset (ys @ zs) = M"
  by (metis add_mset_remove_trivial mset_append mset.simps(2) split_list union_iff union_mset_add_mset_right
      set_mset_add_mset_insert insertI1 set_mset_mset)

lemma on_delaying_simps [simp]:
  "tc_world (on_delaying f c) = tc_world c" "tc_current (on_delaying f c) = tc_current c"
  "tc_delaying (on_delaying f c) = f (tc_delaying c)"
  "rq_limiter (tc_queue (on_delaying f c)) = rq_limiter (tc_queue c)"
  by (simp_all add: on_delaying_def)

text \<open>A delayed request that falls due, or is merged with another, in the abstract controller.\<close>

lemma abstract_due:
  assumes "mset (ct_delayed a) = add_mset r M"
  obtains xs ys where "ctl_step rec env reqs a (a\<lparr>ct_delayed := xs @ ys, ct_queue := wq_Add r (ct_queue a)\<rparr>)"
    "mset (xs @ ys) = M"
proof -
  obtain xs ys where "ct_delayed a = xs @ r # ys" "mset (xs @ ys) = M" using mset_split [OF assms] by blast
  then show thesis using that ctl_step.due by blast
qed

lemma abstract_merge:
  assumes "mset (ct_delayed a) = add_mset r M" "r \<in># M"
  obtains xs ys where "ctl_step rec env reqs a (a\<lparr>ct_delayed := xs @ ys\<rparr>)" "mset (xs @ ys) = M"
proof -
  obtain xs ys where d: "ct_delayed a = xs @ r # ys" "mset (xs @ ys) = M" using mset_split [OF assms(1)] by blast
  then have "r \<in> set xs \<union> set ys" using assms(2) by auto
  then show thesis using that d ctl_step.merge by blast
qed

text \<open>What the loop does, in the abstract controller.\<close>

lemma receive_refines:
  assumes "dq_channel (tc_delaying c) = e # es" "refines c a"
  shows "\<exists>a'. (ctl_step rec env reqs)\<^sup>*\<^sup>* a a' \<and>
    refines (on_delaying (\<lambda>q. receive_entry e (q\<lparr>dq_channel := es\<rparr>)) c) a'" (is "\<exists>a'. _ \<and> refines ?c a'")
proof -
  let ?q = "tc_delaying c" and ?M = "mset (map wf_data es) + mset (map wf_data (dq_waiting (tc_delaying c)))"
  have delayed: "mset (ct_delayed a) = add_mset (wf_data e) ?M"
    using assms by (simp add: refines_def delayed_items_def)
  note defs = refines_def delayed_items_def receive_entry_def insert_entry_mset
  consider (early) "dq_now ?q < wf_readyAt e" "wf_data e \<notin> wf_data ` set (dq_waiting ?q)"
    | (known) "dq_now ?q < wf_readyAt e" "wf_data e \<in> wf_data ` set (dq_waiting ?q)"
    | (late) "\<not> dq_now ?q < wf_readyAt e" by blast
  then show ?thesis
  proof cases
    case early
    then have "refines ?c a" using assms by (simp add: defs)
    then show ?thesis by blast
  next
    case known
    then have "wf_data e \<in># ?M" by auto
    then obtain xs ys where step: "ctl_step rec env reqs a (a\<lparr>ct_delayed := xs @ ys\<rparr>)" "mset (xs @ ys) = ?M"
      by (rule abstract_merge [OF delayed])
    then have "refines ?c (a\<lparr>ct_delayed := xs @ ys\<rparr>)" using assms known by (simp add: defs)
    with step(1) show ?thesis by blast
  next
    case late
    obtain xs ys where step: "ctl_step rec env reqs a
        (a\<lparr>ct_delayed := xs @ ys, ct_queue := wq_Add (wf_data e) (ct_queue a)\<rparr>)" "mset (xs @ ys) = ?M"
      by (rule abstract_due [OF delayed])
    then have "refines ?c (a\<lparr>ct_delayed := xs @ ys, ct_queue := wq_Add (wf_data e) (ct_queue a)\<rparr>)"
      using assms late by (simp add: defs)
    with step(1) show ?thesis by blast
  qed
qed

lemma ready_refines:
  assumes "ready_entry (tc_delaying c) e" "refines c a"
  shows "\<exists>a'. (ctl_step rec env reqs)\<^sup>*\<^sup>* a a' \<and> refines (on_delaying (add_ready e) c) a'"
proof -
  let ?M = "mset (map wf_data (dq_channel (tc_delaying c))) + mset (map wf_data (remove1 e (dq_waiting (tc_delaying c))))"
  have "mset (dq_waiting (tc_delaying c)) = add_mset e (mset (remove1 e (dq_waiting (tc_delaying c))))"
    using assms(1) by (simp add: ready_entry_def)
  then have "mset (map wf_data (dq_waiting (tc_delaying c))) =
      add_mset (wf_data e) (mset (map wf_data (remove1 e (dq_waiting (tc_delaying c)))))"
    by (metis image_mset_add_mset mset_map)
  then have delayed: "mset (ct_delayed a) = add_mset (wf_data e) ?M"
    using assms(2) by (simp only: refines_def delayed_items_def union_mset_add_mset_right)
  obtain xs ys where step: "ctl_step rec env reqs a
      (a\<lparr>ct_delayed := xs @ ys, ct_queue := wq_Add (wf_data e) (ct_queue a)\<rparr>)" "mset (xs @ ys) = ?M"
    by (rule abstract_due [OF delayed])
  then have "refines (on_delaying (add_ready e) c)
      (a\<lparr>ct_delayed := xs @ ys, ct_queue := wq_Add (wf_data e) (ct_queue a)\<rparr>)"
    using assms(2) by (simp add: refines_def delayed_items_def add_ready_def)
  with step(1) show ?thesis by blast
qed

text \<open>A controller whose queue has a limiter that keeps the contract.\<close>

locale retrying_controller = retry_limiter l base lim inv
  for l :: "(namespaced_name, 's) limiter" and base lim :: int and inv :: "'s \<Rightarrow> bool"
begin

text \<open>A run that asks for a retry puts the request into the channel; another forgets its failures.\<close>

lemma timed_finish_cases:
  fixes c :: "('w, 's) timed_controller"
  assumes "inv (rq_limiter (tc_queue c))" "\<not> wq_shuttingDown (tc_work c)" "rec r (tc_world c) = (w', res, err)"
  obtains (retry) s' d where "requeues res err" "0 < d" "inv s'"
      "\<And>y. y \<noteq> r \<Longrightarrow> li_NumRequeues l y s' = li_NumRequeues l y (rq_limiter (tc_queue c))"
      "fst (timed_finish l rec r c) =
        c\<lparr>tc_world := w', tc_current := None,
          tc_queue := \<lparr>rq_delaying = (tc_delaying c)\<lparr>dq_queue := wq_Done r (tc_work c),
              dq_channel := dq_channel (tc_delaying c) @ [\<lparr>wf_data = r, wf_readyAt = dq_now (tc_delaying c) + d\<rparr>]\<rparr>,
            rq_limiter = s'\<rparr>\<rparr>"
  | (settled) s' where "\<not> requeues res err" "inv s'"
      "\<And>y. li_NumRequeues l y s' = (if y = r then 0 else li_NumRequeues l y (rq_limiter (tc_queue c)))"
      "fst (timed_finish l rec r c) =
        c\<lparr>tc_world := w', tc_current := None,
          tc_queue := \<lparr>rq_delaying = (tc_delaying c)\<lparr>dq_queue := wq_Done r (tc_work c)\<rparr>, rq_limiter = s'\<rparr>\<rparr>"
proof -
  let ?s = "rq_limiter (tc_queue c)"
  obtain s' d where w: "li_When l r ?s = (s', d)" by fastforce
  note facts = when_positive [OF assms(1) w] when_inv [OF assms(1) w] when_count [OF assms(1) w]
  show thesis
  proof (cases "requeues res err")
    case False
    then show thesis
      using forget_inv [OF assms(1), of r] forget_count [OF assms(1)] assms(3)
      by (intro settled [of "li_Forget l r ?s"])
        (auto simp: requeues_def timed_finish_def rq_Forget_def rq_Done_def Let_def)
  next
    case True
    show thesis
    proof (cases "err = None \<and> 0 < res_RequeueAfter res")
      case True
      with \<open>requeues res err\<close> assms show thesis
        by (intro retry [of "res_RequeueAfter res" ?s])
          (auto simp: timed_finish_def rq_AddAfter_def AddAfter_def rq_Done_def Let_def)
    next
      case False
      with \<open>requeues res err\<close> facts w assms show thesis
        by (intro retry [of d s'])
          (auto simp: requeues_def timed_finish_def AddRateLimited_def AddAfter_def rq_Done_def Let_def)
    qed
  qed
qed

lemma timed_finish_refines:
  assumes "inv (rq_limiter (tc_queue c))" "\<not> wq_shuttingDown (tc_work c)" "refines c a" "tc_current c = Some r"
  shows "refines (fst (timed_finish l rec r c)) (fst (finish_item rec r a))"
proof -
  obtain w' res err where run: "rec r (tc_world c) = (w', res, err)" by (metis prod_cases3)
  have a: "ct_world a = tc_world c" "ct_queue a = tc_work c" "ct_current a = Some r"
    "mset (ct_delayed a) = delayed_items (tc_delaying c)"
    using assms(3,4) by (simp_all add: refines_def)
  show ?thesis
  proof (cases rule: timed_finish_cases [OF assms(1,2), where rec = rec and r = r, OF run, case_names retry settled])
    case retry
    with a run show ?thesis by (simp add: refines_def finish_item_def delayed_items_def)
  next
    case settled
    with a run show ?thesis by (simp add: refines_def finish_item_def delayed_items_def)
  qed
qed

lemma timed_step_refines:
  assumes "timed_step l rec env reqs c c'" "timed_inv l inv c" "refines c a"
  shows "\<exists>a'. (ctl_step rec env reqs)\<^sup>*\<^sup>* a a' \<and> refines c' a'"
  using assms(1)
proof cases
  case (arrive r)
  with assms(3) have "refines c' (a\<lparr>ct_queue := wq_Add r (ct_queue a)\<rparr>)"
    by (simp add: refines_def delayed_items_def)
  with ctl_step.arrive [OF arrive(2)] show ?thesis by blast
next
  case (tick d)
  with assms(3) have "refines c' a" by (simp add: refines_def delayed_items_def)
  then show ?thesis by blast
next
  case (receive e es)
  with receive_refines [OF receive(2) assms(3)] show ?thesis by blast
next
  case (ready e)
  with ready_refines [OF ready(2) assms(3)] show ?thesis by blast
next
  case (take q r)
  then have "ctl_step rec env reqs a (a\<lparr>ct_queue := q, ct_current := Some r\<rparr>)"
    using assms(3) by (intro ctl_step.take) (simp_all add: refines_def)
  moreover have "refines c' (a\<lparr>ct_queue := q, ct_current := Some r\<rparr>)"
    using assms(3) take(1) by (simp add: refines_def delayed_items_def)
  ultimately show ?thesis by blast
next
  case (finish r)
  have "ctl_step rec env reqs a (fst (finish_item rec r a))"
    using assms(3) finish(1) by (intro ctl_step.finish) (simp add: refines_def)
  moreover have "refines c' (fst (finish_item rec r a))"
    using timed_finish_refines [OF _ _ assms(3) finish(1)] assms(2) finish(2) by (simp add: timed_inv_def)
  ultimately show ?thesis by blast
next
  case (change w')
  then have "ctl_step rec env reqs a (a\<lparr>ct_world := w'\<rparr>)"
    using assms(3) by (intro ctl_step.change) (simp add: refines_def)
  moreover have "refines c' (a\<lparr>ct_world := w'\<rparr>)"
    using assms(3) change(1) by (simp add: refines_def)
  ultimately show ?thesis by blast
qed

lemma timed_inv_step:
  assumes "timed_step l rec env reqs c c'" "timed_inv l inv c"
  shows "timed_inv l inv c'"
  using assms(1)
proof cases
  case (receive e es)
  then show ?thesis
    using assms(2) insert_entry_data [of e "dq_waiting (tc_delaying c)"]
    by (auto simp: timed_inv_def timed_outstanding_def delayed_items_def receive_entry_def insert_entry_distinct
        simp flip: set_map)
next
  case (ready e)
  have out: "timed_outstanding c \<subseteq> timed_outstanding c'"
  proof -
    have "wf_data ` set (dq_waiting (tc_delaying c)) \<subseteq>
        insert (wf_data e) (wf_data ` set (remove1 e (dq_waiting (tc_delaying c))))"
      by (auto simp: image_iff) (metis in_set_remove1)
    then show ?thesis
      using assms(2) ready(1) by (auto simp: timed_inv_def timed_outstanding_def delayed_items_def add_ready_def
          simp del: mset_remove1)
  qed
  have "distinct (map wf_data (remove1 e es))" if "distinct (map wf_data es)" for es
    using that by (induction es) (auto dest: subsetD [OF set_remove1_subset])
  then show ?thesis
    using assms(2) ready(1) out by (auto simp: timed_inv_def add_ready_def)
next
  case (take q r)
  then show ?thesis
    using assms(2) wq_Get_fields [OF take(3)]
    by (auto simp: timed_inv_def timed_outstanding_def delayed_items_def)
next
  case (finish r)
  obtain w' res err where run: "rec r (tc_world c) = (w', res, err)" by (metis prod_cases3)
  have inv: "inv (rq_limiter (tc_queue c))" "\<not> wq_shuttingDown (tc_work c)"
    using assms(2) by (simp_all add: timed_inv_def)
  show ?thesis
  proof (cases rule: timed_finish_cases [OF inv, where rec = rec and r = r, OF run, case_names retry settled])
    case (retry s' d)
    have "y \<in> timed_outstanding c'" if "li_NumRequeues l y s' \<noteq> 0" for y
      using that retry(4) [of y] assms(2) finish
      by (cases "y = r") (auto simp: timed_inv_def timed_outstanding_def delayed_items_def retry(5))
    with retry finish(2) assms(2) show ?thesis by (simp add: timed_inv_def)
  next
    case (settled s')
    have "y \<in> timed_outstanding c'" if "li_NumRequeues l y s' \<noteq> 0" for y
      using that settled(3) [of y] assms(2) finish
      by (auto simp: timed_inv_def timed_outstanding_def delayed_items_def settled(4) split: if_splits)
    with settled finish(2) assms(2) show ?thesis by (simp add: timed_inv_def)
  qed
qed (use assms(2) in \<open>auto simp: timed_inv_def timed_outstanding_def delayed_items_def\<close>)

lemma timed_reachable:
  assumes "(timed_step l rec env reqs)\<^sup>*\<^sup>* (initial_timed w s) c" "inv s" "\<And>r. li_NumRequeues l r s = 0"
  shows "timed_inv l inv c \<and> (\<exists>a. (ctl_step rec env reqs)\<^sup>*\<^sup>* (initial_controller w) a \<and> refines c a)"
  using assms(1)
proof induction
  case base
  have "refines (initial_timed w s) (initial_controller w)"
    by (simp add: refines_def initial_timed_def initial_controller_def dq_New_def delayed_items_def)
  moreover have "timed_inv l inv (initial_timed w s)"
    using assms(2,3) by (simp add: timed_inv_def initial_timed_def dq_New_def wq_New_def)
  ultimately show ?case by blast
next
  case (step c1 c2)
  then obtain a where "(ctl_step rec env reqs)\<^sup>*\<^sup>* (initial_controller w) a" "refines c1 a" by blast
  with timed_step_refines [OF step.hyps(2)] timed_inv_step [OF step.hyps(2)] step.IH show ?case
    by (meson rtranclp_trans)
qed

end

interpretation retries: retrying_controller "DefaultControllerRateLimiter reserve" "5 * Millisecond" "1000 * Second"
  default_limiter_ok for reserve :: "'b \<Rightarrow> 'b \<times> int"
  by (rule retrying_controller.intro) (rule controller_limiter.retry_limiter_axioms)

end
