(* ===== verification/Retry_Properties.thy ===== *)
theory Retry_Properties
  imports Delaying_Queue Operation_Properties
begin

section \<open>Retries\<close>

text \<open>
  The controller with its rate limiter and its delaying queue: it refines the controller in
  which delayed requests fall due at any time, so that what holds of that one holds of it; how
  long a failed request waits; and that the limiter forgets what is settled. The token bucket
  (\<open>reserve\<close>) is arbitrary throughout.
\<close>

abbreviation default_step where
  "default_step reserve \<equiv> timed_step (DefaultControllerRateLimiter reserve)"

abbreviation default_start :: "'w \<Rightarrow> 'b \<Rightarrow> ('w, namespaced_name exp_limiter \<times> 'b) timed_controller" where
  "default_start w b \<equiv> initial_timed w (default_limiter_state b)"

abbreviation failure_count :: "('w, namespaced_name exp_limiter \<times> 'b) timed_controller \<Rightarrow> namespaced_name \<Rightarrow> nat" where
  "failure_count c r \<equiv> failures_of (fst (rq_limiter (tc_queue c))) r"

lemmas default_reachable =
  retries.timed_reachable [where reserve = reserve and s = "default_limiter_state b" for reserve b,
    OF _ default_limiter_state_ok(1), unfolded default_counts, OF _ default_limiter_state_ok(2)]

text \<open>A group whose storage size does not parse, with a token bucket that never delays.\<close>

definition free_tokens :: "unit \<Rightarrow> unit \<times> int" where
  "free_tokens b = (b, 0)"

abbreviation failing_run :: "fakeClient reconcile_method" where
  "failing_run \<equiv> group_Reconcile \<lparr>r_client = fake_client, r_scheme = operator_scheme\<rparr>"

abbreviation failing_world :: fakeClient where
  "failing_world \<equiv> world_with (PartitionGroupO (sample_group (Some (sample_raft ''lots''))))"

definition failing_taken :: "(fakeClient, namespaced_name exp_limiter \<times> unit) timed_controller" where
  "failing_taken =
     (let c = default_start failing_world ()
      in c\<lparr>tc_queue := (tc_queue c)\<lparr>rq_delaying := (tc_delaying c)\<lparr>
           dq_queue := wq_New\<lparr>wq_processing := {sample_name}\<rparr>\<rparr>\<rparr>, tc_current := Some sample_name\<rparr>)"

definition failing_finished :: "(fakeClient, namespaced_name exp_limiter \<times> unit) timed_controller" where
  "failing_finished =
     fst (timed_finish (DefaultControllerRateLimiter free_tokens) failing_run sample_name failing_taken)"

lemma failing_taken_facts:
  "tc_current failing_taken = Some sample_name" "tc_world failing_taken = failing_world"
  "dq_channel (tc_delaying failing_taken) = []" "dq_waiting (tc_delaying failing_taken) = []" "dq_now (tc_delaying failing_taken) = 0"
  "failure_count failing_taken r = 0" "\<not> wq_shuttingDown (tc_work failing_taken)"
  "rq_limiter (tc_queue failing_taken) = default_limiter_state ()"
  by (simp_all add: failing_taken_def Let_def initial_timed_def dq_New_def wq_New_def)

lemma failing_taken_reachable:
  "(default_step free_tokens failing_run (=) {sample_name})\<^sup>*\<^sup>* (default_start failing_world ()) failing_taken"
proof -
  let ?c = "on_delaying (\<lambda>q. q\<lparr>dq_queue := wq_Add sample_name (dq_queue q)\<rparr>) (default_start failing_world ())"
  let ?q = "wq_New\<lparr>wq_processing := {sample_name}\<rparr>"
  have arrive: "default_step free_tokens failing_run (=) {sample_name} (default_start failing_world ()) ?c"
    by (rule timed_step.arrive) simp
  have "wq_Get (tc_work ?c) = Some (?q, Some sample_name)" "tc_current ?c = None"
    by (simp_all add: initial_timed_def dq_New_def wq_New_def wq_Add_def wq_Get_def Let_def)
  then have "default_step free_tokens failing_run (=) {sample_name} ?c
      ((on_delaying (\<lambda>d. d\<lparr>dq_queue := ?q\<rparr>) ?c)\<lparr>tc_current := Some sample_name\<rparr>)"
    by (intro timed_step.take)
  moreover have "(on_delaying (\<lambda>d. d\<lparr>dq_queue := ?q\<rparr>) ?c)\<lparr>tc_current := Some sample_name\<rparr> = failing_taken"
    by (simp add: failing_taken_def on_delaying_def Let_def initial_timed_def)
  ultimately have "default_step free_tokens failing_run (=) {sample_name} ?c failing_taken" by (simp only:)
  with r_into_rtranclp [where r = "default_step free_tokens failing_run (=) {sample_name}", OF arrive]
  show ?thesis by (rule rtranclp.rtrancl_into_rtrancl)
qed

lemma failing_finished_facts:
  "\<exists>e. dq_channel (tc_delaying failing_finished) = [e] \<and> wf_data e = sample_name"
  "dq_waiting (tc_delaying failing_finished) = []" "failure_count failing_finished sample_name = 1"
proof -
  obtain w' where run: "failing_run sample_name failing_world = (w', zero_result, Some ErrFormatWrong)"
    using group_reconcile_bad_size_witness by blast
  have "0 < max 0 (backoff (5 * Millisecond) (1000 * Second) 0)"
    by (simp add: backoff_def Millisecond_def Second_def)
  with run show "\<exists>e. dq_channel (tc_delaying failing_finished) = [e] \<and> wf_data e = sample_name"
    "dq_waiting (tc_delaying failing_finished) = []" "failure_count failing_finished sample_name = 1"
    using failing_taken_facts
    by (simp_all add: failing_finished_def timed_finish_def AddRateLimited_def AddAfter_def rq_Done_def Let_def
        default_When [where reserve = free_tokens, OF default_limiter_state_ok(1)] free_tokens_def)
      (simp_all add: failures_of_def)
qed

lemma failing_finished_reachable:
  "(default_step free_tokens failing_run (=) {sample_name})\<^sup>*\<^sup>* (default_start failing_world ()) failing_finished"
proof -
  have "length (dq_channel (tc_delaying failing_finished)) \<le> channel_capacity"
    using failing_finished_facts(1) by (auto simp: channel_capacity_def)
  then have "default_step free_tokens failing_run (=) {sample_name} failing_taken failing_finished"
    using failing_taken_facts(1) unfolding failing_finished_def by (intro timed_step.finish) simp_all
  with failing_taken_reachable show ?thesis by (rule rtranclp.rtrancl_into_rtrancl)
qed

text \<open>
  C10: The controller with clock, rate limiter and delaying queue refines the one of which
  C27 to C29 speak: each of its reachable states corresponds to a reachable state with the same
  world, queue and current request, whose delayed requests are those in the channel or waiting.
  So requests are not lost or run twice at a time with real retries either.
\<close>

theorem retries_refine:
  assumes "(default_step reserve rec env reqs)\<^sup>*\<^sup>* (default_start w b) c"
  shows "(\<exists>a. (ctl_step rec env reqs)\<^sup>*\<^sup>* (initial_controller w) a \<and> refines c a) \<and>
    distinct (wq_queue (tc_work c)) \<and> set (wq_queue (tc_work c)) = wq_dirty (tc_work c) - set_option (tc_current c)"
proof -
  obtain a where a: "(ctl_step rec env reqs)\<^sup>*\<^sup>* (initial_controller w) a" "refines c a"
    using default_reachable [OF assms] by blast
  then have "ctl_inv (\<lambda>_. True) a"
    using ctl_inv_steps [OF a(1), of "\<lambda>_. True"] ctl_inv_initial [of "\<lambda>_. True" w] by simp
  with a show ?thesis by (auto simp: refines_def ctl_inv_def wq_inv_def)
qed

theorem retries_refine_witness:
  "\<exists>a. (ctl_step failing_run (=) {sample_name})\<^sup>*\<^sup>* (initial_controller failing_world) a \<and>
    ct_delayed a = [sample_name]"
proof -
  obtain a where a: "(ctl_step failing_run (=) {sample_name})\<^sup>*\<^sup>* (initial_controller failing_world) a"
    "refines failing_finished a"
    using retries_refine [OF failing_finished_reachable] by blast
  have "mset (ct_delayed a) = add_mset sample_name (mset (map wf_data (dq_waiting (tc_delaying failing_finished))))"
    using a(2) failing_finished_facts(1) by (auto simp: refines_def delayed_items_def)
  then have "ct_delayed a = [sample_name]" by (simp add: failing_finished_facts)
  with a(1) show ?thesis by blast
qed

text \<open>
  C12: When a run fails, its request waits for the longer of what the token bucket says and of
  \<open>5 ms \<cdot> 2\<^sup>n\<close>, at most 1000 s, where \<open>n\<close> failures have been counted for it; then there is one
  more. From the 18th failure on it is at least 1000 s. A run that succeeds resets the count.
\<close>

theorem retry_delays:
  assumes "(default_step reserve rec env reqs)\<^sup>*\<^sup>* (default_start w b) c"
    and "tc_current c = Some r" "rec r (tc_world c) = (w', res, err)" "res = zero_result"
    and "reserve (snd (rq_limiter (tc_queue c))) = (b', d)"
  shows "let n = failure_count c r; c' = fst (timed_finish (DefaultControllerRateLimiter reserve) rec r c);
      wait = max d (min (5 * Millisecond * 2 ^ n) (1000 * Second))
    in (err \<noteq> None \<longrightarrow>
         dq_channel (tc_delaying c') =
           dq_channel (tc_delaying c) @ [\<lparr>wf_data = r, wf_readyAt = dq_now (tc_delaying c) + wait\<rparr>] \<and>
         failure_count c' r = Suc n \<and> 0 < wait \<and> wait \<le> max d (1000 * Second) \<and>
         (18 \<le> n \<longrightarrow> 1000 * Second \<le> wait)) \<and>
       (err = None \<longrightarrow> dq_channel (tc_delaying c') = dq_channel (tc_delaying c) \<and> failure_count c' r = 0)"
proof -
  let ?s = "rq_limiter (tc_queue c)" and ?n = "failure_count c r"
  let ?wait = "max d (backoff (5 * Millisecond) (1000 * Second) ?n)"
  have inv: "default_limiter_ok ?s" "\<not> wq_shuttingDown (tc_work c)"
    using default_reachable [OF assms(1)] by (simp_all add: timed_inv_def)
  note wait = default_When [where reserve = reserve and s = ?s, OF inv(1) assms(5), of r]
  have pos: "0 < ?wait" by (simp add: backoff_def Millisecond_def Second_def less_max_iff_disj)
  have late: "1000 * Second \<le> 5 * Millisecond * 2 ^ ?n" if "18 \<le> ?n"
  proof -
    have "(2::int) ^ 18 \<le> 2 ^ ?n" using that by (rule power_increasing) simp
    then show ?thesis by (simp add: Second_def Millisecond_def)
  qed
  show ?thesis
  proof (cases err)
    case None
    with assms(3,4) show ?thesis
      by (simp add: timed_finish_def rq_Forget_def rq_Done_def Let_def zero_result_def exp_Forget_def failures_of_def)
  next
    case (Some e)
    with assms(3) pos wait inv(2) late show ?thesis
      by (auto simp: timed_finish_def AddRateLimited_def AddAfter_def rq_Done_def Let_def failures_of_def backoff_def
          max_def min_def)
  qed
qed

theorem retry_delays_witness:
  "failure_count failing_finished sample_name = 1 \<and>
   dq_channel (tc_delaying failing_finished) = [\<lparr>wf_data = sample_name, wf_readyAt = 5000000\<rparr>]"
proof -
  obtain w' where run: "failing_run sample_name failing_world = (w', zero_result, Some ErrFormatWrong)"
    using group_reconcile_bad_size_witness by blast
  note facts = failing_taken_facts
  note retry = retry_delays [OF failing_taken_reachable facts(1), of w' zero_result "Some ErrFormatWrong" "()" 0]
  show ?thesis
    using retry run
    by (simp add: facts failing_finished_def [symmetric] free_tokens_def Let_def Millisecond_def Second_def)
qed

text \<open>
  C19: The limiter keeps failures only of requests that are still to be dealt with: they are in
  the queue, in the channel, waiting or being reconciled. So its table does not grow with the
  owners that have come and gone.
\<close>

theorem failures_forgotten:
  assumes "(default_step reserve rec env reqs)\<^sup>*\<^sup>* (default_start w b) c" "failure_count c r \<noteq> 0"
  shows "r \<in> wq_dirty (tc_work c) \<or> r \<in> wf_data ` set (dq_channel (tc_delaying c)) \<or>
    r \<in> wf_data ` set (dq_waiting (tc_delaying c)) \<or> tc_current c = Some r"
  using default_reachable [OF assms(1)] assms(2)
  by (auto simp: timed_inv_def timed_outstanding_def delayed_items_def)

theorem failures_forgotten_witness:
  "failure_count failing_finished sample_name = 1 \<and>
   sample_name \<in> wf_data ` set (dq_channel (tc_delaying failing_finished)) \<union>
     wf_data ` set (dq_waiting (tc_delaying failing_finished)) \<union> wq_dirty (tc_work failing_finished) \<union>
     set_option (tc_current failing_finished)"
  using failures_forgotten [OF failing_finished_reachable, of sample_name] failing_finished_facts(3) by auto

end
