(* ===== verification/Spec2Isabelle.thy ===== *)
theory Spec2Isabelle
  imports Resource_Properties Api_Properties Cached_Properties Copy_Properties
    Manifest_Properties Valid_Children Retry_Properties
begin

section \<open>The Atomix operator\<close>

text \<open>
  A model of the Kubernetes operator for Atomix (Go, package paths below are relative to the
  repository) and what it guarantees.

  \<^bold>\<open>The program.\<close> \<^verbatim>\<open>cmd/manager/main.go\<close> starts a manager with three controllers, one for each
  custom resource: \<^verbatim>\<open>AtomixCluster\<close>, \<^verbatim>\<open>PartitionGroup\<close> and \<^verbatim>\<open>AtomixBenchmark\<close>
  (\<^verbatim>\<open>pkg/apis/agent/v1alpha1\<close>). Watches turn events on these objects and on the objects they own
  into requests (a namespace and a name), a queue holds the requests, and a worker hands them to
  the \<^verbatim>\<open>Reconcile\<close> method of the controller (\<^verbatim>\<open>pkg/controller/*/reconciler.go\<close>). A run reads the
  custom resource, fills in defaults, and for each of its children (config maps, a disruption
  budget, a stateful set or pod, a service, built by \<^verbatim>\<open>pkg/controller/util\<close>) asks the client
  whether it exists and creates it when it does not.

  \<^bold>\<open>Theories and the code they model\<close>, in the order of the imports:
  \<^item> \<open>Prelude\<close>: 32-bit and 64-bit integers as words, Go's truncated division,
    \<^verbatim>\<open>fmt.Sprintf\<close> as far as it is used, early-return chains (\<open>run_steps\<close>), shared facts.
  \<^item> \<open>Go_Errors\<close>, \<open>Quantity\<close>, \<open>Kube_Types\<close>, \<open>Objects\<close>, \<open>Registration\<close>, \<open>Ownership\<close>: the
    vendored API machinery that the operator calls. API errors; \<^verbatim>\<open>resource.ParseQuantity\<close> with its 64-bit fast path
    and its arbitrary-precision path; the Kubernetes objects as records with the fields the
    operator sets; types, kinds and the scheme with its panics; \<^verbatim>\<open>register.go\<close>, the \<^verbatim>\<open>init\<close> functions and
    \<^verbatim>\<open>apis.AddToScheme\<close> over the vendored builder, which also registers the types of \<^verbatim>\<open>metav1\<close>;
    \<^verbatim>\<open>SetControllerReference\<close>.
  \<^item> \<open>Regexp\<close>, \<open>Validation\<close>: regular expressions with their languages and a matcher by
    derivatives; the validators of names, labels and metadata that an API server applies, with the
    expressions of \<^verbatim>\<open>pkg/util/validation\<close>.
  \<^item> \<open>V1alpha1\<close>, \<open>Defaults\<close>: \<^verbatim>\<open>cluster.go\<close>, \<^verbatim>\<open>partitiongroup.go\<close>, \<^verbatim>\<open>benchmark.go\<close> and
    \<^verbatim>\<open>defaults.go\<close>, field by field.
  \<^item> \<open>Go_Heap\<close>, \<open>Heap_Types\<close>, \<open>Deep_Copy\<close>, \<open>Heap_Defaults\<close>: \<^verbatim>\<open>zz_generated.deepcopy.go\<close> and
    \<^verbatim>\<open>defaults.go\<close> again, over memory with pointers: cells, the methods as they allocate and
    write, and the value that an object in memory has in terms of the records of \<open>V1alpha1\<close>.
  \<^item> \<open>Json_Decode\<close>, \<open>Manifests\<close>: the vendored json-iterator as far as it reads the custom
    resources, and the fields of the structs with their tags.
  \<^item> \<open>Json_Encode\<close>, \<open>Manifest_Encode\<close>: \<^verbatim>\<open>json.Marshal\<close> of the standard library on the same fields,
    and the copies of all structs by way of JSON.
  \<^item> \<open>Resources\<close>, \<open>Cluster_Resources\<close>, \<open>Group_Resources\<close>, \<open>Benchmark_Resources\<close>: the four files
    of \<^verbatim>\<open>pkg/controller/util\<close>, one definition for each function, with the text of the generated
    scripts and configurations.
  \<^item> \<open>Client\<close>, \<open>Tracker\<close>, \<open>Fake_Update\<close>, \<open>Split_Client\<close>: the client interface and two clients.
    The fake client and its object tracker; the delegating client of the manager, which reads
    from caches that lag behind and writes to an API server.
  \<^item> \<open>Plans\<close>, \<open>Reconciling\<close>: what a run is meant to do, as a list of children (\<open>item\<close>s) to
    ensure, and the proof once and for all that a method which carries out such a plan is safe,
    complete, idempotent and restores what was deleted.
  \<^item> \<open>Cluster_Reconciler\<close>, \<open>Group_Reconciler\<close>, \<open>Benchmark_Reconciler\<close>: every method of the three
    \<^verbatim>\<open>reconciler.go\<close>, written as in the source, and the refinement of the plan by each.
  \<^item> \<open>Workqueue\<close>, \<open>Watches\<close>, \<open>Controller\<close>: the queue with its dirty and processing sets, the
    event handlers with the six watches of the three \<^verbatim>\<open>Add\<close> functions, the worker as a
    function (\<open>processNextWorkItem\<close>) and as a step relation (\<open>ctl_step\<close>) in which events, due
    retries and foreign changes come between taking a request and finishing it.
  \<^item> \<open>Rate_Limiter\<close>, \<open>Delaying_Queue\<close>: the limiter of the controllers, which is the maximum of
    exponential delays and a token bucket, and the queue with its channel, waiting loop and
    clock; the controller on top of them (\<open>timed_step\<close>) and its refinement of \<open>ctl_step\<close>.
  \<^item> \<open>Child_Keys\<close>, \<open>Operator_System\<close>, \<open>Operator_Progress\<close>, \<open>Operator_Rest\<close>: the three controllers
    together, over one store, with the informers' notifications on their way between them
    (\<open>sys_step\<close>); an invariant of the composition, and the measure (\<open>effort\<close>) by which it comes to rest.
  \<^item> \<open>Lagging_Client\<close>, \<open>Cached_System\<close>, \<open>Cached_Progress\<close>, \<open>Cached_Rest\<close>: the same over the client
    that the manager gives the reconcilers. Every object has versions on their way to the cache; an
    informer takes one, updates its index (\<open>update_index\<close>) and notifies the controllers
    (\<open>cached_step\<close>), so that runs read a cache that lags behind; invariant and measure once more.
  \<^item> \<open>Operator\<close>: \<^verbatim>\<open>main\<close> and \<^verbatim>\<open>pkg/controller/manager.go\<close>; the calls into the SDK are
    parameters that may fail.
  \<^item> \<open>Children\<close>, \<open>Reconcile_Facts\<close>: the children by their keys, the interpretations for both
    clients, sample objects. \<open>Valid_Children\<close>: which children a server accepts.
    \<open>Reconcile_Properties\<close>, \<open>Resource_Properties\<close>, \<open>Api_Properties\<close>, \<open>Copy_Properties\<close>,
    \<open>Manifest_Properties\<close>, \<open>Valid_Children\<close>, \<open>Operation_Properties\<close>, \<open>Retry_Properties\<close>,
    \<open>Operator_Rest\<close>, \<open>Cached_Properties\<close> and this theory: the properties C1 to C40.

  \<^bold>\<open>Interfaces.\<close> \<open>api_client\<close> is what every client promises a reconciler: reading changes no
  object, creation adds the given object under its own key or fails and changes nothing.
  \<open>sound_client\<close> adds that what it finds does exist, \<open>reliable_client\<close> that it finds all that
  exists and that no operation fails without a reason. The fake client is reliable; the manager's
  client (\<open>split_client\<close>) over any \<open>api_server\<close> is only sound, and only while no cache holds what
  is gone; \<open>lagging_client\<close> is what it promises always, with the content of the caches beside that of
  the server (\<open>keyed_server\<close>, the server that keeps every object under its key, is all it needs).
  \<open>planned_reconciler\<close>, \<open>sound_reconciler\<close> and \<open>reliable_reconciler\<close> say that a method carries
  out a plan over such a client; all three reconcilers are interpreted over both. \<open>item_queue\<close> is the
  contract of the work queue, \<open>retry_limiter\<close> that of a rate limiter, and \<open>retrying_controller\<close> what
  a controller with such a limiter does; \<open>heap_value\<close>, \<open>deep_copier\<close> and \<open>cached_object\<close> are those of
  types with references, of their copies, and of objects that are read from a cache; \<open>json_copy\<close> is
  that of an encoder and a decoder of one type.

  \<^bold>\<open>What is shown.\<close> A run converges to exactly the planned children, owned by
  the resource, and never changes or removes anything, whatever the client answers and wherever it
  stops (C1 to C6, C9, C11, C33 to C35); the children are valid objects exactly when the owner's
  name fits (C7), and with other names, which Kubernetes accepts for the owner, it never gets ready
  (C8); defaulting fills the zero fields and nothing else (C13); names, labels, selectors, mounts and
  generated files agree with each other (C15 to C18, C20 to C22); parsing of quantities, registration and ownership behave as the rest
  relies on (C23 to C25); no request is lost, duplicated or run twice at a time, through every
  interleaving, and the queue drains (C26 to C29, \<open>queue_drains\<close>), also with clock, delays and rate
  limiter (C10), which waits twice as long after each failure up to 1000 s (C12) and keeps no counts
  of what is settled (C19); the three controllers together
  forget no resource although they read from caches that lag behind, as long as others neither delete
  a child where no watch sees it nor recreate a resource over stale children (C32); under that condition, or after
  a resynchronisation, they come to rest with every resource complete or due for a retry (C39), and
  complete if it can be built at all when reads are exact (C36);
  \<^verbatim>\<open>main\<close> ends at its first failure, or by the panic of the registration (C30); the fake client implements a
  finite map (C37), and its copies of the custom resources by way of JSON are exact if metadata,
  quantities and floats are read as they were written (C31); the
  reconcilers, which write into what they read, do not touch the cache, because deep copies are deep
  (C14, C40). Some properties state what the code does although it cannot be meant: the workers of a
  benchmark share the names of the coordinator (C9, \<open>benchmark_worker_service\<close>), the script meant for
  them names the wrong service (C20), and those of two benchmarks of a cluster claim each other's pods (C21),
  budgets have no selector (C16), the anti-affinity matches no pod (C22), changes of a specification
  do not propagate (C33), a group named like a cluster is ignored (C35), the error of the leader
  election is dropped (C30), groups with a \<^verbatim>\<open>log\<close> section never work because
  of a typing error in a tag (C38), and most children are not watched (C26), so that only the
  resynchronisation of the informers, every ten hours, brings them back (C36).

  \<^bold>\<open>Bounds.\<close> \<^verbatim>\<open>int32\<close> and \<^verbatim>\<open>int\<close> are 32-bit and 64-bit words everywhere, so
  C16 and the number of partitions (\<open>SetDefaults_partitions\<close>) include signs and wrap-around.
  Recursion is structural throughout; \<open>work n\<close> is \<open>n\<close> turns of the worker, and \<open>queue_drains\<close> shows
  that the length of the queue is enough to empty it. C36 bounds the steps of the whole operator by
  \<open>effort\<close>, a number determined by the state: one step for each event under way and two for each
  request of it or in a queue, and nine for each child that may still be created. C39 bounds them over
  the caches by \<open>cached_effort\<close>: each version on its way costs one step more, a child ten. Durations are integers in nanoseconds, and the
  counts of failures natural numbers (\<open>Rate_Limiter\<close> says why they stay in range). A blocking \<^verbatim>\<open>Get\<close> on an empty queue is the value \<open>None\<close>.

  \<^bold>\<open>Parameters.\<close> The API server behind the manager's client, the interleaving of events, foreign
  changes to the store, the token bucket (\<open>reserve\<close>), which kind of name a server wants for which
  kind of object (\<open>name_rules\<close>), and the SDK calls in \<^verbatim>\<open>main\<close> are arguments of the definitions, with
  laws in locales where something relies on them. The UIDs that a server assigns are abstracted
  by \<open>abs_store\<close>. In \<open>Operator_System\<close> the store is what the manager watches (all of its namespace,
  or of all namespaces), a run happens at the step that finishes it, and the client reads what is
  stored. In \<open>Cached_System\<close> it reads the caches, as they are at that step; what others do there
  may depend on the whole state (\<open>foreign\<close>), because C32 asks them not to create a resource anew
  as long as a cache holds children of a deleted one of the same name: a run would take these for
  the new one's, and the deletion on its way asks for the owner of the old only if a watch sees it.

  \<^bold>\<open>Not modelled.\<close> Logging, command-line flags and the printing of versions have no effect on
  the rest; \<^verbatim>\<open>version/version.go\<close> is a constant that is only printed. Fields of vendored structs that
  the operator neither sets nor reads are left out, as are watches of the fake client, lists, the
  REST transport, how informers list and watch (they notify of every change, in any order), the
  pause of a worker after a failed run (time passes between any two steps), and the syntax of JSON.
  Of the scheme, what conversion, defaulting and the priority of versions use is left out, with the
  part of \<^verbatim>\<open>metav1.AddToGroupVersion\<close> that registers such functions. \<^verbatim>\<open>ObjectMeta\<close> and \<^verbatim>\<open>float32\<close>
  in JSON and the canonical text of quantities are parameters.
\<close>

section \<open>The life of a resource\<close>

text \<open>
  C33: Existing children are never updated. When something is stored under each of the child
  keys of a resource, a run succeeds and changes nothing, whatever the specification of the
  resource says by now and whatever it was when the children were created: a new size, image
  version or storage does not reach the cluster, group or benchmark that runs.
\<close>

theorem existing_children_kept:
  assumes "reliable_client cl objs ok" "ok w" "proper_name nn"
    and "(t, rec) \<in> set (reconcilers \<lparr>r_client = cl, r_scheme = s\<rparr>)"
    and "objs w (t, nn) = Some ob" "\<forall>k\<in>set (child_keys t nn). objs w k \<noteq> None"
  shows "\<exists>w'. rec nn w = (w', zero_result, None) \<and> objs w' = objs w"
proof -
  obtain mk plan_of where rec: "reliable_reconciler cl objs ok t mk plan_of rec"
    and keys: "\<And>ob nn. key_of ob = (t, nn) \<Longrightarrow> plan_keys (plan_of ob) = set (child_keys t nn)"
    using reconcilers_reliable [OF assms(1,4)] by blast
  have "key_of ob = (t, nn)" by (rule reliable_client.stored_key [OF assms(1-3,5)])
  with assms(6) keys have "\<forall>k\<in>plan_keys (plan_of ob). objs w k \<noteq> None" by simp
  with reliable_reconciler.reconcile_settled [OF rec assms(2,3,5)] show ?thesis by blast
qed

text \<open>The sample cluster after a successful run.\<close>

lemma sample_cluster_run_ends:
  obtains w1 where "sample_cluster_run sample_name (world_with (AtomixClusterO (sample_cluster []))) =
      (w1, zero_result, None)"
    "fake_ok w1" "\<forall>k\<in>set (child_keys AtomixClusterT sample_name). fake_objs w1 k \<noteq> None"
    "fake_objs w1 (AtomixClusterT, sample_name) = Some (AtomixClusterO (sample_cluster []))"
proof -
  let ?w = "world_with (AtomixClusterO (sample_cluster []))"
  have stored: "fake_objs ?w (AtomixClusterT, sample_name) = Some (AtomixClusterO (sample_cluster []))"
    by (simp add: cluster_world)
  obtain sset where "NewManagementStatefulSet (SetDefaults_Cluster (sample_cluster [])) = Inr sset"
    using sample_cluster_set by blast
  then obtain w1 where run: "sample_cluster_run sample_name ?w = (w1, zero_result, None)"
    using fake_cluster.reconcile_refines [OF cluster_world(1) proper_sample stored, of operator_scheme]
    by (auto simp: cluster_items_built [OF operator_scheme_ready] converge_owned)
  note after = run_keeps_and_completes [OF fake.reliable_client_axioms cluster_world(1) proper_sample
      sample_cluster_member stored run]
  show thesis by (rule that [OF run after(1,3) map_leD [OF after(2) stored]])
qed

theorem existing_children_kept_witness:
  "\<exists>w1 w2. sample_cluster_run sample_name (world_with (AtomixClusterO (sample_cluster []))) = (w1, zero_result, None) \<and>
    sample_cluster_run sample_name (fst (fake_Update w1 (AtomixClusterO (sample_cluster ''8Gi'')))) =
      (w2, zero_result, None) \<and>
    fake_objs w2 = (fake_objs w1)((AtomixClusterT, sample_name) \<mapsto> AtomixClusterO (sample_cluster ''8Gi''))"
proof -
  obtain w1 where w1: "sample_cluster_run sample_name (world_with (AtomixClusterO (sample_cluster []))) =
      (w1, zero_result, None)"
    "fake_ok w1" "\<forall>k\<in>set (child_keys AtomixClusterT sample_name). fake_objs w1 k \<noteq> None"
    "fake_objs w1 (AtomixClusterT, sample_name) = Some (AtomixClusterO (sample_cluster []))"
    by (rule sample_cluster_run_ends)
  let ?ob = "AtomixClusterO (sample_cluster ''8Gi'')"
  let ?v = "fst (fake_Update w1 ?ob)"
  have key: "key_of ?ob = (AtomixClusterT, sample_name)" by (simp add: key_of_def)
  have v: "fake_ok ?v" "fake_objs ?v = (fake_objs w1)((AtomixClusterT, sample_name) \<mapsto> ?ob)"
    using fake_Update_effect(2) [OF w1(2), of ?ob] w1(4) by (simp_all add: key)
  have "fake_objs ?v (AtomixClusterT, sample_name) = Some ?ob"
    "\<forall>k\<in>set (child_keys AtomixClusterT sample_name). fake_objs ?v k \<noteq> None"
    unfolding v(2) using w1(3) by simp_all
  from existing_children_kept [of fake_client fake_objs fake_ok ?v, OF fake.reliable_client_axioms v(1)
      proper_sample sample_cluster_member this]
  show ?thesis using w1(1) v(2) by auto
qed

text \<open>
  C34: Deleted children come back. When children that a successful run has created, any number
  of them, are deleted later, the next run creates them again as they were, up to the UIDs the
  server assigns, and touches nothing else.
\<close>

theorem deleted_children_restored:
  assumes "reliable_client cl objs ok" "ok w" "proper_name nn"
    and "(t, rec) \<in> set (reconcilers \<lparr>r_client = cl, r_scheme = s\<rparr>)"
    and "objs w (t, nn) = Some ob" "rec nn w = (w1, res, None)"
    and "ok v" "objs v = objs w1 |` (- D)" "D \<inter> dom (objs w) = {}"
  shows "\<exists>v'. rec nn v = (v', zero_result, None) \<and> abs_store (objs v') = abs_store (objs w1)"
proof -
  obtain mk plan_of where rec: "reliable_reconciler cl objs ok t mk plan_of rec"
    by (rule reconcilers_reliable [OF assms(1,4)])
  from reliable_reconciler.reconcile_restores [OF rec assms(2,3,5-9)]
  show ?thesis by (elim exE conjE) (intro exI conjI)
qed

theorem deleted_children_restored_witness:
  "\<exists>w1 v v'. sample_cluster_run sample_name (world_with (AtomixClusterO (sample_cluster []))) = (w1, zero_result, None) \<and>
    fake_objs v = (fake_objs w1)((StatefulSetT, sample_name) := None) \<and>
    sample_cluster_run sample_name v = (v', zero_result, None) \<and>
    fake_objs v' (StatefulSetT, sample_name) \<noteq> None \<and>
    abs_store (fake_objs v') = abs_store (fake_objs w1)"
proof -
  let ?w = "world_with (AtomixClusterO (sample_cluster []))" and ?k = "(StatefulSetT, sample_name)"
  obtain w1 where w1: "sample_cluster_run sample_name ?w = (w1, zero_result, None)"
    "fake_ok w1" "\<forall>k\<in>set (child_keys AtomixClusterT sample_name). fake_objs w1 k \<noteq> None"
    by (rule sample_cluster_run_ends)
  have member: "?k \<in> set (child_keys AtomixClusterT sample_name)"
    by (simp add: child_keys_def sample_name_def)
  with w1(3) obtain x where x: "fake_objs w1 ?k = Some x" by blast
  have key: "key_of x = ?k" by (rule fake.stored_key [OF w1(2) proper_sample x])
  let ?v = "fst (fake_Delete w1 x)"
  have v: "fake_ok ?v" "fake_objs ?v = (fake_objs w1)(?k := None)"
    using fake_Delete_effect(2) [OF w1(2), of x] x by (simp_all add: key)
  have restricted: "fake_objs ?v = fake_objs w1 |` (- {?k})"
    unfolding v(2) by (auto simp: restrict_map_def fun_eq_iff)
  have stored: "fake_objs ?w (AtomixClusterT, sample_name) = Some (AtomixClusterO (sample_cluster []))"
    and new: "{?k} \<inter> dom (fake_objs ?w) = {}"
    by (simp_all add: cluster_world)
  obtain v' where v': "sample_cluster_run sample_name ?v = (v', zero_result, None)"
    "abs_store (fake_objs v') = abs_store (fake_objs w1)"
    using deleted_children_restored [OF fake.reliable_client_axioms cluster_world(1) proper_sample
        sample_cluster_member stored w1(1) v(1) restricted new] by blast
  then have "fake_objs v' ?k \<noteq> None" using x by (metis abs_store_None option.distinct(1))
  with w1(1) v(2) v' show ?thesis by blast
qed

subsection \<open>A cluster and a group of the same name\<close>

text \<open>
  C35: A group with the name and namespace of a cluster is never set up. Its five children
  would have the names of the cluster's, so once the cluster has been reconciled the group's
  run succeeds without creating anything, whatever its specification says, even if it names no
  protocol; no error tells the user.
\<close>

theorem group_shadowed_by_cluster:
  assumes "reliable_client cl objs ok" "ok w" "proper_name nn"
    and "objs w (AtomixClusterT, nn) = Some c" "objs w (PartitionGroupT, nn) = Some g"
    and "cluster_Reconcile \<lparr>r_client = cl, r_scheme = s\<rparr> nn w = (w1, res, None)"
  shows "\<exists>w2. group_Reconcile \<lparr>r_client = cl, r_scheme = s\<rparr> nn w1 = (w2, zero_result, None) \<and>
    objs w2 = objs w1"
proof -
  let ?crec = "cluster_Reconcile \<lparr>r_client = cl, r_scheme = s\<rparr>"
    and ?grec = "group_Reconcile \<lparr>r_client = cl, r_scheme = s\<rparr>"
  have members: "(AtomixClusterT, ?crec) \<in> set (reconcilers \<lparr>r_client = cl, r_scheme = s\<rparr>)"
    "(PartitionGroupT, ?grec) \<in> set (reconcilers \<lparr>r_client = cl, r_scheme = s\<rparr>)"
    by (simp_all add: reconcilers_def)
  note after = run_keeps_and_completes [OF assms(1-3) members(1) assms(4,6)]
  have stored: "objs w1 (PartitionGroupT, nn) = Some g" by (rule map_leD [OF after(2) assms(5)])
  obtain mk plan_of where rec: "reliable_reconciler cl objs ok PartitionGroupT mk plan_of ?grec"
    and keys: "\<And>ob nn. key_of ob = (PartitionGroupT, nn) \<Longrightarrow> plan_keys (plan_of ob) = set (child_keys PartitionGroupT nn)"
    using reconcilers_reliable [OF assms(1) members(2)] by blast
  have "key_of g = (PartitionGroupT, nn)"
    by (rule reliable_client.stored_key [OF assms(1) after(1) assms(3) stored])
  moreover have "set (child_keys PartitionGroupT nn) = set (child_keys AtomixClusterT nn)"
    by (simp add: child_keys_def)
  ultimately have "\<forall>k\<in>plan_keys (plan_of g). objs w1 k \<noteq> None" using keys after(3) by simp
  with reliable_reconciler.reconcile_settled [OF rec after(1) assms(3) stored] show ?thesis by blast
qed

theorem group_shadowed_by_cluster_witness:
  "\<exists>w w1 w2. fake_objs w (AtomixClusterT, sample_name) = Some (AtomixClusterO (sample_cluster [])) \<and>
    fake_objs w (PartitionGroupT, sample_name) = Some (PartitionGroupO (sample_group None)) \<and>
    sample_cluster_run sample_name w = (w1, zero_result, None) \<and>
    group_Reconcile \<lparr>r_client = fake_client, r_scheme = operator_scheme\<rparr> sample_name w1 = (w2, zero_result, None) \<and>
    fake_objs w2 = fake_objs w1"
proof -
  let ?g = "PartitionGroupO (sample_group None)"
  let ?w = "fst (fake_Create (world_with (AtomixClusterO (sample_cluster []))) ?g)"
  have key: "key_of ?g = (PartitionGroupT, sample_name)" by (simp add: key_of_def)
  have w: "fake_ok ?w"
    "fake_objs ?w = [(AtomixClusterT, sample_name) \<mapsto> AtomixClusterO (sample_cluster []),
       (PartitionGroupT, sample_name) \<mapsto> ?g]"
    using fake_Create_effect(2,3) [OF cluster_world(1), of ?g] by (simp_all add: key cluster_world)
  have stored: "fake_objs ?w (AtomixClusterT, sample_name) = Some (AtomixClusterO (sample_cluster []))"
    "fake_objs ?w (PartitionGroupT, sample_name) = Some ?g" unfolding w(2) by simp_all
  obtain sset where "NewManagementStatefulSet (SetDefaults_Cluster (sample_cluster [])) = Inr sset"
    using sample_cluster_set by blast
  then obtain w1 where run: "sample_cluster_run sample_name ?w = (w1, zero_result, None)"
    using fake_cluster.reconcile_refines [OF w(1) proper_sample stored(1), of operator_scheme]
    by (auto simp: cluster_items_built [OF operator_scheme_ready] converge_owned)
  from group_shadowed_by_cluster [OF fake.reliable_client_axioms w(1) proper_sample stored run]
  show ?thesis using stored run by blast
qed

subsection \<open>From the event to the children and back\<close>

lemma work_one:
  assumes "rec r w = (w', zero_result, None)"
  shows "work 1 rec ((initial_controller w)\<lparr>ct_queue := wq_Add r wq_New\<rparr>) = initial_controller w'"
  using assms
  by (simp add: initial_controller_def wq_Add_def wq_New_def processNextWorkItem_def wq_Get_def
      finish_item_def wq_Done_def requeues_def zero_result_def Let_def)

lemma deliver_event_one:
  "routed s ctl t ev = [r] \<Longrightarrow>
   deliver_event s ctl t ev (initial_controller w) = (initial_controller w)\<lparr>ct_queue := wq_Add r wq_New\<rparr>"
  by (simp add: deliver_event_def initial_controller_def)

lemma deliver_event_none:
  "routed s ctl t ev = [] \<Longrightarrow> deliver_event s ctl t ev c = c"
  by (simp add: deliver_event_def)

text \<open>Events on a cluster and on its stateful set ask for the cluster; others of its children for nothing.\<close>

lemma cluster_routing:
  assumes "scheme_ready s" "meta_name m = nn"
  shows "routed s ''atomixcluster-controller'' AtomixClusterT (CreateEvent m) = [nn]"
    and "om_Namespace (meta_of ob) = nn_Namespace nn \<Longrightarrow>
      routed s ''atomixcluster-controller'' StatefulSetT
        (DeleteEvent (meta_of (with_uid u (owned_by cluster_gvk m ob)))) = [nn]"
    and "ty \<notin> {AtomixClusterT, StatefulSetT} \<Longrightarrow> routed s ''atomixcluster-controller'' ty ev = []"
proof -
  have member: "(''atomixcluster-controller'', AtomixClusterT, StatefulSetT) \<in> set operator_controllers"
    by (simp add: operator_controllers_def)
  have nn: "nn = NamespacedName (om_Namespace m) (om_Name m)" using assms(2) by (simp add: meta_name_def)
  show "routed s ''atomixcluster-controller'' AtomixClusterT (CreateEvent m) = [nn]"
    by (simp add: routed_simps [OF member] object_requests_def nn)
  show "routed s ''atomixcluster-controller'' ty ev = []" if "ty \<notin> {AtomixClusterT, StatefulSetT}"
    using that by (simp add: routed_simps [OF member])
  show "routed s ''atomixcluster-controller'' StatefulSetT
      (DeleteEvent (meta_of (with_uid u (owned_by cluster_gvk m ob)))) = [nn]"
    if "om_Namespace (meta_of ob) = nn_Namespace nn"
    using that object_requests_owned [OF assms(1), of AtomixClusterT AtomixClusterT u m ob]
    by (simp add: routed_simps [OF member] nn)
qed

text \<open>
  The life of a cluster through events, queue, worker and store, step by step. When a cluster is
  created, the event brings the controller to work, and after one turn its queue is empty and the
  five children exist. When the stateful set is deleted later, the event on it brings the controller
  to work again and one turn restores it. When instead another child is deleted, the event goes
  nowhere: the controller has nothing to do, and the child stays away until the informers
  resynchronise (C36).
\<close>

lemma cluster_life:
  assumes "reliable_client cl objs ok" "ok w" "proper_name nn" "scheme_ready s"
    and "objs w (AtomixClusterT, nn) = Some (AtomixClusterO c)"
    and "NewManagementStatefulSet (SetDefaults_Cluster c) = Inr sset"
    and "objs w (StatefulSetT, nn) = None"
    and "ctl = ''atomixcluster-controller''"
    and "rec = cluster_Reconcile \<lparr>r_client = cl, r_scheme = s\<rparr>"
  shows "\<exists>w1. work 1 rec (deliver_event s ctl AtomixClusterT (CreateEvent (ac_Meta c)) (initial_controller w)) =
      initial_controller w1 \<and>
    abs_store (objs w1) =
      owned_store cluster_gvk (ac_Meta c) (cluster_children (SetDefaults_Cluster c) sset) ++ abs_store (objs w) \<and>
    (\<forall>v u. ok v \<and> objs v = (objs w1)((StatefulSetT, nn) := None) \<longrightarrow>
       (\<exists>v'. work 1 rec (deliver_event s ctl StatefulSetT
            (DeleteEvent (meta_of (with_uid u (owned_by cluster_gvk (ac_Meta c) (StatefulSetO sset)))))
            (initial_controller v)) = initial_controller v' \<and>
          abs_store (objs v') = abs_store (objs w1))) \<and>
    (\<forall>v ty ev. ok v \<and> ty \<in> {ConfigMapT, PodDisruptionBudgetT, ServiceT} \<longrightarrow>
       deliver_event s ctl ty ev (initial_controller v) = initial_controller v)"
proof -
  have name: "meta_name (ac_Meta c) = nn"
    using reliable_client.stored_key [OF assms(1-3,5)] by (simp add: key_of_def)
  note routing = cluster_routing [OF assms(4) name, folded assms(8)]
  have rec: "reliable_reconciler cl objs ok AtomixClusterT ensure (cluster_plan s) rec"
    unfolding assms(9) using cluster_reliable [OF assms(1)] .
  obtain w1 where run: "rec nn w = (w1, zero_result, None)"
    and store: "abs_store (objs w1) =
      owned_store cluster_gvk (ac_Meta c) (cluster_children (SetDefaults_Cluster c) sset) ++ abs_store (objs w)"
    using reliable_reconciler.reconcile_refines [OF rec assms(2,3,5)]
    by (auto simp: cluster_items_built [OF assms(4,6)] converge_owned)
  have ns: "om_Namespace (meta_of (StatefulSetO sset)) = nn_Namespace nn"
    using cluster_keys(4) [OF assms(6)] name by (auto simp: key_of_def meta_name_def)
  have created: "work 1 rec (deliver_event s ctl AtomixClusterT (CreateEvent (ac_Meta c)) (initial_controller w)) =
      initial_controller w1"
    unfolding deliver_event_one [OF routing(1)] by (rule work_one [where rec = rec and r = nn, OF run])
  have healed: "\<exists>v'. work 1 rec (deliver_event s ctl StatefulSetT
        (DeleteEvent (meta_of (with_uid u (owned_by cluster_gvk (ac_Meta c) (StatefulSetO sset)))))
        (initial_controller v)) = initial_controller v' \<and>
      abs_store (objs v') = abs_store (objs w1)"
    if v: "ok v" "objs v = (objs w1)((StatefulSetT, nn) := None)" for v u
  proof -
    have "objs v = objs w1 |` (- {(StatefulSetT, nn)})"
      unfolding v(2) by (auto simp: restrict_map_def fun_eq_iff)
    moreover have "{(StatefulSetT, nn)} \<inter> dom (objs w) = {}" using assms(7) by auto
    ultimately obtain v' where v': "rec nn v = (v', zero_result, None)" "abs_store (objs v') = abs_store (objs w1)"
      using reliable_reconciler.reconcile_restores [OF rec assms(2,3,5) run v(1)] by blast
    have "work 1 rec (deliver_event s ctl StatefulSetT
        (DeleteEvent (meta_of (with_uid u (owned_by cluster_gvk (ac_Meta c) (StatefulSetO sset)))))
        (initial_controller v)) = initial_controller v'"
      unfolding deliver_event_one [OF routing(2) [OF ns]] by (rule work_one [where rec = rec and r = nn, OF v'(1)])
    with v'(2) show ?thesis by blast
  qed
  have idle: "deliver_event s ctl ty ev (initial_controller v) = initial_controller v"
    if "ok v" "ty \<in> {ConfigMapT, PodDisruptionBudgetT, ServiceT}" for v ty ev
    by (rule deliver_event_none, rule routing(3)) (use that in auto)
  show ?thesis
  proof (rule exI [of _ w1], intro conjI allI impI)
    fix v u assume "ok v \<and> objs v = (objs w1)((StatefulSetT, nn) := None)"
    then show "\<exists>v'. work 1 rec (deliver_event s ctl StatefulSetT
          (DeleteEvent (meta_of (with_uid u (owned_by cluster_gvk (ac_Meta c) (StatefulSetO sset)))))
          (initial_controller v)) = initial_controller v' \<and>
        abs_store (objs v') = abs_store (objs w1)" by (elim conjE) (rule healed)
  qed (use created store idle in simp_all)
qed

lemma cluster_life_witness:
  "\<exists>w1. work 1 sample_cluster_run (deliver_event operator_scheme ''atomixcluster-controller'' AtomixClusterT
      (CreateEvent sample_meta) (initial_controller (world_with (AtomixClusterO (sample_cluster []))))) =
    initial_controller w1"
proof -
  let ?w = "world_with (AtomixClusterO (sample_cluster []))"
  obtain sset where sset: "NewManagementStatefulSet (SetDefaults_Cluster (sample_cluster [])) = Inr sset"
    using sample_cluster_set by blast
  have stored: "fake_objs ?w (AtomixClusterT, sample_name) = Some (AtomixClusterO (sample_cluster []))"
    and none: "fake_objs ?w (StatefulSetT, sample_name) = None"
    by (simp_all add: cluster_world)
  note life = cluster_life [OF fake.reliable_client_axioms cluster_world(1) proper_sample operator_scheme_ready
      stored sset none refl refl, unfolded sample_sel]
  show ?thesis by (rule exE [OF life], elim conjE) (rule exI)
qed

end
